(* ===== verification/Prelude.thy ===== *)
theory Prelude
  imports Main "HOL-Library.Word"
begin

text \<open>
  Shared vocabulary of the development: machine integer types, the result type of C code
  that can abort or run into undefined behaviour, checked array accesses, a loop combinator,
  and the generic lemmas on lists and words that the component theories use.
\<close>

unbundle bit_operations_syntax

section \<open>Automation collections\<close>

named_theorems fifo_simps \<open>rewriting a FIFO operation into its effect on the queue contents\<close>
named_theorems reg_simps \<open>register offsets, masks and reset values\<close>
named_theorems run_simps \<open>evaluating a sequence of fallible steps\<close>

section \<open>Machine integers\<close>

type_synonym u8 = "8 word"
type_synonym u16 = "16 word"
type_synonym u32 = "32 word"
type_synonym u64 = "64 word"

text \<open>
  Counters of type \<^verbatim>\<open>uint8_t\<close> and \<^verbatim>\<open>uint32_t\<close> that take part in arithmetic are natural
  numbers with the wrap-around written out; registers are words.
\<close>

definition w8 :: "nat \<Rightarrow> nat" where
  "w8 n = n mod 2 ^ 8"

definition w32 :: "nat \<Rightarrow> nat" where
  "w32 n = n mod 2 ^ 32"

definition sub32 :: "nat \<Rightarrow> nat \<Rightarrow> nat" where
  "sub32 a b = w32 (a + 2 ^ 32 - b)"

lemma w8_small: "n < 256 \<Longrightarrow> w8 n = n"
  by (simp add: w8_def)

lemma w8_less [simp]: "w8 n < 256"
  by (simp add: w8_def)

lemma w32_small: "n < 4294967296 \<Longrightarrow> w32 n = n"
  by (simp add: w32_def)

lemma sub32_eq: "b \<le> a \<Longrightarrow> a < 4294967296 \<Longrightarrow> sub32 a b = a - b"
proof -
  assume a: "b \<le> a" "a < 4294967296"
  then have "a + 2 ^ 32 - b = (a - b) + 2 ^ 32" by simp
  then have "sub32 a b = (a - b) mod 2 ^ 32" by (simp only: sub32_def w32_def mod_add_self2)
  with a show ?thesis by simp
qed

lemma unat_ucast_up: "LENGTH('a) \<le> LENGTH('b) \<Longrightarrow> unat (ucast x :: 'b::len word) = unat x"
  for x :: "'a::len word"
proof -
  assume "LENGTH('a) \<le> LENGTH('b)"
  moreover have "unat x < 2 ^ LENGTH('a)" by (rule unsigned_less)
  ultimately have "unat x < 2 ^ LENGTH('b)"
    by (meson less_le_trans one_le_numeral power_increasing)
  then show ?thesis by (simp add: unsigned_ucast_eq take_bit_eq_mod)
qed

lemma unat_of_nat_small: "n < 2 ^ LENGTH('a) \<Longrightarrow> unat (of_nat n :: 'a::len word) = n"
  by (simp add: unat_of_nat)

section \<open>Fallible code\<close>

text \<open>
  How C code of the repository can fail to return normally: a failed \<^verbatim>\<open>assert\<close> (which aborts
  the emulator or spins forever in the firmware), a division by zero, an array access out of
  range, a null pointer dereference, an error reported through QEMU's \<^verbatim>\<open>Error **errp\<close>, with its
  message, and a loop that does not end (the firmware theories give such loops a bound that is
  large enough on well-formed states, and prove that it is).
\<close>

datatype trap = AssertFailed | DivideByZero | OutOfBounds | NullPointer | ErrorSet string | Diverges

type_synonym 'a res = "trap + 'a"

fun rbind :: "'e + 'a \<Rightarrow> ('a \<Rightarrow> 'e + 'b) \<Rightarrow> 'e + 'b" where
  "rbind (Inl e) f = Inl e"
| "rbind (Inr x) f = f x"

lemma rbind_Inr_iff: "rbind m f = Inr y \<longleftrightarrow> (\<exists>x. m = Inr x \<and> f x = Inr y)"
  by (cases m) auto

lemma rbind_Inl_iff: "rbind m f = Inl e \<longleftrightarrow> m = Inl e \<or> (\<exists>x. m = Inr x \<and> f x = Inl e)"
  by (cases m) auto

lemma rbind_assoc: "rbind (rbind m f) g = rbind m (\<lambda>x. rbind (f x) g)"
  by (cases m) auto

lemma rbind_cong [fundef_cong]:
  "m = m' \<Longrightarrow> (\<And>x. m' = Inr x \<Longrightarrow> f x = f' x) \<Longrightarrow> rbind m f = rbind m' f'"
  by (cases m') auto

definition c_assert :: "bool \<Rightarrow> unit res" where
  "c_assert b = (if b then Inr () else Inl AssertFailed)"

definition c_div :: "nat \<Rightarrow> nat \<Rightarrow> nat res" where
  "c_div a b = (if b = 0 then Inl DivideByZero else Inr (a div b))"

definition c_mod :: "nat \<Rightarrow> nat \<Rightarrow> nat res" where
  "c_mod a b = (if b = 0 then Inl DivideByZero else Inr (a mod b))"

definition array_get :: "'a list \<Rightarrow> nat \<Rightarrow> 'a res" where
  "array_get xs i = (if i < length xs then Inr (xs ! i) else Inl OutOfBounds)"

definition array_set :: "'a list \<Rightarrow> nat \<Rightarrow> 'a \<Rightarrow> 'a list res" where
  "array_set xs i v = (if i < length xs then Inr (xs[i := v]) else Inl OutOfBounds)"

text \<open>\<^verbatim>\<open>memcpy(&dst[off], src, n)\<close> and reading \<^verbatim>\<open>n\<close> elements from \<^verbatim>\<open>&src[off]\<close>.\<close>

definition mem_write :: "'a list \<Rightarrow> nat \<Rightarrow> 'a list \<Rightarrow> 'a list res" where
  "mem_write dst off src =
     (if off + length src \<le> length dst
      then Inr (take off dst @ src @ drop (off + length src) dst) else Inl OutOfBounds)"

definition mem_read :: "'a list \<Rightarrow> nat \<Rightarrow> nat \<Rightarrow> 'a list res" where
  "mem_read src off n =
     (if off + n \<le> length src then Inr (take n (drop off src)) else Inl OutOfBounds)"

lemma c_assert_simps [simp]:
  "b \<Longrightarrow> c_assert b = Inr ()"
  "\<not> b \<Longrightarrow> c_assert b = Inl AssertFailed"
  by (simp_all add: c_assert_def)

lemma c_div_simps [simp]:
  "0 < b \<Longrightarrow> c_div a b = Inr (a div b)"
  "c_div a 0 = Inl DivideByZero"
  by (simp_all add: c_div_def)

lemma c_mod_simps [simp]:
  "0 < b \<Longrightarrow> c_mod a b = Inr (a mod b)"
  "c_mod a 0 = Inl DivideByZero"
  by (simp_all add: c_mod_def)

lemma array_get_simps [simp]:
  "i < length xs \<Longrightarrow> array_get xs i = Inr (xs ! i)"
  "length xs \<le> i \<Longrightarrow> array_get xs i = Inl OutOfBounds"
  by (simp_all add: array_get_def)

lemma array_set_simps [simp]:
  "i < length xs \<Longrightarrow> array_set xs i v = Inr (xs[i := v])"
  "length xs \<le> i \<Longrightarrow> array_set xs i v = Inl OutOfBounds"
  by (simp_all add: array_set_def)

lemma mem_write_Inr:
  assumes "off + length src \<le> length dst"
  obtains r where "mem_write dst off src = Inr r" "length r = length dst"
    "\<And>k. k < length dst \<Longrightarrow>
       r ! k = (if off \<le> k \<and> k < off + length src then src ! (k - off) else dst ! k)"
proof -
  have "\<And>k. k < length dst \<Longrightarrow> (take off dst @ src @ drop (off + length src) dst) ! k =
      (if off \<le> k \<and> k < off + length src then src ! (k - off) else dst ! k)"
    using assms by (auto simp: nth_append min_def)
  with assms that show thesis by (auto simp: mem_write_def)
qed

lemma mem_read_Inr [simp]:
  "off + n \<le> length src \<Longrightarrow> mem_read src off n = Inr (take n (drop off src))"
  by (simp add: mem_read_def)

section \<open>Loops\<close>

text \<open>A \<^verbatim>\<open>for\<close> loop over a list of indices or elements whose body can fail.\<close>

fun foldE :: "('a \<Rightarrow> 's \<Rightarrow> 'e + 's) \<Rightarrow> 'a list \<Rightarrow> 's \<Rightarrow> 'e + 's" where
  "foldE f [] s = Inr s"
| "foldE f (x # xs) s = rbind (f x s) (foldE f xs)"

lemma foldE_append: "foldE f (xs @ ys) s = rbind (foldE f xs s) (foldE f ys)"
  by (induction xs arbitrary: s) (auto simp: rbind_assoc intro!: rbind_cong)

lemma foldE_invariant:
  assumes "foldE f xs s = Inr s'" and "P s"
    and "\<And>x s t. x \<in> set xs \<Longrightarrow> P s \<Longrightarrow> f x s = Inr t \<Longrightarrow> P t"
  shows "P s'"
  using assms
proof (induction xs arbitrary: s)
  case (Cons x xs)
  from Cons.prems(1) obtain t where t: "f x s = Inr t" "foldE f xs t = Inr s'"
    by (auto simp: rbind_Inr_iff)
  have "P t" using Cons.prems(2) t(1) by (rule Cons.prems(3) [rotated]) simp
  with t(2) show ?case by (rule Cons.IH) (meson Cons.prems(3) list.set_intros(2))
qed simp

section \<open>Circular indices\<close>

lemma ring_index: "h < c \<Longrightarrow> i \<le> c \<Longrightarrow> (h + i) mod c = (if h + i < c then h + i else h + i - c)"
  for h c i :: nat
  by (simp add: mod_if)

lemma ring_index_inj:
  "h < c \<Longrightarrow> i < c \<Longrightarrow> j < c \<Longrightarrow> (h + i) mod c = (h + j) mod c \<longleftrightarrow> i = j"
  for h c i j :: nat
  by (auto simp: ring_index split: if_splits)

end
