(* ===== verification/Fifo8.thy ===== *)
theory Fifo8
  imports Prelude
begin

text \<open>
  The byte FIFO of \<^verbatim>\<open>qemu/util/fifo8.c\<close>: a circular buffer on a heap block. Every
  \<^verbatim>\<open>assert\<close> of the C code is the trap \<open>AssertFailed\<close>, every access to the block is range
  checked, and the \<^verbatim>\<open>uint32_t\<close> index arithmetic wraps.

  Lemmas: each operation refines the operation on the list of queued bytes \<open>fifo_list\<close>, and
  \<open>fifo8_wf\<close> is an invariant. The interface \<open>byte_queue\<close> states what the device models rely
  on; it is interpreted on the operations of this theory.
\<close>

section \<open>State\<close>

record Fifo8 =
  fifo_data :: "u8 list"
  fifo_capacity :: nat
  fifo_head :: nat
  fifo_num :: nat

section \<open>Operations\<close>

definition fifo8_reset :: "Fifo8 \<Rightarrow> Fifo8" where
  "fifo8_reset f = f\<lparr>fifo_num := 0, fifo_head := 0\<rparr>"

text \<open>
  \<^verbatim>\<open>g_new\<close> returns an uninitialised block; its contents are the argument \<open>block\<close>.
\<close>

definition fifo8_create :: "u8 list \<Rightarrow> nat \<Rightarrow> Fifo8" where
  "fifo8_create block capacity =
     fifo8_reset \<lparr>fifo_data = block, fifo_capacity = capacity, fifo_head = 0, fifo_num = 0\<rparr>"

definition fifo8_push :: "Fifo8 \<Rightarrow> u8 \<Rightarrow> Fifo8 res" where
  "fifo8_push f d =
     rbind (c_assert (fifo_num f < fifo_capacity f)) (\<lambda>_.
     rbind (c_mod (w32 (fifo_head f + fifo_num f)) (fifo_capacity f)) (\<lambda>i.
     rbind (array_set (fifo_data f) i d) (\<lambda>dat.
     Inr (f\<lparr>fifo_data := dat, fifo_num := w32 (fifo_num f + 1)\<rparr>))))"

definition fifo8_push_all :: "Fifo8 \<Rightarrow> u8 list \<Rightarrow> nat \<Rightarrow> Fifo8 res" where
  "fifo8_push_all f src n =
     rbind (c_assert (w32 (fifo_num f + n) \<le> fifo_capacity f)) (\<lambda>_.
     rbind (c_mod (w32 (fifo_head f + fifo_num f)) (fifo_capacity f)) (\<lambda>start.
     rbind (if w32 (start + n) \<le> fifo_capacity f
            then rbind (mem_read src 0 n) (mem_write (fifo_data f) start)
            else let avail = sub32 (fifo_capacity f) start in
              rbind (mem_read src 0 avail) (\<lambda>s1.
              rbind (mem_write (fifo_data f) start s1) (\<lambda>d1.
              rbind (mem_read src avail (sub32 n avail)) (\<lambda>s2.
              mem_write d1 0 s2)))) (\<lambda>dat.
     Inr (f\<lparr>fifo_data := dat, fifo_num := w32 (fifo_num f + n)\<rparr>))))"

definition fifo8_pop :: "Fifo8 \<Rightarrow> (u8 \<times> Fifo8) res" where
  "fifo8_pop f =
     rbind (c_assert (0 < fifo_num f)) (\<lambda>_.
     rbind (array_get (fifo_data f) (fifo_head f)) (\<lambda>ret.
     rbind (c_mod (w32 (fifo_head f + 1)) (fifo_capacity f)) (\<lambda>h.
     Inr (ret, f\<lparr>fifo_head := h, fifo_num := sub32 (fifo_num f) 1\<rparr>))))"

definition fifo8_peek :: "Fifo8 \<Rightarrow> u8 res" where
  "fifo8_peek f =
     rbind (c_assert (0 < fifo_num f)) (\<lambda>_. array_get (fifo_data f) (fifo_head f))"

text \<open>
  \<open>fifo8_peekpop_bufptr\<close> returns a pointer into the block: here its offset, with the number of
  contiguous bytes (\<^verbatim>\<open>*numptr\<close>) and the FIFO afterwards.
\<close>

definition fifo8_peekpop_bufptr ::
    "Fifo8 \<Rightarrow> nat \<Rightarrow> nat \<Rightarrow> bool \<Rightarrow> (nat \<times> nat \<times> Fifo8) res" where
  "fifo8_peekpop_bufptr f max_n skip do_pop =
     rbind (c_assert (0 < max_n \<and> max_n \<le> fifo_num f)) (\<lambda>_.
     rbind (c_assert (skip \<le> fifo_num f)) (\<lambda>_.
     rbind (c_mod (w32 (fifo_head f + skip)) (fifo_capacity f)) (\<lambda>h.
     let n = min (sub32 (fifo_capacity f) h) max_n in
     if do_pop then
       rbind (c_mod (w32 (h + n)) (fifo_capacity f)) (\<lambda>h'.
       Inr (h, n, f\<lparr>fifo_head := h', fifo_num := sub32 (fifo_num f) n\<rparr>))
     else Inr (h, n, f))))"

definition fifo8_peek_bufptr :: "Fifo8 \<Rightarrow> nat \<Rightarrow> (nat \<times> nat \<times> Fifo8) res" where
  "fifo8_peek_bufptr f max_n = fifo8_peekpop_bufptr f max_n 0 False"

definition fifo8_pop_bufptr :: "Fifo8 \<Rightarrow> nat \<Rightarrow> (nat \<times> nat \<times> Fifo8) res" where
  "fifo8_pop_bufptr f max_n = fifo8_peekpop_bufptr f max_n 0 True"

definition fifo8_is_empty :: "Fifo8 \<Rightarrow> bool" where
  "fifo8_is_empty f \<longleftrightarrow> fifo_num f = 0"

definition fifo8_is_full :: "Fifo8 \<Rightarrow> bool" where
  "fifo8_is_full f \<longleftrightarrow> fifo_num f = fifo_capacity f"

definition fifo8_num_free :: "Fifo8 \<Rightarrow> nat" where
  "fifo8_num_free f = sub32 (fifo_capacity f) (fifo_num f)"

definition fifo8_num_used :: "Fifo8 \<Rightarrow> nat" where
  "fifo8_num_used f = fifo_num f"

text \<open>
  \<open>fifo8_peekpop_buf\<close> copies up to two contiguous segments; the result is the bytes stored at
  \<^verbatim>\<open>dest\<close> (their number is the C return value) and the FIFO afterwards.
\<close>

definition fifo8_peekpop_buf :: "Fifo8 \<Rightarrow> nat \<Rightarrow> bool \<Rightarrow> (u8 list \<times> Fifo8) res" where
  "fifo8_peekpop_buf f destlen do_pop =
     (if destlen = 0 then Inr ([], f) else
      rbind (fifo8_peekpop_bufptr f destlen 0 do_pop) (\<lambda>(p1, n1, f1).
      rbind (mem_read (fifo_data f1) p1 n1) (\<lambda>b1.
      let len = min (sub32 destlen n1) (fifo8_num_used f1) in
      if len \<noteq> 0 then
        rbind (fifo8_peekpop_bufptr f1 len (if do_pop then 0 else n1) do_pop) (\<lambda>(p2, n2, f2).
        rbind (mem_read (fifo_data f2) p2 n2) (\<lambda>b2. Inr (b1 @ b2, f2)))
      else Inr (b1, f1))))"

definition fifo8_pop_buf :: "Fifo8 \<Rightarrow> nat \<Rightarrow> (u8 list \<times> Fifo8) res" where
  "fifo8_pop_buf f destlen = fifo8_peekpop_buf f destlen True"

definition fifo8_peek_buf :: "Fifo8 \<Rightarrow> nat \<Rightarrow> (u8 list \<times> Fifo8) res" where
  "fifo8_peek_buf f destlen = fifo8_peekpop_buf f destlen False"

definition fifo8_drop :: "Fifo8 \<Rightarrow> nat \<Rightarrow> Fifo8 res" where
  "fifo8_drop f len =
     rbind (fifo8_pop_buf f len) (\<lambda>(bs, f').
     rbind (c_assert (sub32 len (length bs) = 0)) (\<lambda>_. Inr f'))"

section \<open>Well-formedness and the queued bytes\<close>

definition fifo8_wf :: "Fifo8 \<Rightarrow> bool" where
  "fifo8_wf f \<longleftrightarrow> length (fifo_data f) = fifo_capacity f \<and> 0 < fifo_capacity f \<and>
     fifo_capacity f < 2 ^ 31 \<and> fifo_head f < fifo_capacity f \<and> fifo_num f \<le> fifo_capacity f"

definition ring_get :: "'a list \<Rightarrow> nat \<Rightarrow> nat \<Rightarrow> 'a" where
  "ring_get xs h i = xs ! ((h + i) mod length xs)"

definition fifo_list :: "Fifo8 \<Rightarrow> u8 list" where
  "fifo_list f = map (ring_get (fifo_data f) (fifo_head f)) [0..<fifo_num f]"

lemma length_fifo_list [simp]: "length (fifo_list f) = fifo_num f"
  by (simp add: fifo_list_def)

lemma fifo_list_nth: "i < fifo_num f \<Longrightarrow>
    fifo_list f ! i = fifo_data f ! ((fifo_head f + i) mod length (fifo_data f))"
  by (simp add: fifo_list_def ring_get_def)

lemma fifo8_wf_bounds:
  assumes "fifo8_wf f"
  shows "length (fifo_data f) = fifo_capacity f" "0 < fifo_capacity f"
    "fifo_head f < fifo_capacity f" "fifo_num f \<le> fifo_capacity f"
    "fifo_capacity f < 2147483648" "fifo_head f + fifo_num f < 4294967296"
  using assms by (auto simp: fifo8_wf_def)

section \<open>Each operation refines its list counterpart\<close>

lemma fifo8_reset_refines:
  "fifo8_wf f \<Longrightarrow> fifo8_wf (fifo8_reset f) \<and> fifo_list (fifo8_reset f) = [] \<and>
     fifo_capacity (fifo8_reset f) = fifo_capacity f"
  by (simp add: fifo8_reset_def fifo8_wf_def fifo_list_def)

lemma fifo8_create_refines:
  "length block = c \<Longrightarrow> 0 < c \<Longrightarrow> c < 2 ^ 31 \<Longrightarrow>
     fifo8_wf (fifo8_create block c) \<and> fifo_list (fifo8_create block c) = []"
  by (simp add: fifo8_create_def fifo8_reset_def fifo8_wf_def fifo_list_def)

lemma fifo8_push_eq:
  assumes "fifo8_wf f" "fifo_num f < fifo_capacity f"
  shows "fifo8_push f d =
    Inr (f\<lparr>fifo_data := (fifo_data f)[(fifo_head f + fifo_num f) mod fifo_capacity f := d],
           fifo_num := fifo_num f + 1\<rparr>)"
  using assms fifo8_wf_bounds [OF assms(1)]
  by (simp add: fifo8_push_def w32_small)

lemma fifo8_push_refines:
  assumes wf: "fifo8_wf f" and room: "fifo_num f < fifo_capacity f"
  shows "\<exists>f'. fifo8_push f d = Inr f' \<and> fifo8_wf f' \<and> fifo_list f' = fifo_list f @ [d] \<and>
    fifo_capacity f' = fifo_capacity f"
proof -
  note b = fifo8_wf_bounds [OF wf]
  let ?g = "f\<lparr>fifo_data := (fifo_data f)[(fifo_head f + fifo_num f) mod fifo_capacity f := d],
           fifo_num := fifo_num f + 1\<rparr>"
  have "fifo_list ?g = fifo_list f @ [d]"
  proof (rule nth_equalityI)
    fix i assume "i < length (fifo_list ?g)"
    then have i: "i < fifo_num f \<or> i = fifo_num f" by auto
    have idx: "i < fifo_num f \<Longrightarrow>
        (fifo_head f + fifo_num f) mod fifo_capacity f \<noteq> (fifo_head f + i) mod fifo_capacity f"
      using b room by (subst ring_index_inj) auto
    from i idx show "fifo_list ?g ! i = (fifo_list f @ [d]) ! i"
      using b by (auto simp: fifo_list_nth nth_append)
  qed simp
  with wf room show ?thesis by (simp add: fifo8_push_eq) (simp add: fifo8_wf_def)
qed

lemma fifo8_push_full: "fifo8_wf f \<Longrightarrow> fifo_num f = fifo_capacity f \<Longrightarrow> fifo8_push f d = Inl AssertFailed"
  by (simp add: fifo8_push_def)

lemma fifo_list_advance:
  assumes wf: "fifo8_wf f" and n: "n \<le> fifo_num f"
  shows "fifo_list (f\<lparr>fifo_head := (fifo_head f + n) mod fifo_capacity f,
                     fifo_num := fifo_num f - n\<rparr>) = drop n (fifo_list f)"
proof (rule nth_equalityI)
  note b = fifo8_wf_bounds [OF wf]
  let ?g = "f\<lparr>fifo_head := (fifo_head f + n) mod fifo_capacity f, fifo_num := fifo_num f - n\<rparr>"
  fix i assume "i < length (fifo_list ?g)"
  then have i: "i + n < fifo_num f" by auto
  show "fifo_list ?g ! i = drop n (fifo_list f) ! i"
    using i b n by (simp add: fifo_list_nth mod_add_left_eq add.assoc)
qed simp

lemma fifo8_wf_advance:
  "fifo8_wf f \<Longrightarrow> n \<le> fifo_num f \<Longrightarrow>
   fifo8_wf (f\<lparr>fifo_head := (fifo_head f + n) mod fifo_capacity f, fifo_num := fifo_num f - n\<rparr>)"
  by (auto simp: fifo8_wf_def)

lemma fifo8_pop_refines:
  assumes wf: "fifo8_wf f" and some: "fifo_list f = x # xs"
  shows "\<exists>f'. fifo8_pop f = Inr (x, f') \<and> fifo8_wf f' \<and> fifo_list f' = xs \<and>
    fifo_capacity f' = fifo_capacity f"
proof -
  note b = fifo8_wf_bounds [OF wf]
  have n: "0 < fifo_num f" using some length_fifo_list [of f] by simp
  have x: "fifo_data f ! fifo_head f = x"
    using fifo_list_nth [OF n] b some by simp
  have "fifo8_pop f = Inr (x, f\<lparr>fifo_head := (fifo_head f + 1) mod fifo_capacity f,
                               fifo_num := fifo_num f - 1\<rparr>)"
    using b n x by (simp add: fifo8_pop_def w32_small sub32_eq)
  moreover have "fifo_list (f\<lparr>fifo_head := (fifo_head f + 1) mod fifo_capacity f,
                               fifo_num := fifo_num f - 1\<rparr>) = xs"
    using fifo_list_advance [OF wf, of 1] n some by simp
  ultimately show ?thesis using fifo8_wf_advance [OF wf, of 1] n by simp
qed

lemma fifo8_pop_empty: "fifo_list f = [] \<Longrightarrow> fifo8_pop f = Inl AssertFailed"
  using length_fifo_list [of f] by (simp add: fifo8_pop_def)

lemma fifo8_peek_refines:
  "fifo8_wf f \<Longrightarrow> fifo8_peek f = (case fifo_list f of [] \<Rightarrow> Inl AssertFailed | x # _ \<Rightarrow> Inr x)"
proof (cases "fifo_list f")
  case Nil
  then show ?thesis using length_fifo_list [of f] by (simp add: fifo8_peek_def)
next
  case (Cons x xs)
  assume wf: "fifo8_wf f"
  have n: "0 < fifo_num f" using Cons length_fifo_list [of f] by simp
  show ?thesis using fifo_list_nth [OF n] fifo8_wf_bounds [OF wf] n Cons
    by (simp add: fifo8_peek_def)
qed

lemma fifo8_counts:
  assumes "fifo8_wf f"
  shows "fifo8_num_used f = length (fifo_list f)"
    "fifo8_num_free f = fifo_capacity f - length (fifo_list f)"
    "fifo8_is_empty f \<longleftrightarrow> fifo_list f = []"
    "fifo8_is_full f \<longleftrightarrow> length (fifo_list f) = fifo_capacity f"
  using fifo8_wf_bounds [OF assms] length_fifo_list [of f]
  by (auto simp: fifo8_num_used_def fifo8_num_free_def fifo8_is_empty_def fifo8_is_full_def
      sub32_eq simp del: length_fifo_list)

subsection \<open>Block operations\<close>

lemma fifo8_push_all_data:
  assumes wf: "fifo8_wf f" and room: "fifo_num f + n \<le> fifo_capacity f" and src: "n \<le> length src"
  shows "\<exists>dat. fifo8_push_all f src n = Inr (f\<lparr>fifo_data := dat, fifo_num := fifo_num f + n\<rparr>) \<and>
    length dat = fifo_capacity f \<and>
    (\<forall>i < fifo_capacity f. dat ! ((fifo_head f + i) mod fifo_capacity f) =
       (if fifo_num f \<le> i \<and> i < fifo_num f + n then src ! (i - fifo_num f)
        else fifo_data f ! ((fifo_head f + i) mod fifo_capacity f)))"
proof -
  note b = fifo8_wf_bounds [OF wf]
  let ?c = "fifo_capacity f" and ?h = "fifo_head f" and ?k = "fifo_num f"
  let ?start = "(?h + ?k) mod ?c"
  have start: "?start = (if ?h + ?k < ?c then ?h + ?k else ?h + ?k - ?c)"
    using b by (simp add: ring_index)
  have lt: "?start < ?c" using b by simp
  have "?start + n < 4294967296" using b room lt by linarith
  then have pre: "w32 (?h + ?k) = ?h + ?k" "w32 (?k + n) = ?k + n" "w32 (?start + n) = ?start + n"
    using b room by (simp_all add: w32_small)
  show ?thesis
  proof (cases "?start + n \<le> ?c")
    case True
    then have "?start + length (take n src) \<le> length (fifo_data f)" using b src by simp
    then obtain r where r: "mem_write (fifo_data f) ?start (take n src) = Inr r"
        "length r = length (fifo_data f)"
        "\<And>k. k < length (fifo_data f) \<Longrightarrow> r ! k =
          (if ?start \<le> k \<and> k < ?start + length (take n src) then take n src ! (k - ?start)
           else fifo_data f ! k)"
      by (rule mem_write_Inr) (rule that)
    have "fifo8_push_all f src n = Inr (f\<lparr>fifo_data := r, fifo_num := ?k + n\<rparr>)"
      using True b room src pre r(1) by (simp add: fifo8_push_all_def)
    moreover have "\<forall>i < ?c. r ! ((?h + i) mod ?c) =
        (if ?k \<le> i \<and> i < ?k + n then src ! (i - ?k) else fifo_data f ! ((?h + i) mod ?c))"
    proof (intro allI impI)
      fix i assume i: "i < ?c"
      have idx: "(?h + i) mod ?c < ?c" "length (take n src) = n" using b src by auto
      have "?start \<le> (?h + i) mod ?c \<and> (?h + i) mod ?c < ?start + n \<longleftrightarrow> ?k \<le> i \<and> i < ?k + n"
        "?k \<le> i \<and> i < ?k + n \<Longrightarrow> (?h + i) mod ?c - ?start = i - ?k"
        using True start i b room by (auto simp: ring_index split: if_splits)
      then show "r ! ((?h + i) mod ?c) =
        (if ?k \<le> i \<and> i < ?k + n then src ! (i - ?k) else fifo_data f ! ((?h + i) mod ?c))"
        using r(3) [of "(?h + i) mod ?c"] idx b by auto
    qed
    ultimately show ?thesis using r(2) b by auto
  next
    case False
    let ?a = "?c - ?start"
    have "?start + ?a \<le> length (fifo_data f)" using b lt by linarith
    then have len: "?start + length (take ?a src) \<le> length (fifo_data f)" by simp
    then obtain r where r: "mem_write (fifo_data f) ?start (take ?a src) = Inr r"
        "length r = length (fifo_data f)"
        "\<And>k. k < length (fifo_data f) \<Longrightarrow> r ! k =
          (if ?start \<le> k \<and> k < ?start + length (take ?a src) then take ?a src ! (k - ?start)
           else fifo_data f ! k)"
      by (rule mem_write_Inr) (rule that)
    have "n - ?a \<le> length r" using b r(2) room by linarith
    then have "0 + length (take (n - ?a) (drop ?a src)) \<le> length r" by simp
    then obtain q where q: "mem_write r 0 (take (n - ?a) (drop ?a src)) = Inr q"
        "length q = length r"
        "\<And>k. k < length r \<Longrightarrow> q ! k =
          (if 0 \<le> k \<and> k < 0 + length (take (n - ?a) (drop ?a src))
           then take (n - ?a) (drop ?a src) ! (k - 0) else r ! k)"
      by (rule mem_write_Inr) (rule that)
    have sub: "sub32 ?c ?start = ?a" "sub32 n ?a = n - ?a"
      using b False room lt by (auto simp: sub32_eq)
    have "fifo8_push_all f src n = Inr (f\<lparr>fifo_data := q, fifo_num := ?k + n\<rparr>)"
      using False b room src pre r(1) q(1) sub by (simp add: fifo8_push_all_def)
    moreover have "\<forall>i < ?c. q ! ((?h + i) mod ?c) =
        (if ?k \<le> i \<and> i < ?k + n then src ! (i - ?k) else fifo_data f ! ((?h + i) mod ?c))"
    proof (intro allI impI)
      fix i assume i: "i < ?c"
      have low: "?h + ?k < ?c" "?start = ?h + ?k" using False start room b by (auto split: if_splits)
      have a: "?a \<le> n" "n \<le> length src" using False src lt by auto
      have "length (take ?a src) = ?a" "length (take (n - ?a) (drop ?a src)) = n - ?a"
        using a by auto
      then have qk: "q ! k = (if k < n - ?a then src ! (?a + k) else if ?start \<le> k then src ! (k - ?start)
          else fifo_data f ! k)" if "k < ?c" for k
        using q(3) [of k] r(3) [of k] r(2) b that a lt by simp
      show "q ! ((?h + i) mod ?c) =
        (if ?k \<le> i \<and> i < ?k + n then src ! (i - ?k) else fifo_data f ! ((?h + i) mod ?c))"
      proof (cases "?h + i < ?c")
        case True
        moreover have "\<not> ?h + i < n - ?a" using True low room by linarith
        moreover have "i < ?k + n" using True low False by linarith
        ultimately show ?thesis using qk [of "?h + i"] low by simp
      next
        case wrap: False
        then have "(?h + i) mod ?c = ?h + i - ?c" using i b by (simp add: ring_index)
        moreover have "?a + (?h + i - ?c) = i - ?k" using low wrap by linarith
        moreover have "?h + i - ?c < n - ?a \<longleftrightarrow> i < ?k + n" "\<not> ?start \<le> ?h + i - ?c" "?k \<le> i"
          using low wrap a i room by linarith+
        moreover have "?h + i - ?c < ?c" using i b by linarith
        ultimately show ?thesis using qk [of "?h + i - ?c"] by simp
      qed
    qed
    ultimately show ?thesis using q(2) r(2) b by auto
  qed
qed

lemma fifo8_push_all_refines:
  assumes wf: "fifo8_wf f" and room: "fifo_num f + n \<le> fifo_capacity f" and src: "n \<le> length src"
  shows "\<exists>f'. fifo8_push_all f src n = Inr f' \<and> fifo8_wf f' \<and>
    fifo_list f' = fifo_list f @ take n src \<and> fifo_capacity f' = fifo_capacity f"
proof -
  note b = fifo8_wf_bounds [OF wf]
  obtain dat where eq: "fifo8_push_all f src n = Inr (f\<lparr>fifo_data := dat, fifo_num := fifo_num f + n\<rparr>)"
    and len: "length dat = fifo_capacity f"
    and nth: "\<forall>i < fifo_capacity f. dat ! ((fifo_head f + i) mod fifo_capacity f) =
       (if fifo_num f \<le> i \<and> i < fifo_num f + n then src ! (i - fifo_num f)
        else fifo_data f ! ((fifo_head f + i) mod fifo_capacity f))"
    using fifo8_push_all_data [OF assms] by blast
  have "fifo_list (f\<lparr>fifo_data := dat, fifo_num := fifo_num f + n\<rparr>) = fifo_list f @ take n src"
    by (rule nth_equalityI) (use nth b room src len in \<open>auto simp: fifo_list_nth nth_append\<close>)
  with eq len b room show ?thesis by (auto simp: fifo8_wf_def)
qed

lemma fifo_segment:
  assumes wf: "fifo8_wf f" and n: "skip + n \<le> fifo_num f"
    and seg: "(fifo_head f + skip) mod fifo_capacity f + n \<le> fifo_capacity f"
  shows "take n (drop ((fifo_head f + skip) mod fifo_capacity f) (fifo_data f)) =
    take n (drop skip (fifo_list f))"
proof (rule nth_equalityI)
  note b = fifo8_wf_bounds [OF wf]
  show "length (take n (drop ((fifo_head f + skip) mod fifo_capacity f) (fifo_data f))) =
      length (take n (drop skip (fifo_list f)))"
    using b n seg by simp
  fix i assume "i < length (take n (drop ((fifo_head f + skip) mod fifo_capacity f) (fifo_data f)))"
  then have i: "i < n" by simp
  have "(fifo_head f + (skip + i)) mod fifo_capacity f =
      ((fifo_head f + skip) mod fifo_capacity f + i) mod fifo_capacity f"
    by (simp add: mod_add_left_eq add.assoc)
  also have "\<dots> = (fifo_head f + skip) mod fifo_capacity f + i" using i seg by simp
  finally show "take n (drop ((fifo_head f + skip) mod fifo_capacity f) (fifo_data f)) ! i =
      take n (drop skip (fifo_list f)) ! i"
    using i n seg b by (simp add: fifo_list_nth)
qed

lemma fifo8_peekpop_bufptr_eq:
  assumes wf: "fifo8_wf f" and m: "0 < m" "skip + m \<le> fifo_num f"
    and pop: "do_pop \<Longrightarrow> skip = 0"
  defines "h \<equiv> (fifo_head f + skip) mod fifo_capacity f"
  defines "n \<equiv> min (fifo_capacity f - h) m"
  shows "fifo8_peekpop_bufptr f m skip do_pop = Inr (h, n,
     if do_pop then f\<lparr>fifo_head := (fifo_head f + n) mod fifo_capacity f, fifo_num := fifo_num f - n\<rparr>
     else f)"
proof -
  note b = fifo8_wf_bounds [OF wf]
  have h: "h < fifo_capacity f" using b by (simp add: h_def)
  have "h + n \<le> fifo_capacity f" using h by (auto simp: n_def)
  moreover have "min (sub32 (fifo_capacity f) h) m = n" using h b by (simp add: sub32_eq n_def)
  moreover have "n \<le> fifo_num f" using m by (auto simp: n_def)
  moreover have "do_pop \<Longrightarrow> h = fifo_head f" using pop b by (simp add: h_def)
  moreover have "c_mod (w32 (fifo_head f + skip)) (fifo_capacity f) = Inr h"
    using b m by (simp add: w32_small h_def)
  ultimately show ?thesis using m b h
    by (cases do_pop) (simp_all add: fifo8_peekpop_bufptr_def w32_small sub32_eq Let_def)
qed

lemma fifo8_peekpop_buf_refines:
  assumes wf: "fifo8_wf f" and n: "n \<le> fifo_num f"
  shows "\<exists>f'. fifo8_peekpop_buf f n do_pop = Inr (take n (fifo_list f), f') \<and> fifo8_wf f' \<and>
    fifo_list f' = (if do_pop then drop n (fifo_list f) else fifo_list f) \<and>
    fifo_capacity f' = fifo_capacity f"
proof (cases "n = 0")
  case True
  with wf show ?thesis by (auto simp: fifo8_peekpop_buf_def)
next
  case False
  note b = fifo8_wf_bounds [OF wf]
  let ?c = "fifo_capacity f" and ?h = "fifo_head f"
  define n1 where "n1 = min (?c - ?h) n"
  define f1 where "f1 = (if do_pop then f\<lparr>fifo_head := (?h + n1) mod ?c, fifo_num := fifo_num f - n1\<rparr>
    else f)"
  have n1: "n1 \<le> n" "0 < n1" "?h + n1 \<le> ?c" using b False by (auto simp: n1_def)
  have p1: "fifo8_peekpop_bufptr f n 0 do_pop = Inr (?h, n1, f1)"
    using fifo8_peekpop_bufptr_eq [OF wf, of n 0 do_pop] False n b by (simp add: n1_def f1_def)
  have b1: "take n1 (drop ?h (fifo_data f1)) = take n1 (fifo_list f)"
    using fifo_segment [OF wf, of 0 n1] n n1 b by (simp add: f1_def)
  have wf1: "fifo8_wf f1" and l1: "fifo_list f1 = (if do_pop then drop n1 (fifo_list f) else fifo_list f)"
    using fifo8_wf_advance [OF wf, of n1] fifo_list_advance [OF wf, of n1] n n1 wf
    by (auto simp: f1_def)
  have c1: "fifo_capacity f1 = ?c" "length (fifo_data f1) = ?c" using b by (auto simp: f1_def)
  show ?thesis
  proof (cases "n1 = n")
    case True
    then have "sub32 n n1 = 0" using n b by (simp add: sub32_eq)
    then have "fifo8_peekpop_buf f n do_pop = Inr (take n (fifo_list f), f1)"
      using False p1 b1 True c1 n1 by (simp add: fifo8_peekpop_buf_def)
    with wf1 l1 c1 True show ?thesis by auto
  next
    case ne: False
    define m where "m = n - n1"
    define sk where "sk = (if do_pop then 0 else n1)"
    have wrap: "?h + n1 = ?c" using ne n1_def n1 by auto
    then have "(?h + n1) mod ?c = 0" by simp
    then have h1: "(fifo_head f1 + sk) mod ?c = 0" using b by (auto simp: f1_def sk_def)
    have used: "sk + m \<le> fifo_num f1" using n n1 by (auto simp: f1_def sk_def m_def)
    have m: "0 < m" "m \<le> ?c" using ne n1 n b by (auto simp: m_def)
    have len: "sub32 n n1 = m" "m \<le> fifo8_num_used f1" "fifo8_num_used f1 \<noteq> 0"
      using n n1 b used m(1) by (auto simp: sub32_eq m_def fifo8_num_used_def)
    define f2 where "f2 = (if do_pop then
        f1\<lparr>fifo_head := (fifo_head f1 + m) mod fifo_capacity f1, fifo_num := fifo_num f1 - m\<rparr> else f1)"
    have p2: "fifo8_peekpop_bufptr f1 m sk do_pop = Inr (0, m, f2)"
      using fifo8_peekpop_bufptr_eq [OF wf1, of m sk do_pop] m used c1
      unfolding f2_def c1 h1 by (simp add: sk_def min_def)
    have d2: "fifo_data f2 = fifo_data f1" by (simp add: f2_def)
    have b2: "take m (fifo_data f2) = take m (drop sk (fifo_list f1))"
      using fifo_segment [OF wf1, of sk m] used h1 c1 m d2 by simp
    have wf2: "fifo8_wf f2"
      and l2: "fifo_list f2 = (if do_pop then drop m (fifo_list f1) else fifo_list f1)"
      using fifo8_wf_advance [OF wf1, of m] fifo_list_advance [OF wf1, of m] used wf1
      by (auto simp: f2_def sk_def)
    have "fifo8_peekpop_buf f n do_pop =
        Inr (take n1 (fifo_list f) @ take m (drop sk (fifo_list f1)), f2)"
      using False p1 b1 c1 n1 m p2 b2 d2
      by (simp add: fifo8_peekpop_buf_def len min_absorb1 Let_def flip: sk_def)
    moreover have "take n1 (fifo_list f) @ take m (drop sk (fifo_list f1)) = take n (fifo_list f)"
      using n1 by (simp add: l1 sk_def m_def flip: take_add)
    moreover have "do_pop \<Longrightarrow> fifo_list f2 = drop n (fifo_list f)"
      using l1 l2 n1 by (simp add: m_def)
    ultimately show ?thesis using wf2 l2 l1 c1 by (auto simp: f2_def)
  qed
qed

lemma fifo8_drop_refines:
  assumes wf: "fifo8_wf f" and n: "n \<le> fifo_num f"
  shows "\<exists>f'. fifo8_drop f n = Inr f' \<and> fifo8_wf f' \<and> fifo_list f' = drop n (fifo_list f)"
proof -
  obtain f' where f': "fifo8_pop_buf f n = Inr (take n (fifo_list f), f')" "fifo8_wf f'"
      "fifo_list f' = drop n (fifo_list f)"
    using fifo8_peekpop_buf_refines [OF assms, of True] by (auto simp: fifo8_pop_buf_def)
  have "length (take n (fifo_list f)) = n" using n by simp
  with f' show ?thesis
    using n fifo8_wf_bounds [OF wf] by (simp add: fifo8_drop_def sub32_eq)
qed

section \<open>The interface the device models rely on\<close>

locale byte_queue =
  fixes push :: "'q \<Rightarrow> 'a \<Rightarrow> 'q res"
    and pop :: "'q \<Rightarrow> ('a \<times> 'q) res"
    and reset :: "'q \<Rightarrow> 'q"
    and num_used :: "'q \<Rightarrow> nat"
    and num_free :: "'q \<Rightarrow> nat"
    and is_empty :: "'q \<Rightarrow> bool"
    and is_full :: "'q \<Rightarrow> bool"
    and capacity :: "'q \<Rightarrow> nat"
    and contents :: "'q \<Rightarrow> 'a list"
    and invar :: "'q \<Rightarrow> bool"
  assumes push_room: "invar q \<Longrightarrow> length (contents q) < capacity q \<Longrightarrow>
      \<exists>q'. push q x = Inr q' \<and> invar q' \<and> contents q' = contents q @ [x] \<and> capacity q' = capacity q"
    and push_full: "invar q \<Longrightarrow> length (contents q) = capacity q \<Longrightarrow> push q x = Inl AssertFailed"
    and pop_some: "invar q \<Longrightarrow> contents q = x # xs \<Longrightarrow>
      \<exists>q'. pop q = Inr (x, q') \<and> invar q' \<and> contents q' = xs \<and> capacity q' = capacity q"
    and pop_none: "invar q \<Longrightarrow> contents q = [] \<Longrightarrow> pop q = Inl AssertFailed"
    and reset_empty: "invar q \<Longrightarrow> invar (reset q) \<and> contents (reset q) = [] \<and>
      capacity (reset q) = capacity q"
    and used_length: "invar q \<Longrightarrow> num_used q = length (contents q)"
    and free_length: "invar q \<Longrightarrow> num_free q = capacity q - length (contents q)"
    and empty_iff: "invar q \<Longrightarrow> is_empty q \<longleftrightarrow> contents q = []"
    and full_iff: "invar q \<Longrightarrow> is_full q \<longleftrightarrow> length (contents q) = capacity q"
    and bounded: "invar q \<Longrightarrow> length (contents q) \<le> capacity q"
begin

lemma push_loop:
  "invar q \<Longrightarrow> length (contents q) + length xs \<le> capacity q \<Longrightarrow>
    \<exists>q'. foldE (\<lambda>x q. push q x) xs q = Inr q' \<and> invar q' \<and> contents q' = contents q @ xs \<and>
      capacity q' = capacity q"
proof (induction xs arbitrary: q)
  case (Cons x xs)
  then obtain q1 where "push q x = Inr q1" "invar q1" "contents q1 = contents q @ [x]"
      "capacity q1 = capacity q"
    using push_room [of q x] by auto
  with Cons.IH [of q1] Cons.prems show ?case by auto
qed simp

lemma push_total:
  "invar q \<Longrightarrow> (\<exists>q'. push q x = Inr q') \<longleftrightarrow> \<not> is_full q"
  using push_room [of q x] push_full [of q x] bounded [of q] full_iff [of q] by fastforce

lemma pop_total:
  "invar q \<Longrightarrow> (\<exists>r. pop q = Inr r) \<longleftrightarrow> \<not> is_empty q"
  using pop_some [of q] pop_none [of q] empty_iff [of q] by (cases "contents q") auto

lemma pop_after_push_empty:
  assumes "invar q" "is_empty q" "0 < capacity q"
  shows "\<exists>q' q''. push q x = Inr q' \<and> pop q' = Inr (x, q'') \<and> is_empty q''"
proof -
  obtain q' where q': "push q x = Inr q'" "invar q'" "contents q' = [x]"
    using assms push_room [of q x] empty_iff [of q] by auto
  then obtain q'' where "pop q' = Inr (x, q'')" "invar q''" "contents q'' = []"
    using pop_some [of q' x "[]"] by auto
  with q' show ?thesis using empty_iff [of q''] by auto
qed

end

interpretation f8: byte_queue fifo8_push fifo8_pop fifo8_reset fifo8_num_used fifo8_num_free
  fifo8_is_empty fifo8_is_full fifo_capacity fifo_list fifo8_wf
proof (unfold_locales, goal_cases)
  case (1 q x)
  then show ?case using fifo8_push_refines by simp
next
  case (2 q x)
  then show ?case using fifo8_push_full by simp
next
  case (3 q x xs)
  then show ?case by (rule fifo8_pop_refines)
next
  case (4 q)
  then show ?case by (simp add: fifo8_pop_empty)
next
  case (5 q)
  then show ?case by (rule fifo8_reset_refines)
qed (use fifo8_counts fifo8_wf_bounds(4) in \<open>auto\<close>)

end
