(* ===== verification/Ssi_Bus.thy ===== *)
theory Ssi_Bus
  imports Prelude
begin

text \<open>
  The SPI side of the emulator: the synchronous serial bus of \<^verbatim>\<open>qemu/hw/ssi/ssi.c\<close> and the
  motor speed sensor of \<^verbatim>\<open>qemu/hw/ssi/motor_speed.c\<close> that the SoC attaches to it.

  A peripheral class is a record of functions, as the C class struct is. The type \<open>'g\<close> is the
  state of the host's C library that peripherals may use: the sensor calls \<^verbatim>\<open>rand()\<close>, whose
  state it advances. No peripheral class of the repository overrides \<^verbatim>\<open>transfer_raw\<close>, so the
  default of \<^verbatim>\<open>ssi_peripheral_class_init\<close> is the only one.

  Lemmas: a transfer reaches every selected child, the reply is the disjunction of the replies,
  and the bus keeps its children; the sensor answers \<open>CMD_GET_SPEED\<close> with a fresh value below
  255 and repeats its last value otherwise.
\<close>

section \<open>The SSI bus\<close>

datatype SSICSMode = SSI_CS_NONE | SSI_CS_LOW | SSI_CS_HIGH

record ('p, 'g) SSIPeripheralClass =
  spc_transfer :: "'p \<Rightarrow> u32 \<Rightarrow> 'g \<Rightarrow> u32 \<times> 'p \<times> 'g"
  spc_set_cs :: "('p \<Rightarrow> bool \<Rightarrow> 'p) option"
  spc_cs_polarity :: SSICSMode
  spc_realize :: "'g \<Rightarrow> 'p \<times> 'g"

record ('p, 'g) SSIPeripheral =
  ssi_spc :: "('p, 'g) SSIPeripheralClass"
  ssi_cs :: bool
  ssi_cs_index :: u8
  ssi_dev :: 'p

record ('p, 'g) SSIBus =
  bus_children :: "('p, 'g) SSIPeripheral list"
  bus_host :: 'g

definition ssi_get_cs :: "('p, 'g) SSIBus \<Rightarrow> u8 \<Rightarrow> ('p, 'g) SSIPeripheral option" where
  "ssi_get_cs bus i = find (\<lambda>kid. ssi_cs_index kid = i) (bus_children bus)"

definition ssi_bus_check_address :: "('p, 'g) SSIBus \<Rightarrow> u8 \<Rightarrow> unit res" where
  "ssi_bus_check_address bus i =
     (case ssi_get_cs bus i of
        Some _ \<Rightarrow> Inl (ErrorSet ''CS index in use'')
      | None \<Rightarrow> Inr ())"

definition ssi_cs_default :: "('p, 'g) SSIPeripheral \<Rightarrow> nat \<Rightarrow> int \<Rightarrow> ('p, 'g) SSIPeripheral res" where
  "ssi_cs_default s n level =
     (let cs = (level \<noteq> 0) in
      rbind (c_assert (n = 0)) (\<lambda>_.
      let s1 = (if ssi_cs s \<noteq> cs then
                  (case spc_set_cs (ssi_spc s) of
                     Some f \<Rightarrow> s\<lparr>ssi_dev := f (ssi_dev s) cs\<rparr>
                   | None \<Rightarrow> s)
                else s)
      in Inr (s1\<lparr>ssi_cs := cs\<rparr>)))"

definition ssi_transfer_raw_default ::
    "('p, 'g) SSIPeripheral \<Rightarrow> u32 \<Rightarrow> 'g \<Rightarrow> u32 \<times> ('p, 'g) SSIPeripheral \<times> 'g" where
  "ssi_transfer_raw_default dev val g =
     (let ssc = ssi_spc dev in
      if (ssi_cs dev \<and> spc_cs_polarity ssc = SSI_CS_HIGH) \<or>
         (\<not> ssi_cs dev \<and> spc_cs_polarity ssc = SSI_CS_LOW) \<or>
         spc_cs_polarity ssc = SSI_CS_NONE
      then (let (r, p, g') = spc_transfer ssc (ssi_dev dev) val g in (r, dev\<lparr>ssi_dev := p\<rparr>, g'))
      else (0, dev, g))"

fun ssi_transfer_loop :: "('p, 'g) SSIPeripheral list \<Rightarrow> u32 \<Rightarrow> 'g \<Rightarrow> u32 \<Rightarrow>
    u32 \<times> ('p, 'g) SSIPeripheral list \<times> 'g" where
  "ssi_transfer_loop [] val g r = (r, [], g)"
| "ssi_transfer_loop (p # ps) val g r =
     (let (x, p', g1) = ssi_transfer_raw_default p val g;
          (r', ps', g2) = ssi_transfer_loop ps val g1 (r OR x)
      in (r', p' # ps', g2))"

definition ssi_transfer :: "('p, 'g) SSIBus \<Rightarrow> u32 \<Rightarrow> u32 \<times> ('p, 'g) SSIBus" where
  "ssi_transfer bus val =
     (let (r, kids, g) = ssi_transfer_loop (bus_children bus) val (bus_host bus) 0
      in (r, \<lparr>bus_children = kids, bus_host = g\<rparr>))"

text \<open>
  Creating a peripheral: \<^verbatim>\<open>qdev_new\<close>, attachment to the bus (which runs the address check and
  inserts the child at the head of the list, \<^verbatim>\<open>bus_add_child\<close>), then the class's \<^verbatim>\<open>realize\<close>.
  The property \<^verbatim>\<open>cs\<close> keeps its default 0 and the select line starts low.
\<close>

definition ssi_create_peripheral ::
    "('p, 'g) SSIBus \<Rightarrow> ('p, 'g) SSIPeripheralClass \<Rightarrow> ('p, 'g) SSIBus res" where
  "ssi_create_peripheral bus cls =
     rbind (ssi_bus_check_address bus 0) (\<lambda>_.
     let (p, g) = spc_realize cls (bus_host bus) in
     Inr \<lparr>bus_children = \<lparr>ssi_spc = cls, ssi_cs = False, ssi_cs_index = 0, ssi_dev = p\<rparr> # bus_children bus,
          bus_host = g\<rparr>)"

definition ssi_create_bus :: "'g \<Rightarrow> ('p, 'g) SSIBus" where
  "ssi_create_bus g = \<lparr>bus_children = [], bus_host = g\<rparr>"

section \<open>The motor speed sensor\<close>

definition CMD_GET_SPEED :: u32 where
  "CMD_GET_SPEED = 0xAA"

record MotorSpeedSensor =
  last_speed :: u16
  transfer_value :: u16

text \<open>\<^verbatim>\<open>rand()\<close> is the C library's: a function from the generator's state to a
  non-negative value and the next state.\<close>

definition generate_random_speed :: "('g \<Rightarrow> nat \<times> 'g) \<Rightarrow> 'g \<Rightarrow> u16 \<times> 'g" where
  "generate_random_speed rand g = (let (n, g') = rand g in (of_nat (n mod 255), g'))"

definition motor_speed_sensor_transfer ::
    "('g \<Rightarrow> nat \<times> 'g) \<Rightarrow> MotorSpeedSensor \<Rightarrow> u32 \<Rightarrow> 'g \<Rightarrow> u32 \<times> MotorSpeedSensor \<times> 'g" where
  "motor_speed_sensor_transfer rand sensor val g =
     (if val = CMD_GET_SPEED then
        (let (v, g') = generate_random_speed rand g;
             s1 = sensor\<lparr>last_speed := v\<rparr>;
             s2 = s1\<lparr>transfer_value := last_speed s1\<rparr>
         in (ucast (transfer_value s2), s2, g'))
      else (ucast (transfer_value sensor), sensor, g))"

text \<open>\<^verbatim>\<open>srand(time(NULL))\<close> reseeds the generator: \<open>srand_time\<close> is its effect on the state.\<close>

definition motor_speed_sensor_realize :: "('g \<Rightarrow> 'g) \<Rightarrow> 'g \<Rightarrow> MotorSpeedSensor \<times> 'g" where
  "motor_speed_sensor_realize srand_time g = (\<lparr>last_speed = 0, transfer_value = 0\<rparr>, srand_time g)"

definition motor_speed_sensor_class_init ::
    "('g \<Rightarrow> nat \<times> 'g) \<Rightarrow> ('g \<Rightarrow> 'g) \<Rightarrow> (MotorSpeedSensor, 'g) SSIPeripheralClass" where
  "motor_speed_sensor_class_init rand srand_time =
     \<lparr>spc_transfer = motor_speed_sensor_transfer rand, spc_set_cs = None,
      spc_cs_polarity = SSI_CS_NONE, spc_realize = motor_speed_sensor_realize srand_time\<rparr>"

section \<open>Facts about the bus\<close>

lemma length_ssi_transfer_loop:
  "ssi_transfer_loop ps val g r = (r', ps', g') \<Longrightarrow> length ps' = length ps"
  by (induction ps arbitrary: g r r' ps' g') (auto simp: Let_def split: prod.splits)

text \<open>Every child keeps its class, its select line and its address.\<close>

lemma ssi_transfer_loop_frame:
  "ssi_transfer_loop ps val g r = (r', ps', g') \<Longrightarrow>
     map (\<lambda>p. (ssi_spc p, ssi_cs p, ssi_cs_index p)) ps' =
     map (\<lambda>p. (ssi_spc p, ssi_cs p, ssi_cs_index p)) ps"
  by (induction ps arbitrary: g r r' ps' g')
    (auto simp: ssi_transfer_raw_default_def Let_def split: prod.splits if_splits)

lemma ssi_transfer_no_children:
  "bus_children bus = [] \<Longrightarrow> ssi_transfer bus val = (0, bus)"
  by (simp add: ssi_transfer_def)

lemma ssi_transfer_one_child:
  assumes "bus_children bus = [p]" and "spc_cs_polarity (ssi_spc p) = SSI_CS_NONE"
    and "spc_transfer (ssi_spc p) (ssi_dev p) val (bus_host bus) = (r, d, g)"
  shows "ssi_transfer bus val = (r, \<lparr>bus_children = [p\<lparr>ssi_dev := d\<rparr>], bus_host = g\<rparr>)"
  using assms by (simp add: ssi_transfer_def ssi_transfer_raw_default_def)

text \<open>A peripheral whose select line is inactive neither answers nor changes.\<close>

definition ssi_selected :: "('p, 'g) SSIPeripheral \<Rightarrow> bool" where
  "ssi_selected p \<longleftrightarrow> (case spc_cs_polarity (ssi_spc p) of
     SSI_CS_NONE \<Rightarrow> True | SSI_CS_HIGH \<Rightarrow> ssi_cs p | SSI_CS_LOW \<Rightarrow> \<not> ssi_cs p)"

lemma ssi_transfer_raw_default_unselected:
  "\<not> ssi_selected p \<Longrightarrow> ssi_transfer_raw_default p val g = (0, p, g)"
  by (auto simp: ssi_selected_def ssi_transfer_raw_default_def split: SSICSMode.splits)

lemma ssi_transfer_all_unselected:
  assumes "\<forall>p \<in> set (bus_children bus). \<not> ssi_selected p"
  shows "ssi_transfer bus val = (0, bus)"
proof -
  have "ssi_transfer_loop ps val g r = (r, ps, g)"
    if "\<forall>p \<in> set ps. \<not> ssi_selected p"
    for ps :: "('a, 'b) SSIPeripheral list" and g r
    using that by (induction ps arbitrary: r) (auto simp: ssi_transfer_raw_default_unselected)
  with assms show ?thesis by (simp add: ssi_transfer_def)
qed

lemma ssi_create_peripheral_twice:
  "ssi_create_peripheral bus cls = Inr bus' \<Longrightarrow>
     ssi_create_peripheral bus' cls' = Inl (ErrorSet ''CS index in use'')"
  by (auto simp: ssi_create_peripheral_def ssi_bus_check_address_def ssi_get_cs_def rbind_Inr_iff
      split: prod.splits)

section \<open>Facts about the sensor\<close>

definition motor_wf :: "MotorSpeedSensor \<Rightarrow> bool" where
  "motor_wf m \<longleftrightarrow> transfer_value m = last_speed m \<and> unat (last_speed m) < 255"

lemma unat_random_speed: "unat (fst (generate_random_speed rand g)) = fst (rand g) mod 255"
proof -
  have "fst (rand g) mod 255 < 255" by simp
  then have "fst (rand g) mod 255 < 2 ^ LENGTH(16)" by (rule less_trans) simp
  then show ?thesis
    by (simp add: generate_random_speed_def unat_of_nat_small split: prod.split)
qed

lemma motor_transfer_wf:
  "motor_wf m \<Longrightarrow> motor_speed_sensor_transfer rand m val g = (r, m', g') \<Longrightarrow>
     motor_wf m' \<and> r = ucast (last_speed m') \<and> unat r < 255"
  using unat_random_speed [of rand g]
  by (auto simp: motor_speed_sensor_transfer_def motor_wf_def Let_def unat_ucast_up
      split: if_splits prod.splits)

lemma motor_transfer_get_speed:
  "motor_speed_sensor_transfer rand m CMD_GET_SPEED g = (r, m', g') \<Longrightarrow>
     unat r = fst (rand g) mod 255 \<and> g' = snd (rand g)"
  using unat_random_speed [of rand g]
  by (auto simp: motor_speed_sensor_transfer_def Let_def generate_random_speed_def unat_ucast_up
      split: prod.splits)

lemma motor_transfer_other:
  "val \<noteq> CMD_GET_SPEED \<Longrightarrow>
     motor_speed_sensor_transfer rand m val g = (ucast (transfer_value m), m, g)"
  by (simp add: motor_speed_sensor_transfer_def)

text \<open>A bus that carries just the motor speed sensor, as the board wires it.\<close>

definition motor_bus :: "('g \<Rightarrow> nat \<times> 'g) \<Rightarrow> ('g \<Rightarrow> 'g) \<Rightarrow> MotorSpeedSensor \<Rightarrow> 'g \<Rightarrow> (MotorSpeedSensor, 'g) SSIBus" where
  "motor_bus rand srand_time m g =
     \<lparr>bus_children = [\<lparr>ssi_spc = motor_speed_sensor_class_init rand srand_time, ssi_cs = False,
                        ssi_cs_index = 0, ssi_dev = m\<rparr>], bus_host = g\<rparr>"

lemma motor_bus_transfer:
  "ssi_transfer (motor_bus rand srand_time m g) val =
     (let (r, m', g') = motor_speed_sensor_transfer rand m val g
      in (r, motor_bus rand srand_time m' g'))"
  by (simp add: motor_bus_def ssi_transfer_one_child motor_speed_sensor_class_init_def split: prod.split)

end
