(* ===== verification/Lpspi.thy ===== *)
theory Lpspi
  imports Fifo8 Ssi_Bus
begin

text \<open>
  The LPSPI controller model of the emulator, \<^verbatim>\<open>qemu/hw/ssi/nxps32k358_lpspi.c\<close> with the
  register map of \<^verbatim>\<open>qemu/include/hw/ssi/nxps32k358_lpspi.h\<close>. The device state is the C struct:
  registers are words, the FIFOs are those of \<^verbatim>\<open>Fifo8\<close>, the bus is that of \<^verbatim>\<open>Ssi_Bus\<close>; the
  interrupt line and the chip select lines are the levels last driven by \<^verbatim>\<open>qemu_set_irq\<close>.
  Log output is not part of the state.
\<close>

section \<open>Register map\<close>

datatype lpspi_reg = VERID | PARAM | CR | SR | IER | DER | CFGR0 | CFGR1 | CCR | CCR1 | FCR | FSR
  | TCR | TDR | RSR | RDR

definition lpspi_offsets :: "(nat \<times> lpspi_reg) list" where
  "lpspi_offsets =
     [(0x00, VERID), (0x04, PARAM), (0x10, CR), (0x14, SR), (0x18, IER), (0x1C, DER),
      (0x20, CFGR0), (0x24, CFGR1), (0x40, CCR), (0x44, CCR1), (0x58, FCR), (0x5C, FSR),
      (0x60, TCR), (0x64, TDR), (0x70, RSR), (0x74, RDR)]"

definition lpspi_decode :: "nat \<Rightarrow> lpspi_reg option" where
  "lpspi_decode addr = map_of lpspi_offsets addr"

definition LPSPI_CR_MEN :: u32 where "LPSPI_CR_MEN = push_bit 0 1"
definition LPSPI_CR_RST :: u32 where "LPSPI_CR_RST = push_bit 1 1"
definition LPSPI_CR_RTF :: u32 where "LPSPI_CR_RTF = push_bit 8 1"
definition LPSPI_CR_RRF :: u32 where "LPSPI_CR_RRF = push_bit 9 1"

definition LPSPI_SR_TDF :: u32 where "LPSPI_SR_TDF = push_bit 0 1"
definition LPSPI_SR_RDF :: u32 where "LPSPI_SR_RDF = push_bit 1 1"
definition LPSPI_SR_TCF :: u32 where "LPSPI_SR_TCF = push_bit 10 1"
definition LPSPI_SR_TEF :: u32 where "LPSPI_SR_TEF = push_bit 11 1"
definition LPSPI_SR_REF :: u32 where "LPSPI_SR_REF = push_bit 12 1"
definition LPSPI_SR_MBF :: u32 where "LPSPI_SR_MBF = push_bit 24 1"

definition LPSPI_RSR_RXEMPTY :: u32 where "LPSPI_RSR_RXEMPTY = push_bit 1 1"

definition TCR_FRAMESZ_MASK :: u32 where "TCR_FRAMESZ_MASK = 0xFFF"
definition TCR_PCS_MASK :: u32 where "TCR_PCS_MASK = push_bit 24 3"
definition TCR_TXMSK :: u32 where "TCR_TXMSK = push_bit 23 1"
definition TCR_RXMSK :: u32 where "TCR_RXMSK = push_bit 22 1"
definition TCR_LSBF :: u32 where "TCR_LSBF = push_bit 28 1"
definition TCR_CONT :: u32 where "TCR_CONT = push_bit 30 1"
definition TCR_CONTC :: u32 where "TCR_CONTC = push_bit 31 1"
definition TCR_PRESCALE_MASK :: u32 where "TCR_PRESCALE_MASK = push_bit 27 7"

definition LPSPI_FCR_TXWATER_MASK :: u32 where "LPSPI_FCR_TXWATER_MASK = 3"
definition LPSPI_FCR_RXWATER_MASK :: u32 where "LPSPI_FCR_RXWATER_MASK = push_bit 16 3"
definition CCR1_SCKSET_MASK :: u32 where "CCR1_SCKSET_MASK = 0xFF"
definition CCR1_SCKHLD_MASK :: u32 where "CCR1_SCKHLD_MASK = push_bit 8 0xFF"

definition LPSPI_FIFO_BYTE_CAPACITY :: nat where "LPSPI_FIFO_BYTE_CAPACITY = 4 * 4"

lemmas lpspi_cr_bits [reg_simps] =
  LPSPI_CR_MEN_def LPSPI_CR_RST_def LPSPI_CR_RTF_def LPSPI_CR_RRF_def
lemmas lpspi_sr_bits [reg_simps] =
  LPSPI_SR_TDF_def LPSPI_SR_RDF_def LPSPI_SR_TCF_def LPSPI_SR_TEF_def LPSPI_SR_REF_def
  LPSPI_SR_MBF_def LPSPI_RSR_RXEMPTY_def
lemmas lpspi_tcr_bits [reg_simps] =
  TCR_FRAMESZ_MASK_def TCR_PCS_MASK_def TCR_TXMSK_def TCR_RXMSK_def TCR_LSBF_def TCR_CONT_def
  TCR_CONTC_def TCR_PRESCALE_MASK_def
lemmas lpspi_cfg_bits [reg_simps] =
  LPSPI_FCR_TXWATER_MASK_def LPSPI_FCR_RXWATER_MASK_def CCR1_SCKSET_MASK_def CCR1_SCKHLD_MASK_def
  LPSPI_FIFO_BYTE_CAPACITY_def

section \<open>State\<close>

record ('p, 'g) NXPS32K358LPSPIState =
  lpspi_clk :: "nat option"
  lpspi_ssi :: "('p, 'g) SSIBus"
  lpspi_irq :: bool
  cs_lines :: "bool list"
  tx_fifo :: Fifo8
  rx_fifo :: Fifo8
  lpspi_verid :: u32
  lpspi_param :: u32
  lpspi_cr :: u32
  lpspi_sr :: u32
  lpspi_ier :: u32
  lpspi_der :: u32
  lpspi_cfgr0 :: u32
  lpspi_cfgr1 :: u32
  lpspi_ccr :: u32
  lpspi_ccr1 :: u32
  lpspi_fcr :: u32
  lpspi_fsr :: u32
  lpspi_tcr :: u32
  lpspi_tdr :: u32
  lpspi_rsr :: u32
  lpspi_rdr :: u32
  busy :: bool
  tx_watermark :: nat
  rx_watermark :: nat
  frame_size :: nat
  continuous_mode :: bool
  input_clk :: nat
  num_cs_lines :: nat

type_synonym ('p, 'g) lpspi = "('p, 'g) NXPS32K358LPSPIState"

section \<open>Status, interrupt line, clock\<close>

text \<open>
  The frame size in bits and in bytes, as every function computes it from \<^verbatim>\<open>TCR\<close>: the byte
  count is a \<^verbatim>\<open>uint8_t\<close>, so it wraps before it is limited to 4.
\<close>

definition tcr_frame_size :: "u32 \<Rightarrow> nat" where
  "tcr_frame_size tcr = unat (tcr AND TCR_FRAMESZ_MASK) + 1"

definition bytes_per_frame :: "u32 \<Rightarrow> nat" where
  "bytes_per_frame tcr =
     (let b = w8 ((tcr_frame_size tcr + 7) div 8) in if b > 4 then 4 else b)"

definition lpspi_update_status :: "('p, 'g) lpspi \<Rightarrow> ('p, 'g) lpspi res" where
  "lpspi_update_status s =
     (let bpf = bytes_per_frame (lpspi_tcr s) in
      rbind (c_div (fifo8_num_used (tx_fifo s)) bpf) (\<lambda>tq.
      rbind (c_div (fifo8_num_used (rx_fifo s)) bpf) (\<lambda>rq.
      let tx_word_count = w8 tq; rx_word_count = w8 rq;
          s1 = s\<lparr>lpspi_fsr := push_bit 16 (of_nat rx_word_count) OR push_bit 0 (of_nat tx_word_count)\<rparr>;
          s2 = (if tx_word_count \<le> tx_watermark s1 then
                  (if 4 \<le> fifo8_num_free (tx_fifo s1)
                   then s1\<lparr>lpspi_sr := lpspi_sr s1 OR LPSPI_SR_TDF\<rparr>
                   else s1\<lparr>lpspi_sr := lpspi_sr s1 AND NOT LPSPI_SR_TDF\<rparr>)
                else s1);
          s3 = (if rx_word_count > rx_watermark s2 then
                  (if 4 \<le> fifo8_num_used (rx_fifo s2)
                   then s2\<lparr>lpspi_sr := lpspi_sr s2 OR LPSPI_SR_RDF\<rparr>
                   else s2\<lparr>lpspi_sr := lpspi_sr s2 AND NOT LPSPI_SR_RDF\<rparr>)
                else s2);
          s4 = (if rx_word_count = 0
                then s3\<lparr>lpspi_rsr := lpspi_rsr s3 OR LPSPI_RSR_RXEMPTY\<rparr>
                else s3\<lparr>lpspi_rsr := lpspi_rsr s3 AND NOT LPSPI_RSR_RXEMPTY\<rparr>)
      in Inr s4)))"

definition lpspi_update_irq :: "('p, 'g) lpspi \<Rightarrow> ('p, 'g) lpspi res" where
  "lpspi_update_irq s =
     rbind (lpspi_update_status s) (\<lambda>s.
     if (lpspi_sr s AND lpspi_ier s) AND (LPSPI_SR_TDF OR LPSPI_SR_RDF) \<noteq> 0
     then Inr (s\<lparr>lpspi_irq := True\<rparr>) else Inr (s\<lparr>lpspi_irq := False\<rparr>))"

text \<open>
  \<open>lpspi_update_clock_config\<close> only logs: the result is what it prints (CPOL, CPHA, prescaler
  and SCK frequency), \<open>None\<close> when it returns early.
\<close>

definition lpspi_update_clock_config :: "('p, 'g) lpspi \<Rightarrow> (bool \<times> bool \<times> nat \<times> nat) option res" where
  "lpspi_update_clock_config s =
     (case lpspi_clk s of None \<Rightarrow> Inl NullPointer | Some clk_hz \<Rightarrow>
      if clk_hz = 0 then Inr None else
      let prescale_val = 2 ^ unat (drop_bit 27 (lpspi_tcr s AND TCR_PRESCALE_MASK));
          sckset = unat (lpspi_ccr1 s AND CCR1_SCKSET_MASK) + 1;
          sckhld = unat (drop_bit 8 (lpspi_ccr1 s AND CCR1_SCKHLD_MASK)) + 1
      in if sckset + sckhld + 2 = 0 then Inr None else
      let sck_period_divisor = sckset + sckhld + 2 in
      rbind (c_div clk_hz (w32 (prescale_val * sck_period_divisor))) (\<lambda>sck_freq.
      Inr (Some (bit (lpspi_tcr s) 31, bit (lpspi_tcr s) 30, prescale_val, sck_freq))))"

section \<open>Transfers\<close>

definition tcr_pcs :: "u32 \<Rightarrow> nat" where
  "tcr_pcs tcr = unat (drop_bit 24 (tcr AND TCR_PCS_MASK))"

text \<open>The position of the \<open>i\<close>-th byte of a frame of \<open>n\<close> bytes: LSB first or MSB first.\<close>

definition byte_shift :: "bool \<Rightarrow> nat \<Rightarrow> nat \<Rightarrow> nat" where
  "byte_shift lsbf n i = (if lsbf then i * 8 else (n - 1 - i) * 8)"

definition lpspi_lsbf :: "u32 \<Rightarrow> bool" where
  "lpspi_lsbf tcr \<longleftrightarrow> tcr AND TCR_LSBF \<noteq> 0"

text \<open>The loops that move a frame out of a FIFO into a word, and from a word into a FIFO.\<close>

fun pop_frame_step :: "bool \<Rightarrow> nat \<Rightarrow> nat \<Rightarrow> u32 \<times> Fifo8 \<Rightarrow> (u32 \<times> Fifo8) res" where
  "pop_frame_step lsbf n i (w, f) =
     (if \<not> fifo8_is_empty f
      then rbind (fifo8_pop f) (\<lambda>(b, f'). Inr (w OR push_bit (byte_shift lsbf n i) (ucast b), f'))
      else Inr (w, f))"

definition fifo_pop_frame :: "bool \<Rightarrow> nat \<Rightarrow> Fifo8 \<Rightarrow> (u32 \<times> Fifo8) res" where
  "fifo_pop_frame lsbf n f = foldE (pop_frame_step lsbf n) [0..<n] (0, f)"

definition push_rx_step :: "bool \<Rightarrow> nat \<Rightarrow> u32 \<Rightarrow> nat \<Rightarrow> ('p, 'g) lpspi \<Rightarrow> ('p, 'g) lpspi res" where
  "push_rx_step lsbf n rx_data i s =
     (let rx_byte = ucast (drop_bit (byte_shift lsbf n i) rx_data AND 0xFF) in
      if fifo8_is_full (rx_fifo s)
      then Inr (s\<lparr>lpspi_sr := lpspi_sr s OR LPSPI_SR_REF\<rparr>)
      else rbind (fifo8_push (rx_fifo s) rx_byte) (\<lambda>f. Inr (s\<lparr>rx_fifo := f\<rparr>)))"

definition lpspi_push_rx :: "bool \<Rightarrow> nat \<Rightarrow> u32 \<Rightarrow> ('p, 'g) lpspi \<Rightarrow> ('p, 'g) lpspi res" where
  "lpspi_push_rx lsbf n rx_data s = foldE (push_rx_step lsbf n rx_data) [0..<n] s"

definition lpspi_push_tx :: "bool \<Rightarrow> nat \<Rightarrow> u64 \<Rightarrow> Fifo8 \<Rightarrow> Fifo8 res" where
  "lpspi_push_tx lsbf n val64 f =
     foldE (\<lambda>i f. fifo8_push f (ucast (drop_bit (byte_shift lsbf n i) val64 AND 0xFF))) [0..<n] f"

definition lpspi_set_cs :: "nat \<Rightarrow> bool \<Rightarrow> ('p, 'g) lpspi \<Rightarrow> ('p, 'g) lpspi res" where
  "lpspi_set_cs pcs level s =
     rbind (array_set (cs_lines s) pcs level) (\<lambda>ls. Inr (s\<lparr>cs_lines := ls\<rparr>))"

definition cs_active_high :: "('p, 'g) lpspi \<Rightarrow> nat \<Rightarrow> bool" where
  "cs_active_high s pcs \<longleftrightarrow> lpspi_cfgr1 s AND push_bit (24 + pcs) 1 \<noteq> 0"

text \<open>
  \<open>lpspi_flush_txfifo\<close> in the order of the C code: the guards, asserting chip select, moving one
  frame out and its reply in, the status flags, and deasserting chip select when the transmit
  FIFO has run empty.
\<close>

definition tcr_single :: "u32 \<Rightarrow> bool" where
  "tcr_single tcr \<longleftrightarrow>
     (let cont = (tcr AND TCR_CONT \<noteq> 0); contc = (tcr AND TCR_CONTC \<noteq> 0) in \<not> cont \<and> \<not> contc)"

definition tcr_rxmsk :: "u32 \<Rightarrow> bool" where
  "tcr_rxmsk tcr \<longleftrightarrow> tcr AND TCR_RXMSK \<noteq> 0"

definition flush_assert_cs :: "('p, 'g) lpspi \<Rightarrow> ('p, 'g) lpspi res" where
  "flush_assert_cs s =
     (let pcs = tcr_pcs (lpspi_tcr s) in
      if \<not> busy s \<or> tcr_single (lpspi_tcr s)
      then rbind (lpspi_set_cs pcs (cs_active_high s pcs) s) (\<lambda>s.
           Inr (s\<lparr>busy := True, lpspi_sr := lpspi_sr s OR LPSPI_SR_MBF\<rparr>))
      else Inr s)"

definition flush_exchange :: "u32 \<Rightarrow> ('p, 'g) lpspi \<Rightarrow> u32 \<times> ('p, 'g) lpspi" where
  "flush_exchange tx_data s =
     (let pincfg = drop_bit 8 (lpspi_cfgr1 s) AND 3 in
      if pincfg = 1 then (tx_data, s)
      else (let (rx_data, bus) = ssi_transfer (lpspi_ssi s) tx_data
            in (rx_data, s\<lparr>lpspi_ssi := bus\<rparr>)))"

definition flush_move_frame :: "('p, 'g) lpspi \<Rightarrow> ('p, 'g) lpspi res" where
  "flush_move_frame s =
     (let tcr = lpspi_tcr s; bpf = bytes_per_frame tcr in
      rbind (fifo_pop_frame (lpspi_lsbf tcr) bpf (tx_fifo s)) (\<lambda>(tx_data, f).
      let (rx_data, s) = flush_exchange tx_data (s\<lparr>tx_fifo := f\<rparr>)
      in if \<not> tcr_rxmsk tcr then lpspi_push_rx (lpspi_lsbf tcr) bpf rx_data s else Inr s))"

definition flush_deassert_cs :: "('p, 'g) lpspi \<Rightarrow> ('p, 'g) lpspi res" where
  "flush_deassert_cs s =
     (let pcs = tcr_pcs (lpspi_tcr s) in
      if fifo8_is_empty (tx_fifo s) \<and> busy s then
        rbind (if tcr_single (lpspi_tcr s)
               then rbind (lpspi_set_cs pcs (\<not> cs_active_high s pcs) s) (\<lambda>s.
                    Inr (s\<lparr>busy := False, lpspi_sr := lpspi_sr s AND NOT LPSPI_SR_MBF\<rparr>))
               else Inr s) (\<lambda>s.
        Inr (s\<lparr>lpspi_sr := lpspi_sr s OR LPSPI_SR_TCF\<rparr>))
      else Inr s)"

definition lpspi_flush_txfifo :: "('p, 'g) lpspi \<Rightarrow> ('p, 'g) lpspi res" where
  "lpspi_flush_txfifo s =
     (let tcr = lpspi_tcr s; bpf = bytes_per_frame tcr in
      if tcr_frame_size tcr < 1 \<or> tcr_frame_size tcr > 4096 then Inr s
      else if fifo8_num_used (tx_fifo s) < bpf then Inr s
      else if \<not> tcr_rxmsk tcr \<and> fifo8_num_free (rx_fifo s) < bpf then Inr s
      else
        rbind (flush_assert_cs s) (\<lambda>s.
        rbind (flush_move_frame s) (\<lambda>s.
        rbind (lpspi_update_status s) (\<lambda>s.
        rbind (flush_deassert_cs s) (\<lambda>s.
        lpspi_update_irq s)))))"

section \<open>Reset\<close>

definition nxps32k358_lpspi_do_reset :: "('p, 'g) lpspi \<Rightarrow> ('p, 'g) lpspi res" where
  "nxps32k358_lpspi_do_reset s =
     (let s = s\<lparr>lpspi_verid := 0x04040007, lpspi_param := 0x00040404, lpspi_cr := 0,
                lpspi_sr := LPSPI_SR_TDF OR LPSPI_SR_TCF, lpspi_ier := 0, lpspi_der := 0,
                lpspi_cfgr0 := 0, lpspi_cfgr1 := 0, lpspi_ccr := 0, lpspi_ccr1 := 0,
                lpspi_fcr := 0, lpspi_fsr := 0, lpspi_tcr := 0x0000001F, lpspi_tdr := 0,
                lpspi_rsr := LPSPI_RSR_RXEMPTY, lpspi_rdr := 0,
                busy := False, tx_watermark := 0, rx_watermark := 0, frame_size := 32,
                continuous_mode := False,
                tx_fifo := fifo8_reset (tx_fifo s), rx_fifo := fifo8_reset (rx_fifo s)\<rparr>
      in rbind (foldE (\<lambda>i. lpspi_set_cs i True) [0..<num_cs_lines s] s) (\<lambda>s.
         rbind (lpspi_update_clock_config s) (\<lambda>_.
         lpspi_update_irq s)))"

section \<open>Register access\<close>

definition nxps32k358_lpspi_read :: "('p, 'g) lpspi \<Rightarrow> nat \<Rightarrow> (u32 \<times> ('p, 'g) lpspi) res" where
  "nxps32k358_lpspi_read s addr =
     rbind (lpspi_update_status s) (\<lambda>s.
     case lpspi_decode addr of
       Some VERID \<Rightarrow> Inr (lpspi_verid s, s)
     | Some PARAM \<Rightarrow> Inr (lpspi_param s, s)
     | Some CR \<Rightarrow> Inr (lpspi_cr s, s)
     | Some SR \<Rightarrow> Inr (lpspi_sr s, s)
     | Some IER \<Rightarrow> Inr (lpspi_ier s, s)
     | Some DER \<Rightarrow> Inr (lpspi_der s, s)
     | Some CFGR0 \<Rightarrow> Inr (lpspi_cfgr0 s, s)
     | Some CFGR1 \<Rightarrow> Inr (lpspi_cfgr1 s, s)
     | Some CCR \<Rightarrow> Inr (lpspi_ccr s, s)
     | Some CCR1 \<Rightarrow> Inr (lpspi_ccr1 s, s)
     | Some FCR \<Rightarrow> Inr (lpspi_fcr s, s)
     | Some FSR \<Rightarrow> Inr (lpspi_fsr s, s)
     | Some TCR \<Rightarrow> Inr (lpspi_tcr s, s)
     | Some RSR \<Rightarrow> Inr (lpspi_rsr s, s)
     | Some RDR \<Rightarrow>
         if fifo8_num_used (rx_fifo s) < 1 then Inr (0, s)
         else
           rbind (fifo_pop_frame (lpspi_lsbf (lpspi_tcr s)) (bytes_per_frame (lpspi_tcr s)) (rx_fifo s))
             (\<lambda>(ret, f).
           rbind (lpspi_update_status (s\<lparr>rx_fifo := f, lpspi_rdr := ret\<rparr>)) (\<lambda>s.
           Inr (ret, s)))
     | _ \<Rightarrow> Inr (0, s))"

definition nxps32k358_lpspi_write :: "('p, 'g) lpspi \<Rightarrow> nat \<Rightarrow> u64 \<Rightarrow> ('p, 'g) lpspi res" where
  "nxps32k358_lpspi_write s addr val64 =
     (let value = (ucast val64 :: u32) in
      case lpspi_decode addr of
        Some VERID \<Rightarrow> Inr s
      | Some PARAM \<Rightarrow> Inr s
      | Some FSR \<Rightarrow> Inr s
      | Some RSR \<Rightarrow> Inr s
      | Some RDR \<Rightarrow> Inr s
      | Some CR \<Rightarrow>
          if value AND LPSPI_CR_RST \<noteq> 0 then nxps32k358_lpspi_do_reset s
          else
            let s = (if value AND LPSPI_CR_RTF \<noteq> 0
                     then s\<lparr>tx_fifo := fifo8_reset (tx_fifo s), lpspi_sr := lpspi_sr s OR LPSPI_SR_TDF\<rparr>
                     else s);
                s = (if value AND LPSPI_CR_RRF \<noteq> 0
                     then s\<lparr>rx_fifo := fifo8_reset (rx_fifo s), lpspi_rsr := lpspi_rsr s OR LPSPI_RSR_RXEMPTY\<rparr>
                     else s)
            in lpspi_update_irq
                 (s\<lparr>lpspi_cr := value AND NOT (LPSPI_CR_RST OR LPSPI_CR_RTF OR LPSPI_CR_RRF)\<rparr>)
      | Some SR \<Rightarrow> lpspi_update_irq (s\<lparr>lpspi_sr := lpspi_sr s AND NOT value\<rparr>)
      | Some TCR \<Rightarrow>
          let s = s\<lparr>lpspi_tcr := value, frame_size := tcr_frame_size value,
                    continuous_mode := (value AND (TCR_CONT OR TCR_CONTC) \<noteq> 0)\<rparr>
          in rbind (if lpspi_cr s AND LPSPI_CR_MEN \<noteq> 0 \<and> \<not> fifo8_is_empty (tx_fifo s)
                    then lpspi_flush_txfifo s else Inr s) (\<lambda>s.
             rbind (lpspi_update_clock_config s) (\<lambda>_.
             lpspi_update_irq s))
      | Some TDR \<Rightarrow>
          if lpspi_cr s AND LPSPI_CR_MEN \<noteq> 0 then
            let bpf = bytes_per_frame (lpspi_tcr s) in
            if fifo8_num_free (tx_fifo s) < bpf
            then lpspi_update_irq (s\<lparr>lpspi_sr := lpspi_sr s OR LPSPI_SR_TEF\<rparr>)
            else
              rbind (lpspi_push_tx (lpspi_lsbf (lpspi_tcr s)) bpf val64 (tx_fifo s)) (\<lambda>f.
              rbind (lpspi_flush_txfifo (s\<lparr>tx_fifo := f\<rparr>)) lpspi_update_irq)
          else lpspi_update_irq s
      | Some IER \<Rightarrow> lpspi_update_irq (s\<lparr>lpspi_ier := value\<rparr>)
      | Some DER \<Rightarrow> lpspi_update_irq (s\<lparr>lpspi_der := value\<rparr>)
      | Some CFGR0 \<Rightarrow> lpspi_update_irq (s\<lparr>lpspi_cfgr0 := value\<rparr>)
      | Some CFGR1 \<Rightarrow>
          rbind (lpspi_update_clock_config (s\<lparr>lpspi_cfgr1 := value\<rparr>)) (\<lambda>_.
          lpspi_update_irq (s\<lparr>lpspi_cfgr1 := value\<rparr>))
      | Some CCR \<Rightarrow>
          rbind (lpspi_update_clock_config (s\<lparr>lpspi_ccr := value\<rparr>)) (\<lambda>_.
          lpspi_update_irq (s\<lparr>lpspi_ccr := value\<rparr>))
      | Some CCR1 \<Rightarrow>
          rbind (lpspi_update_clock_config (s\<lparr>lpspi_ccr1 := value\<rparr>)) (\<lambda>_.
          lpspi_update_irq (s\<lparr>lpspi_ccr1 := value\<rparr>))
      | Some FCR \<Rightarrow>
          rbind (lpspi_update_status
                  (s\<lparr>lpspi_fcr := value,
                     tx_watermark := unat (value AND LPSPI_FCR_TXWATER_MASK),
                     rx_watermark := unat (drop_bit 16 (value AND LPSPI_FCR_RXWATER_MASK))\<rparr>))
            lpspi_update_irq
      | None \<Rightarrow> Inr s)"

section \<open>Construction\<close>

text \<open>
  \<open>nxps32k358_lpspi_realize\<close> gets the two uninitialised blocks that \<^verbatim>\<open>fifo8_create\<close> allocates.
\<close>

definition nxps32k358_lpspi_realize ::
    "('p, 'g) lpspi \<Rightarrow> u8 list \<Rightarrow> u8 list \<Rightarrow> ('p, 'g) lpspi res" where
  "nxps32k358_lpspi_realize s txblock rxblock =
     (case lpspi_clk s of
        None \<Rightarrow> Inl (ErrorSet ''LPSPI: clock not connected'')
      | Some hz \<Rightarrow>
          let s = s\<lparr>input_clk := hz\<rparr> in
          if input_clk s = 0 then Inl (ErrorSet ''LPSPI: Invalid clock frequency (0 Hz)'')
          else if num_cs_lines s < 1 \<or> num_cs_lines s > 4
          then Inl (ErrorSet ''LPSPI: Invalid number of CS lines'')
          else Inr (s\<lparr>cs_lines := replicate (num_cs_lines s) False,
                      tx_fifo := fifo8_create txblock LPSPI_FIFO_BYTE_CAPACITY,
                      rx_fifo := fifo8_create rxblock LPSPI_FIFO_BYTE_CAPACITY\<rparr>))"

text \<open>
  \<open>nxps32k358_lpspi_init\<close>: a zeroed object with an unconnected clock input (0 Hz), a fresh bus,
  and the property \<^verbatim>\<open>num-cs-lines\<close> at its default 1.
\<close>

definition nxps32k358_lpspi_init :: "'g \<Rightarrow> ('p, 'g) lpspi" where
  "nxps32k358_lpspi_init g =
     \<lparr>lpspi_clk = Some 0, lpspi_ssi = ssi_create_bus g, lpspi_irq = False, cs_lines = [],
      tx_fifo = \<lparr>fifo_data = [], fifo_capacity = 0, fifo_head = 0, fifo_num = 0\<rparr>,
      rx_fifo = \<lparr>fifo_data = [], fifo_capacity = 0, fifo_head = 0, fifo_num = 0\<rparr>,
      lpspi_verid = 0, lpspi_param = 0, lpspi_cr = 0, lpspi_sr = 0, lpspi_ier = 0, lpspi_der = 0,
      lpspi_cfgr0 = 0, lpspi_cfgr1 = 0, lpspi_ccr = 0, lpspi_ccr1 = 0, lpspi_fcr = 0,
      lpspi_fsr = 0, lpspi_tcr = 0, lpspi_tdr = 0, lpspi_rsr = 0, lpspi_rdr = 0,
      busy = False, tx_watermark = 0, rx_watermark = 0, frame_size = 0, continuous_mode = False,
      input_clk = 0, num_cs_lines = 1\<rparr>"

section \<open>Frames as byte sequences\<close>

definition frame_bytes :: "bool \<Rightarrow> nat \<Rightarrow> 'a::len word \<Rightarrow> u8 list" where
  "frame_bytes lsbf n w = map (\<lambda>i. ucast (drop_bit (byte_shift lsbf n i) w AND 0xFF)) [0..<n]"

definition frame_word :: "bool \<Rightarrow> nat \<Rightarrow> u8 list \<Rightarrow> u32" where
  "frame_word lsbf n bs =
     foldl (\<lambda>w i. w OR push_bit (byte_shift lsbf n i) (ucast (bs ! i))) 0 [0..<length bs]"

lemma length_frame_bytes [simp]: "length (frame_bytes lsbf n w) = n"
  by (simp add: frame_bytes_def)

lemma bit_foldl_or:
  "bit (foldl (\<lambda>w i. w OR f i) a is) k \<longleftrightarrow> bit a k \<or> (\<exists>i \<in> set is. bit (f i) k)"
  for a :: "'a::len word"
  by (induction "is" arbitrary: a) (auto simp: bit_or_iff)

lemma bit_mask_byte: "bit (ucast (drop_bit m w AND 0xFF) :: u8) j \<longleftrightarrow> j < 8 \<and> bit w (m + j)"
  for w :: "'a::len word"
proof -
  have mask: "(0xFF :: 'a word) = mask 8" by (simp add: mask_eq_exp_minus_1)
  show ?thesis
    by (auto simp: mask bit_ucast_iff bit_and_iff bit_drop_bit_eq bit_mask_iff
        dest: bit_imp_le_length)
qed

text \<open>Packing a word into a frame and unpacking it keeps the low bytes, in either byte order.\<close>

lemma frame_word_bytes:
  "frame_word lsbf n (frame_bytes lsbf n w) = take_bit (8 * n) (ucast w)"
  for w :: "'a::len word"
proof (rule bit_word_eqI)
  fix k assume k: "k < LENGTH(32)"
  have pos: "(\<exists>i<n. byte_shift lsbf n i \<le> k \<and> k - byte_shift lsbf n i < 8) \<longleftrightarrow> k < 8 * n"
  proof
    assume "k < 8 * n"
    then have "k div 8 < n" by (simp add: less_mult_imp_div_less mult.commute)
    moreover have "8 * (k div 8) \<le> k" "k - 8 * (k div 8) < 8" by presburger+
    ultimately show "\<exists>i<n. byte_shift lsbf n i \<le> k \<and> k - byte_shift lsbf n i < 8"
      by (intro exI [of _ "if lsbf then k div 8 else n - 1 - k div 8"])
        (auto simp: byte_shift_def mult.commute)
  qed (auto simp: byte_shift_def split: if_splits)
  have byte: "bit (push_bit (byte_shift lsbf n i) (ucast (frame_bytes lsbf n w ! i)) :: u32) k \<longleftrightarrow>
      byte_shift lsbf n i \<le> k \<and> k - byte_shift lsbf n i < 8 \<and> bit w k" if "i < n" for i
    using k that unfolding bit_push_bit_iff bit_ucast_iff
    by (cases "byte_shift lsbf n i \<le> k")
      (use bit_mask_byte [of "byte_shift lsbf n i" w "k - byte_shift lsbf n i"] in
        \<open>auto simp: frame_bytes_def\<close>)
  have "bit (frame_word lsbf n (frame_bytes lsbf n w)) k \<longleftrightarrow>
      (\<exists>i<n. byte_shift lsbf n i \<le> k \<and> k - byte_shift lsbf n i < 8 \<and> bit w k)"
    using byte by (auto simp: frame_word_def bit_foldl_or)
  also have "\<dots> \<longleftrightarrow> k < 8 * n \<and> bit w k" using pos by blast
  finally show "bit (frame_word lsbf n (frame_bytes lsbf n w)) k =
      bit (take_bit (8 * n) (ucast w) :: u32) k"
    using k by (simp add: bit_take_bit_iff bit_ucast_iff)
qed

end
