(* ===== verification/Lpspi_Ip.thy ===== *)
theory Lpspi_Ip
  imports Lpspi
begin

text \<open>
  The firmware's SPI driver, \<^verbatim>\<open>Demo_FreeRTOS/RTD/src/Lpspi_Ip.c\<close>, with the types of
  \<^verbatim>\<open>Lpspi_Ip_Types.h\<close> and the configuration of \<^verbatim>\<open>Lpspi_Ip_Cfg.h\<close> and \<^verbatim>\<open>Lpspi_Ip_Sa_PBcfg.c\<close>: half
  duplex and slave support compiled in, direct memory access and the dual clock compiled out.
  The driver reaches the controller through the loads and stores of the processor.

  The header of the controller's registers and \<^verbatim>\<open>Devassert.h\<close> are not part of the repository. They are
  the parameter \<open>E\<close> of the driver: the base addresses, the offsets of the registers, the position
  and mask of every register field, the effect of a development assertion, and which workaround for
  the controller's erratum is compiled in. The exclusive areas of the scheduler manager only mask
  interrupts and leave no trace here.
\<close>

section \<open>The environment of the driver\<close>

datatype lpspi_field = F_CR_MEN | F_CR_RST | F_CR_DBGEN | F_CR_RTF | F_CR_RRF
  | F_SR_TDF | F_SR_RDF | F_SR_WCF | F_SR_FCF | F_SR_TCF | F_SR_TEF | F_SR_REF | F_SR_DMF
  | F_IER_TDIE | F_IER_RDIE | F_IER_TEIE | F_IER_REIE
  | F_CFGR1_MASTER | F_CFGR1_SAMPLE | F_CFGR1_PCSPOL | F_CFGR1_PINCFG | F_CFGR1_OUTCFG | F_CFGR1_PCSCFG
  | F_CCR_SCKDIV | F_CCR_DBT | F_CCR_PCSSCK | F_CCR_SCKPCS
  | F_FCR_TXWATER | F_FSR_TXCOUNT | F_FSR_RXCOUNT
  | F_TCR_FRAMESZ | F_TCR_WIDTH | F_TCR_TXMSK | F_TCR_RXMSK | F_TCR_CONTC | F_TCR_CONT | F_TCR_LSBF
  | F_TCR_PCS | F_TCR_PRESCALE | F_TCR_CPHA | F_TCR_CPOL

datatype erratum = No_workaround | First_solution | Second_solution

record lpspi_header =
  LPSPI_INSTANCE_COUNT :: nat
  hdr_base :: "nat \<Rightarrow> nat"
  hdr_offset :: "lpspi_reg \<Rightarrow> nat"
  hdr_shift :: "lpspi_field \<Rightarrow> nat"
  hdr_mask :: "lpspi_field \<Rightarrow> u32"
  DevAssert :: "bool \<Rightarrow> unit res"
  ERR_IPV_LPSPIV2_0001 :: erratum

record 'm spi_env = lpspi_header +
  env_load :: "nat \<Rightarrow> 'm \<Rightarrow> (u32 \<times> 'm) res"
  env_store :: "nat \<Rightarrow> u32 \<Rightarrow> 'm \<Rightarrow> 'm res"

text \<open>The function-like macro of a field, such as \<^verbatim>\<open>LPSPI_TCR_FRAMESZ(x)\<close>.\<close>

definition fld :: "'m spi_env \<Rightarrow> lpspi_field \<Rightarrow> u32 \<Rightarrow> u32" where
  "fld E f x = push_bit (hdr_shift E f) x AND hdr_mask E f"

definition field_of :: "'m spi_env \<Rightarrow> lpspi_field \<Rightarrow> u32 \<Rightarrow> u32" where
  "field_of E f v = drop_bit (hdr_shift E f) (v AND hdr_mask E f)"

text \<open>Counters of type \<^verbatim>\<open>uint16\<close>, and the difference of two counters in a \<^verbatim>\<open>uint8\<close>.\<close>

definition w16 :: "nat \<Rightarrow> nat" where "w16 n = n mod 65536"

definition sub8 :: "nat \<Rightarrow> nat \<Rightarrow> nat" where "sub8 a b = nat ((int a - int b) mod 256)"

section \<open>Time-outs\<close>

text \<open>The dummy counter of \<^verbatim>\<open>OsIf_Timer.c\<close>, which \<^verbatim>\<open>LPSPI_IP_TIMEOUT_METHOD\<close> selects, counts the passes of a loop.\<close>

definition OsIf_Timer_Dummy_GetElapsed :: nat where "OsIf_Timer_Dummy_GetElapsed = 1"

definition OsIf_Timer_Dummy_MicrosToTicks :: "nat \<Rightarrow> nat" where "OsIf_Timer_Dummy_MicrosToTicks Micros = Micros"

definition LPSPI_IP_ERR_TIMEOUT_COUNTER :: nat where "LPSPI_IP_ERR_TIMEOUT_COUNTER = 0xFFFF"

definition LPSPI_IP_HALF_DUPLEX_TIMEOUT_COUNTER :: nat where "LPSPI_IP_HALF_DUPLEX_TIMEOUT_COUNTER = 1"

definition LPSPI_IP_FIFO_SIZE_U8 :: nat where "LPSPI_IP_FIFO_SIZE_U8 = 4"

definition LPSPI_IP_FRAMESIZE_MAX_U16 :: nat where "LPSPI_IP_FRAMESIZE_MAX_U16 = 64"

definition LPSPI_IP_FRAMESIZE_MIN_U16 :: nat where "LPSPI_IP_FRAMESIZE_MIN_U16 = 1"

section \<open>Data\<close>

datatype Lpspi_Ip_EventType = LPSPI_IP_EVENT_END_TRANSFER | LPSPI_IP_EVENT_FAULT

datatype Lpspi_Ip_ModeType = LPSPI_IP_POLLING | LPSPI_IP_INTERRUPT

datatype Lpspi_Ip_HwStatusType = LPSPI_IP_UNINIT | LPSPI_IP_IDLE | LPSPI_IP_BUSY | LPSPI_IP_FAULT

datatype Lpspi_Ip_StatusType = LPSPI_IP_STATUS_SUCCESS | LPSPI_IP_STATUS_FAIL | LPSPI_IP_FIFO_ERROR | LPSPI_IP_TIMEOUT

datatype Lpspi_Ip_HalfDuplexType = LPSPI_IP_HALF_DUPLEX_TRANSMIT | LPSPI_IP_HALF_DUPLEX_RECEIVE | LPSPI_IP_FULL_DUPLEX

record Lpspi_Ip_DeviceParamsType =
  FrameSize :: nat
  Lsb :: bool
  DefaultData :: u32
  TransferType :: Lpspi_Ip_HalfDuplexType

text \<open>The member \<^verbatim>\<open>DeviceParams\<close> points into the array \<^verbatim>\<open>Lpspi_Ip_DeviceParamsCfg\<close>; it is the index there.\<close>

record Lpspi_Ip_ExternalDeviceType =
  ExternalInstance :: nat
  Ccr :: u32
  Tcr :: u32
  HalfDuplexCfgr1 :: u32
  DeviceParams :: nat

record Lpspi_Ip_ConfigType =
  PhyInstance :: nat
  Cr :: u32
  Cfgr1 :: u32
  SlaveMode :: bool
  PhyTransferMode :: Lpspi_Ip_ModeType
  StateIndex :: nat

text \<open>The buffers are the bytes the pointers lead to, or \<^const>\<open>None\<close> for a null pointer.\<close>

record Lpspi_Ip_StateStructureType =
  TransferMode :: Lpspi_Ip_ModeType
  Status :: Lpspi_Ip_HwStatusType
  RxBuffer :: "u8 list option"
  TxBuffer :: "u8 list option"
  Callback :: "nat option"
  RxIndex :: nat
  TxIndex :: nat
  ExpectedFifoReads :: nat
  ExpectedFifoWrites :: nat
  KeepCs :: bool
  FirstCmd :: bool
  PhyUnitConfig :: Lpspi_Ip_ConfigType
  ExternalDevice :: Lpspi_Ip_ExternalDeviceType
  CurrentTxFifoSlot :: nat
  HalfDuplexTcrCommand :: u32
  NextChannelIsRX :: bool
  TxFifoResetNeeded :: bool

text \<open>
  The driver's variables: the state structures, for each instance the structure it uses, and the
  parameters of the external devices. Calls of end notifications are recorded in the order they
  are made, with the callback, the instance and the event.
\<close>

record 'm spi_driver =
  machine :: 'm
  Lpspi_Ip_axStateStructure :: "nat \<Rightarrow> Lpspi_Ip_StateStructureType"
  Lpspi_Ip_apxStateStructureArray :: "nat \<Rightarrow> nat option"
  Lpspi_Ip_DeviceParamsCfg :: "nat \<Rightarrow> Lpspi_Ip_DeviceParamsType"
  notifications :: "(nat \<times> nat \<times> Lpspi_Ip_EventType) list"

section \<open>Access to registers and state\<close>

definition reg_read :: "'m spi_env \<Rightarrow> nat \<Rightarrow> lpspi_reg \<Rightarrow> 'm spi_driver \<Rightarrow> (u32 \<times> 'm spi_driver) res" where
  "reg_read E inst r d =
     rbind (env_load E (hdr_base E inst + hdr_offset E r) (machine d)) (\<lambda>(v, m). Inr (v, d\<lparr>machine := m\<rparr>))"

definition reg_write :: "'m spi_env \<Rightarrow> nat \<Rightarrow> lpspi_reg \<Rightarrow> u32 \<Rightarrow> 'm spi_driver \<Rightarrow> 'm spi_driver res" where
  "reg_write E inst r v d =
     rbind (env_store E (hdr_base E inst + hdr_offset E r) v (machine d)) (\<lambda>m. Inr (d\<lparr>machine := m\<rparr>))"

definition reg_modify :: "'m spi_env \<Rightarrow> nat \<Rightarrow> lpspi_reg \<Rightarrow> (u32 \<Rightarrow> u32) \<Rightarrow> 'm spi_driver \<Rightarrow> 'm spi_driver res" where
  "reg_modify E inst r f d = rbind (reg_read E inst r d) (\<lambda>(v, d). reg_write E inst r (f v) d)"

definition state_of :: "nat \<Rightarrow> 'm spi_driver \<Rightarrow> Lpspi_Ip_StateStructureType res" where
  "state_of inst d = (case Lpspi_Ip_apxStateStructureArray d inst of
     None \<Rightarrow> Inl NullPointer | Some i \<Rightarrow> Inr (Lpspi_Ip_axStateStructure d i))"

definition set_state :: "nat \<Rightarrow> (Lpspi_Ip_StateStructureType \<Rightarrow> Lpspi_Ip_StateStructureType) \<Rightarrow> 'm spi_driver \<Rightarrow> 'm spi_driver" where
  "set_state inst f d = (case Lpspi_Ip_apxStateStructureArray d inst of
     None \<Rightarrow> d | Some i \<Rightarrow> d\<lparr>Lpspi_Ip_axStateStructure := (Lpspi_Ip_axStateStructure d)(i := f (Lpspi_Ip_axStateStructure d i))\<rparr>)"

definition params_of :: "Lpspi_Ip_StateStructureType \<Rightarrow> 'm spi_driver \<Rightarrow> Lpspi_Ip_DeviceParamsType" where
  "params_of S d = Lpspi_Ip_DeviceParamsCfg d (DeviceParams (ExternalDevice S))"

definition device_of :: "'m spi_env \<Rightarrow> Lpspi_Ip_ExternalDeviceType option \<Rightarrow> Lpspi_Ip_ExternalDeviceType res" where
  "device_of E x = rbind (DevAssert E (x \<noteq> None)) (\<lambda>_. case x of None \<Rightarrow> Inl NullPointer | Some y \<Rightarrow> Inr y)"

text \<open>Entry checks of the functions that need an initialised instance.\<close>

definition initialised :: "'m spi_env \<Rightarrow> nat \<Rightarrow> 'm spi_driver \<Rightarrow> Lpspi_Ip_StateStructureType res" where
  "initialised E inst d = rbind (DevAssert E (Lpspi_Ip_apxStateStructureArray d inst \<noteq> None)) (\<lambda>_. state_of inst d)"

section \<open>Frames\<close>

text \<open>A frame occupies one, two or four bytes of a buffer, in little-endian order.\<close>

definition frame_width :: "nat \<Rightarrow> nat" where
  "frame_width n = (if n < 9 then 1 else if n < 17 then 2 else 4)"

definition read_frame :: "'m spi_env \<Rightarrow> nat \<Rightarrow> nat \<Rightarrow> 'm spi_driver \<Rightarrow> 'm spi_driver res" where
  "read_frame E inst Index d =
     rbind (reg_read E inst RDR d) (\<lambda>(Data, d).
     rbind (state_of inst d) (\<lambda>S.
     case RxBuffer S of
       None \<Rightarrow> Inr d
     | Some buf \<Rightarrow>
         let w = frame_width (FrameSize (params_of S d))
         in rbind (mem_write buf (w * (RxIndex S + Index)) (frame_bytes True w Data)) (\<lambda>buf.
            Inr (set_state inst (RxBuffer_update (\<lambda>_. Some buf)) d))))"

definition Lpspi_Ip_ReadDataFromFifo :: "'m spi_env \<Rightarrow> nat \<Rightarrow> nat \<Rightarrow> 'm spi_driver \<Rightarrow> 'm spi_driver res" where
  "Lpspi_Ip_ReadDataFromFifo E inst NumberOfReads d =
     rbind (foldE (read_frame E inst) [0..<NumberOfReads] d) (\<lambda>d.
     Inr (set_state inst (RxIndex_update (\<lambda>n. w16 (n + NumberOfReads))) d))"

definition push_frame :: "'m spi_env \<Rightarrow> nat \<Rightarrow> nat \<Rightarrow> 'm spi_driver \<Rightarrow> 'm spi_driver res" where
  "push_frame E inst Index d =
     rbind (state_of inst d) (\<lambda>S.
     rbind (case TxBuffer S of
              None \<Rightarrow> Inr (DefaultData (params_of S d))
            | Some buf \<Rightarrow>
                let w = frame_width (FrameSize (params_of S d))
                in rbind (mem_read buf (w * (TxIndex S + Index)) w) (\<lambda>bs. Inr (frame_word True w bs))) (\<lambda>Data.
     reg_write E inst TDR Data d))"

definition Lpspi_Ip_PushDataToFifo :: "'m spi_env \<Rightarrow> nat \<Rightarrow> nat \<Rightarrow> 'm spi_driver \<Rightarrow> 'm spi_driver res" where
  "Lpspi_Ip_PushDataToFifo E inst NumberOfWrites d =
     rbind (foldE (push_frame E inst) [0..<NumberOfWrites] d) (\<lambda>d.
     Inr (set_state inst (TxIndex_update (\<lambda>n. w16 (n + NumberOfWrites))) d))"

definition Lpspi_Ip_ChannelFinished :: "nat \<Rightarrow> bool \<Rightarrow> 'm spi_driver \<Rightarrow> 'm spi_driver res" where
  "Lpspi_Ip_ChannelFinished inst ErrorFlag d =
     (let d = set_state inst (Status_update (\<lambda>_. if ErrorFlag then LPSPI_IP_FAULT else LPSPI_IP_IDLE)) d;
          ev = (if ErrorFlag then LPSPI_IP_EVENT_FAULT else LPSPI_IP_EVENT_END_TRANSFER)
      in rbind (state_of inst d) (\<lambda>S.
         Inr (case Callback S of None \<Rightarrow> d | Some f \<Rightarrow> d\<lparr>notifications := notifications d @ [(f, inst, ev)]\<rparr>)))"

definition Lpspi_Ip_CheckValidParameters :: "'m spi_env \<Rightarrow> Lpspi_Ip_ExternalDeviceType \<Rightarrow> nat \<Rightarrow> 'm spi_driver \<Rightarrow> unit res" where
  "Lpspi_Ip_CheckValidParameters E ext Length d =
     (let n = FrameSize (Lpspi_Ip_DeviceParamsCfg d (DeviceParams ext))
      in if n > 16 then DevAssert E (Length mod 4 = 0)
         else if n > 8 then DevAssert E (Length mod 2 = 0) else Inr ())"

section \<open>Starting a transfer\<close>

text \<open>The workaround for the erratum: reset the queues, in one of two ways.\<close>

fun poll_tcf :: "'m spi_env \<Rightarrow> nat \<Rightarrow> nat \<Rightarrow> 'm spi_driver \<Rightarrow> 'm spi_driver res" where
  "poll_tcf E inst 0 d = Inr d"
| "poll_tcf E inst (Suc n) d =
     rbind (reg_read E inst SR d) (\<lambda>(v, d).
     if v AND hdr_mask E F_SR_TCF = hdr_mask E F_SR_TCF then Inr d else poll_tcf E inst n d)"

definition Lpspi_ErrataHandle :: "'m spi_env \<Rightarrow> nat \<Rightarrow> 'm spi_driver \<Rightarrow> 'm spi_driver res" where
  "Lpspi_ErrataHandle E inst d =
     (if ERR_IPV_LPSPIV2_0001 E = Second_solution then
        rbind (reg_modify E inst CR (\<lambda>v. v OR hdr_mask E F_CR_RRF) d) (\<lambda>d.
        rbind (reg_read E inst RDR d) (\<lambda>(_, d).
        rbind (state_of inst d) (\<lambda>S.
        if TxFifoResetNeeded S
        then rbind (reg_modify E inst CR (\<lambda>v. v OR hdr_mask E F_CR_RTF) d)
               (poll_tcf E inst (OsIf_Timer_Dummy_MicrosToTicks LPSPI_IP_ERR_TIMEOUT_COUNTER))
        else Inr (set_state inst (TxFifoResetNeeded_update (\<lambda>_. True)) d))))
      else
        rbind (reg_read E inst CFGR1 d) (\<lambda>(cfg, d).
        rbind (reg_modify E inst CR (\<lambda>v. v OR hdr_mask E F_CR_RST) d) (\<lambda>d.
        rbind (reg_modify E inst CR (\<lambda>v. v AND NOT (hdr_mask E F_CR_RST)) d) (\<lambda>d.
        reg_write E inst CFGR1 cfg d))))"

text \<open>The first command after initialisation disables the controller, clears its queues and flags and enables it again.\<close>

definition first_command :: "'m spi_env \<Rightarrow> nat \<Rightarrow> 'm spi_driver \<Rightarrow> 'm spi_driver res" where
  "first_command E inst d =
     rbind (reg_modify E inst CR (\<lambda>v. v AND NOT (hdr_mask E F_CR_MEN)) d) (\<lambda>d.
     rbind (if ERR_IPV_LPSPIV2_0001 E \<noteq> No_workaround then Lpspi_ErrataHandle E inst d
            else reg_modify E inst CR (\<lambda>v. v OR (hdr_mask E F_CR_RTF OR hdr_mask E F_CR_RRF)) d) (\<lambda>d.
     rbind (reg_modify E inst SR (\<lambda>v. v AND 0xFFFFFFFF) d) (\<lambda>d.
     rbind (state_of inst d) (\<lambda>S.
     if \<not> SlaveMode (PhyUnitConfig S)
     then rbind (reg_write E inst CCR (Ccr (ExternalDevice S)) d) (reg_modify E inst CR (\<lambda>v. v OR hdr_mask E F_CR_MEN))
     else Inr d))))"

definition transfer_command :: "'m spi_env \<Rightarrow> Lpspi_Ip_StateStructureType \<Rightarrow> 'm spi_driver \<Rightarrow> u32" where
  "transfer_command E S d =
     (let P = params_of S d
      in Tcr (ExternalDevice S) OR fld E F_TCR_FRAMESZ (of_nat (FrameSize P) - 1) OR fld E F_TCR_LSBF (if Lsb P then 1 else 0))"

definition send_command :: "'m spi_env \<Rightarrow> nat \<Rightarrow> 'm spi_driver \<Rightarrow> 'm spi_driver res" where
  "send_command E inst d =
     rbind (state_of inst d) (\<lambda>S.
     let TransferCommand = transfer_command E S d; ty = TransferType (params_of S d); slave = SlaveMode (PhyUnitConfig S)
     in if ty \<noteq> LPSPI_IP_HALF_DUPLEX_RECEIVE then
          let TransferCommand = (if ty = LPSPI_IP_HALF_DUPLEX_TRANSMIT then TransferCommand OR hdr_mask E F_TCR_RXMSK else TransferCommand);
              TransferCommand = (if slave then TransferCommand AND NOT (hdr_mask E F_TCR_CONT) else TransferCommand)
          in rbind (reg_write E inst TCR
                     (if \<not> FirstCmd S \<and> TransferCommand AND hdr_mask E F_TCR_CONT \<noteq> 0
                      then TransferCommand OR hdr_mask E F_TCR_CONTC else TransferCommand) d) (\<lambda>d.
             rbind (if slave then reg_modify E inst CR (\<lambda>v. v OR hdr_mask E F_CR_MEN) d else Inr d) (\<lambda>d.
             Inr (if ty = LPSPI_IP_FULL_DUPLEX then set_state inst (CurrentTxFifoSlot_update (\<lambda>n. sub8 n 1)) d else d)))
        else if slave then
          rbind (reg_write E inst TCR ((TransferCommand OR hdr_mask E F_TCR_TXMSK) AND NOT (hdr_mask E F_TCR_CONT)) d)
            (reg_modify E inst CR (\<lambda>v. v OR hdr_mask E F_CR_MEN))
        else Inr d)"

text \<open>The number of frames of a transfer of so many bytes.\<close>

definition expected_frames :: "nat \<Rightarrow> nat \<Rightarrow> nat" where
  "expected_frames frameSize NumberOfFrames =
     (if frameSize < 9 then NumberOfFrames
      else if frameSize < 17 then (if NumberOfFrames mod 2 = 0 then NumberOfFrames div 2 else NumberOfFrames div 2 + 1)
      else (if NumberOfFrames mod 4 = 0 then NumberOfFrames div 4 else NumberOfFrames div 4 + 1))"

definition Lpspi_TransmitTxInit :: "'m spi_env \<Rightarrow> nat \<Rightarrow> u8 list option \<Rightarrow> nat \<Rightarrow> 'm spi_driver \<Rightarrow> 'm spi_driver res" where
  "Lpspi_TransmitTxInit E inst Tx NumberOfFrames d =
     rbind (state_of inst d) (\<lambda>S.
     rbind (if FirstCmd S then first_command E inst d else Inr d) (\<lambda>d.
     rbind (send_command E inst d) (\<lambda>d.
     rbind (state_of inst d) (\<lambda>S.
     Inr (set_state inst (\<lambda>S'. S'\<lparr>TxIndex := 0,
            TxBuffer := (if TransferType (params_of S d) \<noteq> LPSPI_IP_FULL_DUPLEX then TxBuffer S' else Tx),
            ExpectedFifoWrites := expected_frames (FrameSize (params_of S d)) NumberOfFrames\<rparr>) d)))))"

definition Lpspi_TransmitRxInit :: "nat \<Rightarrow> u8 list option \<Rightarrow> nat \<Rightarrow> 'm spi_driver \<Rightarrow> 'm spi_driver res" where
  "Lpspi_TransmitRxInit inst Rx NumberOfFrames d =
     rbind (state_of inst d) (\<lambda>S.
     Inr (set_state inst (\<lambda>S'. S'\<lparr>RxIndex := 0,
            RxBuffer := (if TransferType (params_of S d) \<noteq> LPSPI_IP_FULL_DUPLEX then RxBuffer S' else Rx),
            ExpectedFifoReads := expected_frames (FrameSize (params_of S d)) NumberOfFrames\<rparr>) d))"

section \<open>Moving frames\<close>

text \<open>
  The two halves of a pass over the queues, shared by the blocking transfer and the interrupt
  handler: take what was received, then fill the transmit queue with as many frames as are
  certain to fit. Each tells whether it moved anything.
\<close>

definition receive_part :: "'m spi_env \<Rightarrow> nat \<Rightarrow> 'm spi_driver \<Rightarrow> (bool \<times> 'm spi_driver) res" where
  "receive_part E inst d =
     rbind (reg_read E inst FSR d) (\<lambda>(v, d).
     let n = w8 (unat (field_of E F_FSR_RXCOUNT v))
     in if n = 0 then Inr (False, d)
        else
          rbind (state_of inst d) (\<lambda>S.
          let n = (if int n > int (ExpectedFifoReads S) - int (RxIndex S) then sub8 (ExpectedFifoReads S) (RxIndex S) else n);
              d = (if RxIndex S = 0 then set_state inst (CurrentTxFifoSlot_update (\<lambda>k. w8 (k + 1))) d else d)
          in rbind (Lpspi_Ip_ReadDataFromFifo E inst n d) (\<lambda>d.
             Inr (True, set_state inst (CurrentTxFifoSlot_update (\<lambda>k. w8 (k + n))) d))))"

definition clear_cs :: "'m spi_env \<Rightarrow> nat \<Rightarrow> 'm spi_driver \<Rightarrow> 'm spi_driver res" where
  "clear_cs E inst d =
     rbind (state_of inst d) (\<lambda>S.
     if KeepCs S then Inr d
     else rbind (reg_read E inst TCR d) (\<lambda>(v, d).
          if v AND hdr_mask E F_TCR_CONT \<noteq> 0
          then reg_modify E inst TCR (\<lambda>v. v AND NOT (hdr_mask E F_TCR_CONT OR hdr_mask E F_TCR_CONTC)) d
          else Inr d))"

definition transmit_part :: "'m spi_env \<Rightarrow> nat \<Rightarrow> ('m spi_driver \<Rightarrow> 'm spi_driver res) \<Rightarrow> 'm spi_driver \<Rightarrow> (bool \<times> 'm spi_driver) res" where
  "transmit_part E inst finish d =
     rbind (state_of inst d) (\<lambda>S.
     if CurrentTxFifoSlot S = 0 then Inr (False, d)
     else if ExpectedFifoWrites S \<noteq> TxIndex S then
       let n = CurrentTxFifoSlot S;
           n = (if int n > int (ExpectedFifoWrites S) - int (TxIndex S) then sub8 (ExpectedFifoWrites S) (TxIndex S) else n)
       in rbind (Lpspi_Ip_PushDataToFifo E inst n d) (\<lambda>d.
          Inr (True, set_state inst (CurrentTxFifoSlot_update (\<lambda>k. sub8 k n)) d))
     else rbind (finish d) (\<lambda>d. Inr (False, d)))"

section \<open>Blocking transfer\<close>

text \<open>
  The loop of a blocking transfer. It ends when all frames are received or when so many passes
  moved nothing that the time-out is reached; the bound on the passes is therefore the time-out
  for every frame still to be moved.
\<close>

fun sync_loop :: "'m spi_env \<Rightarrow> nat \<Rightarrow> nat \<Rightarrow> nat \<Rightarrow> nat \<Rightarrow> 'm spi_driver \<Rightarrow> (Lpspi_Ip_StatusType \<times> 'm spi_driver) res" where
  "sync_loop E inst TimeoutTicks 0 ElapsedTicks d = Inl Diverges"
| "sync_loop E inst TimeoutTicks (Suc fuel) ElapsedTicks d =
     rbind (state_of inst d) (\<lambda>S.
     if RxIndex S = ExpectedFifoReads S then Inr (LPSPI_IP_STATUS_SUCCESS, d)
     else
       rbind (receive_part E inst d) (\<lambda>(r, d).
       rbind (transmit_part E inst (clear_cs E inst) d) (\<lambda>(t, d).
       let ElapsedTicks = (if r \<or> t then 0 else ElapsedTicks) + OsIf_Timer_Dummy_GetElapsed
       in if ElapsedTicks \<ge> TimeoutTicks then Inr (LPSPI_IP_TIMEOUT, d)
          else sync_loop E inst TimeoutTicks fuel ElapsedTicks d)))"

definition sync_passes :: "nat \<Rightarrow> Lpspi_Ip_StateStructureType \<Rightarrow> nat" where
  "sync_passes TimeoutTicks S = (ExpectedFifoReads S + ExpectedFifoWrites S + 1) * (TimeoutTicks + 1)"

definition Lpspi_Ip_SyncTransmit ::
    "'m spi_env \<Rightarrow> Lpspi_Ip_ExternalDeviceType option \<Rightarrow> u8 list option \<Rightarrow> u8 list option \<Rightarrow> nat \<Rightarrow> nat \<Rightarrow>
     'm spi_driver \<Rightarrow> (Lpspi_Ip_StatusType \<times> 'm spi_driver) res" where
  "Lpspi_Ip_SyncTransmit E ext Tx Rx Length TimeOut d =
     rbind (device_of E ext) (\<lambda>ext.
     rbind (DevAssert E (Length \<noteq> 0)) (\<lambda>_.
     rbind (DevAssert E (TimeOut \<noteq> 0)) (\<lambda>_.
     rbind (Lpspi_Ip_CheckValidParameters E ext Length d) (\<lambda>_.
     let inst = ExternalInstance ext
     in rbind (initialised E inst d) (\<lambda>S.
        if Status S = LPSPI_IP_BUSY then Inr (LPSPI_IP_STATUS_FAIL, d)
        else
          let d = set_state inst (\<lambda>S. S\<lparr>Status := LPSPI_IP_BUSY, ExternalDevice := ext\<rparr>) d
          in rbind (reg_write E inst DER 0 d) (\<lambda>d.
             rbind (reg_write E inst IER 0 d) (\<lambda>d.
             rbind (Lpspi_TransmitTxInit E inst Tx Length
                      (set_state inst (CurrentTxFifoSlot_update (\<lambda>_. LPSPI_IP_FIFO_SIZE_U8)) d)) (\<lambda>d.
             rbind (Lpspi_TransmitRxInit inst Rx Length d) (\<lambda>d.
             rbind (state_of inst d) (\<lambda>S.
             let TimeoutTicks = OsIf_Timer_Dummy_MicrosToTicks TimeOut
             in rbind (sync_loop E inst TimeoutTicks (sync_passes TimeoutTicks S) 0 d) (\<lambda>(st, d).
                Inr (st, set_state inst (Status_update (\<lambda>_.
                   if st \<noteq> LPSPI_IP_STATUS_SUCCESS \<or> Length = 0 then LPSPI_IP_FAULT else LPSPI_IP_IDLE)) d))))))))))))"

section \<open>Transfer in the background\<close>

definition sr_w1c :: "'m spi_env \<Rightarrow> u32" where
  "sr_w1c E = hdr_mask E F_SR_WCF OR hdr_mask E F_SR_FCF OR hdr_mask E F_SR_TCF OR hdr_mask E F_SR_TEF OR hdr_mask E F_SR_REF OR hdr_mask E F_SR_DMF"

definition Lpspi_Ip_TransferProcess :: "'m spi_env \<Rightarrow> nat \<Rightarrow> 'm spi_driver \<Rightarrow> 'm spi_driver res" where
  "Lpspi_Ip_TransferProcess E inst d =
     rbind (state_of inst d) (\<lambda>S.
     if Status S \<noteq> LPSPI_IP_BUSY then Inr d
     else
       rbind (reg_read E inst SR d) (\<lambda>(SrStatusRegister, d).
       rbind (reg_modify E inst SR (\<lambda>v. v AND sr_w1c E) d) (\<lambda>d.
       let ErrorFlag = (SrStatusRegister AND (hdr_mask E F_SR_REF OR hdr_mask E F_SR_TEF) \<noteq> 0)
       in rbind (if ErrorFlag then Inr d
                 else rbind (receive_part E inst d) (\<lambda>(_, d).
                      rbind (transmit_part E inst (\<lambda>d.
                        rbind (reg_modify E inst IER (\<lambda>v. v AND NOT (hdr_mask E F_IER_TDIE)) d) (clear_cs E inst)) d) (\<lambda>(_, d).
                      Inr d))) (\<lambda>d.
          rbind (state_of inst d) (\<lambda>S.
          if RxIndex S = ExpectedFifoReads S \<or> ErrorFlag then
            rbind (if \<not> KeepCs S \<or> ErrorFlag then reg_modify E inst CR (\<lambda>v. v AND NOT (hdr_mask E F_CR_MEN)) d else Inr d) (\<lambda>d.
            rbind (reg_write E inst IER 0 d) (Lpspi_Ip_ChannelFinished inst ErrorFlag))
          else Inr d)))))"

definition Lpspi_Ip_AsyncTransmit ::
    "'m spi_env \<Rightarrow> Lpspi_Ip_ExternalDeviceType option \<Rightarrow> u8 list option \<Rightarrow> u8 list option \<Rightarrow> nat \<Rightarrow> nat option \<Rightarrow>
     'm spi_driver \<Rightarrow> (Lpspi_Ip_StatusType \<times> 'm spi_driver) res" where
  "Lpspi_Ip_AsyncTransmit E ext Tx Rx Length EndCallback d =
     rbind (device_of E ext) (\<lambda>ext.
     rbind (DevAssert E (Length \<noteq> 0)) (\<lambda>_.
     rbind (Lpspi_Ip_CheckValidParameters E ext Length d) (\<lambda>_.
     let inst = ExternalInstance ext
     in rbind (initialised E inst d) (\<lambda>S.
        if Status S = LPSPI_IP_BUSY then Inr (LPSPI_IP_STATUS_FAIL, d)
        else
          rbind (reg_modify E inst CFGR1 (\<lambda>v. v AND NOT (hdr_mask E F_CFGR1_PCSCFG OR hdr_mask E F_CFGR1_OUTCFG OR hdr_mask E F_CFGR1_PINCFG)) d) (\<lambda>d.
          let d = set_state inst (\<lambda>S. S\<lparr>Status := LPSPI_IP_BUSY, ExternalDevice := ext, Callback := EndCallback,
                                         CurrentTxFifoSlot := LPSPI_IP_FIFO_SIZE_U8\<rparr>) d
          in rbind (Lpspi_TransmitTxInit E inst Tx Length d) (\<lambda>d.
             rbind (Lpspi_TransmitRxInit inst Rx Length d) (\<lambda>d.
             rbind (reg_write E inst DER 0 d) (\<lambda>d.
             rbind (reg_write E inst IER (case TransferMode S of
                      LPSPI_IP_POLLING \<Rightarrow> 0
                    | LPSPI_IP_INTERRUPT \<Rightarrow> hdr_mask E F_IER_RDIE OR hdr_mask E F_IER_TDIE OR hdr_mask E F_IER_REIE OR hdr_mask E F_IER_TEIE) d) (\<lambda>d.
             Inr (LPSPI_IP_STATUS_SUCCESS, d))))))))))"

section \<open>Half duplex\<close>

definition Lpspi_Ip_HalfDuplexPushDataToFifo :: "'m spi_env \<Rightarrow> nat \<Rightarrow> nat \<Rightarrow> 'm spi_driver \<Rightarrow> 'm spi_driver res" where
  "Lpspi_Ip_HalfDuplexPushDataToFifo E inst NumberOfWrites d =
     rbind (state_of inst d) (\<lambda>S.
     Lpspi_Ip_PushDataToFifo E inst
       (if int NumberOfWrites > int (ExpectedFifoWrites S) - int (TxIndex S)
        then sub8 (ExpectedFifoWrites S) (TxIndex S) else NumberOfWrites) d)"

definition Lpspi_Ip_HalfDuplexTransmitProcess :: "'m spi_env \<Rightarrow> nat \<Rightarrow> nat \<Rightarrow> 'm spi_driver \<Rightarrow> (bool \<times> 'm spi_driver) res" where
  "Lpspi_Ip_HalfDuplexTransmitProcess E inst NumberOfWrites d =
     rbind (state_of inst d) (\<lambda>S.
     if ExpectedFifoWrites S \<noteq> TxIndex S
     then rbind (Lpspi_Ip_HalfDuplexPushDataToFifo E inst NumberOfWrites d) (\<lambda>d. Inr (False, d))
     else rbind (clear_cs E inst d) (\<lambda>d. Inr (True, d)))"

definition Lpspi_Ip_HalfDuplexPrepare :: "'m spi_env \<Rightarrow> nat \<Rightarrow> u8 list option \<Rightarrow> 'm spi_driver \<Rightarrow> 'm spi_driver res" where
  "Lpspi_Ip_HalfDuplexPrepare E inst Buffer d =
     rbind (state_of inst d) (\<lambda>S.
     rbind (reg_modify E inst CFGR1 (\<lambda>v. v AND NOT (hdr_mask E F_CFGR1_PCSCFG OR hdr_mask E F_CFGR1_OUTCFG OR hdr_mask E F_CFGR1_PINCFG)) d) (\<lambda>d.
     rbind (reg_modify E inst CFGR1 (\<lambda>v. v OR HalfDuplexCfgr1 (ExternalDevice S)) d) (\<lambda>d.
     Inr (set_state inst (\<lambda>S'.
       if TransferType (params_of S d) = LPSPI_IP_HALF_DUPLEX_TRANSMIT
       then S'\<lparr>CurrentTxFifoSlot := 1, TxBuffer := Buffer\<rparr>
       else let c = transfer_command E S d; slave = SlaveMode (PhyUnitConfig S)
            in S'\<lparr>CurrentTxFifoSlot := (if slave then 0 else 1), RxBuffer := Buffer,
                  HalfDuplexTcrCommand := (if slave then c AND NOT (hdr_mask E F_TCR_CONT) else c) OR hdr_mask E F_TCR_TXMSK\<rparr>) d))))"

text \<open>Waiting until the transmit queue is empty.\<close>

fun drain_loop :: "'m spi_env \<Rightarrow> nat \<Rightarrow> nat \<Rightarrow> nat \<Rightarrow> 'm spi_driver \<Rightarrow> (nat \<times> 'm spi_driver) res" where
  "drain_loop E inst 0 ElapsedTicks d = rbind (reg_read E inst FSR d) (\<lambda>(_, d). Inr (ElapsedTicks, d))"
| "drain_loop E inst (Suc n) ElapsedTicks d =
     rbind (reg_read E inst FSR d) (\<lambda>(v, d).
     if v AND hdr_mask E F_FSR_TXCOUNT \<noteq> 0 then drain_loop E inst n (ElapsedTicks + OsIf_Timer_Dummy_GetElapsed) d
     else Inr (ElapsedTicks, d))"

definition Lpspi_Ip_HalfDupleTransmitChannelComplete :: "'m spi_env \<Rightarrow> nat \<Rightarrow> 'm spi_driver \<Rightarrow> (bool \<times> 'm spi_driver) res" where
  "Lpspi_Ip_HalfDupleTransmitChannelComplete E inst d =
     rbind (state_of inst d) (\<lambda>S.
     let TimeoutTicks = OsIf_Timer_Dummy_MicrosToTicks LPSPI_IP_HALF_DUPLEX_TIMEOUT_COUNTER
     in rbind (if \<not> KeepCs S \<and> \<not> SlaveMode (PhyUnitConfig S)
               then reg_modify E inst TCR (\<lambda>v. v AND NOT (hdr_mask E F_TCR_CONT OR hdr_mask E F_TCR_CONTC)) d else Inr d) (\<lambda>d.
        if NextChannelIsRX S \<or> \<not> KeepCs S
        then rbind (drain_loop E inst TimeoutTicks 0 d) (\<lambda>(ElapsedTicks, d).
             if ElapsedTicks \<ge> TimeoutTicks
             then rbind (reg_modify E inst CR (\<lambda>v. v OR hdr_mask E F_CR_RTF) d) (\<lambda>d. Inr (True, d))
             else Inr (False, d))
        else Inr (False, d)))"

text \<open>Receiving: take what has arrived, and request the next frame when the transmit queue is empty.\<close>

definition half_duplex_receive :: "'m spi_env \<Rightarrow> nat \<Rightarrow> bool \<Rightarrow> 'm spi_driver \<Rightarrow> 'm spi_driver res" where
  "half_duplex_receive E inst request d =
     rbind (reg_read E inst FSR d) (\<lambda>(v, d).
     rbind (state_of inst d) (\<lambda>S.
     let n = w8 (unat (field_of E F_FSR_RXCOUNT v));
         n = (if int n > int (ExpectedFifoReads S) - int (RxIndex S) then sub8 (ExpectedFifoReads S) (RxIndex S) else n)
     in rbind (if n \<noteq> 0 then Lpspi_Ip_ReadDataFromFifo E inst n d else Inr d) (\<lambda>d.
        if \<not> request then Inr d
        else rbind (reg_read E inst FSR d) (\<lambda>(v, d).
             rbind (state_of inst d) (\<lambda>S.
             if v AND hdr_mask E F_FSR_TXCOUNT = 0 \<and> ExpectedFifoWrites S \<noteq> TxIndex S
             then rbind (reg_write E inst TCR (HalfDuplexTcrCommand S) d) (\<lambda>d.
                  Inr (set_state inst (TxIndex_update (\<lambda>n. w16 (n + 1))) d))
             else Inr d)))))"

definition free_slots :: "'m spi_env \<Rightarrow> u32 \<Rightarrow> nat" where
  "free_slots E v = sub8 LPSPI_IP_FIFO_SIZE_U8 (w8 (unat (field_of E F_FSR_TXCOUNT v)))"

definition Lpspi_Ip_TransferProcessHalfDuplex :: "'m spi_env \<Rightarrow> nat \<Rightarrow> 'm spi_driver \<Rightarrow> 'm spi_driver res" where
  "Lpspi_Ip_TransferProcessHalfDuplex E inst d =
     rbind (state_of inst d) (\<lambda>S.
     if Status S \<noteq> LPSPI_IP_BUSY then Inr d
     else
       rbind (reg_read E inst SR d) (\<lambda>(SrStatusRegister, d).
       rbind (reg_modify E inst SR (\<lambda>v. v AND sr_w1c E) d) (\<lambda>d.
       let ty = TransferType (params_of S d); slave = SlaveMode (PhyUnitConfig S)
       in rbind (if SrStatusRegister AND (hdr_mask E F_SR_REF OR hdr_mask E F_SR_TEF) \<noteq> 0 then Inr (True, False, d)
                 else
                   rbind (if ExpectedFifoWrites S = TxIndex S \<and> ty = LPSPI_IP_HALF_DUPLEX_TRANSMIT
                          then rbind (Lpspi_Ip_HalfDupleTransmitChannelComplete E inst d) (\<lambda>(e, d). Inr (e, True, d))
                          else Inr (False, False, d)) (\<lambda>(e, c, d).
                   if ty = LPSPI_IP_HALF_DUPLEX_RECEIVE
                   then rbind (half_duplex_receive E inst (\<not> slave) d) (\<lambda>d. Inr (e, c, d))
                   else
                     rbind (reg_read E inst FSR d) (\<lambda>(v, d).
                     if free_slots E v \<noteq> 0 \<and> ExpectedFifoWrites S \<noteq> TxIndex S
                     then rbind (Lpspi_Ip_HalfDuplexPushDataToFifo E inst (free_slots E v) d) (\<lambda>d.
                          rbind (state_of inst d) (\<lambda>S.
                          if slave \<and> ExpectedFifoWrites S = TxIndex S
                          then rbind (reg_modify E inst IER (\<lambda>v. v AND NOT (hdr_mask E F_IER_TDIE)) d) (\<lambda>d. Inr (e, True, d))
                          else Inr (e, c, d)))
                     else Inr (e, c, d)))) (\<lambda>(ErrorFlag, TransferCompleted, d).
          rbind (state_of inst d) (\<lambda>S.
          if (ty = LPSPI_IP_HALF_DUPLEX_TRANSMIT \<and> TransferCompleted) \<or>
             (RxIndex S = ExpectedFifoReads S \<and> ty = LPSPI_IP_HALF_DUPLEX_RECEIVE) \<or> ErrorFlag
          then rbind (reg_write E inst IER 0 d) (Lpspi_Ip_ChannelFinished inst ErrorFlag)
          else Inr d)))))"

text \<open>
  The loop of a blocking half-duplex transfer. Every pass sets the elapsed time to zero before it
  counts, so only a time-out of at most one tick is ever reached; the bound on the passes is a
  parameter.
\<close>

fun half_duplex_loop :: "'m spi_env \<Rightarrow> nat \<Rightarrow> Lpspi_Ip_HalfDuplexType \<Rightarrow> nat \<Rightarrow> nat \<Rightarrow> 'm spi_driver \<Rightarrow> (Lpspi_Ip_StatusType \<times> 'm spi_driver) res" where
  "half_duplex_loop E inst ty TimeoutTicks 0 d = Inl Diverges"
| "half_duplex_loop E inst ty TimeoutTicks (Suc fuel) d =
     rbind (if ty = LPSPI_IP_HALF_DUPLEX_RECEIVE
            then rbind (half_duplex_receive E inst True d) (\<lambda>d.
                 rbind (state_of inst d) (\<lambda>S. Inr (ExpectedFifoReads S = RxIndex S, False, d)))
            else rbind (reg_read E inst FSR d) (\<lambda>(v, d).
                 rbind (if free_slots E v \<noteq> 0 then Lpspi_Ip_HalfDuplexTransmitProcess E inst (free_slots E v) d
                        else Inr (False, d)) (\<lambda>(c, d).
                 rbind (state_of inst d) (\<lambda>S.
                 if c \<and> (NextChannelIsRX S \<or> \<not> KeepCs S)
                 then rbind (reg_read E inst FSR d) (\<lambda>(v, d). Inr (False, v AND hdr_mask E F_FSR_TXCOUNT = 0, d))
                 else Inr (False, c, d))))) (\<lambda>(stop, TransferCompleted, d).
     if stop then Inr (LPSPI_IP_STATUS_SUCCESS, d)
     else if OsIf_Timer_Dummy_GetElapsed \<ge> TimeoutTicks then Inr (LPSPI_IP_TIMEOUT, d)
     else if TransferCompleted then Inr (LPSPI_IP_STATUS_SUCCESS, d)
     else half_duplex_loop E inst ty TimeoutTicks fuel d)"

definition Lpspi_Ip_SyncTransmitHalfDuplex ::
    "nat \<Rightarrow> 'm spi_env \<Rightarrow> Lpspi_Ip_ExternalDeviceType option \<Rightarrow> u8 list option \<Rightarrow> nat \<Rightarrow> Lpspi_Ip_HalfDuplexType \<Rightarrow> nat \<Rightarrow>
     'm spi_driver \<Rightarrow> (Lpspi_Ip_StatusType \<times> 'm spi_driver) res" where
  "Lpspi_Ip_SyncTransmitHalfDuplex fuel E ext Buffer Length ty TimeOut d =
     rbind (device_of E ext) (\<lambda>ext.
     rbind (DevAssert E (Length \<noteq> 0)) (\<lambda>_.
     rbind (Lpspi_Ip_CheckValidParameters E ext Length d) (\<lambda>_.
     let inst = ExternalInstance ext
     in rbind (initialised E inst d) (\<lambda>S.
        if Status S = LPSPI_IP_BUSY then Inr (LPSPI_IP_STATUS_FAIL, d)
        else
          let d = set_state inst (\<lambda>S. S\<lparr>Status := LPSPI_IP_BUSY, ExternalDevice := ext\<rparr>) d;
              d = d\<lparr>Lpspi_Ip_DeviceParamsCfg := (Lpspi_Ip_DeviceParamsCfg d)
                     (DeviceParams ext := (Lpspi_Ip_DeviceParamsCfg d (DeviceParams ext))\<lparr>TransferType := ty\<rparr>)\<rparr>
          in rbind (Lpspi_Ip_HalfDuplexPrepare E inst Buffer d) (\<lambda>d.
             rbind (reg_write E inst DER 0 d) (\<lambda>d.
             rbind (reg_write E inst IER 0 d) (\<lambda>d.
             rbind (Lpspi_TransmitTxInit E inst None Length d) (\<lambda>d.
             rbind (if ty = LPSPI_IP_HALF_DUPLEX_RECEIVE then Lpspi_TransmitRxInit inst None Length d else Inr d) (\<lambda>d.
             rbind (half_duplex_loop E inst ty (OsIf_Timer_Dummy_MicrosToTicks TimeOut) fuel d) (\<lambda>(st, d).
             Inr (st, set_state inst (Status_update (\<lambda>_. if st \<noteq> LPSPI_IP_STATUS_SUCCESS then LPSPI_IP_FAULT else LPSPI_IP_IDLE)) d)))))))))))"

definition Lpspi_Ip_AsyncTransmitHalfDuplex ::
    "'m spi_env \<Rightarrow> Lpspi_Ip_ExternalDeviceType option \<Rightarrow> u8 list option \<Rightarrow> nat \<Rightarrow> Lpspi_Ip_HalfDuplexType \<Rightarrow> nat option \<Rightarrow>
     'm spi_driver \<Rightarrow> (Lpspi_Ip_StatusType \<times> 'm spi_driver) res" where
  "Lpspi_Ip_AsyncTransmitHalfDuplex E ext Buffer Length ty EndCallback d =
     rbind (device_of E ext) (\<lambda>ext.
     rbind (DevAssert E (Length \<noteq> 0)) (\<lambda>_.
     rbind (Lpspi_Ip_CheckValidParameters E ext Length d) (\<lambda>_.
     let inst = ExternalInstance ext
     in rbind (initialised E inst d) (\<lambda>S.
        if Status S = LPSPI_IP_BUSY then Inr (LPSPI_IP_STATUS_FAIL, d)
        else
          let d = set_state inst (\<lambda>S. S\<lparr>Status := LPSPI_IP_BUSY, ExternalDevice := ext\<rparr>) d;
              d = d\<lparr>Lpspi_Ip_DeviceParamsCfg := (Lpspi_Ip_DeviceParamsCfg d)
                     (DeviceParams ext := (Lpspi_Ip_DeviceParamsCfg d (DeviceParams ext))\<lparr>TransferType := ty\<rparr>)\<rparr>
          in rbind (Lpspi_Ip_HalfDuplexPrepare E inst Buffer d) (\<lambda>d.
             rbind (Lpspi_TransmitTxInit E inst None Length (set_state inst (Callback_update (\<lambda>_. EndCallback)) d)) (\<lambda>d.
             rbind (if ty = LPSPI_IP_HALF_DUPLEX_RECEIVE then Lpspi_TransmitRxInit inst None Length d else Inr d) (\<lambda>d.
             let InterruptEnable = (if SlaveMode (PhyUnitConfig S) \<and> ty = LPSPI_IP_HALF_DUPLEX_RECEIVE
                    then hdr_mask E F_IER_RDIE OR hdr_mask E F_IER_REIE
                    else if ty = LPSPI_IP_HALF_DUPLEX_TRANSMIT then hdr_mask E F_IER_TDIE OR hdr_mask E F_IER_TEIE
                    else hdr_mask E F_IER_RDIE OR hdr_mask E F_IER_TDIE OR hdr_mask E F_IER_REIE OR hdr_mask E F_IER_TEIE)
             in rbind (reg_write E inst FCR (fld E F_FCR_TXWATER
                         (if ty = LPSPI_IP_HALF_DUPLEX_RECEIVE then 0 else of_nat LPSPI_IP_FIFO_SIZE_U8 - 1)) d) (\<lambda>d.
                rbind (reg_write E inst DER 0 d) (\<lambda>d.
                rbind (reg_write E inst IER (case TransferMode S of LPSPI_IP_POLLING \<Rightarrow> 0 | LPSPI_IP_INTERRUPT \<Rightarrow> InterruptEnable) d) (\<lambda>d.
                Inr (LPSPI_IP_STATUS_SUCCESS, d)))))))))))"

section \<open>Initialisation and control\<close>

definition Lpspi_Ip_UpdateTransferMode :: "'m spi_env \<Rightarrow> nat \<Rightarrow> Lpspi_Ip_ModeType \<Rightarrow> 'm spi_driver \<Rightarrow> (Lpspi_Ip_StatusType \<times> 'm spi_driver) res" where
  "Lpspi_Ip_UpdateTransferMode E inst Mode d =
     rbind (DevAssert E (inst < LPSPI_INSTANCE_COUNT E)) (\<lambda>_.
     rbind (initialised E inst d) (\<lambda>S.
     if Status S \<noteq> LPSPI_IP_BUSY
     then Inr (LPSPI_IP_STATUS_SUCCESS, set_state inst (TransferMode_update (\<lambda>_. Mode)) d)
     else Inr (LPSPI_IP_STATUS_FAIL, d)))"

definition Lpspi_Ip_Init :: "'m spi_env \<Rightarrow> Lpspi_Ip_ConfigType option \<Rightarrow> 'm spi_driver \<Rightarrow> (Lpspi_Ip_StatusType \<times> 'm spi_driver) res" where
  "Lpspi_Ip_Init E cfg d =
     rbind (DevAssert E (cfg \<noteq> None)) (\<lambda>_.
     case cfg of
       None \<Rightarrow> Inl NullPointer
     | Some cfg \<Rightarrow>
         let inst = PhyInstance cfg
         in rbind (DevAssert E (Lpspi_Ip_apxStateStructureArray d inst = None)) (\<lambda>_.
            let d = d\<lparr>Lpspi_Ip_apxStateStructureArray := (Lpspi_Ip_apxStateStructureArray d)(inst \<mapsto> StateIndex cfg)\<rparr>;
                d = set_state inst (PhyUnitConfig_update (\<lambda>_. cfg)) d
            in rbind (reg_write E inst CR (Cr cfg OR hdr_mask E F_CR_DBGEN) d) (\<lambda>d.
               rbind (reg_write E inst CFGR1 (Cfgr1 cfg) d) (\<lambda>d.
               rbind (reg_write E inst FCR (fld E F_FCR_TXWATER (of_nat LPSPI_IP_FIFO_SIZE_U8 - 2)) d) (\<lambda>d.
               let d = set_state inst (\<lambda>S. S\<lparr>KeepCs := False, FirstCmd := True,
                         TxFifoResetNeeded := (if ERR_IPV_LPSPIV2_0001 E = Second_solution then False else TxFifoResetNeeded S),
                         Status := LPSPI_IP_IDLE\<rparr>) d
               in rbind (Lpspi_Ip_UpdateTransferMode E inst (PhyTransferMode cfg) d) (\<lambda>(_, d).
                  Inr (LPSPI_IP_STATUS_SUCCESS, d)))))))"

definition Lpspi_Ip_DeInit :: "'m spi_env \<Rightarrow> nat \<Rightarrow> 'm spi_driver \<Rightarrow> (Lpspi_Ip_StatusType \<times> 'm spi_driver) res" where
  "Lpspi_Ip_DeInit E inst d =
     rbind (DevAssert E (inst < LPSPI_INSTANCE_COUNT E)) (\<lambda>_.
     rbind (initialised E inst d) (\<lambda>S.
     if Status S = LPSPI_IP_BUSY then Inr (LPSPI_IP_STATUS_FAIL, d)
     else
       rbind (reg_modify E inst CR (\<lambda>v. v OR fld E F_CR_RST 1) d) (\<lambda>d.
       rbind (reg_write E inst CR 0 d) (\<lambda>d.
       Inr (LPSPI_IP_STATUS_SUCCESS, d\<lparr>Lpspi_Ip_apxStateStructureArray := (Lpspi_Ip_apxStateStructureArray d)(inst := None)\<rparr>)))))"

definition Lpspi_Ip_ManageBuffers :: "'m spi_env \<Rightarrow> nat \<Rightarrow> 'm spi_driver \<Rightarrow> 'm spi_driver res" where
  "Lpspi_Ip_ManageBuffers E inst d =
     rbind (DevAssert E (inst < LPSPI_INSTANCE_COUNT E)) (\<lambda>_.
     rbind (initialised E inst d) (\<lambda>S.
     if TransferMode S \<noteq> LPSPI_IP_POLLING then Inr d
     else
       rbind (reg_read E inst SR d) (\<lambda>(v, d).
       rbind (if v AND hdr_mask E F_SR_RDF \<noteq> 0 then Inr (True, d)
              else rbind (reg_read E inst SR d) (\<lambda>(v, d). Inr (v AND hdr_mask E F_SR_TDF \<noteq> 0 \<and> CurrentTxFifoSlot S \<noteq> 0, d))) (\<lambda>(b, d).
       if \<not> b then Inr d
       else if TransferType (params_of S d) \<noteq> LPSPI_IP_FULL_DUPLEX then Lpspi_Ip_TransferProcessHalfDuplex E inst d
       else Lpspi_Ip_TransferProcess E inst d))))"

definition Lpspi_Ip_IrqHandler :: "'m spi_env \<Rightarrow> nat \<Rightarrow> 'm spi_driver \<Rightarrow> 'm spi_driver res" where
  "Lpspi_Ip_IrqHandler E inst d =
     (case Lpspi_Ip_apxStateStructureArray d inst of
        None \<Rightarrow> reg_modify E inst SR (\<lambda>v. v AND sr_w1c E) d
      | Some _ \<Rightarrow>
          rbind (reg_read E inst SR d) (\<lambda>(v, d).
          let IrqFlags = v AND (hdr_mask E F_SR_TDF OR hdr_mask E F_SR_RDF OR hdr_mask E F_SR_TEF OR hdr_mask E F_SR_REF)
          in rbind (reg_read E inst IER d) (\<lambda>(v, d).
             let IrqFlags = IrqFlags AND (v AND (hdr_mask E F_IER_TDIE OR hdr_mask E F_IER_RDIE OR hdr_mask E F_IER_TEIE OR hdr_mask E F_IER_REIE))
             in if IrqFlags = 0 then Inr d
                else rbind (state_of inst d) (\<lambda>S.
                     if TransferType (params_of S d) \<in> {LPSPI_IP_HALF_DUPLEX_TRANSMIT, LPSPI_IP_HALF_DUPLEX_RECEIVE}
                     then Lpspi_Ip_TransferProcessHalfDuplex E inst d
                     else Lpspi_Ip_TransferProcess E inst d))))"

text \<open>The parameters of an external device can be changed while its instance is not busy.\<close>

definition update_params :: "'m spi_env \<Rightarrow> Lpspi_Ip_ExternalDeviceType \<Rightarrow> (Lpspi_Ip_DeviceParamsType \<Rightarrow> Lpspi_Ip_DeviceParamsType) \<Rightarrow>
    'm spi_driver \<Rightarrow> (Lpspi_Ip_StatusType \<times> 'm spi_driver) res" where
  "update_params E ext f d =
     rbind (initialised E (ExternalInstance ext) d) (\<lambda>S.
     if Status S \<noteq> LPSPI_IP_BUSY
     then Inr (LPSPI_IP_STATUS_SUCCESS, d\<lparr>Lpspi_Ip_DeviceParamsCfg := (Lpspi_Ip_DeviceParamsCfg d)
                (DeviceParams ext := f (Lpspi_Ip_DeviceParamsCfg d (DeviceParams ext)))\<rparr>)
     else Inr (LPSPI_IP_STATUS_FAIL, d))"

definition Lpspi_Ip_UpdateFrameSize :: "'m spi_env \<Rightarrow> Lpspi_Ip_ExternalDeviceType option \<Rightarrow> nat \<Rightarrow> 'm spi_driver \<Rightarrow> (Lpspi_Ip_StatusType \<times> 'm spi_driver) res" where
  "Lpspi_Ip_UpdateFrameSize E ext newSize d =
     rbind (device_of E ext) (\<lambda>ext.
     rbind (DevAssert E (LPSPI_IP_FRAMESIZE_MAX_U16 \<ge> newSize)) (\<lambda>_.
     rbind (DevAssert E (LPSPI_IP_FRAMESIZE_MIN_U16 \<le> newSize)) (\<lambda>_.
     update_params E ext (FrameSize_update (\<lambda>_. newSize)) d)))"

definition Lpspi_Ip_UpdateLsb :: "'m spi_env \<Rightarrow> Lpspi_Ip_ExternalDeviceType option \<Rightarrow> bool \<Rightarrow> 'm spi_driver \<Rightarrow> (Lpspi_Ip_StatusType \<times> 'm spi_driver) res" where
  "Lpspi_Ip_UpdateLsb E ext b d = rbind (device_of E ext) (\<lambda>ext. update_params E ext (Lsb_update (\<lambda>_. b)) d)"

definition Lpspi_Ip_UpdateDefaultTransmitData :: "'m spi_env \<Rightarrow> Lpspi_Ip_ExternalDeviceType option \<Rightarrow> u32 \<Rightarrow> 'm spi_driver \<Rightarrow> (Lpspi_Ip_StatusType \<times> 'm spi_driver) res" where
  "Lpspi_Ip_UpdateDefaultTransmitData E ext v d = rbind (device_of E ext) (\<lambda>ext. update_params E ext (DefaultData_update (\<lambda>_. v)) d)"

definition Lpspi_Ip_Cancel :: "'m spi_env \<Rightarrow> nat \<Rightarrow> 'm spi_driver \<Rightarrow> 'm spi_driver res" where
  "Lpspi_Ip_Cancel E inst d =
     rbind (DevAssert E (inst < LPSPI_INSTANCE_COUNT E)) (\<lambda>_.
     rbind (initialised E inst d) (\<lambda>S.
     if Status S \<noteq> LPSPI_IP_BUSY then Inr d
     else
       rbind (reg_modify E inst CR (\<lambda>v. v AND NOT (hdr_mask E F_CR_MEN)) d) (\<lambda>d.
       rbind (reg_read E inst CFGR1 d) (\<lambda>(cfg, d).
       rbind (reg_modify E inst CR (\<lambda>v. v OR hdr_mask E F_CR_RST) d) (\<lambda>d.
       rbind (reg_modify E inst CR (\<lambda>v. v AND NOT (hdr_mask E F_CR_RST)) d) (\<lambda>d.
       let d = set_state inst (TxFifoResetNeeded_update (\<lambda>b. if ERR_IPV_LPSPIV2_0001 E = Second_solution then False else b)) d
       in rbind (reg_write E inst CFGR1 cfg d) (\<lambda>d.
          Inr (set_state inst (Status_update (\<lambda>_. LPSPI_IP_IDLE)) d))))))))"

definition Lpspi_Ip_GetStatus :: "'m spi_env \<Rightarrow> nat \<Rightarrow> 'm spi_driver \<Rightarrow> Lpspi_Ip_HwStatusType res" where
  "Lpspi_Ip_GetStatus E inst d =
     rbind (DevAssert E (inst < LPSPI_INSTANCE_COUNT E)) (\<lambda>_.
     Inr (case Lpspi_Ip_apxStateStructureArray d inst of None \<Rightarrow> LPSPI_IP_UNINIT | Some i \<Rightarrow> Status (Lpspi_Ip_axStateStructure d i)))"

section \<open>Configuration of the demo\<close>

definition device_params_0 :: Lpspi_Ip_DeviceParamsType where
  "device_params_0 = \<lparr>FrameSize = 8, Lsb = True, DefaultData = 0, TransferType = LPSPI_IP_FULL_DUPLEX\<rparr>"

definition device_params_1 :: Lpspi_Ip_DeviceParamsType where
  "device_params_1 = \<lparr>FrameSize = 1, Lsb = True, DefaultData = 0, TransferType = LPSPI_IP_FULL_DUPLEX\<rparr>"

definition SpiExternalDevice_0_Instance_2 :: "'m spi_env \<Rightarrow> Lpspi_Ip_ExternalDeviceType" where
  "SpiExternalDevice_0_Instance_2 E =
     \<lparr>ExternalInstance = 2,
      Ccr = fld E F_CCR_SCKPCS 39 OR fld E F_CCR_PCSSCK 39 OR fld E F_CCR_SCKDIV 38 OR fld E F_CCR_DBT 38,
      Tcr = fld E F_TCR_WIDTH 3 OR fld E F_TCR_CPOL 1 OR fld E F_TCR_CPHA 1 OR fld E F_TCR_PRESCALE 0 OR fld E F_TCR_PCS 0 OR fld E F_TCR_CONT 1,
      HalfDuplexCfgr1 = fld E F_CFGR1_OUTCFG 1 OR fld E F_CFGR1_PCSCFG 3,
      DeviceParams = 0\<rparr>"

definition SpiPhyUnit_0_Instance_2 :: "'m spi_env \<Rightarrow> Lpspi_Ip_ConfigType" where
  "SpiPhyUnit_0_Instance_2 E =
     \<lparr>PhyInstance = 2, Cr = 0,
      Cfgr1 = fld E F_CFGR1_PINCFG 0 OR fld E F_CFGR1_PCSPOL 0 OR fld E F_CFGR1_MASTER 1 OR fld E F_CFGR1_SAMPLE 0,
      SlaveMode = False, PhyTransferMode = LPSPI_IP_POLLING, StateIndex = 0\<rparr>"

text \<open>The driver's variables at start: zeroed state structures, no instance initialised.\<close>

definition zero_state :: Lpspi_Ip_StateStructureType where
  "zero_state = \<lparr>TransferMode = LPSPI_IP_POLLING, Status = LPSPI_IP_UNINIT, RxBuffer = None, TxBuffer = None, Callback = None,
     RxIndex = 0, TxIndex = 0, ExpectedFifoReads = 0, ExpectedFifoWrites = 0, KeepCs = False, FirstCmd = False,
     PhyUnitConfig = \<lparr>PhyInstance = 0, Cr = 0, Cfgr1 = 0, SlaveMode = False, PhyTransferMode = LPSPI_IP_POLLING, StateIndex = 0\<rparr>,
     ExternalDevice = \<lparr>ExternalInstance = 0, Ccr = 0, Tcr = 0, HalfDuplexCfgr1 = 0, DeviceParams = 0\<rparr>,
     CurrentTxFifoSlot = 0, HalfDuplexTcrCommand = 0, NextChannelIsRX = False, TxFifoResetNeeded = False\<rparr>"

definition driver_start :: "'m \<Rightarrow> 'm spi_driver" where
  "driver_start m = \<lparr>machine = m, Lpspi_Ip_axStateStructure = (\<lambda>_. zero_state), Lpspi_Ip_apxStateStructureArray = (\<lambda>_. None),
     Lpspi_Ip_DeviceParamsCfg = (\<lambda>i. if i = 0 then device_params_0 else device_params_1), notifications = []\<rparr>"

end
