(* ===== verification/Lpspi_Ip_Correct.thy ===== *)
theory Lpspi_Ip_Correct
  imports Lpspi_Ip
begin

text \<open>
  The SPI driver on an arbitrary controller: the start of a transfer and the loops that move its
  frames always return, so a blocking full-duplex transfer ends with success or a time-out; the
  blocking half-duplex transfer need not.
\<close>

unbundle bit_operations_syntax

section \<open>State and registers\<close>

lemma state_of_machine [simp]:
  "state_of k (d\<lparr>machine := m\<rparr>) = state_of k d" "state_of k (d\<lparr>Lpspi_Ip_DeviceParamsCfg := p\<rparr>) = state_of k d"
  "state_of k (d\<lparr>notifications := n\<rparr>) = state_of k d"
  by (simp_all add: state_of_def split: option.split)

lemma set_state_fields [simp]:
  "machine (set_state k f d) = machine d" "Lpspi_Ip_DeviceParamsCfg (set_state k f d) = Lpspi_Ip_DeviceParamsCfg d"
  "Lpspi_Ip_apxStateStructureArray (set_state k f d) = Lpspi_Ip_apxStateStructureArray d"
  by (simp_all add: set_state_def split: option.split)

lemma state_of_set [simp]: "state_of k d = Inr S \<Longrightarrow> state_of k (set_state k f d) = Inr (f S)"
  by (auto simp: state_of_def set_state_def split: option.splits)

lemma params_of_machine [simp]: "params_of S (d\<lparr>machine := m\<rparr>) = params_of S d" "params_of S (set_state k f d) = params_of S d"
  by (simp_all add: params_of_def)

lemma sub8_small: "b \<le> a \<Longrightarrow> a - b < 256 \<Longrightarrow> sub8 a b = a - b"
  by (simp add: sub8_def nat_diff_distrib' flip: of_nat_diff)

lemma w16_small: "n < 65536 \<Longrightarrow> w16 n = n"
  by (simp add: w16_def)

section \<open>The transfer loop ends\<close>

text \<open>A bus on which every load and every store of the processor returns.\<close>

definition accessible :: "'m spi_env \<Rightarrow> bool" where
  "accessible E \<longleftrightarrow> (\<forall>a m. \<exists>v m'. env_load E a m = Inr (v, m')) \<and> (\<forall>a v m. \<exists>m'. env_store E a v m = Inr m') \<and> DevAssert E True = Inr ()"

lemma accessible_regs:
  assumes "accessible E"
  shows "\<exists>v m. reg_read E k r d = Inr (v, d\<lparr>machine := m\<rparr>)" "\<exists>m. reg_write E k r w d = Inr (d\<lparr>machine := m\<rparr>)"
    "\<exists>m. reg_modify E k r f d = Inr (d\<lparr>machine := m\<rparr>)"
proof -
  have r: "\<exists>v m. reg_read E k r d = Inr (v, d\<lparr>machine := m\<rparr>)" for d
    using assms unfolding accessible_def reg_read_def by (metis (no_types, lifting) case_prod_conv rbind.simps(2))
  have w: "\<exists>m. reg_write E k r w d = Inr (d\<lparr>machine := m\<rparr>)" for w d
    using assms unfolding accessible_def reg_write_def by (metis rbind.simps(2))
  show "\<exists>v m. reg_read E k r d = Inr (v, d\<lparr>machine := m\<rparr>)" "\<exists>m. reg_write E k r w d = Inr (d\<lparr>machine := m\<rparr>)" by (rule r, rule w)
  obtain v m where "reg_read E k r d = Inr (v, d\<lparr>machine := m\<rparr>)" using r by blast
  moreover obtain m' where "reg_write E k r (f v) (d\<lparr>machine := m\<rparr>) = Inr (d\<lparr>machine := m\<rparr>\<lparr>machine := m'\<rparr>)" using w by blast
  ultimately show "\<exists>m. reg_modify E k r f d = Inr (d\<lparr>machine := m\<rparr>)" by (auto simp: reg_modify_def)
qed

text \<open>A transfer under way: the indices are within the frames to move, and the buffers hold these.\<close>

definition buffer_holds :: "nat \<Rightarrow> nat \<Rightarrow> u8 list option \<Rightarrow> bool" where
  "buffer_holds w n buf \<longleftrightarrow> (case buf of None \<Rightarrow> True | Some bs \<Rightarrow> w * n \<le> length bs)"

lemma buffer_holds_mono: "buffer_holds w n buf \<Longrightarrow> i \<le> n \<Longrightarrow> buffer_holds w i buf"
  unfolding buffer_holds_def by (cases buf) (simp_all, metis le_trans mult_le_mono2)

definition under_way :: "nat \<Rightarrow> Lpspi_Ip_StateStructureType \<Rightarrow> bool" where
  "under_way w S \<longleftrightarrow> RxIndex S \<le> ExpectedFifoReads S \<and> TxIndex S \<le> ExpectedFifoWrites S \<and>
     ExpectedFifoReads S < 65536 \<and> ExpectedFifoWrites S < 65536 \<and> CurrentTxFifoSlot S < 256 \<and>
     buffer_holds w (ExpectedFifoReads S) (RxBuffer S) \<and> buffer_holds w (ExpectedFifoWrites S) (TxBuffer S)"

lemma read_frames_end:
  assumes "accessible E" and "state_of k d = Inr S" and "frame_width (FrameSize (params_of S d)) = w"
    and "buffer_holds w (RxIndex S + n) (RxBuffer S)"
  shows "\<exists>m buf. foldE (read_frame E k) [0..<n] d = Inr (set_state k (RxBuffer_update (\<lambda>_. buf)) (d\<lparr>machine := m\<rparr>)) \<and>
    (\<forall>q. buffer_holds w q (RxBuffer S) \<longrightarrow> buffer_holds w q buf)"
  using assms(4)
proof (induction n)
  case 0
  have "set_state k (RxBuffer_update (\<lambda>_. RxBuffer S)) (d\<lparr>machine := machine d\<rparr>) = d"
    using assms(2) by (auto simp: set_state_def state_of_def split: option.splits)
  then show ?case by (intro exI [of _ "machine d"] exI [of _ "RxBuffer S"]) simp
next
  case (Suc n)
  then obtain m buf where IH: "foldE (read_frame E k) [0..<n] d = Inr (set_state k (RxBuffer_update (\<lambda>_. buf)) (d\<lparr>machine := m\<rparr>))"
      "\<forall>q. buffer_holds w q (RxBuffer S) \<longrightarrow> buffer_holds w q buf"
    by (auto simp: buffer_holds_def split: option.splits)
  let ?d = "set_state k (RxBuffer_update (\<lambda>_. buf)) (d\<lparr>machine := m\<rparr>)"
  obtain v m' where rd: "reg_read E k RDR ?d = Inr (v, ?d\<lparr>machine := m'\<rparr>)" using accessible_regs(1) [OF assms(1)] by blast
  have st: "state_of k (?d\<lparr>machine := m'\<rparr>) = Inr (S\<lparr>RxBuffer := buf\<rparr>)" using assms(2) by simp
  have w: "frame_width (FrameSize (params_of (S\<lparr>RxBuffer := buf\<rparr>) (?d\<lparr>machine := m'\<rparr>))) = w" using assms(3) by (simp add: params_of_def)
  have mm: "?d\<lparr>machine := m'\<rparr> = set_state k (RxBuffer_update (\<lambda>_. buf)) (d\<lparr>machine := m'\<rparr>)"
    by (simp add: set_state_def split: option.split)
  show ?case
  proof (cases buf)
    case None
    then have "foldE (read_frame E k) [0..<Suc n] d = Inr (set_state k (RxBuffer_update (\<lambda>_. buf)) (d\<lparr>machine := m'\<rparr>))"
      using IH(1) rd assms(2) mm by (simp add: foldE_append read_frame_def)
    then show ?thesis using IH(2) by blast
  next
    case (Some bs)
    have "w * (RxIndex S + n) + w \<le> length bs"
      using IH(2) [rule_format, OF Suc.prems] Some by (simp add: buffer_holds_def algebra_simps)
    then obtain bs' where bs': "mem_write bs (w * (RxIndex S + n)) (frame_bytes True w v) = Inr bs'" "length bs' = length bs"
      by (simp add: mem_write_def)
    have "read_frame E k n ?d = Inr (set_state k (RxBuffer_update (\<lambda>_. Some bs')) (?d\<lparr>machine := m'\<rparr>))"
      using rd st w Some bs'(1) by (simp add: read_frame_def Let_def)
    moreover have "set_state k (RxBuffer_update (\<lambda>_. Some bs')) (?d\<lparr>machine := m'\<rparr>) = set_state k (RxBuffer_update (\<lambda>_. Some bs')) (d\<lparr>machine := m'\<rparr>)"
      by (simp add: set_state_def split: option.split)
    ultimately have "foldE (read_frame E k) [0..<Suc n] d = Inr (set_state k (RxBuffer_update (\<lambda>_. Some bs')) (d\<lparr>machine := m'\<rparr>))"
      using IH(1) by (simp add: foldE_append)
    moreover have "\<forall>q. buffer_holds w q (RxBuffer S) \<longrightarrow> buffer_holds w q (Some bs')" using IH(2) Some bs'(2) by (simp add: buffer_holds_def)
    ultimately show ?thesis by blast
  qed
qed


lemma push_frames_end:
  assumes "accessible E" and "state_of k d = Inr S" and "frame_width (FrameSize (params_of S d)) = w"
    and "buffer_holds w (TxIndex S + n) (TxBuffer S)"
  shows "\<exists>m. foldE (push_frame E k) [0..<n] d = Inr (d\<lparr>machine := m\<rparr>)"
  using assms(4)
proof (induction n)
  case 0
  have "d\<lparr>machine := machine d\<rparr> = d" by simp
  then show ?case by (intro exI [of _ "machine d"]) simp
next
  case (Suc n)
  then obtain m where IH: "foldE (push_frame E k) [0..<n] d = Inr (d\<lparr>machine := m\<rparr>)"
    by (auto simp: buffer_holds_def split: option.splits)
  have "\<exists>v. (case TxBuffer S of None \<Rightarrow> Inr (DefaultData (params_of S d))
      | Some buf \<Rightarrow> rbind (mem_read buf (w * (TxIndex S + n)) w) (\<lambda>bs. Inr (frame_word True w bs))) = Inr v"
    using Suc.prems by (auto simp: buffer_holds_def mem_read_def algebra_simps split: option.split)
  then obtain v where v: "(case TxBuffer S of None \<Rightarrow> Inr (DefaultData (params_of S d))
      | Some buf \<Rightarrow> rbind (mem_read buf (w * (TxIndex S + n)) w) (\<lambda>bs. Inr (frame_word True w bs))) = Inr v" by blast
  obtain m' where "reg_write E k TDR v (d\<lparr>machine := m\<rparr>) = Inr (d\<lparr>machine := m\<rparr>\<lparr>machine := m'\<rparr>)"
    using accessible_regs(2) [OF assms(1)] by blast
  then have "push_frame E k n (d\<lparr>machine := m\<rparr>) = Inr (d\<lparr>machine := m'\<rparr>)"
    using assms(2,3) v by (simp add: push_frame_def Let_def split: option.splits)
  then show ?case using IH by (auto simp: foldE_append)
qed

lemma receive_part_ends:
  assumes "accessible E" and "state_of k d = Inr S" and "frame_width (FrameSize (params_of S d)) = w" and "under_way w S"
    and "RxIndex S < ExpectedFifoReads S"
  shows "\<exists>r d' S'. receive_part E k d = Inr (r, d') \<and> state_of k d' = Inr S' \<and> under_way w S' \<and>
    frame_width (FrameSize (params_of S' d')) = w \<and> ExpectedFifoReads S' = ExpectedFifoReads S \<and> ExpectedFifoWrites S' = ExpectedFifoWrites S \<and>
    TxIndex S' = TxIndex S \<and> RxIndex S \<le> RxIndex S' \<and> (r \<longrightarrow> RxIndex S < RxIndex S')"
proof -
  obtain v m where rd: "reg_read E k FSR d = Inr (v, d\<lparr>machine := m\<rparr>)" using accessible_regs(1) [OF assms(1)] by blast
  define n0 where "n0 = w8 (unat (field_of E F_FSR_RXCOUNT v))"
  show ?thesis
  proof (cases "n0 = 0")
    case True
    then have "receive_part E k d = Inr (False, d\<lparr>machine := m\<rparr>)" using rd by (simp add: receive_part_def Let_def flip: n0_def)
    then show ?thesis using assms by (intro exI) (auto simp: params_of_def)
  next
    case False
    define n where "n = (if int n0 > int (ExpectedFifoReads S) - int (RxIndex S) then sub8 (ExpectedFifoReads S) (RxIndex S) else n0)"
    have n0: "n0 < 256" by (simp add: n0_def w8_def)
    have n: "0 < n" "RxIndex S + n \<le> ExpectedFifoReads S" "n < 256"
      using False n0 assms(5) by (auto simp: n_def sub8_small split: if_splits)
    define d1 where "d1 = (if RxIndex S = 0 then set_state k (CurrentTxFifoSlot_update (\<lambda>k. w8 (k + 1))) (d\<lparr>machine := m\<rparr>) else d\<lparr>machine := m\<rparr>)"
    define S1 where "S1 = (if RxIndex S = 0 then S\<lparr>CurrentTxFifoSlot := w8 (CurrentTxFifoSlot S + 1)\<rparr> else S)"
    have S1: "state_of k d1 = Inr S1" "frame_width (FrameSize (params_of S1 d1)) = w" "RxIndex S1 = RxIndex S" "RxBuffer S1 = RxBuffer S"
      using assms(2,3) by (auto simp: d1_def S1_def params_of_def)
    have "buffer_holds w (RxIndex S1 + n) (RxBuffer S1)"
      using assms(4) buffer_holds_mono n(2) S1(3,4) unfolding under_way_def by metis
    from read_frames_end [OF assms(1) S1(1,2) this] obtain m' buf where
      f: "foldE (read_frame E k) [0..<n] d1 = Inr (set_state k (RxBuffer_update (\<lambda>_. buf)) (d1\<lparr>machine := m'\<rparr>))"
      and buf: "\<forall>q. buffer_holds w q (RxBuffer S1) \<longrightarrow> buffer_holds w q buf" by blast
    define d2 where "d2 = set_state k (CurrentTxFifoSlot_update (\<lambda>k. w8 (k + n))) (set_state k (RxIndex_update (\<lambda>i. w16 (i + n)))
       (set_state k (RxBuffer_update (\<lambda>_. buf)) (d1\<lparr>machine := m'\<rparr>)))"
    have run: "receive_part E k d = Inr (True, d2)"
      using rd False f assms(2) by (simp add: receive_part_def Let_def Lpspi_Ip_ReadDataFromFifo_def d2_def n_def flip: n0_def d1_def split: if_splits)
    define S2 where "S2 = S1\<lparr>RxBuffer := buf, RxIndex := w16 (RxIndex S + n), CurrentTxFifoSlot := w8 (CurrentTxFifoSlot S1 + n)\<rparr>"
    have st: "state_of k d2 = Inr S2" using S1 by (simp add: d2_def S2_def)
    have wd: "frame_width (FrameSize (params_of S2 d2)) = w" using S1(2) by (simp add: d2_def S2_def params_of_def)
    have i: "w16 (RxIndex S + n) = RxIndex S + n" using n(2) assms(4) by (simp add: w16_small under_way_def)
    have "under_way w S2"
      using assms(4) n(2) i buf S1(4) by (auto simp: S2_def S1_def under_way_def w8_def)
    then show ?thesis using run st wd n(1) i by (intro exI [of _ True] exI [of _ d2] exI [of _ S2]) (simp add: S2_def S1_def)
  qed
qed


lemma clear_cs_ends:
  assumes "accessible E" and "state_of k d = Inr S"
  shows "\<exists>m. clear_cs E k d = Inr (d\<lparr>machine := m\<rparr>)"
proof -
  have same: "d\<lparr>machine := machine d\<rparr> = d" by simp
  obtain v m where rd: "reg_read E k TCR d = Inr (v, d\<lparr>machine := m\<rparr>)" using accessible_regs(1) [OF assms(1)] by blast
  obtain m' where "reg_modify E k TCR (\<lambda>v. v AND NOT (hdr_mask E F_TCR_CONT OR hdr_mask E F_TCR_CONTC)) (d\<lparr>machine := m\<rparr>) = Inr (d\<lparr>machine := m'\<rparr>)"
    using accessible_regs(3) [OF assms(1), of k TCR "\<lambda>v. v AND NOT (hdr_mask E F_TCR_CONT OR hdr_mask E F_TCR_CONTC)" "d\<lparr>machine := m\<rparr>"] by auto
  then show ?thesis using rd assms(2) same [symmetric] by (cases "KeepCs S") (auto simp: clear_cs_def intro: exI [of _ "machine d"])
qed

lemma transmit_part_ends:
  assumes "accessible E" and "state_of k d = Inr S" and "frame_width (FrameSize (params_of S d)) = w" and "under_way w S"
  shows "\<exists>t d' S'. transmit_part E k (clear_cs E k) d = Inr (t, d') \<and> state_of k d' = Inr S' \<and> under_way w S' \<and>
    frame_width (FrameSize (params_of S' d')) = w \<and> ExpectedFifoReads S' = ExpectedFifoReads S \<and> ExpectedFifoWrites S' = ExpectedFifoWrites S \<and>
    RxIndex S' = RxIndex S \<and> TxIndex S \<le> TxIndex S' \<and> (t \<longrightarrow> TxIndex S < TxIndex S')"
proof -
  obtain m where cs: "clear_cs E k d = Inr (d\<lparr>machine := m\<rparr>)" using clear_cs_ends [OF assms(1,2)] by blast
  consider "CurrentTxFifoSlot S = 0" | "CurrentTxFifoSlot S \<noteq> 0" "ExpectedFifoWrites S = TxIndex S"
    | "CurrentTxFifoSlot S \<noteq> 0" "ExpectedFifoWrites S \<noteq> TxIndex S" by blast
  then show ?thesis
  proof cases
    case 1
    then have "transmit_part E k (clear_cs E k) d = Inr (False, d)" using assms(2) by (simp add: transmit_part_def)
    then show ?thesis using assms by (intro exI [of _ False] exI [of _ d] exI [of _ S]) simp
  next
    case 2
    then have "transmit_part E k (clear_cs E k) d = Inr (False, d\<lparr>machine := m\<rparr>)" using assms(2) cs by (simp add: transmit_part_def)
    then show ?thesis using assms by (intro exI [of _ False] exI [of _ "d\<lparr>machine := m\<rparr>"] exI [of _ S]) simp
  next
    case 3
    define n where "n = (if int (CurrentTxFifoSlot S) > int (ExpectedFifoWrites S) - int (TxIndex S) then sub8 (ExpectedFifoWrites S) (TxIndex S) else CurrentTxFifoSlot S)"
    have n: "0 < n" "TxIndex S + n \<le> ExpectedFifoWrites S"
      using 3 assms(4) by (auto simp: n_def sub8_small under_way_def split: if_splits)
    have "buffer_holds w (TxIndex S + n) (TxBuffer S)"
      using assms(4) buffer_holds_mono n(2) unfolding under_way_def by metis
    from push_frames_end [OF assms(1,2,3) this] obtain m' where f: "foldE (push_frame E k) [0..<n] d = Inr (d\<lparr>machine := m'\<rparr>)" by blast
    define d2 where "d2 = set_state k (CurrentTxFifoSlot_update (\<lambda>k. sub8 k n)) (set_state k (TxIndex_update (\<lambda>i. w16 (i + n))) (d\<lparr>machine := m'\<rparr>))"
    have run: "transmit_part E k (clear_cs E k) d = Inr (True, d2)"
      using 3 f assms(2) by (simp add: transmit_part_def Let_def Lpspi_Ip_PushDataToFifo_def d2_def n_def split: if_splits)
    define S2 where "S2 = S\<lparr>TxIndex := w16 (TxIndex S + n), CurrentTxFifoSlot := sub8 (CurrentTxFifoSlot S) n\<rparr>"
    have st: "state_of k d2 = Inr S2" using assms(2) by (simp add: d2_def S2_def)
    have wd: "frame_width (FrameSize (params_of S2 d2)) = w" using assms(3) by (simp add: d2_def S2_def params_of_def)
    have i: "w16 (TxIndex S + n) = TxIndex S + n" using n(2) assms(4) by (simp add: w16_small under_way_def)
    have "under_way w S2" using assms(4) n(2) i by (auto simp: S2_def under_way_def sub8_def nat_less_iff)
    then show ?thesis using run st wd n(1) i by (intro exI [of _ True] exI [of _ d2] exI [of _ S2]) (simp add: S2_def)
  qed
qed

text \<open>The passes a transfer has left: those of the current wait, and a whole time-out for every frame still to move.\<close>

definition to_move :: "Lpspi_Ip_StateStructureType \<Rightarrow> nat" where
  "to_move S = (ExpectedFifoReads S - RxIndex S) + (ExpectedFifoWrites S - TxIndex S)"

lemma sync_loop_ends:
  assumes "accessible E" and "state_of k d = Inr S" and "frame_width (FrameSize (params_of S d)) = w" and "under_way w S"
    and "to_move S * (n + 1) + (n - el) < fuel"
  shows "\<exists>x d' S'. sync_loop E k n fuel el d = Inr (x, d') \<and> state_of k d' = Inr S' \<and>
    (x = LPSPI_IP_STATUS_SUCCESS \<and> RxIndex S' = ExpectedFifoReads S' \<or> x = LPSPI_IP_TIMEOUT) \<and> ExpectedFifoReads S' = ExpectedFifoReads S"
  using assms(2-5)
proof (induction fuel arbitrary: el d S)
  case (Suc fuel)
  show ?case
  proof (cases "RxIndex S = ExpectedFifoReads S")
    case True
    then show ?thesis using Suc.prems by (intro exI [of _ LPSPI_IP_STATUS_SUCCESS] exI [of _ d] exI [of _ S]) simp
  next
    case False
    then have lt: "RxIndex S < ExpectedFifoReads S" using Suc.prems(3) by (simp add: under_way_def)
    obtain r d1 S1 where 1: "receive_part E k d = Inr (r, d1)" "state_of k d1 = Inr S1" "under_way w S1"
      "frame_width (FrameSize (params_of S1 d1)) = w" "ExpectedFifoReads S1 = ExpectedFifoReads S" "ExpectedFifoWrites S1 = ExpectedFifoWrites S"
      "TxIndex S1 = TxIndex S" "RxIndex S \<le> RxIndex S1" "r \<longrightarrow> RxIndex S < RxIndex S1"
      using receive_part_ends [OF assms(1) Suc.prems(1-3) lt] by blast
    obtain t d2 S2 where 2: "transmit_part E k (clear_cs E k) d1 = Inr (t, d2)" "state_of k d2 = Inr S2" "under_way w S2"
      "frame_width (FrameSize (params_of S2 d2)) = w" "ExpectedFifoReads S2 = ExpectedFifoReads S1" "ExpectedFifoWrites S2 = ExpectedFifoWrites S1"
      "RxIndex S2 = RxIndex S1" "TxIndex S1 \<le> TxIndex S2" "t \<longrightarrow> TxIndex S1 < TxIndex S2"
      using transmit_part_ends [OF assms(1) 1(2,4,3)] by blast
    define el' where "el' = (if r \<or> t then 0 else el) + 1"
    have run: "sync_loop E k n (Suc fuel) el d = (if el' \<ge> n then Inr (LPSPI_IP_TIMEOUT, d2) else sync_loop E k n fuel el' d2)"
      using Suc.prems(1) False 1(1) 2(1) by (simp add: Let_def OsIf_Timer_Dummy_GetElapsed_def el'_def)
    show ?thesis
    proof (cases "el' \<ge> n")
      case True
      then show ?thesis using run 1(5) 2(2,5) by (intro exI [of _ LPSPI_IP_TIMEOUT] exI [of _ d2] exI [of _ S2]) simp
    next
      case False
      have "to_move S2 * (n + 1) + (n - el') < fuel"
      proof (cases "r \<or> t")
        case True
        then have "to_move S2 < to_move S"
          using 1 2 Suc.prems(3) by (auto simp: to_move_def under_way_def)
        then have "Suc (to_move S2) * (n + 1) \<le> to_move S * (n + 1)" by (intro mult_le_mono1) simp
        then show ?thesis using Suc.prems(4) by (simp add: el'_def True)
      next
        assume "\<not> (r \<or> t)"
        moreover have "to_move S2 \<le> to_move S" using 1 2 by (simp add: to_move_def)
        then have "to_move S2 * (n + 1) \<le> to_move S * (n + 1)" by (rule mult_le_mono1)
        ultimately show ?thesis using Suc.prems(4) False by (simp add: el'_def)
      qed
      from Suc.IH [OF 2(2,4,3) this] show ?thesis using run False 1(5) 2(5) by simp
    qed
  qed
qed simp

section \<open>Steps of the driver\<close>

text \<open>Total correctness of the driver's steps: from a state with the first property the step returns, in a state with the second.\<close>

definition valid :: "('d \<Rightarrow> bool) \<Rightarrow> ('d \<Rightarrow> 'd res) \<Rightarrow> ('d \<Rightarrow> bool) \<Rightarrow> bool" where
  "valid P f Q \<longleftrightarrow> (\<forall>d. P d \<longrightarrow> (\<exists>d'. f d = Inr d' \<and> Q d'))"

definition yields :: "('d \<Rightarrow> bool) \<Rightarrow> ('d \<Rightarrow> ('v \<times> 'd) res) \<Rightarrow> ('v \<Rightarrow> 'd \<Rightarrow> bool) \<Rightarrow> bool" where
  "yields P f Q \<longleftrightarrow> (\<forall>d. P d \<longrightarrow> (\<exists>v d'. f d = Inr (v, d') \<and> Q v d'))"

lemma valid_bind: "valid P f R \<Longrightarrow> valid R g Q \<Longrightarrow> valid P (\<lambda>d. rbind (f d) g) Q"
  unfolding valid_def by (metis rbind.simps(2))

lemma yields_bind: "yields P f R \<Longrightarrow> (\<And>v. valid (R v) (g v) Q) \<Longrightarrow> valid P (\<lambda>d. rbind (f d) (\<lambda>(v, d). g v d)) Q"
  unfolding valid_def yields_def by (metis (no_types, lifting) case_prod_conv rbind.simps(2))

lemma valid_if: "(c \<Longrightarrow> valid P f Q) \<Longrightarrow> (\<not> c \<Longrightarrow> valid P g Q) \<Longrightarrow> valid P (\<lambda>d. if c then f d else g d) Q"
  by (cases c) simp_all

lemma valid_return: "(\<And>d. P d \<Longrightarrow> Q (f d)) \<Longrightarrow> valid P (\<lambda>d. Inr (f d)) Q"
  by (simp add: valid_def)

lemma valid_state:
  "(\<And>d. P d \<Longrightarrow> state_of k d = Inr (h d)) \<Longrightarrow> valid P (\<lambda>d. g (h d) d) Q \<Longrightarrow> valid P (\<lambda>d. rbind (state_of k d) (\<lambda>S. g S d)) Q"
  by (auto simp: valid_def)

text \<open>What the start of a transfer keeps of the driver's state: all but the flag of the workaround.\<close>

definition keeps :: "nat \<Rightarrow> Lpspi_Ip_StateStructureType \<Rightarrow> (nat \<Rightarrow> Lpspi_Ip_DeviceParamsType) \<Rightarrow> 'm spi_driver \<Rightarrow> bool" where
  "keeps k S p d \<longleftrightarrow> (\<exists>b. state_of k d = Inr (S\<lparr>TxFifoResetNeeded := b\<rparr>)) \<and> Lpspi_Ip_DeviceParamsCfg d = p"

lemma keeps_machine [simp]: "keeps k S p (d\<lparr>machine := m\<rparr>) \<longleftrightarrow> keeps k S p d"
  by (simp add: keeps_def)

lemma keeps_set:
  assumes "keeps k S p d" and "\<And>b. f (S\<lparr>TxFifoResetNeeded := b\<rparr>) = S'\<lparr>TxFifoResetNeeded := b\<rparr>"
  shows "keeps k S' p (set_state k f d)"
  using assms by (auto simp: keeps_def)

lemma keeps_regs:
  assumes "accessible E"
  shows "yields (keeps k S p) (reg_read E i r) (\<lambda>_. keeps k S p)" "valid (keeps k S p) (reg_write E i r v) (keeps k S p)"
    "valid (keeps k S p) (reg_modify E i r f) (keeps k S p)"
proof -
  show "yields (keeps k S p) (reg_read E i r) (\<lambda>_. keeps k S p)" "valid (keeps k S p) (reg_write E i r v) (keeps k S p)"
    unfolding valid_def yields_def using accessible_regs [OF assms] by (metis keeps_machine)+
  show "valid (keeps k S p) (reg_modify E i r f) (keeps k S p)"
    unfolding valid_def
  proof (intro allI impI)
    fix d :: "'a spi_driver"
    assume "keeps k S p d"
    moreover obtain m where "reg_modify E i r f d = Inr (d\<lparr>machine := m\<rparr>)" using accessible_regs(3) [OF assms] by blast
    ultimately show "\<exists>d'. reg_modify E i r f d = Inr d' \<and> keeps k S p d'" by simp
  qed
qed

lemma poll_tcf_keeps: "accessible E \<Longrightarrow> valid (keeps k S p) (poll_tcf E k n) (keeps k S p)"
proof (induction n)
  case (Suc n)
  have "valid (keeps k S p) (\<lambda>d. rbind (reg_read E k SR d) (\<lambda>(v, d). if v AND hdr_mask E F_SR_TCF = hdr_mask E F_SR_TCF then Inr d else poll_tcf E k n d)) (keeps k S p)"
    by (rule yields_bind [OF keeps_regs(1) [OF Suc.prems]], rule valid_if, rule valid_return, assumption, rule Suc.IH [OF Suc.prems])
  then show ?case by simp
qed (simp add: valid_def)


lemma errata_keeps:
  assumes "accessible E"
  shows "valid (keeps k S p) (Lpspi_ErrataHandle E k) (keeps k S p)"
proof -
  let ?K = "keeps k S p :: 'a spi_driver \<Rightarrow> bool"
  note regs = keeps_regs [OF assms]
  have 1: "valid ?K (\<lambda>d. rbind (state_of k d) (\<lambda>S. if TxFifoResetNeeded S
      then rbind (reg_modify E k CR (\<lambda>v. v OR hdr_mask E F_CR_RTF) d) (poll_tcf E k n)
      else Inr (set_state k (TxFifoResetNeeded_update (\<lambda>_. True)) d))) ?K" for n
    unfolding valid_def
  proof (intro allI impI)
    fix d :: "'a spi_driver"
    assume K: "keeps k S p d"
    then obtain b where b: "state_of k d = Inr (S\<lparr>TxFifoResetNeeded := b\<rparr>)" by (auto simp: keeps_def)
    have "\<exists>d'. rbind (reg_modify E k CR (\<lambda>v. v OR hdr_mask E F_CR_RTF) d) (poll_tcf E k n) = Inr d' \<and> keeps k S p d'"
      using valid_bind [OF regs(3) poll_tcf_keeps [OF assms]] K unfolding valid_def by blast
    moreover have "keeps k S p (set_state k (TxFifoResetNeeded_update (\<lambda>_. True)) d)" using K b by (auto simp: keeps_def)
    ultimately show "\<exists>d'. rbind (state_of k d) (\<lambda>S. if TxFifoResetNeeded S
      then rbind (reg_modify E k CR (\<lambda>v. v OR hdr_mask E F_CR_RTF) d) (poll_tcf E k n)
      else Inr (set_state k (TxFifoResetNeeded_update (\<lambda>_. True)) d)) = Inr d' \<and> keeps k S p d'" using b by simp
  qed
  show ?thesis
    unfolding Lpspi_ErrataHandle_def
    by (rule valid_if; (rule valid_bind [OF regs(3)] yields_bind [OF regs(1)] regs 1)+)
qed

lemma first_command_keeps:
  assumes "accessible E"
  shows "valid (keeps k S p) (first_command E k) (keeps k S p)"
proof -
  let ?K = "keeps k S p :: 'a spi_driver \<Rightarrow> bool"
  note regs = keeps_regs [OF assms]
  have 1: "valid ?K (\<lambda>d. rbind (state_of k d) (\<lambda>S. if \<not> SlaveMode (PhyUnitConfig S)
      then rbind (reg_write E k CCR (Ccr (ExternalDevice S)) d) (reg_modify E k CR (\<lambda>v. v OR hdr_mask E F_CR_MEN)) else Inr d)) ?K"
    unfolding valid_def
  proof (intro allI impI)
    fix d :: "'a spi_driver"
    assume K: "keeps k S p d"
    then obtain b where b: "state_of k d = Inr (S\<lparr>TxFifoResetNeeded := b\<rparr>)" by (auto simp: keeps_def)
    have "\<exists>d'. rbind (reg_write E k CCR (Ccr (ExternalDevice S)) d) (reg_modify E k CR (\<lambda>v. v OR hdr_mask E F_CR_MEN)) = Inr d' \<and> keeps k S p d'"
      using valid_bind [OF regs(2,3)] K unfolding valid_def by blast
    then show "\<exists>d'. rbind (state_of k d) (\<lambda>S. if \<not> SlaveMode (PhyUnitConfig S)
      then rbind (reg_write E k CCR (Ccr (ExternalDevice S)) d) (reg_modify E k CR (\<lambda>v. v OR hdr_mask E F_CR_MEN)) else Inr d) = Inr d' \<and> keeps k S p d'"
      using b K by simp
  qed
  show ?thesis
    unfolding first_command_def
    by (rule valid_bind [OF regs(3)], rule valid_bind, rule valid_if [OF errata_keeps [OF assms] regs(3)], rule valid_bind [OF regs(3) 1])
qed

lemma send_command_full_duplex:
  assumes "accessible E" and "TransferType (p (DeviceParams (ExternalDevice S))) = LPSPI_IP_FULL_DUPLEX"
  shows "valid (keeps k S p) (send_command E k) (keeps k (S\<lparr>CurrentTxFifoSlot := sub8 (CurrentTxFifoSlot S) 1\<rparr>) p)"
  unfolding valid_def
proof (intro allI impI)
  fix d :: "'a spi_driver"
  assume K: "keeps k S p d"
  then obtain b where b: "state_of k d = Inr (S\<lparr>TxFifoResetNeeded := b\<rparr>)" by (auto simp: keeps_def)
  have ty: "TransferType (params_of (S\<lparr>TxFifoResetNeeded := b\<rparr>) d) = LPSPI_IP_FULL_DUPLEX" using K assms(2) by (simp add: keeps_def params_of_def)
  let ?w = "let c = (if SlaveMode (PhyUnitConfig S) then transfer_command E (S\<lparr>TxFifoResetNeeded := b\<rparr>) d AND NOT (hdr_mask E F_TCR_CONT) else transfer_command E (S\<lparr>TxFifoResetNeeded := b\<rparr>) d)
     in if \<not> FirstCmd S \<and> c AND hdr_mask E F_TCR_CONT \<noteq> 0 then c OR hdr_mask E F_TCR_CONTC else c"
  obtain d1 where 1: "reg_write E k TCR ?w d = Inr d1" "keeps k S p d1"
    using keeps_regs(2) [OF assms(1)] K unfolding valid_def by blast
  obtain d2 where 2: "(if SlaveMode (PhyUnitConfig S) then reg_modify E k CR (\<lambda>v. v OR hdr_mask E F_CR_MEN) d1 else Inr d1) = Inr d2" "keeps k S p d2"
    using keeps_regs(3) [OF assms(1), of k S p k CR "\<lambda>v. v OR hdr_mask E F_CR_MEN"] 1(2) unfolding valid_def by (cases "SlaveMode (PhyUnitConfig S)") auto
  have "send_command E k d = Inr (set_state k (CurrentTxFifoSlot_update (\<lambda>n. sub8 n 1)) d2)"
    using b ty 1(1) 2(1) by (simp add: send_command_def Let_def)
  moreover have "keeps k (S\<lparr>CurrentTxFifoSlot := sub8 (CurrentTxFifoSlot S) 1\<rparr>) p (set_state k (CurrentTxFifoSlot_update (\<lambda>n. sub8 n 1)) d2)"
    using 2(2) by (rule keeps_set) (cases S, simp)
  ultimately show "\<exists>d'. send_command E k d = Inr d' \<and> keeps k (S\<lparr>CurrentTxFifoSlot := sub8 (CurrentTxFifoSlot S) 1\<rparr>) p d'" by blast
qed


lemma expected_frames_width:
  assumes "FrameSize P > 8 \<and> FrameSize P \<le> 16 \<longrightarrow> n mod 2 = 0" and "FrameSize P > 16 \<longrightarrow> n mod 4 = 0"
  shows "frame_width (FrameSize P) * expected_frames (FrameSize P) n = n" "expected_frames (FrameSize P) n \<le> n"
  using assms by (auto simp: expected_frames_def frame_width_def)

text \<open>A full-duplex transfer of so many bytes is started: the indices are zero and all frames are to be moved.\<close>

lemma transfer_starts:
  assumes "accessible E" and "keeps k S p d" and "P = p (DeviceParams (ExternalDevice S))" and "TransferType P = LPSPI_IP_FULL_DUPLEX"
    and "FrameSize P > 8 \<and> FrameSize P \<le> 16 \<longrightarrow> n mod 2 = 0" and "FrameSize P > 16 \<longrightarrow> n mod 4 = 0" and "n < 65536"
    and "\<forall>bs. Tx = Some bs \<longrightarrow> n \<le> length bs" and "\<forall>bs. Rx = Some bs \<longrightarrow> n \<le> length bs"
  shows "\<exists>d1 d2 S'. Lpspi_TransmitTxInit E k Tx n d = Inr d1 \<and> Lpspi_TransmitRxInit k Rx n d1 = Inr d2 \<and> state_of k d2 = Inr S' \<and>
    under_way (frame_width (FrameSize P)) S' \<and> params_of S' d2 = P \<and> RxIndex S' = 0 \<and> TxIndex S' = 0 \<and>
    ExpectedFifoReads S' = expected_frames (FrameSize P) n \<and> ExpectedFifoWrites S' = expected_frames (FrameSize P) n"
proof -
  obtain b where b: "state_of k d = Inr (S\<lparr>TxFifoResetNeeded := b\<rparr>)" using assms(2) by (auto simp: keeps_def)
  obtain d1 where 1: "(if FirstCmd S then first_command E k d else Inr d) = Inr d1" "keeps k S p d1"
    using first_command_keeps [OF assms(1), of k S p] assms(2) unfolding valid_def by (cases "FirstCmd S") auto
  define S2 where "S2 = S\<lparr>CurrentTxFifoSlot := sub8 (CurrentTxFifoSlot S) 1\<rparr>"
  obtain d2 where 2: "send_command E k d1 = Inr d2" "keeps k S2 p d2"
    using send_command_full_duplex [OF assms(1), of p S k] 1(2) assms(3,4) unfolding valid_def S2_def by blast
  then obtain b2 where b2: "state_of k d2 = Inr (S2\<lparr>TxFifoResetNeeded := b2\<rparr>)" "Lpspi_Ip_DeviceParamsCfg d2 = p" by (auto simp: keeps_def)
  have P: "params_of (S2\<lparr>TxFifoResetNeeded := b2\<rparr>) d2 = P" using b2 assms(3) by (simp add: params_of_def S2_def)
  define fr where "fr = expected_frames (FrameSize P) n"
  define d3 where "d3 = set_state k (\<lambda>S'. S'\<lparr>TxIndex := 0, TxBuffer := Tx, ExpectedFifoWrites := fr\<rparr>) d2"
  define S3 where "S3 = S2\<lparr>TxFifoResetNeeded := b2, TxIndex := 0, TxBuffer := Tx, ExpectedFifoWrites := fr\<rparr>"
  have 3: "Lpspi_TransmitTxInit E k Tx n d = Inr d3" "state_of k d3 = Inr S3" "params_of S3 d3 = P"
    using b 1(1) 2(1) b2 P assms(4) by (simp_all add: Lpspi_TransmitTxInit_def d3_def S3_def fr_def params_of_def)
  define d4 where "d4 = set_state k (\<lambda>S'. S'\<lparr>RxIndex := 0, RxBuffer := Rx, ExpectedFifoReads := fr\<rparr>) d3"
  define S4 where "S4 = S3\<lparr>RxIndex := 0, RxBuffer := Rx, ExpectedFifoReads := fr\<rparr>"
  have 4: "Lpspi_TransmitRxInit k Rx n d3 = Inr d4" "state_of k d4 = Inr S4" "params_of S4 d4 = P"
    using 3 assms(4) by (simp_all add: Lpspi_TransmitRxInit_def d4_def S4_def fr_def params_of_def)
  have "fr < 65536" "frame_width (FrameSize P) * fr = n"
    using expected_frames_width [OF assms(5,6)] assms(7) by (simp_all add: fr_def)
  then have "under_way (frame_width (FrameSize P)) S4"
    using assms(8,9) by (auto simp: under_way_def S4_def S3_def S2_def buffer_holds_def sub8_def nat_less_iff split: option.split)
  moreover have "RxIndex S4 = 0" "TxIndex S4 = 0" "ExpectedFifoReads S4 = fr" "ExpectedFifoWrites S4 = fr" by (simp_all add: S4_def S3_def)
  ultimately show ?thesis using 3(1) 4 unfolding fr_def by blast
qed

text \<open>
  C9. A blocking transfer always returns. Whatever values the controller's registers deliver, a call
  of \<^verbatim>\<open>Lpspi_Ip_SyncTransmit\<close> on an initialised instance, with a length and buffers that suit the
  frame size, ends: it refuses when a transfer is running, and otherwise reports either success, when
  every frame has been received, or that the time-out has passed; the state tells idle or fault.
\<close>

theorem sync_transmit_returns:
  assumes "accessible E" and "state_of (ExternalInstance ext) d = Inr S" and "P = Lpspi_Ip_DeviceParamsCfg d (DeviceParams ext)"
    and "TransferType P = LPSPI_IP_FULL_DUPLEX" and "FrameSize P > 8 \<and> FrameSize P \<le> 16 \<longrightarrow> n mod 2 = 0"
    and "FrameSize P > 16 \<longrightarrow> n mod 4 = 0" and "0 < n" and "n < 65536" and "0 < to"
    and "\<forall>bs. Tx = Some bs \<longrightarrow> n \<le> length bs" and "\<forall>bs. Rx = Some bs \<longrightarrow> n \<le> length bs"
  shows "\<exists>st d' S'. Lpspi_Ip_SyncTransmit E (Some ext) Tx Rx n to d = Inr (st, d') \<and> state_of (ExternalInstance ext) d' = Inr S' \<and>
    (if Status S = LPSPI_IP_BUSY then st = LPSPI_IP_STATUS_FAIL \<and> d' = d
     else st = LPSPI_IP_STATUS_SUCCESS \<and> Status S' = LPSPI_IP_IDLE \<and> RxIndex S' = expected_frames (FrameSize P) n \<or>
          st = LPSPI_IP_TIMEOUT \<and> Status S' = LPSPI_IP_FAULT)"
proof -
  let ?k = "ExternalInstance ext"
  have da: "DevAssert E True = Inr ()" using assms(1) by (simp add: accessible_def)
  have ini: "initialised E ?k d = Inr S" using assms(2) da by (auto simp: initialised_def state_of_def split: option.splits)
  have chk: "Lpspi_Ip_CheckValidParameters E ext n d = Inr ()"
    using assms(3,5,6) da by (auto simp: Lpspi_Ip_CheckValidParameters_def Let_def)
  have dev: "device_of E (Some ext) = Inr ext" using da by (simp add: device_of_def)
  show ?thesis
  proof (cases "Status S = LPSPI_IP_BUSY")
    case True
    then have "Lpspi_Ip_SyncTransmit E (Some ext) Tx Rx n to d = Inr (LPSPI_IP_STATUS_FAIL, d)"
      using dev da chk ini assms(7,9) by (simp add: Lpspi_Ip_SyncTransmit_def Let_def)
    then show ?thesis using True assms(2) by simp
  next
    case False
    define S1 where "S1 = S\<lparr>Status := LPSPI_IP_BUSY, ExternalDevice := ext\<rparr>"
    define d1 where "d1 = set_state ?k (\<lambda>S. S\<lparr>Status := LPSPI_IP_BUSY, ExternalDevice := ext\<rparr>) d"
    have "keeps ?k S1 (Lpspi_Ip_DeviceParamsCfg d) d1"
      using assms(2) by (auto simp: keeps_def d1_def S1_def intro: exI [of _ "TxFifoResetNeeded S"])
    then obtain d2 d3 where 2: "reg_write E ?k DER 0 d1 = Inr d2" "reg_write E ?k IER 0 d2 = Inr d3" "keeps ?k S1 (Lpspi_Ip_DeviceParamsCfg d) d3"
      using keeps_regs(2) [OF assms(1)] unfolding valid_def by metis
    define d4 where "d4 = set_state ?k (CurrentTxFifoSlot_update (\<lambda>_. LPSPI_IP_FIFO_SIZE_U8)) d3"
    have k4: "keeps ?k (S1\<lparr>CurrentTxFifoSlot := LPSPI_IP_FIFO_SIZE_U8\<rparr>) (Lpspi_Ip_DeviceParamsCfg d) d4"
      using 2(3) unfolding d4_def by (rule keeps_set) (cases S1, simp)
    obtain d5 d6 S6 where 6: "Lpspi_TransmitTxInit E ?k Tx n d4 = Inr d5" "Lpspi_TransmitRxInit ?k Rx n d5 = Inr d6" "state_of ?k d6 = Inr S6"
      "under_way (frame_width (FrameSize P)) S6" "params_of S6 d6 = P" "RxIndex S6 = 0" "TxIndex S6 = 0"
      "ExpectedFifoReads S6 = expected_frames (FrameSize P) n" "ExpectedFifoWrites S6 = expected_frames (FrameSize P) n"
      using transfer_starts [OF assms(1) k4, of P n Tx Rx] assms(3-6,8,10,11) by (auto simp: S1_def)
    have "to_move S6 * (to + 1) + (to - 0) < sync_passes to S6"
      using 6(6-9) by (simp add: to_move_def sync_passes_def)
    from sync_loop_ends [OF assms(1) 6(3) _ 6(4) this] 6(5) obtain st d7 S7 where
      7: "sync_loop E ?k to (sync_passes to S6) 0 d6 = Inr (st, d7)" "state_of ?k d7 = Inr S7"
        "st = LPSPI_IP_STATUS_SUCCESS \<and> RxIndex S7 = ExpectedFifoReads S7 \<or> st = LPSPI_IP_TIMEOUT" "ExpectedFifoReads S7 = ExpectedFifoReads S6"
      by auto
    let ?f = "Status_update (\<lambda>_. if st \<noteq> LPSPI_IP_STATUS_SUCCESS then LPSPI_IP_FAULT else LPSPI_IP_IDLE)"
    have "Lpspi_Ip_SyncTransmit E (Some ext) Tx Rx n to d = Inr (st, set_state ?k ?f d7)"
      using dev da chk ini assms(7,9) False 2(1,2) 6(1-3) 7(1)
      by (simp add: Lpspi_Ip_SyncTransmit_def Let_def OsIf_Timer_Dummy_MicrosToTicks_def flip: d1_def d4_def)
    then show ?thesis using False 7(2-4) 6(8) by (intro exI [of _ st] exI [of _ "set_state ?k ?f d7"] exI [of _ "?f S7"]) auto
  qed
qed


text \<open>A controller that never answers, behind a bus on which every access returns zero.\<close>

definition silent_port :: "unit spi_env" where
  "silent_port = \<lparr>LPSPI_INSTANCE_COUNT = 6, hdr_base = (\<lambda>_. 0), hdr_offset = (\<lambda>_. 0), hdr_shift = (\<lambda>_. 0), hdr_mask = (\<lambda>_. 1),
     DevAssert = (\<lambda>b. if b then Inr () else Inl AssertFailed), ERR_IPV_LPSPIV2_0001 = Second_solution,
     env_load = (\<lambda>_ m. Inr (0, m)), env_store = (\<lambda>_ _ m. Inr m)\<rparr>"

definition silent_driver :: "unit spi_driver" where
  "silent_driver = (driver_start ())\<lparr>Lpspi_Ip_apxStateStructureArray := (\<lambda>_. None)(2 := Some 0)\<rparr>"

lemma silent_accessible: "accessible silent_port"
  by (simp add: accessible_def silent_port_def)

lemma silent_state: "state_of 2 silent_driver = Inr zero_state"
  by (simp add: state_of_def silent_driver_def driver_start_def)

theorem sync_transmit_returns_witness:
  "\<exists>st d'. Lpspi_Ip_SyncTransmit silent_port (Some (SpiExternalDevice_0_Instance_2 silent_port)) (Some [0xAA, 0xBB]) (Some [0, 0]) 2 10 silent_driver =
     Inr (st, d') \<and> (st = LPSPI_IP_STATUS_SUCCESS \<or> st = LPSPI_IP_TIMEOUT)"
  using sync_transmit_returns [OF silent_accessible, of "SpiExternalDevice_0_Instance_2 silent_port" silent_driver zero_state device_params_0 2 10
      "Some [0xAA, 0xBB]" "Some [0, 0]"] silent_state
  by (auto simp: SpiExternalDevice_0_Instance_2_def silent_driver_def driver_start_def device_params_0_def zero_state_def)

section \<open>The half-duplex loop need not end\<close>

lemma half_duplex_receive_nothing:
  assumes "accessible E" and "\<forall>a m v m'. env_load E a m = Inr (v, m') \<longrightarrow> v AND hdr_mask E F_FSR_RXCOUNT = 0" and "state_of k d = Inr S"
    and "RxIndex S < ExpectedFifoReads S"
  shows "\<exists>d' S'. half_duplex_receive E k True d = Inr d' \<and> state_of k d' = Inr S' \<and> RxIndex S' = RxIndex S \<and> ExpectedFifoReads S' = ExpectedFifoReads S"
proof -
  obtain v m where 1: "reg_read E k FSR d = Inr (v, d\<lparr>machine := m\<rparr>)" using accessible_regs(1) [OF assms(1)] by blast
  obtain v' m' where 2: "reg_read E k FSR (d\<lparr>machine := m\<rparr>) = Inr (v', d\<lparr>machine := m'\<rparr>)"
    using accessible_regs(1) [OF assms(1), of k FSR "d\<lparr>machine := m\<rparr>"] by auto
  obtain m'' where 3: "reg_write E k TCR (HalfDuplexTcrCommand S) (d\<lparr>machine := m'\<rparr>) = Inr (d\<lparr>machine := m''\<rparr>)"
    using accessible_regs(2) [OF assms(1), of k TCR _ "d\<lparr>machine := m'\<rparr>"] by auto
  have "v AND hdr_mask E F_FSR_RXCOUNT = 0" using 1 assms(2) by (auto simp: reg_read_def rbind_Inr_iff)
  then have n: "w8 (unat (field_of E F_FSR_RXCOUNT v)) = 0" by (simp add: field_of_def w8_def)
  show ?thesis
    using 1 2 3 n assms(3,4) by (simp add: half_duplex_receive_def Let_def)
qed

text \<open>
  C34. The blocking half-duplex transfer can wait for ever. Its loop sets the elapsed time to zero in
  every pass, so a time-out of more than one tick is never reached: on a controller that receives
  nothing, reception does not end after any number of passes, whatever time-out was asked for. The
  full-duplex loop sets the elapsed time to zero only when frames were moved.
\<close>

theorem half_duplex_never_times_out:
  assumes "accessible E" and "\<forall>a m v m'. env_load E a m = Inr (v, m') \<longrightarrow> v AND hdr_mask E F_FSR_RXCOUNT = 0"
    and "state_of k d = Inr S" and "RxIndex S < ExpectedFifoReads S" and "2 \<le> n"
  shows "half_duplex_loop E k LPSPI_IP_HALF_DUPLEX_RECEIVE n fuel d = Inl Diverges"
  using assms(3,4)
proof (induction fuel arbitrary: d S)
  case (Suc fuel)
  obtain d' S' where 1: "half_duplex_receive E k True d = Inr d'" "state_of k d' = Inr S'" "RxIndex S' = RxIndex S" "ExpectedFifoReads S' = ExpectedFifoReads S"
    using half_duplex_receive_nothing [OF assms(1,2) Suc.prems] by blast
  have "half_duplex_loop E k LPSPI_IP_HALF_DUPLEX_RECEIVE n fuel d' = Inl Diverges"
    using Suc.IH [OF 1(2)] 1(3,4) Suc.prems(2) by simp
  then show ?case using 1 Suc.prems(2) assms(5) by (simp add: OsIf_Timer_Dummy_GetElapsed_def)
qed simp

theorem half_duplex_never_times_out_witness:
  "half_duplex_loop silent_port 2 LPSPI_IP_HALF_DUPLEX_RECEIVE 1000 100000 (set_state 2 (ExpectedFifoReads_update (\<lambda>_. 4)) silent_driver) = Inl Diverges"
proof -
  have s: "state_of 2 (set_state 2 (ExpectedFifoReads_update (\<lambda>_. 4)) silent_driver) = Inr (ExpectedFifoReads_update (\<lambda>_. 4) zero_state)"
    using silent_state by simp
  show ?thesis
    by (rule half_duplex_never_times_out [OF silent_accessible _ s]) (simp_all add: silent_port_def zero_state_def)
qed

end
