(* ===== verification/Lpspi_Ip_Port.thy ===== *)
theory Lpspi_Ip_Port
  imports Lpspi_Ip_Correct
begin

text \<open>
  The contract between the SPI driver and the controller behind its registers, and what the driver
  achieves on a controller that keeps it: a blocking transfer sends the bytes of the transmit buffer
  and leaves the replies of the bus in the receive buffer, in order.
\<close>

unbundle bit_operations_syntax

section \<open>The documented registers\<close>

text \<open>
  Positions and masks of the fields the transfer depends on, as the reference manual of the device
  gives them; the header that defines them is not part of the repository.
\<close>

definition documented_fields :: "(lpspi_field \<times> nat \<times> u32) list" where
  "documented_fields =
     [(F_CR_MEN, 0, 0x1), (F_CR_RST, 1, 0x2), (F_CR_DBGEN, 3, 0x8), (F_CR_RTF, 8, 0x100), (F_CR_RRF, 9, 0x200),
      (F_CFGR1_MASTER, 0, 0x1), (F_FSR_RXCOUNT, 16, 0x70000), (F_TCR_FRAMESZ, 0, 0xFFF), (F_TCR_WIDTH, 16, 0x30000),
      (F_TCR_CONTC, 20, 0x100000), (F_TCR_CONT, 21, 0x200000), (F_TCR_LSBF, 23, 0x800000), (F_TCR_CPHA, 30, 0x40000000),
      (F_TCR_CPOL, 31, 0x80000000)]"

definition documented_layout :: "'m spi_env \<Rightarrow> bool" where
  "documented_layout E \<longleftrightarrow> list_all (\<lambda>(f, n, w). hdr_shift E f = n \<and> hdr_mask E f = w) documented_fields"

lemma documented_layoutD:
  assumes "documented_layout E"
  shows "hdr_mask E F_CR_MEN = 0x1" "hdr_mask E F_CR_RST = 0x2" "hdr_mask E F_CR_DBGEN = 0x8" "hdr_mask E F_CR_RTF = 0x100" "hdr_mask E F_CR_RRF = 0x200"
    "hdr_mask E F_FSR_RXCOUNT = 0x70000" "hdr_shift E F_FSR_RXCOUNT = 16" "hdr_mask E F_TCR_CONT = 0x200000" "hdr_mask E F_TCR_CONTC = 0x100000"
    "fld E F_TCR_FRAMESZ x = x AND 0xFFF" "fld E F_TCR_WIDTH x = push_bit 16 x AND 0x30000" "fld E F_TCR_CONT x = push_bit 21 x AND 0x200000"
    "fld E F_TCR_LSBF x = push_bit 23 x AND 0x800000" "fld E F_TCR_CPHA x = push_bit 30 x AND 0x40000000"
    "fld E F_TCR_CPOL x = push_bit 31 x AND 0x80000000" "fld E F_CFGR1_MASTER x = x AND 1"
  using assms by (simp_all add: documented_layout_def documented_fields_def fld_def)

text \<open>The command of the demo's device: byte frames, continuous; and the same when the transfer ends.\<close>

definition demo_command :: u32 where "demo_command = 0xC0A30007"

definition end_command :: u32 where "end_command = 0xC0830007"

lemma fld_zero [simp]: "fld E f 0 = 0"
  by (simp add: fld_def)

lemma transfer_command_demo:
  assumes "documented_layout E" and "ExternalDevice S = SpiExternalDevice_0_Instance_2 E" and "Lpspi_Ip_DeviceParamsCfg d 0 = device_params_0"
  shows "transfer_command E S d = demo_command"
  using assms documented_layoutD [OF assms(1)]
  by (simp add: transfer_command_def params_of_def SpiExternalDevice_0_Instance_2_def device_params_0_def demo_command_def)

section \<open>The contract\<close>

text \<open>
  A controller whose registers are at the addresses of an instance. The relation \<open>st\<close> says what
  the controller's state stands for: whether it is enabled, the command in force, the bytes that
  wait to be read, and the state of the bus behind it. A command is \<open>good\<close> when frames are single
  bytes that are sent and received; \<open>cfg\<close> tells the configurations that connect the bus.
\<close>

locale spi_port =
  fixes E :: "'m spi_env" and k :: nat
    and st :: "'m \<Rightarrow> bool \<Rightarrow> u32 \<Rightarrow> u8 list \<Rightarrow> 'b \<Rightarrow> bool"
    and good :: "u32 \<Rightarrow> bool" and cfg :: "u32 \<Rightarrow> bool" and exch :: "'b \<Rightarrow> u8 \<Rightarrow> u8 \<times> 'b"
  assumes layout: "documented_layout E" and passes: "DevAssert E True = Inr ()"
    and load_CR: "st m en c rx b \<Longrightarrow> \<exists>v m'. env_load E (hdr_base E k + hdr_offset E CR) m = Inr (v, m') \<and> st m' en c rx b \<and>
      bit v 0 = en \<and> \<not> bit v 1 \<and> \<not> bit v 8 \<and> \<not> bit v 9"
    and load_SR: "st m en c rx b \<Longrightarrow> \<exists>v m'. env_load E (hdr_base E k + hdr_offset E SR) m = Inr (v, m') \<and> st m' en c rx b"
    and load_TCR: "st m en c rx b \<Longrightarrow> \<exists>m'. env_load E (hdr_base E k + hdr_offset E TCR) m = Inr (c, m') \<and> st m' en c rx b"
    and load_CFGR1: "st m en c rx b \<Longrightarrow> \<exists>v m'. env_load E (hdr_base E k + hdr_offset E CFGR1) m = Inr (v, m') \<and> st m' en c rx b \<and> cfg v"
    and load_FSR: "st m en c rx b \<Longrightarrow> good c \<Longrightarrow> length rx \<le> 4 \<Longrightarrow>
      \<exists>v m'. env_load E (hdr_base E k + hdr_offset E FSR) m = Inr (v, m') \<and> st m' en c rx b \<and> unat (drop_bit 16 (v AND 0x70000)) = length rx"
    and load_RDR_empty: "st m en c [] b \<Longrightarrow> \<exists>v m'. env_load E (hdr_base E k + hdr_offset E RDR) m = Inr (v, m') \<and> st m' en c [] b"
    and load_RDR: "st m en c (x # rx) b \<Longrightarrow> good c \<Longrightarrow> \<exists>m'. env_load E (hdr_base E k + hdr_offset E RDR) m = Inr (ucast x, m') \<and> st m' en c rx b"
    and store_CR: "st m en c rx b \<Longrightarrow> \<not> bit v 1 \<Longrightarrow>
      \<exists>m'. env_store E (hdr_base E k + hdr_offset E CR) v m = Inr m' \<and> st m' (bit v 0) c (if bit v 9 then [] else rx) b"
    and store_CR_reset: "st m en c rx b \<Longrightarrow> bit v 1 \<Longrightarrow>
      \<exists>m' c'. env_store E (hdr_base E k + hdr_offset E CR) v m = Inr m' \<and> st m' False c' [] b"
    and store_other: "st m en c rx b \<Longrightarrow> r \<in> {SR, CCR, DER, IER, FCR} \<Longrightarrow> \<exists>m'. env_store E (hdr_base E k + hdr_offset E r) v m = Inr m' \<and> st m' en c rx b"
    and store_CFGR1: "st m en c rx b \<Longrightarrow> cfg v \<Longrightarrow> \<exists>m'. env_store E (hdr_base E k + hdr_offset E CFGR1) v m = Inr m' \<and> st m' en c rx b"
    and store_TCR: "st m en c rx b \<Longrightarrow> good v \<Longrightarrow> \<exists>m'. env_store E (hdr_base E k + hdr_offset E TCR) v m = Inr m' \<and> st m' en v rx b"
    and store_TDR: "st m True c rx b \<Longrightarrow> good c \<Longrightarrow> length rx < 16 \<Longrightarrow> exch b x = (y, b') \<Longrightarrow>
      \<exists>m'. env_store E (hdr_base E k + hdr_offset E TDR) (ucast x) m = Inr m' \<and> st m' True c (rx @ [y]) b'"
    and commands: "good demo_command" "good end_command" and master: "cfg 1"


text \<open>The replies of the bus to a sequence of bytes, and its state afterwards.\<close>

primrec exchanges :: "('b \<Rightarrow> u8 \<Rightarrow> u8 \<times> 'b) \<Rightarrow> 'b \<Rightarrow> u8 list \<Rightarrow> u8 list \<times> 'b" where
  "exchanges exch b [] = ([], b)"
| "exchanges exch b (x # xs) = (let (y, b) = exch b x; (ys, b) = exchanges exch b xs in (y # ys, b))"

lemma exchanges_append:
  "exchanges exch b (xs @ zs) = (let (ys, b) = exchanges exch b xs; (ws, b) = exchanges exch b zs in (ys @ ws, b))"
  by (induction xs arbitrary: b) (simp_all add: Let_def case_prod_beta)

lemma exchanges_length [simp]: "length (fst (exchanges exch b xs)) = length xs"
  by (induction xs arbitrary: b) (simp_all add: Let_def case_prod_beta)

lemma exchanges_take: "fst (exchanges exch b (take i xs)) = take i (fst (exchanges exch b xs))"
  by (induction xs arbitrary: b i) (simp_all add: Let_def take_Cons' case_prod_beta)

lemma byte_mask: "(ucast ((w :: u32) AND 0xFF) :: u8) = ucast w"
  using bit_mask_byte [of 0 w] by (intro bit_word_eqI) (simp add: bit_ucast_iff, blast)

lemma frame_byte: "frame_word True 1 [x] = ucast x" "frame_bytes True 1 (w :: u32) = [ucast w]"
  by (simp_all add: frame_word_def frame_bytes_def byte_shift_def byte_mask)

lemma ucast_byte [simp]: "(ucast (ucast (x :: u8) :: u32) :: u8) = x"
  by (rule bit_word_eqI) (simp add: bit_ucast_iff)

lemma keepsI: "state_of k d = Inr S \<Longrightarrow> Lpspi_Ip_DeviceParamsCfg d = p \<Longrightarrow> keeps k S p d"
  by (auto simp: keeps_def intro!: exI [of _ "TxFifoResetNeeded S"])

text \<open>Driver and controller together: the driver's state, and what the controller stands for with a command of the set.\<close>

definition linked :: "('m \<Rightarrow> bool \<Rightarrow> u32 \<Rightarrow> u8 list \<Rightarrow> 'b \<Rightarrow> bool) \<Rightarrow> nat \<Rightarrow> Lpspi_Ip_StateStructureType \<Rightarrow> (nat \<Rightarrow> Lpspi_Ip_DeviceParamsType) \<Rightarrow>
    bool \<Rightarrow> u32 set \<Rightarrow> u8 list \<Rightarrow> 'b \<Rightarrow> 'm spi_driver \<Rightarrow> bool" where
  "linked st k S p en C rx b d \<longleftrightarrow> keeps k S p d \<and> (\<exists>c \<in> C. st (machine d) en c rx b)"

context spi_port
begin

lemma read_step:
  assumes "\<And>m c. c \<in> C \<Longrightarrow> st m en c rx b \<Longrightarrow> \<exists>v m'. env_load E (hdr_base E k + hdr_offset E r) m = Inr (v, m') \<and> st m' en c rx' b \<and> Q c v"
  shows "yields (linked st k S p en C rx b) (reg_read E k r) (\<lambda>v d. \<exists>c \<in> C. linked st k S p en {c} rx' b d \<and> Q c v)"
  unfolding yields_def
proof (intro allI impI)
  fix d
  assume d: "linked st k S p en C rx b d"
  then obtain c where c: "c \<in> C" "st (machine d) en c rx b" by (auto simp: linked_def)
  obtain v m' where "env_load E (hdr_base E k + hdr_offset E r) (machine d) = Inr (v, m')" "st m' en c rx' b" "Q c v" using assms [OF c] by blast
  then show "\<exists>v d'. reg_read E k r d = Inr (v, d') \<and> (\<exists>c\<in>C. linked st k S p en {c} rx' b d' \<and> Q c v)"
    using c(1) d by (intro exI [of _ v] exI [of _ "d\<lparr>machine := m'\<rparr>"]) (auto simp: reg_read_def linked_def)
qed

lemma write_step:
  assumes "\<And>m c. c \<in> C \<Longrightarrow> st m en c rx b \<Longrightarrow> \<exists>m'. env_store E (hdr_base E k + hdr_offset E r) v m = Inr m' \<and> (\<exists>c' \<in> C'. st m' en' c' rx' b')"
  shows "valid (linked st k S p en C rx b) (reg_write E k r v) (linked st k S p en' C' rx' b')"
  unfolding valid_def
proof (intro allI impI)
  fix d
  assume d: "linked st k S p en C rx b d"
  then obtain c where c: "c \<in> C" "st (machine d) en c rx b" by (auto simp: linked_def)
  obtain m' where "env_store E (hdr_base E k + hdr_offset E r) v (machine d) = Inr m'" "\<exists>c' \<in> C'. st m' en' c' rx' b'" using assms [OF c] by blast
  then show "\<exists>d'. reg_write E k r v d = Inr d' \<and> linked st k S p en' C' rx' b' d'"
    using d by (intro exI [of _ "d\<lparr>machine := m'\<rparr>"]) (simp add: reg_write_def linked_def)
qed

lemma modify_step:
  assumes "\<And>m c. c \<in> C \<Longrightarrow> st m en c rx b \<Longrightarrow> \<exists>v m'. env_load E (hdr_base E k + hdr_offset E r) m = Inr (v, m') \<and> st m' en c rx b \<and> Q c v"
    and "\<And>m c v. c \<in> C \<Longrightarrow> st m en c rx b \<Longrightarrow> Q c v \<Longrightarrow> \<exists>m'. env_store E (hdr_base E k + hdr_offset E r) (f v) m = Inr m' \<and> (\<exists>c' \<in> C'. st m' en' c' rx' b')"
  shows "valid (linked st k S p en C rx b) (reg_modify E k r f) (linked st k S p en' C' rx' b')"
  unfolding valid_def
proof (intro allI impI)
  fix d
  assume "linked st k S p en C rx b d"
  with read_step [of C en rx b r rx Q S p] assms(1) obtain v d1 c where 1: "reg_read E k r d = Inr (v, d1)" "c \<in> C" "linked st k S p en {c} rx b d1" "Q c v"
    unfolding yields_def by (metis (no_types, lifting))
  have "valid (linked st k S p en {c} rx b) (reg_write E k r (f v)) (linked st k S p en' C' rx' b')"
    by (rule write_step) (use assms(2) 1(2,4) in auto)
  then show "\<exists>d'. reg_modify E k r f d = Inr d' \<and> linked st k S p en' C' rx' b' d'"
    using 1 unfolding valid_def reg_modify_def by auto
qed

lemma CR_modify:
  assumes "\<And>v. bit v 0 = en \<Longrightarrow> \<not> bit v 1 \<Longrightarrow> \<not> bit v 8 \<Longrightarrow> \<not> bit v 9 \<Longrightarrow> \<not> bit (f v) 1 \<and> bit (f v) 0 = en' \<and> bit (f v) 9 = cl"
  shows "valid (linked st k S p en C rx b) (reg_modify E k CR f) (linked st k S p en' C (if cl then [] else rx) b)"
proof (rule modify_step [where Q = "\<lambda>_ (v :: u32). bit v 0 = en \<and> \<not> bit v 1 \<and> \<not> bit v 8 \<and> \<not> bit v 9"])
  fix m c and v :: u32
  assume c: "c \<in> C" "st m en c rx b" and v: "bit v 0 = en \<and> \<not> bit v 1 \<and> \<not> bit v 8 \<and> \<not> bit v 9"
  have "\<not> bit (f v) 1 \<and> bit (f v) 0 = en' \<and> bit (f v) 9 = cl" using assms [of v] v by blast
  then show "\<exists>m'. env_store E (hdr_base E k + hdr_offset E CR) (f v) m = Inr m' \<and> (\<exists>c'\<in>C. st m' en' c' (if cl then [] else rx) b)"
    using store_CR [OF c(2), of "f v"] c(1) by auto
qed (rule load_CR)

lemma CR_reset:
  assumes "\<And>v. bit (f v) 1"
  shows "valid (linked st k S p en C rx b) (reg_modify E k CR f) (linked st k S p False UNIV [] b)"
  by (rule modify_step [where Q = "\<lambda>_ _. True"]) (use load_CR store_CR_reset [OF _ assms] in blast)+

lemma other_modify:
  assumes "r \<in> {SR}"
  shows "valid (linked st k S p en C rx b) (reg_modify E k r f) (linked st k S p en C rx b)"
  by (rule modify_step [where Q = "\<lambda>_ _. True"]) (use load_SR store_other assms in blast)+

lemma other_write:
  assumes "r \<in> {SR, CCR, DER, IER, FCR}"
  shows "valid (linked st k S p en C rx b) (reg_write E k r v) (linked st k S p en C rx b)"
  by (rule write_step) (use store_other assms in blast)

lemma TCR_write:
  assumes "good v"
  shows "valid (linked st k S p en C rx b) (reg_write E k TCR v) (linked st k S p en {v} rx b)"
  by (rule write_step) (use store_TCR assms in blast)

lemma read_bind:
  assumes "\<And>m c. c \<in> C \<Longrightarrow> st m en c rx b \<Longrightarrow> \<exists>v m'. env_load E (hdr_base E k + hdr_offset E r) m = Inr (v, m') \<and> st m' en c rx' b \<and> Q v"
    and "\<And>v. Q v \<Longrightarrow> valid (linked st k S p en C rx' b) (g v) R"
  shows "valid (linked st k S p en C rx b) (\<lambda>d. rbind (reg_read E k r d) (\<lambda>(v, d). g v d)) R"
proof (rule yields_bind [OF read_step [where Q = "\<lambda>_. Q"]])
  fix v
  show "valid (\<lambda>d. \<exists>c\<in>C. linked st k S p en {c} rx' b d \<and> Q v) (g v) R"
    using assms(2) [of v] by (cases "Q v") (auto simp: valid_def linked_def)
qed (use assms(1) in blast)

lemma poll_tcf_linked: "valid (linked st k S p en C rx b) (poll_tcf E k n) (linked st k S p en C rx b)"
proof (induction n)
  case (Suc n)
  have "valid (linked st k S p en C rx b) (\<lambda>d. rbind (reg_read E k SR d) (\<lambda>(v, d). if v AND hdr_mask E F_SR_TCF = hdr_mask E F_SR_TCF then Inr d else poll_tcf E k n d))
      (linked st k S p en C rx b)"
    by (rule read_bind [where Q = "\<lambda>_. True"], use load_SR in blast, rule valid_if, rule valid_return, assumption, rule Suc.IH)
  then show ?case by simp
qed (simp add: valid_def)

lemma errata_linked: "valid (linked st k S p False UNIV rx b) (Lpspi_ErrataHandle E k) (linked st k S p False UNIV [] b)"
proof -
  note lay = documented_layoutD [OF layout]
  let ?L = "linked st k S p False UNIV [] b"
  have 1: "valid ?L (\<lambda>d. rbind (state_of k d) (\<lambda>S. if TxFifoResetNeeded S
      then rbind (reg_modify E k CR (\<lambda>v. v OR hdr_mask E F_CR_RTF) d) (poll_tcf E k n)
      else Inr (set_state k (TxFifoResetNeeded_update (\<lambda>_. True)) d))) ?L" for n
    unfolding valid_def
  proof (intro allI impI)
    fix d
    assume K: "?L d"
    then obtain f where f: "state_of k d = Inr (S\<lparr>TxFifoResetNeeded := f\<rparr>)" by (auto simp: linked_def keeps_def)
    have "valid ?L (reg_modify E k CR (\<lambda>v. v OR hdr_mask E F_CR_RTF)) ?L"
      using CR_modify [of False "\<lambda>v. v OR hdr_mask E F_CR_RTF" False False S p UNIV "[]" b] by (simp add: lay bit_or_iff)
    then have "\<exists>d'. rbind (reg_modify E k CR (\<lambda>v. v OR hdr_mask E F_CR_RTF) d) (poll_tcf E k n) = Inr d' \<and> ?L d'"
      using valid_bind [OF _ poll_tcf_linked, of ?L] K unfolding valid_def by blast
    moreover have "?L (set_state k (TxFifoResetNeeded_update (\<lambda>_. True)) d)" using K f by (auto simp: linked_def keeps_def)
    ultimately show "\<exists>d'. rbind (state_of k d) (\<lambda>S. if TxFifoResetNeeded S
      then rbind (reg_modify E k CR (\<lambda>v. v OR hdr_mask E F_CR_RTF) d) (poll_tcf E k n)
      else Inr (set_state k (TxFifoResetNeeded_update (\<lambda>_. True)) d)) = Inr d' \<and> ?L d'" using f by simp
  qed
  have rrf: "valid (linked st k S p False UNIV rx b) (reg_modify E k CR (\<lambda>v. v OR hdr_mask E F_CR_RRF)) ?L"
    using CR_modify [of False "\<lambda>v. v OR hdr_mask E F_CR_RRF" False True S p UNIV rx b] by (simp add: lay bit_or_iff)
  have rst: "valid (linked st k S p False UNIV rx b) (reg_modify E k CR (\<lambda>v. v OR hdr_mask E F_CR_RST)) ?L"
    by (rule CR_reset) (simp add: lay bit_or_iff)
  have unrst: "valid ?L (reg_modify E k CR (\<lambda>v. v AND NOT (hdr_mask E F_CR_RST))) ?L"
    using CR_modify [of False "\<lambda>v. v AND NOT (hdr_mask E F_CR_RST)" False False S p UNIV "[]" b] by (simp add: lay bit_and_iff bit_not_iff)
  have cfgw: "cfg v \<Longrightarrow> valid ?L (reg_write E k CFGR1 v) ?L" for v
    by (rule write_step) (use store_CFGR1 in blast)
  show ?thesis
    unfolding Lpspi_ErrataHandle_def
  proof (rule valid_if)
    show "valid (linked st k S p False UNIV rx b) (\<lambda>d. rbind (reg_modify E k CR (\<lambda>v. v OR hdr_mask E F_CR_RRF) d) (\<lambda>d.
        rbind (reg_read E k RDR d) (\<lambda>(_, d). rbind (state_of k d) (\<lambda>S. if TxFifoResetNeeded S
        then rbind (reg_modify E k CR (\<lambda>v. v OR hdr_mask E F_CR_RTF) d) (poll_tcf E k (OsIf_Timer_Dummy_MicrosToTicks LPSPI_IP_ERR_TIMEOUT_COUNTER))
        else Inr (set_state k (TxFifoResetNeeded_update (\<lambda>_. True)) d))))) ?L"
      by (rule valid_bind [OF rrf], rule read_bind [where Q = "\<lambda>_. True"], use load_RDR_empty in blast, rule 1)
    show "valid (linked st k S p False UNIV rx b) (\<lambda>d. rbind (reg_read E k CFGR1 d) (\<lambda>(cfg, d). rbind (reg_modify E k CR (\<lambda>v. v OR hdr_mask E F_CR_RST) d) (\<lambda>d.
        rbind (reg_modify E k CR (\<lambda>v. v AND NOT (hdr_mask E F_CR_RST)) d) (reg_write E k CFGR1 cfg)))) ?L"
      by (rule read_bind [where Q = cfg], use load_CFGR1 in blast, rule valid_bind [OF rst], rule valid_bind [OF unrst], rule cfgw)
  qed
qed

lemma first_command_linked:
  assumes "\<not> SlaveMode (PhyUnitConfig S)"
  shows "valid (linked st k S p en UNIV rx b) (first_command E k) (linked st k S p True UNIV [] b)"
proof -
  note lay = documented_layoutD [OF layout]
  let ?L = "linked st k S p False UNIV [] b"
  have off: "valid (linked st k S p en UNIV rx b) (reg_modify E k CR (\<lambda>v. v AND NOT (hdr_mask E F_CR_MEN))) (linked st k S p False UNIV rx b)"
    using CR_modify [of en "\<lambda>v. v AND NOT (hdr_mask E F_CR_MEN)" False False S p UNIV rx b] by (simp add: lay bit_and_iff bit_not_iff)
  have clr: "valid (linked st k S p False UNIV rx b) (reg_modify E k CR (\<lambda>v. v OR (hdr_mask E F_CR_RTF OR hdr_mask E F_CR_RRF))) ?L"
    using CR_modify [of False "\<lambda>v. v OR (hdr_mask E F_CR_RTF OR hdr_mask E F_CR_RRF)" False True S p UNIV rx b] by (simp add: lay bit_or_iff)
  have on: "valid ?L (reg_modify E k CR (\<lambda>v. v OR hdr_mask E F_CR_MEN)) (linked st k S p True UNIV [] b)"
    using CR_modify [of False "\<lambda>v. v OR hdr_mask E F_CR_MEN" True False S p UNIV "[]" b] by (simp add: lay bit_or_iff)
  have 1: "valid ?L (\<lambda>d. rbind (state_of k d) (\<lambda>S. if \<not> SlaveMode (PhyUnitConfig S)
      then rbind (reg_write E k CCR (Ccr (ExternalDevice S)) d) (reg_modify E k CR (\<lambda>v. v OR hdr_mask E F_CR_MEN)) else Inr d)) (linked st k S p True UNIV [] b)"
    unfolding valid_def
  proof (intro allI impI)
    fix d
    assume K: "?L d"
    then obtain f where f: "state_of k d = Inr (S\<lparr>TxFifoResetNeeded := f\<rparr>)" by (auto simp: linked_def keeps_def)
    have "\<exists>d'. rbind (reg_write E k CCR (Ccr (ExternalDevice S)) d) (reg_modify E k CR (\<lambda>v. v OR hdr_mask E F_CR_MEN)) = Inr d' \<and> linked st k S p True UNIV [] b d'"
      using valid_bind [OF other_write [of CCR S p False UNIV "[]" b] on] K unfolding valid_def by blast
    then show "\<exists>d'. rbind (state_of k d) (\<lambda>S. if \<not> SlaveMode (PhyUnitConfig S)
      then rbind (reg_write E k CCR (Ccr (ExternalDevice S)) d) (reg_modify E k CR (\<lambda>v. v OR hdr_mask E F_CR_MEN)) else Inr d) = Inr d' \<and> linked st k S p True UNIV [] b d'"
      using f assms by simp
  qed
  show ?thesis
    unfolding first_command_def
    by (rule valid_bind [OF off], rule valid_bind, rule valid_if [OF errata_linked clr], rule valid_bind [OF other_modify 1]) simp
qed

lemma linked_set:
  assumes "linked st k S p en C rx b d" and "\<And>f. g (S\<lparr>TxFifoResetNeeded := f\<rparr>) = S'\<lparr>TxFifoResetNeeded := f\<rparr>"
  shows "linked st k S' p en C rx b (set_state k g d)"
  using assms keeps_set [of k S p d g S'] by (simp add: linked_def)

lemma linkedD:
  assumes "linked st k S p en C rx b d"
  obtains f where "state_of k d = Inr (S\<lparr>TxFifoResetNeeded := f\<rparr>)" "params_of (S\<lparr>TxFifoResetNeeded := f\<rparr>) d = p (DeviceParams (ExternalDevice S))"
  using assms by (auto simp: linked_def keeps_def params_of_def)

lemma push_frames_linked:
  assumes "linked st k S p True C rx b d" and "\<forall>c \<in> C. good c" and "frame_width (FrameSize (p (DeviceParams (ExternalDevice S)))) = 1"
    and "TxBuffer S = Some tx" and "TxIndex S + q \<le> length tx" and "length rx + q \<le> 16"
  shows "\<exists>d'. foldE (push_frame E k) [0..<q] d = Inr d' \<and>
    linked st k S p True C (rx @ fst (exchanges exch b (take q (drop (TxIndex S) tx)))) (snd (exchanges exch b (take q (drop (TxIndex S) tx)))) d'"
  using assms(5,6)
proof (induction q)
  case 0
  then show ?case using assms(1) by simp
next
  case (Suc q)
  let ?xs = "take q (drop (TxIndex S) tx)" and ?x = "tx ! (TxIndex S + q)"
  obtain d1 where 1: "foldE (push_frame E k) [0..<q] d = Inr d1"
      "linked st k S p True C (rx @ fst (exchanges exch b ?xs)) (snd (exchanges exch b ?xs)) d1"
    using Suc.IH Suc.prems by auto
  obtain f where f: "state_of k d1 = Inr (S\<lparr>TxFifoResetNeeded := f\<rparr>)" "params_of (S\<lparr>TxFifoResetNeeded := f\<rparr>) d1 = p (DeviceParams (ExternalDevice S))"
    using linkedD [OF 1(2)] .
  obtain y b' where y: "exch (snd (exchanges exch b ?xs)) ?x = (y, b')" by fastforce
  have "valid (linked st k S p True C (rx @ fst (exchanges exch b ?xs)) (snd (exchanges exch b ?xs))) (reg_write E k TDR (ucast ?x))
      (linked st k S p True C ((rx @ fst (exchanges exch b ?xs)) @ [y]) b')"
  proof (rule write_step)
    fix m c
    assume c: "c \<in> C" "st m True c (rx @ fst (exchanges exch b ?xs)) (snd (exchanges exch b ?xs))"
    have "good c" "length (rx @ fst (exchanges exch b ?xs)) < 16" using assms(2) c(1) Suc.prems by simp_all
    with store_TDR [OF c(2) _ _ y] c(1)
    show "\<exists>m'. env_store E (hdr_base E k + hdr_offset E TDR) (ucast ?x) m = Inr m' \<and> (\<exists>c'\<in>C. st m' True c' ((rx @ fst (exchanges exch b ?xs)) @ [y]) b')"
      by blast
  qed
  then obtain d2 where 2: "reg_write E k TDR (ucast ?x) d1 = Inr d2" "linked st k S p True C ((rx @ fst (exchanges exch b ?xs)) @ [y]) b' d2"
    using 1(2) unfolding valid_def by blast
  have m: "mem_read tx (TxIndex S + q) 1 = Inr [?x]"
    using Suc.prems by (simp add: mem_read_def take_Suc_conv_app_nth)
  have "push_frame E k q d1 = Inr d2"
    using f 2(1) m assms(3,4) by (simp add: push_frame_def Let_def frame_byte [unfolded One_nat_def])
  moreover have "take (Suc q) (drop (TxIndex S) tx) = ?xs @ [?x]"
    using Suc.prems by (simp add: take_Suc_conv_app_nth)
  moreover have "exchanges exch b (?xs @ [?x]) = (fst (exchanges exch b ?xs) @ [y], b')"
    using y by (simp add: exchanges_append Let_def case_prod_beta)
  ultimately show ?case using 1(1) 2(2) by (simp add: foldE_append)
qed

lemma read_frames_linked:
  assumes "linked st k S p True C rx b d" and "\<forall>c \<in> C. good c" and "frame_width (FrameSize (p (DeviceParams (ExternalDevice S)))) = 1"
    and "RxBuffer S = Some buf" and "RxIndex S + q \<le> length buf" and "q \<le> length rx"
  shows "\<exists>d'. foldE (read_frame E k) [0..<q] d = Inr d' \<and>
    linked st k (S\<lparr>RxBuffer := Some (take (RxIndex S) buf @ take q rx @ drop (RxIndex S + q) buf)\<rparr>) p True C (drop q rx) b d'"
  using assms(5,6)
proof (induction q)
  case 0
  have "S\<lparr>RxBuffer := Some buf\<rparr> = S" using assms(4) by (cases S) simp
  then show ?case using assms(1) by simp
next
  case (Suc q)
  let ?buf = "take (RxIndex S) buf @ take q rx @ drop (RxIndex S + q) buf"
  let ?S = "S\<lparr>RxBuffer := Some ?buf\<rparr>"
  obtain d1 where 1: "foldE (read_frame E k) [0..<q] d = Inr d1" "linked st k ?S p True C (drop q rx) b d1"
    using Suc.IH Suc.prems by auto
  have x: "drop q rx = rx ! q # drop (Suc q) rx" using Suc.prems by (simp add: Cons_nth_drop_Suc)
  obtain v d2 c where 2: "reg_read E k RDR d1 = Inr (v, d2)" "c \<in> C" "linked st k ?S p True {c} (drop (Suc q) rx) b d2" "v = ucast (rx ! q)"
    using read_step [of C True "drop q rx" b RDR "drop (Suc q) rx" "\<lambda>_ v. v = ucast (rx ! q)" ?S p] load_RDR assms(2) 1(2)
    unfolding x yields_def by metis
  then obtain f where f: "state_of k d2 = Inr (?S\<lparr>TxFifoResetNeeded := f\<rparr>)" "params_of (?S\<lparr>TxFifoResetNeeded := f\<rparr>) d2 = p (DeviceParams (ExternalDevice S))"
    using linkedD [OF 2(3)] by auto
  let ?buf' = "take (RxIndex S) buf @ take (Suc q) rx @ drop (RxIndex S + Suc q) buf"
  have m: "mem_write ?buf (RxIndex S + q) [rx ! q] = Inr ?buf'"
    using Suc.prems by (simp add: mem_write_def min_def take_Suc_conv_app_nth)
  have "read_frame E k q d1 = Inr (set_state k (RxBuffer_update (\<lambda>_. Some ?buf')) d2)"
    using 2(1,4) f assms(3) m by (simp add: read_frame_def Let_def frame_byte [unfolded One_nat_def])
  moreover have "linked st k (S\<lparr>RxBuffer := Some ?buf'\<rparr>) p True {c} (drop (Suc q) rx) b (set_state k (RxBuffer_update (\<lambda>_. Some ?buf')) d2)"
    by (rule linked_set [OF 2(3)]) (cases S, simp)
  ultimately show ?case using 1(1) 2(2) by (auto simp: foldE_append linked_def)
qed

lemma receive_linked:
  assumes "linked st k S p True C rx b d" and "\<forall>c \<in> C. good c" and "frame_width (FrameSize (p (DeviceParams (ExternalDevice S)))) = 1"
    and "RxBuffer S = Some buf" and "RxIndex S + length rx \<le> ExpectedFifoReads S" and "ExpectedFifoReads S \<le> length buf" and "length rx \<le> 4"
    and "ExpectedFifoReads S < 65536"
  shows "\<exists>d'. receive_part E k d = Inr (rx \<noteq> [], d') \<and>
    linked st k (if rx = [] then S else S\<lparr>RxBuffer := Some (take (RxIndex S) buf @ rx @ drop (RxIndex S + length rx) buf), RxIndex := RxIndex S + length rx,
      CurrentTxFifoSlot := w8 (w8 (CurrentTxFifoSlot S + (if RxIndex S = 0 then 1 else 0)) + length rx)\<rparr>) p True C [] b d'"
  (is "\<exists>d'. ?run d' \<and> linked st k ?S' p True C [] b d'")
proof -
  note lay = documented_layoutD [OF layout]
  obtain v d1 where 1: "reg_read E k FSR d = Inr (v, d1)" "linked st k S p True C rx b d1" "unat (drop_bit 16 (v AND 0x70000)) = length rx"
    using read_step [of C True rx b FSR rx "\<lambda>_ v. unat (drop_bit 16 (v AND 0x70000)) = length rx" S p] load_FSR assms(1,2,7)
    unfolding yields_def linked_def by (metis (no_types, lifting) singletonD)
  have n: "w8 (unat (field_of E F_FSR_RXCOUNT v)) = length rx" using 1(3) assms(7) by (simp add: field_of_def lay w8_def)
  show ?thesis
  proof (cases "rx = []")
    case True
    then show ?thesis using 1 n by (auto simp: receive_part_def)
  next
    case False
    let ?q = "length rx" and ?g = "CurrentTxFifoSlot_update (\<lambda>k. w8 (k + 1))"
    obtain f where f: "state_of k d1 = Inr (S\<lparr>TxFifoResetNeeded := f\<rparr>)" using linkedD [OF 1(2)] by blast
    define d2 where "d2 = (if RxIndex S = 0 then set_state k ?g d1 else d1)"
    define S2 where "S2 = (if RxIndex S = 0 then S\<lparr>CurrentTxFifoSlot := w8 (CurrentTxFifoSlot S + 1)\<rparr> else S)"
    have "linked st k (S\<lparr>CurrentTxFifoSlot := w8 (CurrentTxFifoSlot S + 1)\<rparr>) p True C rx b (set_state k ?g d1)"
      by (rule linked_set [OF 1(2)]) (cases S, simp)
    then have d2: "linked st k S2 p True C rx b d2" using 1(2) by (simp add: d2_def S2_def)
    have S2: "ExternalDevice S2 = ExternalDevice S" "RxBuffer S2 = Some buf" "RxIndex S2 = RxIndex S" using assms(4) by (simp_all add: S2_def)
    obtain d3 where 3: "foldE (read_frame E k) [0..<?q] d2 = Inr d3"
        "linked st k (S2\<lparr>RxBuffer := Some (take (RxIndex S) buf @ rx @ drop (RxIndex S + ?q) buf)\<rparr>) p True C [] b d3"
      using read_frames_linked [OF d2 assms(2), of buf ?q] assms(3,5,6) S2 by auto
    have i: "w16 (RxIndex S + ?q) = RxIndex S + ?q" using assms(5,8) by (simp add: w16_small)
    let ?d4 = "set_state k (CurrentTxFifoSlot_update (\<lambda>k. w8 (k + ?q))) (set_state k (RxIndex_update (\<lambda>n. w16 (n + ?q))) d3)"
    have "receive_part E k d = Inr (True, ?d4)"
      using 1(1) n False f 3(1) assms(5) by (simp add: receive_part_def Let_def Lpspi_Ip_ReadDataFromFifo_def flip: d2_def)
    moreover have "linked st k (S2\<lparr>RxBuffer := Some (take (RxIndex S) buf @ rx @ drop (RxIndex S + ?q) buf), RxIndex := RxIndex S + ?q,
        CurrentTxFifoSlot := w8 (CurrentTxFifoSlot S2 + ?q)\<rparr>) p True C [] b ?d4"
      by (rule linked_set [OF linked_set [OF 3(2), where S' = "S2\<lparr>RxBuffer := Some (take (RxIndex S) buf @ rx @ drop (RxIndex S + ?q) buf), RxIndex := RxIndex S + ?q\<rparr>"]])
        (cases S2, use S2(3) i in simp)+
    moreover have "S2\<lparr>RxBuffer := Some (take (RxIndex S) buf @ rx @ drop (RxIndex S + ?q) buf), RxIndex := RxIndex S + ?q,
        CurrentTxFifoSlot := w8 (CurrentTxFifoSlot S2 + ?q)\<rparr> = ?S'"
      using False by (cases S) (simp add: S2_def w8_def mod_simps)
    ultimately show ?thesis using False by (intro exI [of _ ?d4]) simp
  qed
qed

lemma transmit_more_linked:
  assumes "linked st k S p True C rx b d" and "\<forall>c \<in> C. good c" and "frame_width (FrameSize (p (DeviceParams (ExternalDevice S)))) = 1"
    and "TxBuffer S = Some tx" and "ExpectedFifoWrites S \<le> length tx" and "ExpectedFifoWrites S < 65536" and "TxIndex S < ExpectedFifoWrites S"
    and "0 < CurrentTxFifoSlot S" and "CurrentTxFifoSlot S + length rx \<le> 4" and "q = min (CurrentTxFifoSlot S) (ExpectedFifoWrites S - TxIndex S)"
    and "xs = take q (drop (TxIndex S) tx)"
  shows "\<exists>d'. transmit_part E k (clear_cs E k) d = Inr (True, d') \<and>
    linked st k (S\<lparr>TxIndex := TxIndex S + q, CurrentTxFifoSlot := CurrentTxFifoSlot S - q\<rparr>) p True C (rx @ fst (exchanges exch b xs)) (snd (exchanges exch b xs)) d'"
proof -
  obtain f where f: "state_of k d = Inr (S\<lparr>TxFifoResetNeeded := f\<rparr>)" using linkedD [OF assms(1)] by blast
  have qle: "TxIndex S + q \<le> length tx" "length rx + q \<le> 16" using assms(5,7,9,10) by simp_all
  obtain d1 where 1: "foldE (push_frame E k) [0..<q] d = Inr d1" "linked st k S p True C (rx @ fst (exchanges exch b xs)) (snd (exchanges exch b xs)) d1"
    using push_frames_linked [OF assms(1-4), of q] qle unfolding assms(11) by blast
  let ?d2 = "set_state k (CurrentTxFifoSlot_update (\<lambda>k. sub8 k q)) (set_state k (TxIndex_update (\<lambda>n. w16 (n + q))) d1)"
  have q: "(if int (CurrentTxFifoSlot S) > int (ExpectedFifoWrites S) - int (TxIndex S) then sub8 (ExpectedFifoWrites S) (TxIndex S) else CurrentTxFifoSlot S) = q"
    using assms(7,9,10) by (auto simp: sub8_small)
  have "transmit_part E k (clear_cs E k) d = Inr (True, ?d2)"
    using f 1(1) assms(7,8) q by (simp add: transmit_part_def Let_def Lpspi_Ip_PushDataToFifo_def split: if_splits)
  moreover have "w16 (TxIndex S + q) = TxIndex S + q" "sub8 (CurrentTxFifoSlot S) q = CurrentTxFifoSlot S - q"
    using assms(6,7,9,10) by (simp_all add: w16_small sub8_small)
  then have "linked st k (S\<lparr>TxIndex := TxIndex S + q, CurrentTxFifoSlot := CurrentTxFifoSlot S - q\<rparr>) p True C (rx @ fst (exchanges exch b xs)) (snd (exchanges exch b xs)) ?d2"
    by (intro linked_set [OF linked_set [OF 1(2), where S' = "S\<lparr>TxIndex := TxIndex S + q\<rparr>"]]) (cases S, simp)+
  ultimately show ?thesis by blast
qed

lemma transmit_done_linked:
  assumes "linked st k S p en {demo_command, end_command} rx b d" and "CurrentTxFifoSlot S \<noteq> 0" and "TxIndex S = ExpectedFifoWrites S"
  shows "\<exists>d'. transmit_part E k (clear_cs E k) d = Inr (False, d') \<and> linked st k S p en {demo_command, end_command} rx b d'"
proof -
  note lay = documented_layoutD [OF layout]
  let ?C = "{demo_command, end_command}"
  obtain f where f: "state_of k d = Inr (S\<lparr>TxFifoResetNeeded := f\<rparr>)" using linkedD [OF assms(1)] by blast
  obtain v d1 c where 1: "reg_read E k TCR d = Inr (v, d1)" "c \<in> ?C" "linked st k S p en {c} rx b d1" "v = c"
    using read_step [of ?C en rx b TCR rx "\<lambda>c v. v = c" S p] load_TCR assms(1) unfolding yields_def by metis
  have "valid (linked st k S p en {demo_command} rx b) (reg_modify E k TCR (\<lambda>v. v AND NOT (hdr_mask E F_TCR_CONT OR hdr_mask E F_TCR_CONTC)))
      (linked st k S p en {end_command} rx b)"
  proof (rule modify_step [where Q = "\<lambda>c v. v = c"])
    fix m c and v :: u32
    assume "c \<in> {demo_command}" "st m en c rx b" "v = c"
    moreover have "demo_command AND NOT (hdr_mask E F_TCR_CONT OR hdr_mask E F_TCR_CONTC) = end_command"
      by (simp add: lay demo_command_def end_command_def)
    ultimately show "\<exists>m'. env_store E (hdr_base E k + hdr_offset E TCR) (v AND NOT (hdr_mask E F_TCR_CONT OR hdr_mask E F_TCR_CONTC)) m = Inr m' \<and>
        (\<exists>c'\<in>{end_command}. st m' en c' rx b)" using store_TCR commands(2) by simp
  qed (use load_TCR in auto)
  moreover have "demo_command AND hdr_mask E F_TCR_CONT \<noteq> 0" "end_command AND hdr_mask E F_TCR_CONT = 0"
    by (simp_all add: lay demo_command_def end_command_def)
  ultimately have "\<exists>d'. clear_cs E k d = Inr d' \<and> linked st k S p en ?C rx b d'"
    using f 1 assms(1) unfolding valid_def by (cases "KeepCs S") (auto simp: clear_cs_def linked_def)
  then show ?thesis using f assms(2,3) by (auto simp: transmit_part_def)
qed

end

text \<open>What a transfer leaves as it is in the driver's state.\<close>

definition fixed_part :: "Lpspi_Ip_StateStructureType \<Rightarrow> Lpspi_Ip_ExternalDeviceType \<times> Lpspi_Ip_ConfigType \<times> bool" where
  [simp]: "fixed_part S = (ExternalDevice S, PhyUnitConfig S, FirstCmd S)"

text \<open>
  The state of an exchange: so many bytes are sent and so many received, those between wait in the
  controller. The free slots count the bytes in flight; the first slot taken by the command is given
  back with the first reply.
\<close>

definition exchanging :: "('b \<Rightarrow> u8 \<Rightarrow> u8 \<times> 'b) \<Rightarrow> 'b \<Rightarrow> u8 list \<Rightarrow> u8 list \<Rightarrow> nat \<Rightarrow> nat \<Rightarrow> nat \<Rightarrow>
    Lpspi_Ip_StateStructureType \<Rightarrow> u8 list \<Rightarrow> 'b \<Rightarrow> bool" where
  "exchanging exch b0 tx buf n i j S rx b \<longleftrightarrow>
     j \<le> i \<and> i \<le> n \<and> n \<le> length tx \<and> n \<le> length buf \<and> n < 65536 \<and> RxIndex S = j \<and> TxIndex S = i \<and>
     ExpectedFifoReads S = n \<and> ExpectedFifoWrites S = n \<and> TxBuffer S = Some tx \<and>
     RxBuffer S = Some (take j (fst (exchanges exch b0 (take n tx))) @ drop j buf) \<and>
     rx = take (i - j) (drop j (fst (exchanges exch b0 (take n tx)))) \<and> b = snd (exchanges exch b0 (take i tx)) \<and>
     CurrentTxFifoSlot S + (i - j) = (if j = 0 then 3 else 4)"

lemma exchanges_next:
  assumes "i + q \<le> n" and "n \<le> length tx" and "b = snd (exchanges exch b0 (take i tx))"
  shows "fst (exchanges exch b (take q (drop i tx))) = take q (drop i (fst (exchanges exch b0 (take n tx))))"
    "snd (exchanges exch b (take q (drop i tx))) = snd (exchanges exch b0 (take (i + q) tx))"
proof -
  have e: "exchanges exch b0 (take (i + q) tx) =
      (fst (exchanges exch b0 (take i tx)) @ fst (exchanges exch b (take q (drop i tx))), snd (exchanges exch b (take q (drop i tx))))"
    using assms(3) by (simp add: take_add exchanges_append Let_def case_prod_beta)
  then show "snd (exchanges exch b (take q (drop i tx))) = snd (exchanges exch b0 (take (i + q) tx))" by simp
  have "take (i + q) (fst (exchanges exch b0 (take n tx))) = fst (exchanges exch b0 (take (i + q) tx))"
    using exchanges_take [of exch b0 "i + q" "take n tx"] assms(1) by (simp add: min_def)
  also have "drop i \<dots> = fst (exchanges exch b (take q (drop i tx)))" using e assms(1,2) by simp
  finally show "fst (exchanges exch b (take q (drop i tx))) = take q (drop i (fst (exchanges exch b0 (take n tx))))" by (simp add: drop_take)
qed

lemma exchanging_receive:
  assumes "exchanging exch b0 tx buf n i j S rx b" and "j < i"
  shows "length rx = i - j" "exchanging exch b0 tx buf n i i (S\<lparr>RxBuffer := Some (take (RxIndex S) (the (RxBuffer S)) @ rx @ drop (RxIndex S + length rx) (the (RxBuffer S))),
      RxIndex := RxIndex S + length rx, CurrentTxFifoSlot := w8 (w8 (CurrentTxFifoSlot S + (if RxIndex S = 0 then 1 else 0)) + length rx)\<rparr>) [] b"
proof -
  show l: "length rx = i - j" using assms by (auto simp: exchanging_def)
  let ?ys = "fst (exchanges exch b0 (take n tx))"
  have "take j ?ys @ take (i - j) (drop j ?ys) = take i ?ys" using assms(2) take_add [of j "i - j" ?ys] by simp
  then show "exchanging exch b0 tx buf n i i (S\<lparr>RxBuffer := Some (take (RxIndex S) (the (RxBuffer S)) @ rx @ drop (RxIndex S + length rx) (the (RxBuffer S))),
      RxIndex := RxIndex S + length rx, CurrentTxFifoSlot := w8 (w8 (CurrentTxFifoSlot S + (if RxIndex S = 0 then 1 else 0)) + length rx)\<rparr>) [] b"
    using assms l by (auto simp: exchanging_def min_def w8_def)
qed

lemma exchanging_transmit:
  assumes "exchanging exch b0 tx buf n i i S [] b" and "i + q \<le> n" and "q \<le> CurrentTxFifoSlot S"
  shows "exchanging exch b0 tx buf n (i + q) i (S\<lparr>TxIndex := TxIndex S + q, CurrentTxFifoSlot := CurrentTxFifoSlot S - q\<rparr>)
    (fst (exchanges exch b (take q (drop i tx)))) (snd (exchanges exch b (take q (drop i tx))))"
  using assms exchanges_next [of i q n tx b exch b0] by (auto simp: exchanging_def)

context spi_port
begin

lemma transmit_linked:
  assumes "linked st k S p True {demo_command, end_command} [] b d" and "exchanging exch b0 tx buf n i i S [] b"
    and "frame_width (FrameSize (p (DeviceParams (ExternalDevice S)))) = 1"
  shows "\<exists>d' S' rx' b' i'. transmit_part E k (clear_cs E k) d = Inr (i < n, d') \<and> linked st k S' p True {demo_command, end_command} rx' b' d' \<and>
    exchanging exch b0 tx buf n i' i S' rx' b' \<and> fixed_part S' = fixed_part S \<and> (i < n \<longrightarrow> i < i')"
proof -
  let ?C = "{demo_command, end_command}"
  note ex = assms(2) [unfolded exchanging_def]
  have slot: "0 < CurrentTxFifoSlot S" "CurrentTxFifoSlot S \<le> 4" using ex by (auto split: if_splits)
  show ?thesis
  proof (cases "i < n")
    case True
    define q where "q = min (CurrentTxFifoSlot S) (n - i)"
    let ?xs = "take q (drop i tx)" and ?S = "S\<lparr>TxIndex := TxIndex S + q, CurrentTxFifoSlot := CurrentTxFifoSlot S - q\<rparr>"
    have "\<exists>d'. transmit_part E k (clear_cs E k) d = Inr (True, d') \<and> linked st k ?S p True ?C ([] @ fst (exchanges exch b ?xs)) (snd (exchanges exch b ?xs)) d'"
      by (rule transmit_more_linked [OF assms(1) _ assms(3)]) (use ex commands slot True in \<open>simp_all add: q_def\<close>)
    moreover have "exchanging exch b0 tx buf n (i + q) i ?S (fst (exchanges exch b ?xs)) (snd (exchanges exch b ?xs))"
      by (rule exchanging_transmit [OF assms(2)]) (use True in \<open>simp_all add: q_def\<close>)
    moreover have "0 < q" using True slot by (simp add: q_def)
    ultimately show ?thesis using True
      by (elim exE conjE) (intro exI [of _ ?S] exI [of _ "fst (exchanges exch b ?xs)"] exI [of _ "snd (exchanges exch b ?xs)"] exI [of _ "i + q"] exI, simp)
  next
    case False
    then have "TxIndex S = ExpectedFifoWrites S" using ex by simp
    then obtain d' where "transmit_part E k (clear_cs E k) d = Inr (False, d')" "linked st k S p True ?C [] b d'"
      using transmit_done_linked [OF assms(1)] slot by blast
    then show ?thesis using False assms(2) by (intro exI [of _ d'] exI [of _ S] exI [of _ "[]"] exI [of _ b] exI [of _ i]) simp
  qed
qed

lemma pass_linked:
  assumes "linked st k S p True {demo_command, end_command} rx b d" and "exchanging exch b0 tx buf n i j S rx b" and "j < n"
    and "frame_width (FrameSize (p (DeviceParams (ExternalDevice S)))) = 1"
  shows "\<exists>r t d1 d2 S' rx' b' i' j'. receive_part E k d = Inr (r, d1) \<and> transmit_part E k (clear_cs E k) d1 = Inr (t, d2) \<and> (r \<or> t) \<and>
    linked st k S' p True {demo_command, end_command} rx' b' d2 \<and> exchanging exch b0 tx buf n i' j' S' rx' b' \<and> fixed_part S' = fixed_part S \<and>
    (n - j') + (n - i') < (n - j) + (n - i)"
proof -
  let ?C = "{demo_command, end_command}"
  note ex = assms(2) [unfolded exchanging_def]
  have good: "\<forall>c \<in> ?C. good c" using commands by simp
  have len: "length rx = i - j" "i - j \<le> 4" "j \<le> i" "i \<le> n" using ex by (auto split: if_splits)
  obtain buf' where buf': "RxBuffer S = Some buf'" "n \<le> length buf'" using ex by auto
  let ?S1 = "if rx = [] then S else S\<lparr>RxBuffer := Some (take (RxIndex S) buf' @ rx @ drop (RxIndex S + length rx) buf'), RxIndex := RxIndex S + length rx,
      CurrentTxFifoSlot := w8 (w8 (CurrentTxFifoSlot S + (if RxIndex S = 0 then 1 else 0)) + length rx)\<rparr>"
  have "\<exists>d'. receive_part E k d = Inr (rx \<noteq> [], d') \<and> linked st k ?S1 p True ?C [] b d'"
    by (rule receive_linked [OF assms(1) good assms(4) buf'(1)]) (use ex len buf'(2) in simp_all)
  then obtain d1 where 1: "receive_part E k d = Inr (rx \<noteq> [], d1)" "linked st k ?S1 p True ?C [] b d1" by blast
  have x1: "exchanging exch b0 tx buf n i i ?S1 [] b"
    using assms(2) exchanging_receive(2) [OF assms(2)] len buf'(1) by (cases "j < i") auto
  have w1: "frame_width (FrameSize (p (DeviceParams (ExternalDevice ?S1)))) = 1" using assms(4) by simp
  obtain d2 S' rx' b' i' where 2: "transmit_part E k (clear_cs E k) d1 = Inr (i < n, d2)" "linked st k S' p True ?C rx' b' d2"
      "exchanging exch b0 tx buf n i' i S' rx' b'" "fixed_part S' = fixed_part ?S1" "i < n \<longrightarrow> i < i'"
    using transmit_linked [OF 1(2) x1 w1] by blast
  have "i' \<le> n" "i \<le> i'" using 2(3) by (simp_all add: exchanging_def)
  then have "rx \<noteq> [] \<or> i < n" "(n - i) + (n - i') < (n - j) + (n - i)" using 2(5) len assms(3) by (cases "i < n"; auto)+
  then show ?thesis using 1(1) 2 by (intro exI [of _ "rx \<noteq> []"] exI [of _ "i < n"] exI [of _ d1] exI [of _ d2] exI [of _ S'] exI [of _ rx'] exI [of _ b'] exI [of _ i'] exI [of _ i]) simp
qed

lemma loop_linked:
  assumes "linked st k S p True {demo_command, end_command} rx b d" and "exchanging exch b0 tx buf n i j S rx b"
    and "frame_width (FrameSize (p (DeviceParams (ExternalDevice S)))) = 1" and "(n - j) + (n - i) < fuel" and "2 \<le> to"
  shows "\<exists>d' S' rx' b'. sync_loop E k to fuel el d = Inr (LPSPI_IP_STATUS_SUCCESS, d') \<and> linked st k S' p True {demo_command, end_command} rx' b' d' \<and>
    exchanging exch b0 tx buf n n n S' rx' b' \<and> fixed_part S' = fixed_part S"
  using assms(1-4)
proof (induction fuel arbitrary: el d S rx b i j)
  case (Suc fuel)
  obtain f where f: "state_of k d = Inr (S\<lparr>TxFifoResetNeeded := f\<rparr>)" using linkedD [OF Suc.prems(1)] by blast
  note ex = Suc.prems(2) [unfolded exchanging_def]
  show ?case
  proof (cases "j = n")
    case True
    then have "sync_loop E k to (Suc fuel) el d = Inr (LPSPI_IP_STATUS_SUCCESS, d)" "i = n" using f ex by simp_all
    then show ?thesis using True Suc.prems(1,2) by blast
  next
    case False
    then have "j < n" using ex by simp
    from pass_linked [OF Suc.prems(1,2) this Suc.prems(3)] obtain r t d1 d2 S' rx' b' i' j' where
      1: "receive_part E k d = Inr (r, d1)" "transmit_part E k (clear_cs E k) d1 = Inr (t, d2)" "r \<or> t" and
      2: "linked st k S' p True {demo_command, end_command} rx' b' d2" "exchanging exch b0 tx buf n i' j' S' rx' b'" "fixed_part S' = fixed_part S"
         "(n - j') + (n - i') < (n - j) + (n - i)" by (elim exE conjE)
    have "sync_loop E k to (Suc fuel) el d = sync_loop E k to fuel 1 d2"
      using f ex 1 \<open>j < n\<close> assms(5) by (simp add: Let_def OsIf_Timer_Dummy_GetElapsed_def)
    then show ?thesis using Suc.IH [OF 2(1,2), of 1] 2(3,4) Suc.prems(3,4) by simp
  qed
qed simp

lemma send_command_linked:
  assumes "ExternalDevice S = SpiExternalDevice_0_Instance_2 E" and "p 0 = device_params_0" and "\<not> SlaveMode (PhyUnitConfig S)" and "FirstCmd S"
  shows "valid (linked st k S p True UNIV [] b) (send_command E k)
    (linked st k (S\<lparr>CurrentTxFifoSlot := sub8 (CurrentTxFifoSlot S) 1\<rparr>) p True {demo_command} [] b)"
  unfolding valid_def
proof (intro allI impI)
  fix d
  assume L: "linked st k S p True UNIV [] b d"
  obtain f where f: "state_of k d = Inr (S\<lparr>TxFifoResetNeeded := f\<rparr>)" using linkedD [OF L] by blast
  have p: "Lpspi_Ip_DeviceParamsCfg d = p" using L by (simp add: linked_def keeps_def)
  have c: "transfer_command E (S\<lparr>TxFifoResetNeeded := f\<rparr>) d = demo_command" using transfer_command_demo [OF layout] assms(1,2) p by simp
  have ty: "TransferType (params_of (S\<lparr>TxFifoResetNeeded := f\<rparr>) d) = LPSPI_IP_FULL_DUPLEX"
    using assms(1,2) p by (simp add: params_of_def SpiExternalDevice_0_Instance_2_def device_params_0_def)
  obtain d1 where 1: "reg_write E k TCR demo_command d = Inr d1" "linked st k S p True {demo_command} [] b d1"
    using TCR_write [OF commands(1)] L unfolding valid_def by blast
  have "send_command E k d = Inr (set_state k (CurrentTxFifoSlot_update (\<lambda>n. sub8 n 1)) d1)"
    using f c ty assms(3,4) 1(1) by (simp add: send_command_def Let_def)
  moreover have "linked st k (S\<lparr>CurrentTxFifoSlot := sub8 (CurrentTxFifoSlot S) 1\<rparr>) p True {demo_command} [] b (set_state k (CurrentTxFifoSlot_update (\<lambda>n. sub8 n 1)) d1)"
    by (rule linked_set [OF 1(2)]) (cases S, simp)
  ultimately show "\<exists>d'. send_command E k d = Inr d' \<and> linked st k (S\<lparr>CurrentTxFifoSlot := sub8 (CurrentTxFifoSlot S) 1\<rparr>) p True {demo_command} [] b d'" by blast
qed

lemma start_linked:
  assumes "linked st k S p en UNIV rx b d" and "ExternalDevice S = SpiExternalDevice_0_Instance_2 E" and "p 0 = device_params_0"
    and "\<not> SlaveMode (PhyUnitConfig S)" and "FirstCmd S" and "CurrentTxFifoSlot S = 4" and "n \<le> length tx" and "n \<le> length buf" and "n < 65536"
  shows "\<exists>d1 d2 S'. Lpspi_TransmitTxInit E k (Some tx) n d = Inr d1 \<and> Lpspi_TransmitRxInit k (Some buf) n d1 = Inr d2 \<and>
    linked st k S' p True {demo_command, end_command} [] b d2 \<and> exchanging exch b tx buf n 0 0 S' [] b \<and> fixed_part S' = fixed_part S"
proof -
  obtain f where f: "state_of k d = Inr (S\<lparr>TxFifoResetNeeded := f\<rparr>)" using linkedD [OF assms(1)] by blast
  obtain d1 where 1: "first_command E k d = Inr d1" "linked st k S p True UNIV [] b d1"
    using first_command_linked [OF assms(4)] assms(1) unfolding valid_def by blast
  define S2 where "S2 = S\<lparr>CurrentTxFifoSlot := 3\<rparr>"
  obtain d2 where 2: "send_command E k d1 = Inr d2" "linked st k S2 p True {demo_command} [] b d2"
    using send_command_linked [of S p b] assms(2-5) 1(2) assms(6) unfolding valid_def by (auto simp: sub8_def S2_def)
  obtain f2 where f2: "state_of k d2 = Inr (S2\<lparr>TxFifoResetNeeded := f2\<rparr>)" "params_of (S2\<lparr>TxFifoResetNeeded := f2\<rparr>) d2 = device_params_0"
    using linkedD [OF 2(2)] assms(2,3) by (auto simp: S2_def SpiExternalDevice_0_Instance_2_def)
  let ?g = "\<lambda>S'. S'\<lparr>TxIndex := 0, TxBuffer := Some tx, ExpectedFifoWrites := n\<rparr>" and ?h = "\<lambda>S'. S'\<lparr>RxIndex := 0, RxBuffer := Some buf, ExpectedFifoReads := n\<rparr>"
  have 3: "Lpspi_TransmitTxInit E k (Some tx) n d = Inr (set_state k ?g d2)"
    using f assms(5) 1(1) 2(1) f2 by (simp add: Lpspi_TransmitTxInit_def expected_frames_def device_params_0_def)
  have l3: "linked st k (?g S2) p True {demo_command} [] b (set_state k ?g d2)" by (rule linked_set [OF 2(2)]) (cases S2, simp)
  obtain f3 where f3: "state_of k (set_state k ?g d2) = Inr (?g S2\<lparr>TxFifoResetNeeded := f3\<rparr>)" "params_of (?g S2\<lparr>TxFifoResetNeeded := f3\<rparr>) (set_state k ?g d2) = device_params_0"
    using linkedD [OF l3] assms(2,3) by (auto simp: S2_def SpiExternalDevice_0_Instance_2_def)
  have 4: "Lpspi_TransmitRxInit k (Some buf) n (set_state k ?g d2) = Inr (set_state k ?h (set_state k ?g d2))"
    using f3 by (simp add: Lpspi_TransmitRxInit_def expected_frames_def device_params_0_def)
  have "linked st k (?h (?g S2)) p True {demo_command} [] b (set_state k ?h (set_state k ?g d2))" by (rule linked_set [OF l3]) (cases S2, simp)
  then have "linked st k (?h (?g S2)) p True {demo_command, end_command} [] b (set_state k ?h (set_state k ?g d2))" by (auto simp: linked_def)
  moreover have "exchanging exch b tx buf n 0 0 (?h (?g S2)) [] b" using assms(7-9) by (simp add: exchanging_def S2_def)
  ultimately show ?thesis using 3 4
    by (intro exI [of _ "set_state k ?g d2"] exI [of _ "set_state k ?h (set_state k ?g d2)"] exI [of _ "?h (?g S2)"]) (simp add: S2_def)
qed

lemma initialised_state: "state_of k d = Inr S \<Longrightarrow> initialised E k d = Inr S"
  using passes by (auto simp: initialised_def state_of_def split: option.splits)

lemma sync_transmit_exchange:
  assumes "linked st k S p en UNIV rx b d" and "k = 2" and "p 0 = device_params_0" and "\<not> SlaveMode (PhyUnitConfig S)" and "FirstCmd S"
    and "Status S \<noteq> LPSPI_IP_BUSY" and "0 < n" and "n < 65536" and "2 \<le> to" and "n \<le> length tx" and "n \<le> length buf"
  shows "\<exists>d' S'. Lpspi_Ip_SyncTransmit E (Some (SpiExternalDevice_0_Instance_2 E)) (Some tx) (Some buf) n to d = Inr (LPSPI_IP_STATUS_SUCCESS, d') \<and>
    state_of k d' = Inr S' \<and> Status S' = LPSPI_IP_IDLE \<and> RxBuffer S' = Some (fst (exchanges exch b (take n tx)) @ drop n buf) \<and>
    linked st k S' p True UNIV [] (snd (exchanges exch b (take n tx))) d' \<and> PhyUnitConfig S' = PhyUnitConfig S \<and> FirstCmd S'"
proof -
  let ?ext = "SpiExternalDevice_0_Instance_2 E"
  have ext: "ExternalInstance ?ext = k" "DeviceParams ?ext = 0" using assms(2) by (simp_all add: SpiExternalDevice_0_Instance_2_def)
  obtain f where f: "state_of k d = Inr (S\<lparr>TxFifoResetNeeded := f\<rparr>)" using linkedD [OF assms(1)] by blast
  have p: "Lpspi_Ip_DeviceParamsCfg d = p" using assms(1) by (simp add: linked_def keeps_def)
  have ini: "initialised E k d = Inr (S\<lparr>TxFifoResetNeeded := f\<rparr>)" using f by (rule initialised_state)
  have chk: "Lpspi_Ip_CheckValidParameters E ?ext n d = Inr ()" using p assms(3) ext by (simp add: Lpspi_Ip_CheckValidParameters_def device_params_0_def)
  have dev: "device_of E (Some ?ext) = Inr ?ext" using passes by (simp add: device_of_def)
  define d1 where "d1 = set_state k (\<lambda>S. S\<lparr>Status := LPSPI_IP_BUSY, ExternalDevice := ?ext\<rparr>) d"
  let ?S1 = "S\<lparr>Status := LPSPI_IP_BUSY, ExternalDevice := ?ext\<rparr>"
  have "linked st k ?S1 p en UNIV rx b d1" unfolding d1_def by (rule linked_set [OF assms(1)]) (cases S, simp)
  then obtain d2 d3 where 2: "reg_write E k DER 0 d1 = Inr d2" "reg_write E k IER 0 d2 = Inr d3" "linked st k ?S1 p en UNIV rx b d3"
    using other_write [of DER ?S1 p en UNIV rx b 0] other_write [of IER ?S1 p en UNIV rx b 0] unfolding valid_def by simp metis
  define d4 where "d4 = set_state k (CurrentTxFifoSlot_update (\<lambda>_. LPSPI_IP_FIFO_SIZE_U8)) d3"
  let ?S4 = "?S1\<lparr>CurrentTxFifoSlot := 4\<rparr>"
  have "linked st k ?S4 p en UNIV rx b d4"
    unfolding d4_def by (rule linked_set [OF 2(3)]) (cases S, simp add: LPSPI_IP_FIFO_SIZE_U8_def)
  from start_linked [OF this, of n tx buf] assms(3-5,8,10,11) obtain d5 d6 S6 where
    6: "Lpspi_TransmitTxInit E k (Some tx) n d4 = Inr d5" "Lpspi_TransmitRxInit k (Some buf) n d5 = Inr d6"
      "linked st k S6 p True {demo_command, end_command} [] b d6" "exchanging exch b tx buf n 0 0 S6 [] b" "fixed_part S6 = fixed_part ?S4" by auto
  obtain f6 where f6: "state_of k d6 = Inr (S6\<lparr>TxFifoResetNeeded := f6\<rparr>)" using linkedD [OF 6(3)] by blast
  have "(n - 0) + (n - 0) < sync_passes to (S6\<lparr>TxFifoResetNeeded := f6\<rparr>)" using 6(4) by (simp add: sync_passes_def exchanging_def)
  moreover have "frame_width (FrameSize (p (DeviceParams (ExternalDevice S6)))) = 1"
    using 6(5) assms(3) ext(2) by (simp add: device_params_0_def frame_width_def)
  ultimately obtain d7 S7 rx7 b7 where 7: "sync_loop E k to (sync_passes to (S6\<lparr>TxFifoResetNeeded := f6\<rparr>)) 0 d6 = Inr (LPSPI_IP_STATUS_SUCCESS, d7)"
      "linked st k S7 p True {demo_command, end_command} rx7 b7 d7" "exchanging exch b tx buf n n n S7 rx7 b7" "fixed_part S7 = fixed_part S6"
    using loop_linked [OF 6(3,4) _ _ assms(9)] by blast
  let ?g = "Status_update (\<lambda>_. LPSPI_IP_IDLE)"
  have l8: "linked st k (?g S7) p True {demo_command, end_command} rx7 b7 (set_state k ?g d7)" by (rule linked_set [OF 7(2)]) (cases S7, simp)
  then have l9: "linked st k (?g S7) p True UNIV [] (snd (exchanges exch b (take n tx))) (set_state k ?g d7)"
    using 7(3) by (auto simp: linked_def exchanging_def)
  obtain f8 where f8: "state_of k (set_state k ?g d7) = Inr ((?g S7)\<lparr>TxFifoResetNeeded := f8\<rparr>)" using linkedD [OF l8] by blast
  let ?S8 = "(?g S7)\<lparr>TxFifoResetNeeded := f8\<rparr>"
  have "linked st k ?S8 p True UNIV [] (snd (exchanges exch b (take n tx))) (set_state k ?g d7)"
    using l9 by (simp add: linked_def keeps_def)
  moreover have "Lpspi_Ip_SyncTransmit E (Some ?ext) (Some tx) (Some buf) n to d = Inr (LPSPI_IP_STATUS_SUCCESS, set_state k ?g d7)"
    using dev passes chk ini assms(6,7,9) 2(1,2) 6(1,2) f6 7(1) ext(1)
    by (simp add: Lpspi_Ip_SyncTransmit_def Let_def OsIf_Timer_Dummy_MicrosToTicks_def flip: d1_def d4_def)
  moreover have "RxBuffer ?S8 = Some (fst (exchanges exch b (take n tx)) @ drop n buf)" using 7(3) by (simp add: exchanging_def)
  moreover have "PhyUnitConfig ?S8 = PhyUnitConfig S" "FirstCmd ?S8" using 7(4) 6(5) assms(5) by simp_all
  ultimately show ?thesis using f8 by (intro exI [of _ "set_state k ?g d7"] exI [of _ ?S8]) simp
qed

lemma init_linked:
  assumes "st m en c rx b" and "k = 2" and "2 < LPSPI_INSTANCE_COUNT E"
  shows "\<exists>d S. Lpspi_Ip_Init E (Some (SpiPhyUnit_0_Instance_2 E)) (driver_start m) = Inr (LPSPI_IP_STATUS_SUCCESS, d) \<and>
    linked st k S (\<lambda>i. if i = 0 then device_params_0 else device_params_1) False UNIV rx b d \<and>
    \<not> SlaveMode (PhyUnitConfig S) \<and> FirstCmd S \<and> Status S = LPSPI_IP_IDLE"
proof -
  note lay = documented_layoutD [OF layout]
  let ?cfg = "SpiPhyUnit_0_Instance_2 E" and ?p = "\<lambda>i. if i = (0 :: nat) then device_params_0 else device_params_1"
  have fields: "PhyInstance ?cfg = k" "StateIndex ?cfg = 0" "Cr ?cfg OR hdr_mask E F_CR_DBGEN = 8" "Cfgr1 ?cfg = 1" "PhyTransferMode ?cfg = LPSPI_IP_POLLING" "\<not> SlaveMode ?cfg"
    using assms(2) lay by (simp_all add: SpiPhyUnit_0_Instance_2_def)
  define d0 where "d0 = set_state k (PhyUnitConfig_update (\<lambda>_. ?cfg)) ((driver_start m)\<lparr>Lpspi_Ip_apxStateStructureArray := (\<lambda>_. None)(k \<mapsto> 0)\<rparr>)"
  define S0 where "S0 = zero_state\<lparr>PhyUnitConfig := ?cfg\<rparr>"
  have st0: "state_of k d0 = Inr S0"
    by (simp add: d0_def S0_def state_of_def set_state_def driver_start_def)
  then have l0: "linked st k S0 ?p en UNIV rx b d0"
    using assms(1) by (auto simp: linked_def keeps_def d0_def driver_start_def S0_def zero_state_def intro: exI [of _ False])
  have "valid (linked st k S0 ?p en UNIV rx b) (reg_write E k CR 8) (linked st k S0 ?p False UNIV rx b)"
    by (rule write_step) (use store_CR [of _ _ _ _ _ 8] in fastforce)
  then obtain d1 where 1: "reg_write E k CR 8 d0 = Inr d1" "linked st k S0 ?p False UNIV rx b d1" using l0 unfolding valid_def by blast
  have "valid (linked st k S0 ?p False UNIV rx b) (reg_write E k CFGR1 1) (linked st k S0 ?p False UNIV rx b)"
    by (rule write_step) (use store_CFGR1 master in blast)
  then obtain d2 where 2: "reg_write E k CFGR1 1 d1 = Inr d2" "linked st k S0 ?p False UNIV rx b d2" using 1(2) unfolding valid_def by blast
  let ?w = "fld E F_FCR_TXWATER (of_nat LPSPI_IP_FIFO_SIZE_U8 - 2)"
  obtain d3 where 3: "reg_write E k FCR ?w d2 = Inr d3" "linked st k S0 ?p False UNIV rx b d3"
    using other_write [of FCR S0 ?p False UNIV rx b ?w] 2(2) unfolding valid_def by auto
  obtain f where f: "state_of k d3 = Inr (S0\<lparr>TxFifoResetNeeded := f\<rparr>)" using linkedD [OF 3(2)] by blast
  let ?g = "\<lambda>S. S\<lparr>KeepCs := False, FirstCmd := True, TxFifoResetNeeded := (if ERR_IPV_LPSPIV2_0001 E = Second_solution then False else TxFifoResetNeeded S), Status := LPSPI_IP_IDLE\<rparr>"
  let ?h = "TransferMode_update (\<lambda>_. LPSPI_IP_POLLING)"
  let ?S = "?h (?g (S0\<lparr>TxFifoResetNeeded := f\<rparr>))"
  have fin: "state_of k (set_state k ?h (set_state k ?g d3)) = Inr ?S" using f by simp
  have "Lpspi_Ip_UpdateTransferMode E k LPSPI_IP_POLLING (set_state k ?g d3) = Inr (LPSPI_IP_STATUS_SUCCESS, set_state k ?h (set_state k ?g d3))"
    using initialised_state [OF state_of_set [OF f, of ?g]] assms(2,3) passes by (simp add: Lpspi_Ip_UpdateTransferMode_def)
  then have "Lpspi_Ip_Init E (Some ?cfg) (driver_start m) = Inr (LPSPI_IP_STATUS_SUCCESS, set_state k ?h (set_state k ?g d3))"
    using passes fields 1(1) 2(1) 3(1) by (simp add: Lpspi_Ip_Init_def Let_def driver_start_def d0_def)
  moreover have "linked st k ?S ?p False UNIV rx b (set_state k ?h (set_state k ?g d3))"
    unfolding linked_def
  proof
    show "keeps k ?S ?p (set_state k ?h (set_state k ?g d3))"
      by (rule keepsI [OF fin]) (use 3(2) in \<open>simp add: linked_def keeps_def\<close>)
    show "\<exists>c\<in>UNIV. st (machine (set_state k ?h (set_state k ?g d3))) False c rx b" using 3(2) by (simp add: linked_def)
  qed
  moreover have "\<not> SlaveMode (PhyUnitConfig ?S) \<and> FirstCmd ?S \<and> Status ?S = LPSPI_IP_IDLE" using fields by (simp add: S0_def)
  ultimately show ?thesis by blast
qed

end

end
