(* ===== verification/Mmio.thy ===== *)
theory Mmio
  imports Prelude
begin

text \<open>
  The interface between the guest's loads and stores and a memory-mapped device: a device has a
  read and a write handler on its state, an invariant, and a set of acceptable stores. Every
  device model of the board is an instance, and a whole run of accesses is safe for all of them
  by the same argument.
\<close>

datatype access = Load nat | Store nat u64

definition mmio_step :: "('s \<Rightarrow> nat \<Rightarrow> (u32 \<times> 's) res) \<Rightarrow> ('s \<Rightarrow> nat \<Rightarrow> u64 \<Rightarrow> 's res) \<Rightarrow>
    access \<Rightarrow> 's \<Rightarrow> 's res" where
  "mmio_step rd wr a s = (case a of
     Load addr \<Rightarrow> rbind (rd s addr) (\<lambda>(_, s). Inr s)
   | Store addr v \<Rightarrow> wr s addr v)"

definition acceptable :: "(nat \<Rightarrow> u64 \<Rightarrow> bool) \<Rightarrow> access \<Rightarrow> bool" where
  "acceptable ok a = (case a of Load _ \<Rightarrow> True | Store addr v \<Rightarrow> ok addr v)"

lemma acceptable_simps [simp]:
  "acceptable ok (Load a)" "acceptable ok (Store a v) \<longleftrightarrow> ok a v"
  by (simp_all add: acceptable_def)

locale mmio_device =
  fixes inv :: "'s \<Rightarrow> bool"
    and ok :: "nat \<Rightarrow> u64 \<Rightarrow> bool"
    and rd :: "'s \<Rightarrow> nat \<Rightarrow> (u32 \<times> 's) res"
    and wr :: "'s \<Rightarrow> nat \<Rightarrow> u64 \<Rightarrow> 's res"
  assumes rd_inv: "inv s \<Longrightarrow> \<exists>x s'. rd s a = Inr (x, s') \<and> inv s'"
    and wr_inv: "inv s \<Longrightarrow> ok a v \<Longrightarrow> \<exists>s'. wr s a v = Inr s' \<and> inv s'"
begin

lemma step_inv: "inv s \<Longrightarrow> acceptable ok a \<Longrightarrow> \<exists>s'. mmio_step rd wr a s = Inr s' \<and> inv s'"
proof (cases a)
  case (Load addr)
  moreover assume "inv s"
  ultimately show ?thesis using rd_inv [of s addr] by (auto simp: mmio_step_def)
next
  case (Store addr v)
  moreover assume "inv s" "acceptable ok a"
  ultimately show ?thesis using wr_inv [of s addr v] by (simp add: mmio_step_def)
qed

lemma run_inv:
  "inv s \<Longrightarrow> \<forall>a \<in> set as. acceptable ok a \<Longrightarrow> \<exists>s'. foldE (mmio_step rd wr) as s = Inr s' \<and> inv s'"
proof (induction as arbitrary: s)
  case (Cons a as)
  then obtain s1 where "mmio_step rd wr a s = Inr s1" "inv s1" using step_inv by fastforce
  with Cons show ?case by auto
qed simp

end

end
