(* ===== verification/Lpuart.thy ===== *)
theory Lpuart
  imports Mmio
begin

text \<open>
  The NXP S32K358 LPUART model of the emulator (\<^verbatim>\<open>hw/char/nxps32k358_lpuart.c\<close>) and the part of
  the multiplexed character device (\<^verbatim>\<open>chardev/char-mux.c\<close>) that feeds it. The character backend is
  the list of bytes written to it, the speed last requested of it and, when the backend is a
  multiplexer with the UART in focus, the UART's input buffer there.
\<close>

section \<open>Registers\<close>

datatype lpuart_reg = LPUART_VERID | LPUART_PARAM | LPUART_GLOBAL | LPUART_PINCFG | LPUART_BAUD |
  LPUART_STAT | LPUART_CTRL | LPUART_DATA | LPUART_MATCH | LPUART_MODIR | LPUART_FIFO | LPUART_WATER

definition lpuart_offsets :: "(nat \<times> lpuart_reg) list" where
  "lpuart_offsets =
     [(0x00, LPUART_VERID), (0x04, LPUART_PARAM), (0x08, LPUART_GLOBAL), (0x0C, LPUART_PINCFG),
      (0x10, LPUART_BAUD), (0x14, LPUART_STAT), (0x18, LPUART_CTRL), (0x1C, LPUART_DATA),
      (0x20, LPUART_MATCH), (0x24, LPUART_MODIR), (0x28, LPUART_FIFO), (0x2C, LPUART_WATER)]"

definition lpuart_decode :: "nat \<Rightarrow> lpuart_reg option" where
  "lpuart_decode offset = map_of lpuart_offsets offset"

definition LPUART_STAT_TDRE :: u32 where "LPUART_STAT_TDRE = push_bit 23 1"
definition LPUART_STAT_RDRF :: u32 where "LPUART_STAT_RDRF = push_bit 21 1"
definition LPUART_CTRL_RE :: u32 where "LPUART_CTRL_RE = push_bit 18 1"
definition LPUART_CTRL_RIE :: u32 where "LPUART_CTRL_RIE = push_bit 21 1"
definition LPUART_CTRL_TCIE :: u32 where "LPUART_CTRL_TCIE = push_bit 22 1"
definition LPUART_CTRL_TIE :: u32 where "LPUART_CTRL_TIE = push_bit 23 1"

definition LPUART_BAUD_OSR_MASK :: u32 where "LPUART_BAUD_OSR_MASK = push_bit 24 (push_bit 5 1 - 1)"
definition LPUART_BAUD_SBR_MASK :: u32 where "LPUART_BAUD_SBR_MASK = push_bit 0 (push_bit 13 1 - 1)"
definition LPUART_GLOBAL_RST_MASK :: u32 where "LPUART_GLOBAL_RST_MASK = push_bit 1 1"

definition LPUART_BAUD_RESET :: u32 where "LPUART_BAUD_RESET = 0x0F000004"
definition LPUART_STAT_RESET :: u32 where "LPUART_STAT_RESET = 0x00C00000"
definition LPUART_CONTROL_RESET :: u32 where "LPUART_CONTROL_RESET = 0"
definition LPUART_DATA_RESET :: u32 where "LPUART_DATA_RESET = 0x00001000"
definition LPUART_GLOBAL_RESET :: u32 where "LPUART_GLOBAL_RESET = 0x00000002"

lemmas lpuart_bits [reg_simps] =
  LPUART_STAT_TDRE_def LPUART_STAT_RDRF_def LPUART_CTRL_RE_def LPUART_CTRL_RIE_def
  LPUART_CTRL_TCIE_def LPUART_CTRL_TIE_def LPUART_GLOBAL_RST_MASK_def
lemmas lpuart_resets [reg_simps] =
  LPUART_BAUD_RESET_def LPUART_STAT_RESET_def LPUART_CONTROL_RESET_def LPUART_DATA_RESET_def
  LPUART_GLOBAL_RESET_def

section \<open>State\<close>

definition MUX_BUFFER_SIZE :: u32 where "MUX_BUFFER_SIZE = 32"
definition MUX_BUFFER_MASK :: u32 where "MUX_BUFFER_MASK = MUX_BUFFER_SIZE - 1"

text \<open>The multiplexer's slot for the frontend in focus; \<open>prod\<close> and \<open>cons\<close> are free-running
  32-bit counters.\<close>

record MuxPort =
  mux_buffer :: "u8 list"
  mux_prod :: u32
  mux_cons :: u32
  term_got_escape :: bool

record NXPS32K358LPUARTState =
  lpuart_clk :: "nat option"
  lpuart_irq :: bool
  baud_rate_config :: u32
  lpuart_cr :: u32
  lpuart_sr :: u32
  lpuart_dr :: u32
  lpuart_gb :: u32
  chr_out :: "u8 list"
  chr_speed :: nat
  chr_mux :: "MuxPort option"

type_synonym lpuart = NXPS32K358LPUARTState

section \<open>Operations\<close>

definition nxps32k358_lpuart_calculate_baud_rate :: "lpuart \<Rightarrow> nat" where
  "nxps32k358_lpuart_calculate_baud_rate s =
     (let sbr = unat (baud_rate_config s AND LPUART_BAUD_SBR_MASK);
          osr_val_in_reg = unat (drop_bit 24 (baud_rate_config s AND LPUART_BAUD_OSR_MASK));
          lpuart_module_clk_freq = (case lpuart_clk s of None \<Rightarrow> 0 | Some hz \<Rightarrow> hz);
          divisor = w32 (osr_val_in_reg + 1) * sbr
      in if divisor = 0 then 0 else w32 (lpuart_module_clk_freq div divisor))"

definition nxps32k358_lpuart_update_params :: "lpuart \<Rightarrow> lpuart" where
  "nxps32k358_lpuart_update_params s = s\<lparr>chr_speed := nxps32k358_lpuart_calculate_baud_rate s\<rparr>"

definition nxps32k358_lpuart_update_irq :: "lpuart \<Rightarrow> lpuart" where
  "nxps32k358_lpuart_update_irq s =
     (let mask = lpuart_sr s AND lpuart_cr s in
      if mask AND (LPUART_CTRL_TIE OR LPUART_CTRL_TCIE OR LPUART_CTRL_RIE) \<noteq> 0
      then s\<lparr>lpuart_irq := True\<rparr> else s\<lparr>lpuart_irq := False\<rparr>)"

definition nxps32k358_lpuart_can_receive :: "lpuart \<Rightarrow> nat" where
  "nxps32k358_lpuart_can_receive s = (if lpuart_sr s AND LPUART_STAT_RDRF \<noteq> 0 then 0 else 1)"

definition nxps32k358_lpuart_receive :: "lpuart \<Rightarrow> u8 list \<Rightarrow> lpuart" where
  "nxps32k358_lpuart_receive s buf =
     (if lpuart_cr s AND LPUART_CTRL_RE = 0 \<or> buf = [] then s
      else nxps32k358_lpuart_update_irq
             (s\<lparr>lpuart_dr := ucast (hd buf), lpuart_sr := lpuart_sr s OR LPUART_STAT_RDRF\<rparr>))"

definition nxps32k358_lpuart_reset :: "lpuart \<Rightarrow> lpuart" where
  "nxps32k358_lpuart_reset s =
     nxps32k358_lpuart_update_irq
       (s\<lparr>lpuart_cr := LPUART_CONTROL_RESET, lpuart_sr := LPUART_STAT_RESET,
          lpuart_dr := LPUART_DATA_RESET, lpuart_gb := LPUART_GLOBAL_RESET,
          baud_rate_config := LPUART_BAUD_RESET\<rparr>)"

lemma chr_mux_receive [simp]: "chr_mux (nxps32k358_lpuart_receive s buf) = chr_mux s"
  by (simp add: nxps32k358_lpuart_receive_def nxps32k358_lpuart_update_irq_def Let_def)

text \<open>
  Draining the multiplexer's buffer into the UART; without a multiplexer there is nothing to do.
  The loop ends because the distance between the two counters shrinks.
\<close>

definition mux_slot :: "u32 \<Rightarrow> nat" where
  "mux_slot k = unat (k AND MUX_BUFFER_MASK)"

lemma mux_distance:
  fixes prod cons :: u32
  assumes "prod \<noteq> cons"
  shows "unat (prod - (cons + 1)) < unat (prod - cons)"
proof -
  have "prod - cons \<noteq> 0" using assms by simp
  then have "unat (prod - cons - 1) = unat (prod - cons) - 1" and "0 < unat (prod - cons)"
    by (simp_all add: unat_minus_one unat_gt_0)
  then show ?thesis by (simp add: diff_diff_eq [symmetric])
qed

function mux_chr_accept_input :: "lpuart \<Rightarrow> lpuart" where
  "mux_chr_accept_input s =
     (case chr_mux s of None \<Rightarrow> s
      | Some d \<Rightarrow>
          if mux_prod d \<noteq> mux_cons d \<and> nxps32k358_lpuart_can_receive s \<noteq> 0
          then mux_chr_accept_input
                 (nxps32k358_lpuart_receive (s\<lparr>chr_mux := Some (d\<lparr>mux_cons := mux_cons d + 1\<rparr>)\<rparr>)
                    [mux_buffer d ! mux_slot (mux_cons d)])
          else s)"
  by pat_completeness auto
termination
  by (relation "measure (\<lambda>s. case chr_mux s of None \<Rightarrow> 0 | Some d \<Rightarrow> unat (mux_prod d - mux_cons d))")
    (auto simp: mux_distance)

declare mux_chr_accept_input.simps [simp del]

definition mux_chr_can_read :: "lpuart \<Rightarrow> MuxPort \<Rightarrow> nat" where
  "mux_chr_can_read s d =
     (if mux_prod d - mux_cons d < MUX_BUFFER_SIZE then 1 else nxps32k358_lpuart_can_receive s)"

text \<open>What the multiplexer does with a byte from the terminal: pass it on, remember the escape
  character, or obey a command of its own.\<close>

datatype mux_action = SendChar | Swallow | PrintHelp | Terminate | CommitAll | SendBreak |
  SwitchFocus | ToggleTimestamps

definition term_escape_char :: u8 where "term_escape_char = 0x01"

definition mux_proc_byte :: "bool \<Rightarrow> u8 \<Rightarrow> mux_action \<times> bool" where
  "mux_proc_byte got_escape ch =
     (if got_escape then
        (if ch = term_escape_char then (SendChar, False)
         else if ch = 0x3F \<or> ch = 0x68 then (PrintHelp, False)
         else if ch = 0x78 then (Terminate, False)
         else if ch = 0x73 then (CommitAll, False)
         else if ch = 0x62 then (SendBreak, False)
         else if ch = 0x63 then (SwitchFocus, False)
         else if ch = 0x74 then (ToggleTimestamps, False)
         else (Swallow, False))
      else if ch = term_escape_char then (Swallow, True)
      else (SendChar, False))"

definition mux_read_byte :: "u8 \<Rightarrow> lpuart \<Rightarrow> lpuart" where
  "mux_read_byte b s =
     (case chr_mux s of None \<Rightarrow> s
      | Some d \<Rightarrow>
          let (act, esc) = mux_proc_byte (term_got_escape d) b;
              d = d\<lparr>term_got_escape := esc\<rparr>; s = s\<lparr>chr_mux := Some d\<rparr>
          in if act = SendChar then
               (if mux_prod d = mux_cons d \<and> nxps32k358_lpuart_can_receive s \<noteq> 0
                then nxps32k358_lpuart_receive s [b]
                else s\<lparr>chr_mux := Some (d\<lparr>mux_buffer := (mux_buffer d)[mux_slot (mux_prod d) := b],
                                           mux_prod := mux_prod d + 1\<rparr>)\<rparr>)
             else s)"

definition mux_chr_read :: "u8 list \<Rightarrow> lpuart \<Rightarrow> lpuart" where
  "mux_chr_read buf s = fold mux_read_byte buf (mux_chr_accept_input s)"

section \<open>Register access\<close>

definition nxps32k358_lpuart_read :: "lpuart \<Rightarrow> nat \<Rightarrow> u32 \<times> lpuart" where
  "nxps32k358_lpuart_read s offset =
     (case lpuart_decode offset of
        Some LPUART_GLOBAL \<Rightarrow> (lpuart_gb s, s)
      | Some LPUART_BAUD \<Rightarrow> (baud_rate_config s, s)
      | Some LPUART_STAT \<Rightarrow> (lpuart_sr s, s)
      | Some LPUART_CTRL \<Rightarrow> (lpuart_cr s, s)
      | Some LPUART_DATA \<Rightarrow>
          let s = s\<lparr>lpuart_sr := lpuart_sr s AND NOT LPUART_STAT_RDRF\<rparr>;
              s = mux_chr_accept_input s;
              s = nxps32k358_lpuart_update_irq s
          in (lpuart_dr s, s)
      | _ \<Rightarrow> (0, s))"

definition nxps32k358_lpuart_write :: "lpuart \<Rightarrow> nat \<Rightarrow> u64 \<Rightarrow> lpuart" where
  "nxps32k358_lpuart_write s offset val64 =
     (let value = (ucast val64 :: u32) in
      case lpuart_decode offset of
        Some LPUART_GLOBAL \<Rightarrow>
          let s = s\<lparr>lpuart_gb := value\<rparr>
          in if value AND LPUART_GLOBAL_RST_MASK \<noteq> 0 then nxps32k358_lpuart_reset s else s
      | Some LPUART_BAUD \<Rightarrow> nxps32k358_lpuart_update_params (s\<lparr>baud_rate_config := value\<rparr>)
      | Some LPUART_STAT \<Rightarrow>
          if value \<le> 0x3FF then s\<lparr>lpuart_sr := value OR LPUART_STAT_TDRE\<rparr>
          else s\<lparr>lpuart_sr := lpuart_sr s AND value\<rparr>
      | Some LPUART_CTRL \<Rightarrow> nxps32k358_lpuart_update_irq (s\<lparr>lpuart_cr := value\<rparr>)
      | Some LPUART_DATA \<Rightarrow>
          if value < 0xF000 then
            nxps32k358_lpuart_update_irq
              (s\<lparr>chr_out := chr_out s @ [ucast value], lpuart_sr := lpuart_sr s OR LPUART_STAT_TDRE\<rparr>)
          else s
      | _ \<Rightarrow> s)"

text \<open>
  Construction: a zeroed object with an unwired clock; realizing it needs a clock source and then
  registers the two receive handlers with the backend (\<open>mux\<close>: its slot, if it is a multiplexer).
\<close>

definition nxps32k358_lpuart_init :: "lpuart" where
  "nxps32k358_lpuart_init =
     \<lparr>lpuart_clk = None, lpuart_irq = False, baud_rate_config = 0, lpuart_cr = 0, lpuart_sr = 0,
      lpuart_dr = 0, lpuart_gb = 0, chr_out = [], chr_speed = 0, chr_mux = None\<rparr>"

definition nxps32k358_lpuart_realize :: "MuxPort option \<Rightarrow> lpuart \<Rightarrow> lpuart res" where
  "nxps32k358_lpuart_realize mux s =
     (if lpuart_clk s = None then Inl (ErrorSet ''LPUART clock must be wired up by SoC code'')
      else Inr (s\<lparr>chr_mux := mux\<rparr>))"

end
