(* ===== verification/Syscfg.thy ===== *)
theory Syscfg
  imports Mmio
begin

text \<open>
  The system configuration controller (\<^verbatim>\<open>hw/misc/nxps32k358_syscfg.c\<close>): five registers, three of
  them with write masks.
\<close>

datatype syscfg_reg = SYSCFG_CFGR1 | SYSCFG_MEMRMP | SYSCFG_SCSR | SYSCFG_CFGR2 | SYSCFG_SKR

definition syscfg_offsets :: "(nat \<times> syscfg_reg) list" where
  "syscfg_offsets = [(0x00, SYSCFG_CFGR1), (0x04, SYSCFG_MEMRMP), (0x08, SYSCFG_SCSR),
     (0x0C, SYSCFG_CFGR2), (0x10, SYSCFG_SKR)]"

definition ACTIVABLE_BITS_MEMRP :: u64 where "ACTIVABLE_BITS_MEMRP = 0x000000FF"
definition ACTIVABLE_BITS_CFGR1 :: u64 where "ACTIVABLE_BITS_CFGR1 = 0x0000FFFF"
definition ACTIVABLE_BITS_SKR :: u64 where "ACTIVABLE_BITS_SKR = 0x000000FF"

record NXPS32K358SYSCFGState =
  memrmp :: u32
  cfgr1 :: u32
  scsr :: u32
  cfgr2 :: u32
  skr :: u32
  syscfg_clk :: "nat option"

type_synonym syscfg = NXPS32K358SYSCFGState

definition nxps32k358_syscfg_hold_reset :: "syscfg \<Rightarrow> syscfg" where
  "nxps32k358_syscfg_hold_reset s =
     s\<lparr>memrmp := 0, cfgr1 := 0x7C000001, scsr := 0, cfgr2 := 0, skr := 0\<rparr>"

definition nxps32k358_syscfg_read :: "syscfg \<Rightarrow> nat \<Rightarrow> u32" where
  "nxps32k358_syscfg_read s addr =
     (case map_of syscfg_offsets addr of
        Some SYSCFG_MEMRMP \<Rightarrow> memrmp s
      | Some SYSCFG_CFGR1 \<Rightarrow> cfgr1 s
      | Some SYSCFG_SCSR \<Rightarrow> scsr s
      | Some SYSCFG_CFGR2 \<Rightarrow> cfgr2 s
      | Some SYSCFG_SKR \<Rightarrow> skr s
      | None \<Rightarrow> 0)"

definition nxps32k358_syscfg_write :: "syscfg \<Rightarrow> nat \<Rightarrow> u64 \<Rightarrow> syscfg" where
  "nxps32k358_syscfg_write s addr value =
     (case map_of syscfg_offsets addr of
        Some SYSCFG_MEMRMP \<Rightarrow> s\<lparr>memrmp := ucast (value AND ACTIVABLE_BITS_MEMRP)\<rparr>
      | Some SYSCFG_CFGR1 \<Rightarrow> s\<lparr>cfgr1 := ucast (value AND ACTIVABLE_BITS_CFGR1)\<rparr>
      | Some SYSCFG_SCSR \<Rightarrow> s\<lparr>scsr := ucast value\<rparr>
      | Some SYSCFG_CFGR2 \<Rightarrow> s\<lparr>cfgr2 := ucast value\<rparr>
      | Some SYSCFG_SKR \<Rightarrow> s\<lparr>skr := ucast (value AND ACTIVABLE_BITS_SKR)\<rparr>
      | None \<Rightarrow> s)"

definition nxps32k358_syscfg_init :: syscfg where
  "nxps32k358_syscfg_init =
     \<lparr>memrmp = 0, cfgr1 = 0, scsr = 0, cfgr2 = 0, skr = 0, syscfg_clk = None\<rparr>"

definition nxps32k358_syscfg_realize :: "syscfg \<Rightarrow> syscfg res" where
  "nxps32k358_syscfg_realize s =
     (if syscfg_clk s = None then Inl (ErrorSet ''SYSCFG: clk input must be connected'') else Inr s)"

section \<open>Registers hold what is written\<close>

text \<open>The bits of a register that a write can set.\<close>

definition syscfg_mask :: "nat \<Rightarrow> u32" where
  "syscfg_mask addr =
     (case map_of syscfg_offsets addr of
        Some SYSCFG_MEMRMP \<Rightarrow> 0xFF | Some SYSCFG_CFGR1 \<Rightarrow> 0xFFFF | Some SYSCFG_SKR \<Rightarrow> 0xFF
      | Some _ \<Rightarrow> NOT 0 | None \<Rightarrow> 0)"

lemma ucast_and: "(ucast (a AND b) :: u32) = ucast a AND ucast b" for a b :: u64
  by (rule bit_word_eqI) (auto simp: bit_ucast_iff bit_and_iff)

lemmas syscfg_defs = nxps32k358_syscfg_read_def nxps32k358_syscfg_write_def syscfg_mask_def
  syscfg_offsets_def ACTIVABLE_BITS_MEMRP_def ACTIVABLE_BITS_CFGR1_def ACTIVABLE_BITS_SKR_def

text \<open>
  A system configuration register reads back the writable bits of the last value written to
  it, and a write to one register leaves what every other offset reads unchanged.
\<close>

theorem syscfg_read_write:
  "nxps32k358_syscfg_read (nxps32k358_syscfg_write s addr v) addr' =
     (if addr' = addr then ucast v AND syscfg_mask addr else nxps32k358_syscfg_read s addr')"
  by (auto simp: syscfg_defs ucast_and split: if_splits)

interpretation scfg: mmio_device "\<lambda>_. True" "\<lambda>_ _. True" "\<lambda>s a. Inr (nxps32k358_syscfg_read s a, s)"
    "\<lambda>s a v. Inr (nxps32k358_syscfg_write s a v)"
  by unfold_locales auto

end
