(* ===== verification/Soc.thy ===== *)
theory Soc
  imports Lpspi Lpuart Syscfg
begin

text \<open>
  The S32K358 system on chip (\<^verbatim>\<open>hw/arm/nxps32k358_soc.c\<close>) and the board around it
  (\<^verbatim>\<open>hw/arm/nxps32k358discovery.c\<close>): clocks, the system address space with QEMU's priority rule,
  the devices, their interrupt lines, and a load or store of the processor as the dispatch to the
  device that the address selects. The processor (\<^verbatim>\<open>hw/arm/armv7m.c\<close>) is a parameter that may
  fail to realize.
\<close>

section \<open>Clocks\<close>

text \<open>
  A clock has a period in units of \<open>2 ^ -32\<close> nanoseconds; the multiplier and the divider apply to
  the clocks that take it as their source. The sources of this board are set before anything is
  connected to them, so a new connection has no children to propagate to.
\<close>

record Clock =
  clk_period :: nat
  clk_multiplier :: nat
  clk_divider :: nat
  clk_has_source :: bool

definition CLOCK_PERIOD_1SEC :: nat where "CLOCK_PERIOD_1SEC = 1000000000 * 2 ^ 32"

definition clock_initfn :: Clock where
  "clock_initfn = \<lparr>clk_period = 0, clk_multiplier = 1, clk_divider = 1, clk_has_source = False\<rparr>"

definition clock_set_hz :: "nat \<Rightarrow> Clock \<Rightarrow> Clock" where
  "clock_set_hz hz clk = clk\<lparr>clk_period := (if hz \<noteq> 0 then CLOCK_PERIOD_1SEC div hz else 0)\<rparr>"

definition clock_get_hz :: "Clock \<Rightarrow> nat" where
  "clock_get_hz clk = w32 (if clk_period clk \<noteq> 0 then CLOCK_PERIOD_1SEC div clk_period clk else 0)"

definition clock_get_child_period :: "Clock \<Rightarrow> nat" where
  "clock_get_child_period clk = (clk_period clk * clk_multiplier clk div clk_divider clk) mod 2 ^ 64"

definition clock_set_source :: "Clock \<Rightarrow> Clock \<Rightarrow> Clock res" where
  "clock_set_source clk src =
     rbind (c_assert (\<not> clk_has_source clk)) (\<lambda>_.
     Inr (clk\<lparr>clk_period := clock_get_child_period src, clk_has_source := True\<rparr>))"

definition clock_set_mul_div :: "nat \<Rightarrow> nat \<Rightarrow> Clock \<Rightarrow> Clock res" where
  "clock_set_mul_div multiplier divider clk =
     rbind (c_assert (divider \<noteq> 0)) (\<lambda>_.
     Inr (clk\<lparr>clk_multiplier := multiplier, clk_divider := divider\<rparr>))"

section \<open>The address space\<close>

datatype region_kind = Rom string | Ram string | Syscfg_regs | Lpuart_regs nat | Lpspi_regs nat | Unimp string

record region =
  mr_kind :: region_kind
  mr_base :: nat
  mr_size :: nat
  mr_priority :: int

text \<open>Subregions are kept in the order in which they are looked up: a new one goes before the
  first that does not have a higher priority.\<close>

fun memory_region_update_container_subregions :: "region \<Rightarrow> region list \<Rightarrow> region list" where
  "memory_region_update_container_subregions r [] = [r]"
| "memory_region_update_container_subregions r (other # rs) =
     (if mr_priority r \<ge> mr_priority other then r # other # rs
      else other # memory_region_update_container_subregions r rs)"

definition memory_region_add_subregion :: "region_kind \<Rightarrow> nat \<Rightarrow> nat \<Rightarrow> region list \<Rightarrow> region list" where
  "memory_region_add_subregion k offset sz rs =
     memory_region_update_container_subregions
       \<lparr>mr_kind = k, mr_base = offset, mr_size = sz, mr_priority = 0\<rparr> rs"

definition memory_region_add_subregion_overlap ::
    "region_kind \<Rightarrow> nat \<Rightarrow> nat \<Rightarrow> int \<Rightarrow> region list \<Rightarrow> region list" where
  "memory_region_add_subregion_overlap k offset sz priority rs =
     memory_region_update_container_subregions
       \<lparr>mr_kind = k, mr_base = offset, mr_size = sz, mr_priority = priority\<rparr> rs"

text \<open>The region that answers an access: the first in lookup order that covers the address.\<close>

definition covers :: "region \<Rightarrow> nat \<Rightarrow> bool" where
  "covers r addr \<longleftrightarrow> mr_base r \<le> addr \<and> addr < mr_base r + mr_size r"

definition resolve :: "region list \<Rightarrow> nat \<Rightarrow> (region_kind \<times> nat) option" where
  "resolve rs addr = map_option (\<lambda>r. (mr_kind r, addr - mr_base r)) (find (\<lambda>r. covers r addr) rs)"

section \<open>Addresses and interrupt numbers\<close>

definition NXP_NUM_LPUARTS :: nat where "NXP_NUM_LPUARTS = 16"
definition NXP_NUM_LPSPIS :: nat where "NXP_NUM_LPSPIS = 6"
definition CODE_FLASH_BASE_ADDRESS :: nat where "CODE_FLASH_BASE_ADDRESS = 0x00400000"
definition CODE_FLASH_BLOCK_SIZE :: nat where "CODE_FLASH_BLOCK_SIZE = 2 * 1024 * 1024"
definition DATA_FLASH_BASE_ADDRESS :: nat where "DATA_FLASH_BASE_ADDRESS = 0x10000000"
definition DATA_FLASH_SIZE :: nat where "DATA_FLASH_SIZE = 128 * 1024"
definition SRAM_BASE_ADDRESS :: nat where "SRAM_BASE_ADDRESS = 0x20400000"
definition SRAM_BLOCK_SIZE :: nat where "SRAM_BLOCK_SIZE = 256 * 1024"
definition DTCM_BASE_ADDRESS :: nat where "DTCM_BASE_ADDRESS = 0x20000000"
definition DTCM_SIZE :: nat where "DTCM_SIZE = 128 * 1024 + 1"
definition ITCM_BASE_ADDRESS :: nat where "ITCM_BASE_ADDRESS = 0"
definition ITCM_SIZE :: nat where "ITCM_SIZE = 64 * 1024"

lemmas soc_consts [reg_simps] = NXP_NUM_LPUARTS_def NXP_NUM_LPSPIS_def CODE_FLASH_BASE_ADDRESS_def
  CODE_FLASH_BLOCK_SIZE_def DATA_FLASH_BASE_ADDRESS_def DATA_FLASH_SIZE_def SRAM_BASE_ADDRESS_def
  SRAM_BLOCK_SIZE_def DTCM_BASE_ADDRESS_def DTCM_SIZE_def ITCM_BASE_ADDRESS_def ITCM_SIZE_def

text \<open>The C arrays are as long as their declared size; missing initialisers are zero.\<close>

definition c_array :: "nat \<Rightarrow> nat list \<Rightarrow> nat list" where
  "c_array n xs = xs @ replicate (n - length xs) 0"

definition lpuart_addr :: "nat list" where
  "lpuart_addr = c_array NXP_NUM_LPUARTS
     [0x40328000, 0x4032C000, 0x40330000, 0x40334000, 0x40338000, 0x4033C000, 0x40340000, 0x40344000,
      0x4048C000, 0x40490000, 0x40494000, 0x40498000, 0x4049C000, 0x404A0000, 0x404A4000, 0x404A8000]"

definition lpspi_addr :: "nat list" where
  "lpspi_addr = c_array NXP_NUM_LPSPIS
     [0x40358000, 0x4035C000, 0x40360000, 0x40364000, 0x404BC000, 0x404C0000]"

definition lpuart_irqs :: "nat list" where
  "lpuart_irqs = c_array NXP_NUM_LPUARTS [141, 142, 143, 144, 145, 146, 147]"

definition lpspi_irqs :: "nat list" where
  "lpspi_irqs = c_array NXP_NUM_LPSPIS [165, 166, 167, 168, 169, 170]"

definition unimplemented_low :: "(string \<times> nat \<times> nat) list" where
  "unimplemented_low =
     [(''hse_xbic'', 0x40008000, 0x4000), (''erm1'', 0x4000C000, 0x4000),
      (''pfc1'', 0x40068000, 0x4000), (''pfc1_alt'', 0x4006C000, 0x4000),
      (''swt_3'', 0x40070000, 0x4000), (''trgmux'', 0x40080000, 0x4000),
      (''bctu'', 0x40084000, 0x4000), (''emios0'', 0x40088000, 0x4000),
      (''emios1'', 0x4008C000, 0x4000), (''emios2'', 0x40090000, 0x4000),
      (''lcu0'', 0x40098000, 0x4000), (''lcu1'', 0x4009C000, 0x4000),
      (''adc_0'', 0x400A0000, 0x4000), (''adc_1'', 0x400A4000, 0x4000),
      (''adc_2'', 0x400A8000, 0x4000), (''pit0'', 0x400B0000, 0x4000),
      (''pit1'', 0x400B4000, 0x4000), (''mu_2_mua'', 0x400B8000, 0x4000),
      (''mu_2_mub'', 0x400BC000, 0x4000), (''mu_3_mua'', 0x400C4000, 0x4000),
      (''mu_3_mub'', 0x400C8000, 0x4000), (''mu_4_mua'', 0x400CC000, 0x4000),
      (''mu_4_mub'', 0x400D0000, 0x4000), (''axbs'', 0x40200000, 0x4000),
      (''system_xbic'', 0x40204000, 0x4000), (''periph_xbic'', 0x40208000, 0x4000),
      (''edma'', 0x4020C000, 0x4000), (''edma_tcd_0'', 0x40210000, 0x4000),
      (''edma_tcd_1'', 0x40214000, 0x4000), (''edma_tcd_2'', 0x40218000, 0x4000),
      (''edma_tcd_3'', 0x4021C000, 0x4000), (''edma_tcd_4'', 0x40220000, 0x4000),
      (''edma_tcd_5'', 0x40224000, 0x4000), (''edma_tcd_6'', 0x40228000, 0x4000),
      (''edma_tcd_7'', 0x4022C000, 0x4000), (''edma_tcd_8'', 0x40230000, 0x4000),
      (''edma_tcd_9'', 0x40234000, 0x4000), (''edma_tcd_10'', 0x40238000, 0x4000),
      (''edma_tcd_11'', 0x4023C000, 0x4000), (''debug_apb_page0'', 0x40240000, 0x4000),
      (''debug_apb_page1'', 0x40244000, 0x4000), (''debug_apb_page2'', 0x40248000, 0x4000),
      (''debug_apb_page3'', 0x4024C000, 0x4000), (''debug_apb_paged_area'', 0x40250000, 0x4000),
      (''sda-ap'', 0x40254000, 0x4000), (''eim0'', 0x40258000, 0x4000),
      (''erm0'', 0x4025C000, 0x4000), (''mscm'', 0x40260000, 0x4000),
      (''pram_0'', 0x40264000, 0x4000), (''pfc'', 0x40268000, 0x4000),
      (''pfc_alt'', 0x4026C000, 0x4000), (''swt_0'', 0x40270000, 0x4000),
      (''stm_0'', 0x40274000, 0x4000), (''xrdc'', 0x40278000, 0x4000),
      (''intm'', 0x4027C000, 0x4000), (''dmamux_0'', 0x40280000, 0x4000),
      (''dmamux_1'', 0x40284000, 0x4000), (''rtc'', 0x40288000, 0x4000),
      (''mc_rgm'', 0x4028C000, 0x4000), (''siul_virtwrapper_pdac0_hse'', 0x40290000, 0x4000),
      (''siul_virtwrapper_pdac1_m7_0'', 0x40298000, 0x4000),
      (''siul_virtwrapper_pdac2_m7_1'', 0x402A0000, 0x4000),
      (''siul_virtwrapper_pdac3'', 0x402A8000, 0x4000), (''dcm'', 0x402AC000, 0x4000),
      (''wkpu'', 0x402B4000, 0x4000), (''cmu'', 0x402BC000, 0x4000),
      (''tspc'', 0x402C4000, 0x4000), (''sirc'', 0x402C8000, 0x4000),
      (''sxosc'', 0x402CC000, 0x4000), (''firc'', 0x402D0000, 0x4000),
      (''fxosc'', 0x402D4000, 0x4000), (''mc_cgm'', 0x402D8000, 0x4000),
      (''mc_me'', 0x402DC000, 0x4000), (''pll'', 0x402E0000, 0x4000),
      (''pll2'', 0x402E4000, 0x4000), (''pmc'', 0x402E8000, 0x4000), (''fmu'', 0x402EC000, 0x4000),
      (''fmu_alt'', 0x402F0000, 0x4000), (''siul_virtwrapper_pdac4_m7_2'', 0x402F4000, 0x4000),
      (''pit2'', 0x402FC000, 0x4000), (''pit3'', 0x40300000, 0x4000),
      (''flexcan_0'', 0x40304000, 0x4000), (''flexcan_1'', 0x40308000, 0x4000),
      (''flexcan_2'', 0x4030C000, 0x4000), (''flexcan_3'', 0x40310000, 0x4000),
      (''flexcan_4'', 0x40314000, 0x4000), (''flexcan_5'', 0x40318000, 0x4000),
      (''flexcan_6'', 0x4031C000, 0x4000), (''flexcan_7'', 0x40320000, 0x4000),
      (''flexio'', 0x40324000, 0x4000)]"

definition unimplemented_high :: "(string \<times> nat \<times> nat) list" where
  "unimplemented_high =
     [(''lpuart_0'', 0x40328000, 0x4000), (''lpuart_1'', 0x4032C000, 0x4000),
      (''lpuart_2'', 0x40330000, 0x4000), (''lpuart_3'', 0x40334000, 0x4000),
      (''lpuart_4'', 0x40338000, 0x4000), (''lpuart_5'', 0x4033C000, 0x4000),
      (''lpuart_6'', 0x40340000, 0x4000), (''lpuart_7'', 0x40344000, 0x4000),
      (''siul_virtwrapper_pdac5_m7_3'', 0x40348000, 0x4000), (''lpi2c_0'', 0x40350000, 0x4000),
      (''lpi2c_1'', 0x40354000, 0x4000), (''lpspi_0'', 0x40358000, 0x4000),
      (''lpspi_1'', 0x4035C000, 0x4000), (''lpspi_2'', 0x40360000, 0x4000),
      (''lpspi_3'', 0x40364000, 0x4000), (''sai0'', 0x4036C000, 0x4000),
      (''lpcmp_0'', 0x40370000, 0x4000), (''lpcmp_1'', 0x40374000, 0x4000),
      (''tmu'', 0x4037C000, 0x4000), (''crc'', 0x40380000, 0x4000),
      (''fccu_'', 0x40384000, 0x4000), (''mu_0_mub'', 0x4038C000, 0x4000),
      (''mu_1_mub'', 0x40390000, 0x4000), (''jdc'', 0x40394000, 0x4000),
      (''configuration_gpr'', 0x4039C000, 0x4000), (''stcu'', 0x403A0000, 0x4000),
      (''selftest_gpr'', 0x403B0000, 0x4000), (''aes_accel'', 0x403C0000, 0x10000),
      (''aes_app0'', 0x403D0000, 0x10000), (''aes_app1'', 0x403E0000, 0x10000),
      (''aes_app2'', 0x403F0000, 0x10000), (''tcm_xbic'', 0x40400000, 0x4000),
      (''edma_xbic'', 0x40404000, 0x4000), (''pram2_tcm_xbic'', 0x40408000, 0x4000),
      (''aes_mux_xbic'', 0x4040C000, 0x4000), (''edma_tcd_12'', 0x40410000, 0x4000),
      (''edma_tcd_13'', 0x40414000, 0x4000), (''edma_tcd_14'', 0x40418000, 0x4000),
      (''edma_tcd_15'', 0x4041C000, 0x4000), (''edma_tcd_16'', 0x40420000, 0x4000),
      (''edma_tcd_17'', 0x40424000, 0x4000), (''edma_tcd_18'', 0x40428000, 0x4000),
      (''edma_tcd_19'', 0x4042C000, 0x4000), (''edma_tcd_20'', 0x40430000, 0x4000),
      (''edma_tcd_21'', 0x40434000, 0x4000), (''edma_tcd_22'', 0x40438000, 0x4000),
      (''edma_tcd_23'', 0x4043C000, 0x4000), (''edma_tcd_24'', 0x40440000, 0x4000),
      (''edma_tcd_25'', 0x40444000, 0x4000), (''edma_tcd_26'', 0x40448000, 0x4000),
      (''edma_tcd_27'', 0x4044C000, 0x4000), (''edma_tcd_28'', 0x40450000, 0x4000),
      (''edma_tcd_29'', 0x40454000, 0x4000), (''edma_tcd_30'', 0x40458000, 0x4000),
      (''edma_tcd_31'', 0x4045C000, 0x4000), (''sema42'', 0x40460000, 0x4000),
      (''pram_1'', 0x40464000, 0x4000), (''pram_2'', 0x40468000, 0x4000),
      (''swt_1'', 0x4046C000, 0x4000), (''swt_2'', 0x40470000, 0x4000),
      (''stm_1'', 0x40474000, 0x4000), (''stm_2'', 0x40478000, 0x4000),
      (''stm_3'', 0x4047C000, 0x4000), (''emac'', 0x40480000, 0x4000),
      (''gmac0'', 0x40484000, 0x4000), (''gmac1'', 0x40488000, 0x4000),
      (''lpuart_8'', 0x4048C000, 0x4000), (''lpuart_9'', 0x40490000, 0x4000),
      (''lpuart_10'', 0x40494000, 0x4000), (''lpuart_11'', 0x40498000, 0x4000),
      (''lpuart_12'', 0x4049C000, 0x4000), (''lpuart_13'', 0x404A0000, 0x4000),
      (''lpuart_14'', 0x404A4000, 0x4000), (''lpuart_15'', 0x404A8000, 0x4000),
      (''lpspi_4'', 0x404BC000, 0x4000), (''lpspi_5'', 0x404C0000, 0x4000),
      (''quadspi'', 0x404CC000, 0x4000), (''sai1'', 0x404DC000, 0x4000),
      (''usdhc'', 0x404E4000, 0x4000), (''lpcmp_2'', 0x404E8000, 0x4000),
      (''eim0_dup'', 0x4050C000, 0x4000), (''eim1'', 0x40510000, 0x4000),
      (''eim2'', 0x40514000, 0x4000), (''eim3'', 0x40518000, 0x4000),
      (''aes_app3'', 0x40520000, 0x10000), (''aes_app4'', 0x40530000, 0x10000),
      (''aes_app5'', 0x40540000, 0x10000), (''aes_app6'', 0x40550000, 0x10000),
      (''aes_app7'', 0x40560000, 0x10000), (''flexcan_8'', 0x40570000, 0x4000),
      (''flexcan_9'', 0x40574000, 0x4000), (''flexcan_10'', 0x40578000, 0x4000),
      (''flexcan_11'', 0x4057C000, 0x4000), (''fmu1'', 0x40580000, 0x4000),
      (''fmu1_alt'', 0x40584000, 0x4000), (''pram_3'', 0x40588000, 0x4000)]"

definition create_unimplemented_device :: "string \<times> nat \<times> nat \<Rightarrow> region list \<Rightarrow> region list" where
  "create_unimplemented_device d rs = (case d of (name, base, sz) \<Rightarrow>
     memory_region_add_subregion_overlap (Unimp name) base sz (-1000) rs)"

definition create_unimplemented_devices :: "region list \<Rightarrow> region list" where
  "create_unimplemented_devices rs =
     fold create_unimplemented_device unimplemented_high
       (fold create_unimplemented_device unimplemented_low rs)"

section \<open>The system on chip\<close>

datatype irq_source = Lpuart_irq nat | Lpspi_irq nat

text \<open>What the SoC sets on the processor before it realizes it.\<close>

record armv7m_config =
  num_irq :: nat
  num_prio_bits :: nat
  cpu_type :: string
  enable_bitband :: bool
  init_svtor :: nat
  init_nsvtor :: nat
  mpu_ns_regions :: nat
  mpu_s_regions :: nat
  cpuclk :: Clock
  cpu_refclk :: Clock

text \<open>\<open>host\<close> is the state of the host's C library, which the sensors on all buses share.\<close>

record 'g NXPS32K358State =
  sysclk :: Clock
  refclk :: Clock
  aips_plat_clk :: Clock
  aips_slow_clk :: Clock
  armv7m :: armv7m_config
  syscfg_dev :: syscfg
  lpuarts :: "lpuart list"
  lpspis :: "(MotorSpeedSensor, 'g) lpspi list"
  system_memory :: "region list"
  irq_wires :: "(irq_source \<times> nat) list"
  host :: 'g

type_synonym 'g soc = "'g NXPS32K358State"

definition armv7m_unset :: armv7m_config where
  "armv7m_unset = \<lparr>num_irq = 0, num_prio_bits = 0, cpu_type = [], enable_bitband = False, init_svtor = 0,
     init_nsvtor = 0, mpu_ns_regions = 0, mpu_s_regions = 0, cpuclk = clock_initfn, cpu_refclk = clock_initfn\<rparr>"

definition nxps32k358_soc_initfn :: "'g \<Rightarrow> 'g soc" where
  "nxps32k358_soc_initfn g =
     \<lparr>sysclk = clock_initfn, refclk = clock_initfn, aips_plat_clk = clock_initfn,
      aips_slow_clk = clock_initfn, armv7m = armv7m_unset, syscfg_dev = nxps32k358_syscfg_init,
      lpuarts = replicate NXP_NUM_LPUARTS nxps32k358_lpuart_init,
      lpspis = replicate NXP_NUM_LPSPIS (nxps32k358_lpspi_init g),
      system_memory = [], irq_wires = [], host = g\<rparr>"

text \<open>The memories: four blocks of code flash, the data flash, three blocks of SRAM and the two
  tightly coupled memories.\<close>

definition soc_memories :: "region list \<Rightarrow> region list" where
  "soc_memories rs =
     (let rs = memory_region_add_subregion (Rom ''code_flash_0'') CODE_FLASH_BASE_ADDRESS CODE_FLASH_BLOCK_SIZE rs;
          rs = memory_region_add_subregion (Rom ''code_flash_1'')
                 (CODE_FLASH_BASE_ADDRESS + CODE_FLASH_BLOCK_SIZE) CODE_FLASH_BLOCK_SIZE rs;
          rs = memory_region_add_subregion (Rom ''code_flash_2'')
                 (CODE_FLASH_BASE_ADDRESS + 2 * CODE_FLASH_BLOCK_SIZE) CODE_FLASH_BLOCK_SIZE rs;
          rs = memory_region_add_subregion (Rom ''code_flash_3'')
                 (CODE_FLASH_BASE_ADDRESS + 3 * CODE_FLASH_BLOCK_SIZE) CODE_FLASH_BLOCK_SIZE rs;
          rs = memory_region_add_subregion (Rom ''data_flash'') DATA_FLASH_BASE_ADDRESS DATA_FLASH_SIZE rs;
          rs = memory_region_add_subregion (Ram ''sram_0'') SRAM_BASE_ADDRESS SRAM_BLOCK_SIZE rs;
          rs = memory_region_add_subregion (Ram ''sram_1'') (SRAM_BASE_ADDRESS + SRAM_BLOCK_SIZE) SRAM_BLOCK_SIZE rs;
          rs = memory_region_add_subregion (Ram ''sram_2'') (SRAM_BASE_ADDRESS + 2 * SRAM_BLOCK_SIZE) SRAM_BLOCK_SIZE rs;
          rs = memory_region_add_subregion (Ram ''dtcm'') DTCM_BASE_ADDRESS DTCM_SIZE rs
      in memory_region_add_subregion (Ram ''itcm'') ITCM_BASE_ADDRESS ITCM_SIZE rs)"

text \<open>\<^verbatim>\<open>qdev_get_gpio_in(armv7m, n)\<close> asserts that the processor has the interrupt.\<close>

definition connect_irq :: "irq_source \<Rightarrow> nat \<Rightarrow> 'g soc \<Rightarrow> 'g soc res" where
  "connect_irq src n s =
     rbind (c_assert (n < num_irq (armv7m s))) (\<lambda>_. Inr (s\<lparr>irq_wires := irq_wires s @ [(src, n)]\<rparr>))"

definition soc_realize_clocks :: "'g soc \<Rightarrow> 'g soc res" where
  "soc_realize_clocks s =
     rbind (clock_set_source (aips_plat_clk s) (clock_set_hz 80000000 clock_initfn)) (\<lambda>plat.
     rbind (clock_set_source (aips_slow_clk s) (clock_set_hz 40000000 clock_initfn)) (\<lambda>slow.
     if clk_has_source (refclk s) then Inl (ErrorSet ''refclk clock must not be wired up by the board code'')
     else if \<not> clk_has_source (sysclk s) then Inl (ErrorSet ''sysclk clock must be wired up by the board code'')
     else
       rbind (clock_set_mul_div 8 1 (refclk s)) (\<lambda>ref.
       rbind (clock_set_source ref (sysclk s)) (\<lambda>ref.
       Inr (s\<lparr>aips_plat_clk := plat, aips_slow_clk := slow, refclk := ref\<rparr>)))))"

definition soc_realize_cpu :: "(armv7m_config \<Rightarrow> unit res) \<Rightarrow> 'g soc \<Rightarrow> 'g soc res" where
  "soc_realize_cpu armv7m_realize s =
     rbind (clock_set_source clock_initfn (sysclk s)) (\<lambda>cpu.
     rbind (clock_set_source clock_initfn (refclk s)) (\<lambda>ref.
     let cfg = \<lparr>num_irq = 240, num_prio_bits = 4, cpu_type = ''cortex-m7'', enable_bitband = True,
                init_svtor = CODE_FLASH_BASE_ADDRESS + 2048, init_nsvtor = CODE_FLASH_BASE_ADDRESS + 2048,
                mpu_ns_regions = 16, mpu_s_regions = 16, cpuclk = cpu, cpu_refclk = ref\<rparr>
     in rbind (armv7m_realize cfg) (\<lambda>_. Inr (s\<lparr>armv7m := cfg\<rparr>))))"

definition soc_realize_syscfg :: "'g soc \<Rightarrow> 'g soc res" where
  "soc_realize_syscfg s =
     rbind (clock_set_source clock_initfn (sysclk s)) (\<lambda>clk.
     rbind (nxps32k358_syscfg_realize ((syscfg_dev s)\<lparr>syscfg_clk := Some (clock_get_hz clk)\<rparr>)) (\<lambda>d.
     Inr (s\<lparr>syscfg_dev := d,
            system_memory := memory_region_add_subregion Syscfg_regs 0x40013800 0x400 (system_memory s)\<rparr>)))"

text \<open>\<open>serial_hd i\<close> is the backend of the i-th serial port: its multiplexer slot, if it has one.\<close>

definition soc_realize_lpuart :: "(nat \<Rightarrow> MuxPort option) \<Rightarrow> nat \<Rightarrow> 'g soc \<Rightarrow> 'g soc res" where
  "soc_realize_lpuart serial_hd i s =
     rbind (array_get (lpuarts s) i) (\<lambda>u.
     rbind (clock_set_source clock_initfn (if i < 2 \<or> i = 8 then aips_plat_clk s else aips_slow_clk s)) (\<lambda>clk.
     rbind (nxps32k358_lpuart_realize (serial_hd i) (u\<lparr>lpuart_clk := Some (clock_get_hz clk)\<rparr>)) (\<lambda>u.
     rbind (array_get lpuart_addr i) (\<lambda>base.
     rbind (array_get lpuart_irqs i) (\<lambda>n.
     connect_irq (Lpuart_irq i) n
       (s\<lparr>lpuarts := (lpuarts s)[i := u],
          system_memory := memory_region_add_subregion (Lpuart_regs i) base 0x4000 (system_memory s)\<rparr>))))))"

text \<open>The two blocks are the memory \<^verbatim>\<open>fifo8_create\<close> gets for the controller's FIFOs.\<close>

definition soc_realize_lpspi :: "(nat \<Rightarrow> u8 list \<times> u8 list) \<Rightarrow> nat \<Rightarrow> 'g soc \<Rightarrow> 'g soc res" where
  "soc_realize_lpspi blocks i s =
     rbind (array_get (lpspis s) i) (\<lambda>d.
     rbind (clock_set_source clock_initfn (aips_plat_clk s)) (\<lambda>clk.
     rbind (nxps32k358_lpspi_realize (d\<lparr>lpspi_clk := Some (clock_get_hz clk)\<rparr>) (fst (blocks i)) (snd (blocks i))) (\<lambda>d.
     rbind (array_get lpspi_addr i) (\<lambda>base.
     rbind (array_get lpspi_irqs i) (\<lambda>n.
     connect_irq (Lpspi_irq i) n
       (s\<lparr>lpspis := (lpspis s)[i := d],
          system_memory := memory_region_add_subregion (Lpspi_regs i) base 0x4000 (system_memory s)\<rparr>))))))"

text \<open>A step of a device on one of the SPI buses works on the shared host state.\<close>

definition with_host :: "'g \<Rightarrow> ('p, 'g) lpspi \<Rightarrow> ('p, 'g) lpspi" where
  "with_host g d = d\<lparr>lpspi_ssi := (lpspi_ssi d)\<lparr>bus_host := g\<rparr>\<rparr>"

definition soc_put_lpspi :: "nat \<Rightarrow> (MotorSpeedSensor, 'g) lpspi \<Rightarrow> 'g soc \<Rightarrow> 'g soc" where
  "soc_put_lpspi i d s = s\<lparr>lpspis := (lpspis s)[i := d], host := bus_host (lpspi_ssi d)\<rparr>"

definition soc_create_sensor :: "('g \<Rightarrow> nat \<times> 'g) \<Rightarrow> ('g \<Rightarrow> 'g) \<Rightarrow> nat \<Rightarrow> 'g soc \<Rightarrow> 'g soc res" where
  "soc_create_sensor rand srand_time i s =
     rbind (array_get (lpspis s) i) (\<lambda>d.
     rbind (ssi_create_peripheral (lpspi_ssi (with_host (host s) d))
              (motor_speed_sensor_class_init rand srand_time)) (\<lambda>bus.
     Inr (soc_put_lpspi i (d\<lparr>lpspi_ssi := bus\<rparr>) s)))"

definition nxps32k358_soc_realize ::
    "(armv7m_config \<Rightarrow> unit res) \<Rightarrow> (nat \<Rightarrow> MuxPort option) \<Rightarrow> (nat \<Rightarrow> u8 list \<times> u8 list) \<Rightarrow>
     ('g \<Rightarrow> nat \<times> 'g) \<Rightarrow> ('g \<Rightarrow> 'g) \<Rightarrow> 'g soc \<Rightarrow> 'g soc res" where
  "nxps32k358_soc_realize armv7m_realize serial_hd blocks rand srand_time s =
     rbind (soc_realize_clocks s) (\<lambda>s.
     rbind (soc_realize_cpu armv7m_realize (s\<lparr>system_memory := soc_memories (system_memory s)\<rparr>)) (\<lambda>s.
     rbind (soc_realize_syscfg s) (\<lambda>s.
     rbind (foldE (soc_realize_lpuart serial_hd) [0..<NXP_NUM_LPUARTS] s) (\<lambda>s.
     rbind (foldE (soc_realize_lpspi blocks) [0..<NXP_NUM_LPSPIS] s) (\<lambda>s.
     rbind (foldE (soc_create_sensor rand srand_time) [0..<NXP_NUM_LPSPIS] s) (\<lambda>s.
     Inr (s\<lparr>system_memory := create_unimplemented_devices (system_memory s)\<rparr>)))))))"

section \<open>The board\<close>

definition SYSCLK_FRQ :: nat where "SYSCLK_FRQ = 24000000"

definition nxp_s32k358discovery_init ::
    "(armv7m_config \<Rightarrow> unit res) \<Rightarrow> (nat \<Rightarrow> MuxPort option) \<Rightarrow> (nat \<Rightarrow> u8 list \<times> u8 list) \<Rightarrow>
     ('g \<Rightarrow> nat \<times> 'g) \<Rightarrow> ('g \<Rightarrow> 'g) \<Rightarrow> 'g \<Rightarrow> 'g soc res" where
  "nxp_s32k358discovery_init armv7m_realize serial_hd blocks rand srand_time g =
     (let s = nxps32k358_soc_initfn g in
      rbind (clock_set_source (sysclk s) (clock_set_hz SYSCLK_FRQ clock_initfn)) (\<lambda>clk.
      nxps32k358_soc_realize armv7m_realize serial_hd blocks rand srand_time (s\<lparr>sysclk := clk\<rparr>)))"

text \<open>The reset QEMU runs over the devices of the system bus when the machine starts.\<close>

definition soc_reset_lpspi :: "nat \<Rightarrow> 'g soc \<Rightarrow> 'g soc res" where
  "soc_reset_lpspi i s =
     rbind (array_get (lpspis s) i) (\<lambda>d.
     rbind (nxps32k358_lpspi_do_reset d) (\<lambda>d. Inr (s\<lparr>lpspis := (lpspis s)[i := d]\<rparr>)))"

definition soc_reset :: "'g soc \<Rightarrow> 'g soc res" where
  "soc_reset s =
     foldE soc_reset_lpspi [0..<NXP_NUM_LPSPIS]
       (s\<lparr>syscfg_dev := nxps32k358_syscfg_hold_reset (syscfg_dev s),
          lpuarts := map nxps32k358_lpuart_reset (lpuarts s)\<rparr>)"

section \<open>Loads and stores of the processor\<close>

text \<open>Reads of an unimplemented device return 0 and writes to it are ignored. Memory contents
  and unmapped addresses (a bus error) are outside this model.\<close>

definition soc_load :: "nat \<Rightarrow> 'g soc \<Rightarrow> (u32 \<times> 'g soc) option res" where
  "soc_load addr s =
     (case resolve (system_memory s) addr of
        Some (Syscfg_regs, off) \<Rightarrow> Inr (Some (nxps32k358_syscfg_read (syscfg_dev s) off, s))
      | Some (Lpuart_regs i, off) \<Rightarrow>
          rbind (array_get (lpuarts s) i) (\<lambda>u.
          let (x, u') = nxps32k358_lpuart_read u off in Inr (Some (x, s\<lparr>lpuarts := (lpuarts s)[i := u']\<rparr>)))
      | Some (Lpspi_regs i, off) \<Rightarrow>
          rbind (array_get (lpspis s) i) (\<lambda>d.
          rbind (nxps32k358_lpspi_read (with_host (host s) d) off) (\<lambda>(x, d').
          Inr (Some (x, soc_put_lpspi i d' s))))
      | Some (Unimp _, _) \<Rightarrow> Inr (Some (0, s))
      | _ \<Rightarrow> Inr None)"

definition soc_store :: "nat \<Rightarrow> u64 \<Rightarrow> 'g soc \<Rightarrow> 'g soc option res" where
  "soc_store addr v s =
     (case resolve (system_memory s) addr of
        Some (Syscfg_regs, off) \<Rightarrow>
          Inr (Some (s\<lparr>syscfg_dev := nxps32k358_syscfg_write (syscfg_dev s) off v\<rparr>))
      | Some (Lpuart_regs i, off) \<Rightarrow>
          rbind (array_get (lpuarts s) i) (\<lambda>u.
          Inr (Some (s\<lparr>lpuarts := (lpuarts s)[i := nxps32k358_lpuart_write u off v]\<rparr>)))
      | Some (Lpspi_regs i, off) \<Rightarrow>
          rbind (array_get (lpspis s) i) (\<lambda>d.
          rbind (nxps32k358_lpspi_write (with_host (host s) d) off v) (\<lambda>d'.
          Inr (Some (soc_put_lpspi i d' s))))
      | Some (Unimp _, _) \<Rightarrow> Inr (Some s)
      | _ \<Rightarrow> Inr None)"

end
