(* ===== verification/Lpspi_Correct.thy ===== *)
theory Lpspi_Correct
  imports Lpspi
begin

text \<open>
  Correctness of the LPSPI controller model: which register accesses can stop the emulator, the
  device invariant, the frame that goes over the bus and the one that comes back, the status
  flags, the chip select protocol and the interrupt line.
\<close>

section \<open>The device invariant\<close>

text \<open>
  A transmit command is acceptable when its frame size does not wrap to zero bytes and it selects
  an existing chip select line.
\<close>

definition tcr_ok :: "u32 \<Rightarrow> nat \<Rightarrow> bool" where
  "tcr_ok tcr n \<longleftrightarrow> bytes_per_frame tcr \<noteq> 0 \<and> tcr_pcs tcr < n"

definition lpspi_wf :: "('p, 'g) lpspi \<Rightarrow> bool" where
  "lpspi_wf s \<longleftrightarrow> fifo8_wf (tx_fifo s) \<and> fifo_capacity (tx_fifo s) = 16 \<and>
     fifo8_wf (rx_fifo s) \<and> fifo_capacity (rx_fifo s) = 16 \<and>
     length (cs_lines s) = num_cs_lines s \<and> 1 \<le> num_cs_lines s \<and> lpspi_clk s \<noteq> None \<and>
     tcr_ok (lpspi_tcr s) (num_cs_lines s)"

lemma tcr_frame_size_range: "1 \<le> tcr_frame_size tcr \<and> tcr_frame_size tcr \<le> 4096"
proof -
  have "tcr AND 0xFFF \<le> 0xFFF" by (rule word_and_le1)
  then have "unat (tcr AND 0xFFF) \<le> 4095" by (simp add: word_le_nat_alt)
  then show ?thesis by (simp add: tcr_frame_size_def TCR_FRAMESZ_MASK_def)
qed

lemma bytes_per_frame_le: "bytes_per_frame tcr \<le> 4"
  by (simp add: bytes_per_frame_def Let_def)

lemma bytes_per_frame_zero_iff:
  "bytes_per_frame tcr = 0 \<longleftrightarrow>
     tcr_frame_size tcr \<in> {2041..2048} \<or> tcr_frame_size tcr \<in> {4089..4096}"
proof -
  have "bytes_per_frame tcr = 0 \<longleftrightarrow> (tcr_frame_size tcr + 7) div 8 mod 256 = 0"
    by (simp add: bytes_per_frame_def w8_def Let_def)
  also have "\<dots> \<longleftrightarrow> (tcr_frame_size tcr + 7) div 8 \<in> {256, 512}"
    using tcr_frame_size_range [of tcr] by auto
  also have "\<dots> \<longleftrightarrow> tcr_frame_size tcr \<in> {2041..2048} \<or> tcr_frame_size tcr \<in> {4089..4096}"
    by auto
  finally show ?thesis .
qed

lemma bytes_per_frame_small:
  "tcr_frame_size tcr \<le> 32 \<Longrightarrow> bytes_per_frame tcr = (tcr_frame_size tcr + 7) div 8"
  by (simp add: bytes_per_frame_def Let_def w8_def)

section \<open>Status and interrupt line\<close>

definition status_sr :: "('p, 'g) lpspi \<Rightarrow> u32" where
  "status_sr s =
     (let n = bytes_per_frame (lpspi_tcr s);
          txw = length (fifo_list (tx_fifo s)) div n; rxw = length (fifo_list (rx_fifo s)) div n;
          sr1 = (if txw \<le> tx_watermark s then
                   (if length (fifo_list (tx_fifo s)) \<le> 12 then lpspi_sr s OR LPSPI_SR_TDF
                    else lpspi_sr s AND NOT LPSPI_SR_TDF) else lpspi_sr s)
      in if rxw > rx_watermark s then
           (if 4 \<le> length (fifo_list (rx_fifo s)) then sr1 OR LPSPI_SR_RDF
            else sr1 AND NOT LPSPI_SR_RDF) else sr1)"

definition status_fsr :: "('p, 'g) lpspi \<Rightarrow> u32" where
  "status_fsr s =
     (let n = bytes_per_frame (lpspi_tcr s) in
      push_bit 16 (of_nat (length (fifo_list (rx_fifo s)) div n)) OR
      of_nat (length (fifo_list (tx_fifo s)) div n))"

definition status_rsr :: "('p, 'g) lpspi \<Rightarrow> u32" where
  "status_rsr s =
     (if length (fifo_list (rx_fifo s)) < bytes_per_frame (lpspi_tcr s)
      then lpspi_rsr s OR LPSPI_RSR_RXEMPTY else lpspi_rsr s AND NOT LPSPI_RSR_RXEMPTY)"

definition status_of :: "('p, 'g) lpspi \<Rightarrow> ('p, 'g) lpspi" where
  "status_of s = s\<lparr>lpspi_fsr := status_fsr s, lpspi_sr := status_sr s, lpspi_rsr := status_rsr s\<rparr>"

definition irq_of :: "('p, 'g) lpspi \<Rightarrow> ('p, 'g) lpspi" where
  "irq_of s = (status_of s)\<lparr>lpspi_irq :=
     ((status_sr s AND lpspi_ier s) AND (LPSPI_SR_TDF OR LPSPI_SR_RDF) \<noteq> 0)\<rparr>"

lemma lpspi_wfD:
  assumes "lpspi_wf s"
  shows "fifo8_wf (tx_fifo s)" "fifo8_wf (rx_fifo s)" "fifo_capacity (tx_fifo s) = 16"
    "fifo_capacity (rx_fifo s) = 16" "length (cs_lines s) = num_cs_lines s"
    "0 < bytes_per_frame (lpspi_tcr s)" "tcr_pcs (lpspi_tcr s) < num_cs_lines s"
    "length (fifo_list (tx_fifo s)) \<le> 16" "length (fifo_list (rx_fifo s)) \<le> 16"
  using assms f8.bounded [of "tx_fifo s"] f8.bounded [of "rx_fifo s"]
  by (auto simp: lpspi_wf_def tcr_ok_def)

lemma lpspi_update_status_eq:
  assumes "lpspi_wf s"
  shows "lpspi_update_status s = Inr (status_of s)"
proof -
  note d = lpspi_wfD [OF assms]
  define n where "n = bytes_per_frame (lpspi_tcr s)"
  define t where "t = length (fifo_list (tx_fifo s))"
  define r where "r = length (fifo_list (rx_fifo s))"
  have "t div n \<le> 16" "r div n \<le> 16"
    using d(8,9) by (auto simp: t_def r_def intro: le_trans [OF div_le_dividend])
  then have w8: "w8 (t div n) = t div n" "w8 (r div n) = r div n" by (simp_all add: w8_small)
  have n: "0 < n" and r0: "r div n = 0 \<longleftrightarrow> r < n" using d(6) by (auto simp: n_def div_eq_0_iff)
  have free: "4 \<le> fifo8_num_free (tx_fifo s) \<longleftrightarrow> t \<le> 12"
    using d by (auto simp: f8.free_length t_def)
  have used: "fifo8_num_used (tx_fifo s) = t" "fifo8_num_used (rx_fifo s) = r"
    using d by (simp_all add: f8.used_length t_def r_def)
  show ?thesis
    unfolding lpspi_update_status_def status_of_def status_sr_def status_fsr_def status_rsr_def
      n_def [symmetric] t_def [symmetric] r_def [symmetric]
    using n r0 free used w8
    by (cases "t div n \<le> tx_watermark s"; cases "t \<le> 12"; cases "r div n > rx_watermark s";
        cases "4 \<le> r"; cases "r < n") simp_all
qed

lemma lpspi_update_irq_eq: "lpspi_wf s \<Longrightarrow> lpspi_update_irq s = Inr (irq_of s)"
  by (simp add: lpspi_update_irq_def lpspi_update_status_eq irq_of_def status_of_def)

lemma lpspi_wf_status_of [simp]: "lpspi_wf (status_of s) \<longleftrightarrow> lpspi_wf s"
  by (simp add: lpspi_wf_def status_of_def)

lemma lpspi_wf_irq_of [simp]: "lpspi_wf (irq_of s) \<longleftrightarrow> lpspi_wf s"
  by (simp add: lpspi_wf_def irq_of_def status_of_def)

lemma status_of_idem: "status_of (status_of s) = status_of s"
proof -
  have "status_sr (status_of s) = status_sr s"
    by (rule bit_word_eqI)
      (auto simp: status_of_def status_sr_def Let_def lpspi_sr_bits bit_or_iff bit_and_iff bit_not_iff
        bit_push_bit_iff)
  moreover have "status_rsr (status_of s) = status_rsr s"
    by (simp add: status_of_def status_rsr_def ac_simps)
  moreover have "status_fsr (status_of s) = status_fsr s"
    by (simp add: status_of_def status_fsr_def)
  ultimately show ?thesis by (simp add: status_of_def)
qed

lemma irq_of_fields [simp]:
  "tx_fifo (irq_of s) = tx_fifo s" "rx_fifo (irq_of s) = rx_fifo s" "busy (irq_of s) = busy s"
  "cs_lines (irq_of s) = cs_lines s" "lpspi_ssi (irq_of s) = lpspi_ssi s"
  "lpspi_tcr (irq_of s) = lpspi_tcr s" "lpspi_cfgr1 (irq_of s) = lpspi_cfgr1 s"
  "lpspi_cr (irq_of s) = lpspi_cr s" "lpspi_ier (irq_of s) = lpspi_ier s"
  "lpspi_sr (irq_of s) = status_sr s" "num_cs_lines (irq_of s) = num_cs_lines s"
  by (simp_all add: irq_of_def status_of_def)

lemma status_of_fields [simp]:
  "tx_fifo (status_of s) = tx_fifo s" "rx_fifo (status_of s) = rx_fifo s" "busy (status_of s) = busy s"
  "cs_lines (status_of s) = cs_lines s" "lpspi_ssi (status_of s) = lpspi_ssi s"
  "lpspi_tcr (status_of s) = lpspi_tcr s" "lpspi_cfgr1 (status_of s) = lpspi_cfgr1 s"
  "lpspi_cr (status_of s) = lpspi_cr s" "lpspi_ier (status_of s) = lpspi_ier s"
  "lpspi_sr (status_of s) = status_sr s" "num_cs_lines (status_of s) = num_cs_lines s"
  "lpspi_irq (status_of s) = lpspi_irq s" "lpspi_rdr (status_of s) = lpspi_rdr s"
  by (simp_all add: status_of_def)

section \<open>The frame loops\<close>

definition partial_word :: "bool \<Rightarrow> nat \<Rightarrow> u8 list \<Rightarrow> nat \<Rightarrow> u32" where
  "partial_word lsbf n bs m =
     foldl (\<lambda>w i. w OR push_bit (byte_shift lsbf n i) (ucast (bs ! i))) 0 [0..<min m (length bs)]"

lemma fifo_pop_frame_loop:
  assumes wf: "fifo8_wf f"
  shows "\<exists>f'. foldE (pop_frame_step lsbf n) [0..<m] (0, f) = Inr (partial_word lsbf n (fifo_list f) m, f') \<and>
    fifo8_wf f' \<and> fifo_list f' = drop m (fifo_list f) \<and> fifo_capacity f' = fifo_capacity f"
proof (induction m)
  case 0
  show ?case using wf by (simp add: partial_word_def)
next
  case (Suc m)
  then obtain f1 where f1: "fifo8_wf f1" "fifo_list f1 = drop m (fifo_list f)"
      "fifo_capacity f1 = fifo_capacity f"
      "foldE (pop_frame_step lsbf n) [0..<m] (0, f) = Inr (partial_word lsbf n (fifo_list f) m, f1)"
    by blast
  show ?case
  proof (cases "m < length (fifo_list f)")
    case True
    then have "fifo_list f1 = fifo_list f ! m # drop (Suc m) (fifo_list f)"
      using f1(2) by (simp add: Cons_nth_drop_Suc)
    then obtain f2 where "fifo8_pop f1 = Inr (fifo_list f ! m, f2)" "fifo8_wf f2"
        "fifo_list f2 = drop (Suc m) (fifo_list f)" "fifo_capacity f2 = fifo_capacity f"
      using f8.pop_some [OF f1(1)] f1(3) by auto
    moreover have "\<not> fifo8_is_empty f1" using f1(1,2) True by (simp add: f8.empty_iff)
    ultimately show ?thesis
      using f1(4) True by (simp add: foldE_append partial_word_def min_absorb1 del: length_fifo_list)
  next
    case False
    then have "fifo8_is_empty f1" using f1(1,2) by (simp add: f8.empty_iff)
    with False f1 show ?thesis
      by (simp add: foldE_append partial_word_def min_absorb2 del: length_fifo_list)
  qed
qed

lemma fifo_pop_frame_eq:
  assumes wf: "fifo8_wf f"
  shows "\<exists>f'. fifo_pop_frame lsbf n f = Inr (frame_word lsbf n (take n (fifo_list f)), f') \<and>
    fifo8_wf f' \<and> fifo_list f' = drop n (fifo_list f) \<and> fifo_capacity f' = fifo_capacity f"
proof -
  have "partial_word lsbf n (fifo_list f) n = frame_word lsbf n (take n (fifo_list f))"
    unfolding frame_word_def partial_word_def by (rule foldl_cong) (auto simp: min.commute)
  with fifo_pop_frame_loop [OF wf, of lsbf n n] show ?thesis
    by (simp add: fifo_pop_frame_def)
qed

lemma foldE_map: "foldE f (map g xs) s = foldE (\<lambda>x. f (g x)) xs s"
  by (induction xs arbitrary: s) (auto intro!: rbind_cong)

lemma lpspi_push_tx_eq:
  assumes "fifo8_wf f" and "length (fifo_list f) + n \<le> fifo_capacity f"
  shows "\<exists>f'. lpspi_push_tx lsbf n v f = Inr f' \<and> fifo8_wf f' \<and>
    fifo_list f' = fifo_list f @ frame_bytes lsbf n v \<and> fifo_capacity f' = fifo_capacity f"
proof -
  have "lpspi_push_tx lsbf n v f = foldE (\<lambda>x f. fifo8_push f x) (frame_bytes lsbf n v) f"
    by (simp add: lpspi_push_tx_def frame_bytes_def foldE_map)
  with f8.push_loop [OF assms(1), of "frame_bytes lsbf n v"] assms(2) show ?thesis by simp
qed

text \<open>With room for the whole frame the receive loop pushes it and never reports an overflow.\<close>

lemma push_rx_loop:
  "fifo8_wf (rx_fifo s) \<Longrightarrow> length (fifo_list (rx_fifo s)) + length is \<le> fifo_capacity (rx_fifo s) \<Longrightarrow>
    \<exists>f'. foldE (push_rx_step lsbf n w) is s = Inr (s\<lparr>rx_fifo := f'\<rparr>) \<and> fifo8_wf f' \<and>
      fifo_list f' = fifo_list (rx_fifo s) @
        map (\<lambda>i. ucast (drop_bit (byte_shift lsbf n i) w AND 0xFF)) is \<and>
      fifo_capacity f' = fifo_capacity (rx_fifo s)"
proof (induction "is" arbitrary: s)
  case Nil
  then show ?case by (intro exI [of _ "rx_fifo s"]) simp
next
  case (Cons i "is")
  define b where "b = (ucast (drop_bit (byte_shift lsbf n i) w AND 0xFF) :: u8)"
  obtain f1 where f1: "fifo8_push (rx_fifo s) b = Inr f1" "fifo8_wf f1"
      "fifo_list f1 = fifo_list (rx_fifo s) @ [b]" "fifo_capacity f1 = fifo_capacity (rx_fifo s)"
    using f8.push_room [of "rx_fifo s" b] Cons.prems by auto
  have step: "push_rx_step lsbf n w i s = Inr (s\<lparr>rx_fifo := f1\<rparr>)"
    using Cons.prems f1(1) by (simp add: push_rx_step_def f8.full_iff b_def)
  obtain f' where "foldE (push_rx_step lsbf n w) is (s\<lparr>rx_fifo := f1\<rparr>) = Inr (s\<lparr>rx_fifo := f'\<rparr>)"
      "fifo8_wf f'" "fifo_list f' = fifo_list f1 @
        map (\<lambda>i. ucast (drop_bit (byte_shift lsbf n i) w AND 0xFF)) is"
      "fifo_capacity f' = fifo_capacity f1"
    using Cons.IH [of "s\<lparr>rx_fifo := f1\<rparr>"] Cons.prems f1 length_fifo_list [of f1] by auto
  with step f1 show ?case by (intro exI [of _ f']) (simp add: b_def)
qed

lemma lpspi_push_rx_eq:
  assumes "fifo8_wf (rx_fifo s)" and "length (fifo_list (rx_fifo s)) + n \<le> fifo_capacity (rx_fifo s)"
  shows "\<exists>f'. lpspi_push_rx lsbf n w s = Inr (s\<lparr>rx_fifo := f'\<rparr>) \<and> fifo8_wf f' \<and>
    fifo_list f' = fifo_list (rx_fifo s) @ frame_bytes lsbf n w \<and>
    fifo_capacity f' = fifo_capacity (rx_fifo s)"
  using push_rx_loop [of s "[0..<n]" lsbf n w] assms by (simp add: lpspi_push_rx_def frame_bytes_def)

section \<open>One transfer\<close>

abbreviation tx_bytes :: "('p, 'g) lpspi \<Rightarrow> u8 list" where
  "tx_bytes s \<equiv> fifo_list (tx_fifo s)"

abbreviation rx_bytes :: "('p, 'g) lpspi \<Rightarrow> u8 list" where
  "rx_bytes s \<equiv> fifo_list (rx_fifo s)"

abbreviation frame_len :: "('p, 'g) lpspi \<Rightarrow> nat" where
  "frame_len s \<equiv> bytes_per_frame (lpspi_tcr s)"

abbreviation rx_masked :: "('p, 'g) lpspi \<Rightarrow> bool" where
  "rx_masked s \<equiv> tcr_rxmsk (lpspi_tcr s)"

abbreviation single_mode :: "('p, 'g) lpspi \<Rightarrow> bool" where
  "single_mode s \<equiv> tcr_single (lpspi_tcr s)"

abbreviation cs_index :: "('p, 'g) lpspi \<Rightarrow> nat" where
  "cs_index s \<equiv> tcr_pcs (lpspi_tcr s)"

definition loopback :: "('p, 'g) lpspi \<Rightarrow> bool" where
  "loopback s \<longleftrightarrow> drop_bit 8 (lpspi_cfgr1 s) AND 3 = 1"

text \<open>A transfer is possible when a whole frame is queued and its reply fits.\<close>

definition can_transfer :: "('p, 'g) lpspi \<Rightarrow> bool" where
  "can_transfer s \<longleftrightarrow> frame_len s \<le> length (tx_bytes s) \<and>
     (rx_masked s \<or> length (rx_bytes s) + frame_len s \<le> 16)"

definition exchange :: "('p, 'g) lpspi \<Rightarrow> u32 \<Rightarrow> u32 \<times> ('p, 'g) SSIBus" where
  "exchange s tx_data = (if loopback s then (tx_data, lpspi_ssi s) else ssi_transfer (lpspi_ssi s) tx_data)"

definition flush_start :: "('p, 'g) lpspi \<Rightarrow> ('p, 'g) lpspi" where
  "flush_start s =
     (if \<not> busy s \<or> single_mode s
      then s\<lparr>cs_lines := (cs_lines s)[cs_index s := cs_active_high s (cs_index s)],
             busy := True, lpspi_sr := lpspi_sr s OR LPSPI_SR_MBF\<rparr>
      else s)"

definition flush_end :: "('p, 'g) lpspi \<Rightarrow> ('p, 'g) lpspi" where
  "flush_end s =
     (if tx_bytes s = [] \<and> busy s then
        (if single_mode s
         then s\<lparr>cs_lines := (cs_lines s)[cs_index s := \<not> cs_active_high s (cs_index s)],
                busy := False, lpspi_sr := (lpspi_sr s AND NOT LPSPI_SR_MBF) OR LPSPI_SR_TCF\<rparr>
         else s\<lparr>lpspi_sr := lpspi_sr s OR LPSPI_SR_TCF\<rparr>)
      else s)"

lemma flush_assert_cs_eq: "lpspi_wf s \<Longrightarrow> flush_assert_cs s = Inr (flush_start s)"
  using lpspi_wfD(5,7) [of s]
  by (simp add: flush_assert_cs_def flush_start_def lpspi_set_cs_def Let_def)

lemma flush_deassert_cs_eq: "lpspi_wf s \<Longrightarrow> flush_deassert_cs s = Inr (flush_end s)"
  using lpspi_wfD(1,5,7) [of s]
  by (simp add: flush_deassert_cs_def flush_end_def lpspi_set_cs_def f8.empty_iff Let_def)

lemma flush_exchange_eq:
  "flush_exchange w s = (fst (exchange s w), s\<lparr>lpspi_ssi := snd (exchange s w)\<rparr>)"
  by (auto simp: flush_exchange_def exchange_def loopback_def split: prod.split)

lemma lpspi_flush_blocked:
  assumes wf: "lpspi_wf s" and "\<not> can_transfer s"
  shows "lpspi_flush_txfifo s = Inr s"
  using assms(2) lpspi_wfD [OF wf] tcr_frame_size_range [of "lpspi_tcr s"]
  by (auto simp: lpspi_flush_txfifo_def can_transfer_def f8.used_length f8.free_length Let_def)

lemma flush_start_simps [simp]:
  "tx_fifo (flush_start s) = tx_fifo s" "rx_fifo (flush_start s) = rx_fifo s"
  "lpspi_tcr (flush_start s) = lpspi_tcr s" "lpspi_ssi (flush_start s) = lpspi_ssi s"
  "lpspi_cfgr1 (flush_start s) = lpspi_cfgr1 s" "num_cs_lines (flush_start s) = num_cs_lines s"
  "length (cs_lines (flush_start s)) = length (cs_lines s)" "lpspi_clk (flush_start s) = lpspi_clk s"
  "lpspi_ier (flush_start s) = lpspi_ier s" "lpspi_cr (flush_start s) = lpspi_cr s"
  by (simp_all add: flush_start_def)

lemma lpspi_wf_flush_start [simp]: "lpspi_wf (flush_start s) \<longleftrightarrow> lpspi_wf s"
  by (simp add: lpspi_wf_def)

lemma lpspi_wf_flush_end [simp]:
  "lpspi_wf (flush_end s) \<longleftrightarrow> lpspi_wf s" "num_cs_lines (flush_end s) = num_cs_lines s"
  by (simp_all add: flush_end_def lpspi_wf_def)

text \<open>The effect of moving one frame on the two queues and the bus.\<close>

definition moved :: "('p, 'g) lpspi \<Rightarrow> ('p, 'g) lpspi \<Rightarrow> bool" where
  "moved s s' \<longleftrightarrow>
     (let l = lpspi_lsbf (lpspi_tcr s); n = frame_len s;
          ex = exchange s (frame_word l n (take n (tx_bytes s)))
      in \<exists>ft fr. s' = s\<lparr>tx_fifo := ft, lpspi_ssi := snd ex, rx_fifo := fr\<rparr> \<and>
         fifo_list ft = drop n (tx_bytes s) \<and>
         fifo_list fr = rx_bytes s @ (if rx_masked s then [] else frame_bytes l n (fst ex)))"

lemma flush_move_frame_eq:
  assumes wf: "lpspi_wf s" and can: "can_transfer s"
  shows "\<exists>s'. flush_move_frame s = Inr s' \<and> lpspi_wf s' \<and> moved s s'"
proof -
  note d = lpspi_wfD [OF wf]
  let ?l = "lpspi_lsbf (lpspi_tcr s)" and ?n = "frame_len s"
  let ?w = "frame_word ?l ?n (take ?n (tx_bytes s))"
  obtain ft where ft: "fifo_pop_frame ?l ?n (tx_fifo s) = Inr (?w, ft)"
      "fifo8_wf ft" "fifo_list ft = drop ?n (tx_bytes s)" "fifo_capacity ft = 16"
    using fifo_pop_frame_eq [OF d(1)] d(3) by metis
  define ex where "ex = exchange s ?w"
  let ?s1 = "s\<lparr>tx_fifo := ft, lpspi_ssi := snd ex\<rparr>"
  have ex1: "exchange (s\<lparr>tx_fifo := ft\<rparr>) ?w = ex" by (simp add: exchange_def loopback_def ex_def)
  obtain fr where fr: "(if \<not> rx_masked s then lpspi_push_rx ?l ?n (fst ex) ?s1 else Inr ?s1) =
        Inr (?s1\<lparr>rx_fifo := fr\<rparr>)"
      "fifo8_wf fr" "fifo_capacity fr = 16"
      "fifo_list fr = rx_bytes s @ (if rx_masked s then [] else frame_bytes ?l ?n (fst ex))"
  proof (cases "rx_masked s")
    case True
    with that [of "rx_fifo s"] d show thesis by simp
  next
    case False
    with can d that lpspi_push_rx_eq [of ?s1 ?n ?l "fst ex"] show thesis
      by (auto simp: can_transfer_def)
  qed
  have "flush_move_frame s = Inr (?s1\<lparr>rx_fifo := fr\<rparr>)"
    using ft(1) fr(1) by (simp add: flush_move_frame_def flush_exchange_eq ex1 split: if_splits)
  moreover have "lpspi_wf (?s1\<lparr>rx_fifo := fr\<rparr>)" using wf ft fr by (simp add: lpspi_wf_def)
  moreover have "moved s (?s1\<lparr>rx_fifo := fr\<rparr>)" using ft fr
    unfolding moved_def Let_def ex_def by blast
  ultimately show ?thesis by blast
qed

lemma moved_fields:
  assumes "moved s s'"
  shows "lpspi_tcr s' = lpspi_tcr s" "lpspi_cfgr1 s' = lpspi_cfgr1 s" "lpspi_cr s' = lpspi_cr s"
    "busy s' = busy s" "cs_lines s' = cs_lines s" "lpspi_sr s' = lpspi_sr s"
    "lpspi_ier s' = lpspi_ier s" "num_cs_lines s' = num_cs_lines s"
    "tx_bytes s' = drop (frame_len s) (tx_bytes s)"
    "lpspi_ssi s' = snd (exchange s (frame_word (lpspi_lsbf (lpspi_tcr s)) (frame_len s) (take (frame_len s) (tx_bytes s))))"
    "rx_bytes s' = rx_bytes s @ (if rx_masked s then [] else
       frame_bytes (lpspi_lsbf (lpspi_tcr s)) (frame_len s)
         (fst (exchange s (frame_word (lpspi_lsbf (lpspi_tcr s)) (frame_len s) (take (frame_len s) (tx_bytes s))))))"
  using assms by (auto simp: moved_def Let_def)

lemma lpspi_flush_eq:
  assumes wf: "lpspi_wf s" and can: "can_transfer s"
  shows "\<exists>s'. lpspi_flush_txfifo s = Inr (irq_of (flush_end (status_of s'))) \<and> lpspi_wf s' \<and>
    moved (flush_start s) s'"
proof -
  have "lpspi_wf (flush_start s)" "can_transfer (flush_start s)"
    using assms by (simp_all add: can_transfer_def)
  then obtain s' where s': "flush_move_frame (flush_start s) = Inr s'" "lpspi_wf s'"
      "moved (flush_start s) s'"
    using flush_move_frame_eq by blast
  have "lpspi_flush_txfifo s = Inr (irq_of (flush_end (status_of s')))"
    using can s' lpspi_wfD [OF wf] tcr_frame_size_range [of "lpspi_tcr s"] wf
    by (auto simp: lpspi_flush_txfifo_def can_transfer_def f8.used_length f8.free_length Let_def
        flush_assert_cs_eq flush_deassert_cs_eq lpspi_update_status_eq lpspi_update_irq_eq)
  with s' show ?thesis by blast
qed

lemma lpspi_flush_total:
  assumes "lpspi_wf s"
  shows "\<exists>s'. lpspi_flush_txfifo s = Inr s' \<and> lpspi_wf s' \<and> num_cs_lines s' = num_cs_lines s"
  using assms lpspi_flush_blocked [of s] lpspi_flush_eq [of s]
  by (cases "can_transfer s") (auto dest: moved_fields(8))

section \<open>Reset\<close>

lemma drop_bit_masked_le: "unat (drop_bit n (w AND push_bit n m)) \<le> unat (drop_bit n (push_bit n m))"
  for w m :: "'a::len word"
proof -
  have "drop_bit n (w AND push_bit n m) = drop_bit n w AND drop_bit n (push_bit n m)"
    by (simp add: drop_bit_and)
  then show ?thesis by (metis word_and_le1 word_le_nat_alt)
qed

lemma lpspi_update_clock_config_total:
  assumes "lpspi_clk s = Some hz"
  shows "\<exists>r. lpspi_update_clock_config s = Inr r"
proof -
  let ?e = "unat (drop_bit 27 (lpspi_tcr s AND TCR_PRESCALE_MASK))"
  let ?a = "unat (lpspi_ccr1 s AND CCR1_SCKSET_MASK) + 1"
  let ?b = "unat (drop_bit 8 (lpspi_ccr1 s AND CCR1_SCKHLD_MASK)) + 1"
  have "?e \<le> 7"
    using drop_bit_masked_le [where n = 27 and w = "lpspi_tcr s" and m = 7] by (simp add: TCR_PRESCALE_MASK_def)
  then have p: "2 ^ ?e \<le> (2 :: nat) ^ 7" by (intro power_increasing) auto
  have "unat (lpspi_ccr1 s AND 0xFF) \<le> unat (0xFF :: u32)"
    by (metis word_and_le1 word_le_nat_alt)
  then have a: "?a \<le> 256" by (simp add: CCR1_SCKSET_MASK_def)
  have b: "?b \<le> 256"
    using drop_bit_masked_le [where n = 8 and w = "lpspi_ccr1 s" and m = "0xFF"] by (simp add: CCR1_SCKHLD_MASK_def)
  have "2 ^ ?e * (?a + ?b + 2) \<le> 2 ^ 7 * 514"
    by (rule mult_le_mono [OF p]) (use a b in linarith)
  then have "w32 (2 ^ ?e * (?a + ?b + 2)) = 2 ^ ?e * (?a + ?b + 2)" by (simp add: w32_small)
  moreover have "0 < 2 ^ ?e * (?a + ?b + 2)" by simp
  ultimately have "0 < w32 (2 ^ ?e * (?a + ?b + 2))" by (simp only:)
  then show ?thesis using assms
    by (auto simp: lpspi_update_clock_config_def Let_def)
qed

text \<open>The invariant without its condition on the transmit command.\<close>

definition lpspi_base :: "('p, 'g) lpspi \<Rightarrow> bool" where
  "lpspi_base s \<longleftrightarrow> fifo8_wf (tx_fifo s) \<and> fifo_capacity (tx_fifo s) = 16 \<and>
     fifo8_wf (rx_fifo s) \<and> fifo_capacity (rx_fifo s) = 16 \<and>
     length (cs_lines s) = num_cs_lines s \<and> 1 \<le> num_cs_lines s \<and> lpspi_clk s \<noteq> None"

lemma lpspi_wf_base: "lpspi_wf s \<longleftrightarrow> lpspi_base s \<and> tcr_ok (lpspi_tcr s) (num_cs_lines s)"
  by (auto simp: lpspi_wf_def lpspi_base_def)

lemma set_all_cs:
  "m \<le> length (cs_lines s) \<Longrightarrow> foldE (\<lambda>i. lpspi_set_cs i True) [0..<m] s =
     Inr (s\<lparr>cs_lines := replicate m True @ drop m (cs_lines s)\<rparr>)"
proof (induction m)
  case (Suc m)
  then have "(replicate m True @ drop m (cs_lines s))[m := True] =
      replicate (Suc m) True @ drop (Suc m) (cs_lines s)"
    by (simp add: list_update_append replicate_append_same flip: Cons_nth_drop_Suc)
  with Suc show ?case by (simp add: foldE_append lpspi_set_cs_def)
qed simp

definition reset_of :: "('p, 'g) lpspi \<Rightarrow> ('p, 'g) lpspi" where
  "reset_of s = s\<lparr>lpspi_verid := 0x04040007, lpspi_param := 0x00040404, lpspi_cr := 0,
     lpspi_sr := LPSPI_SR_TDF OR LPSPI_SR_TCF, lpspi_ier := 0, lpspi_der := 0,
     lpspi_cfgr0 := 0, lpspi_cfgr1 := 0, lpspi_ccr := 0, lpspi_ccr1 := 0,
     lpspi_fcr := 0, lpspi_fsr := 0, lpspi_tcr := 0x0000001F, lpspi_tdr := 0,
     lpspi_rsr := LPSPI_RSR_RXEMPTY, lpspi_rdr := 0, busy := False, tx_watermark := 0,
     rx_watermark := 0, frame_size := 32, continuous_mode := False,
     tx_fifo := fifo8_reset (tx_fifo s), rx_fifo := fifo8_reset (rx_fifo s),
     cs_lines := replicate (num_cs_lines s) True, lpspi_irq := False\<rparr>"

lemma num_cs_lines_reset_of [simp]: "num_cs_lines (reset_of s) = num_cs_lines s"
  by (simp add: reset_of_def)

lemma tcr_reset: "bytes_per_frame 0x1F = 4" "tcr_pcs 0x1F = 0"
  by (simp_all add: bytes_per_frame_def tcr_frame_size_def tcr_pcs_def reg_simps w8_def)

lemma lpspi_wf_reset_of: "lpspi_base s \<Longrightarrow> lpspi_wf (reset_of s)"
  using f8.reset_empty [of "tx_fifo s"] f8.reset_empty [of "rx_fifo s"]
  by (auto simp: lpspi_wf_def lpspi_base_def reset_of_def tcr_ok_def tcr_reset)

lemma irq_of_reset: "lpspi_base s \<Longrightarrow> irq_of ((reset_of s)\<lparr>lpspi_irq := b\<rparr>) = reset_of s"
  using f8.reset_empty [of "tx_fifo s"] f8.reset_empty [of "rx_fifo s"] length_fifo_list [of "fifo8_reset (tx_fifo s)"]
    length_fifo_list [of "fifo8_reset (rx_fifo s)"]
  by (simp add: irq_of_def status_of_def status_sr_def status_fsr_def status_rsr_def reset_of_def
      lpspi_base_def tcr_reset Let_def ac_simps)

lemma lpspi_do_reset_eq:
  assumes "lpspi_base s"
  shows "nxps32k358_lpspi_do_reset s = Inr (reset_of s)"
proof -
  have wf: "lpspi_wf ((reset_of s)\<lparr>lpspi_irq := lpspi_irq s\<rparr>)"
    using lpspi_wf_reset_of [OF assms] by (simp add: lpspi_wf_def)
  then obtain hz where "lpspi_clk ((reset_of s)\<lparr>lpspi_irq := lpspi_irq s\<rparr>) = Some hz"
    by (auto simp: lpspi_wf_def)
  then obtain r where r: "lpspi_update_clock_config ((reset_of s)\<lparr>lpspi_irq := lpspi_irq s\<rparr>) = Inr r"
    using lpspi_update_clock_config_total by blast
  show ?thesis
    using assms lpspi_update_irq_eq [OF wf] r unfolding irq_of_reset [OF assms]
    by (simp add: nxps32k358_lpspi_do_reset_def set_all_cs lpspi_base_def reset_of_def)
qed

section \<open>Register accesses never stop the emulator\<close>

lemma lpspi_clock_then:
  assumes "lpspi_wf s"
  shows "rbind (lpspi_update_clock_config s) (\<lambda>_. x) = x"
proof -
  from assms obtain hz where "lpspi_clk s = Some hz" by (auto simp: lpspi_wf_def)
  then obtain r where "lpspi_update_clock_config s = Inr r"
    using lpspi_update_clock_config_total by blast
  then show ?thesis by simp
qed

lemma lpspi_wf_upd [simp]:
  "lpspi_wf (s\<lparr>lpspi_cr := v\<rparr>) \<longleftrightarrow> lpspi_wf s" "lpspi_wf (s\<lparr>lpspi_sr := v\<rparr>) \<longleftrightarrow> lpspi_wf s"
  "lpspi_wf (s\<lparr>lpspi_ier := v\<rparr>) \<longleftrightarrow> lpspi_wf s" "lpspi_wf (s\<lparr>lpspi_der := v\<rparr>) \<longleftrightarrow> lpspi_wf s"
  "lpspi_wf (s\<lparr>lpspi_cfgr0 := v\<rparr>) \<longleftrightarrow> lpspi_wf s" "lpspi_wf (s\<lparr>lpspi_cfgr1 := v\<rparr>) \<longleftrightarrow> lpspi_wf s"
  "lpspi_wf (s\<lparr>lpspi_ccr := v\<rparr>) \<longleftrightarrow> lpspi_wf s" "lpspi_wf (s\<lparr>lpspi_ccr1 := v\<rparr>) \<longleftrightarrow> lpspi_wf s"
  "lpspi_wf (s\<lparr>lpspi_rsr := v\<rparr>) \<longleftrightarrow> lpspi_wf s" "lpspi_wf (s\<lparr>lpspi_rdr := v\<rparr>) \<longleftrightarrow> lpspi_wf s"
  "lpspi_wf (s\<lparr>lpspi_fcr := v, tx_watermark := a, rx_watermark := b\<rparr>) \<longleftrightarrow> lpspi_wf s"
  by (simp_all add: lpspi_wf_def)

lemma lpspi_wf_tx: "lpspi_wf s \<Longrightarrow> fifo8_wf f \<Longrightarrow> fifo_capacity f = 16 \<Longrightarrow> lpspi_wf (s\<lparr>tx_fifo := f\<rparr>)"
  by (simp add: lpspi_wf_def)

lemma lpspi_wf_rx: "lpspi_wf s \<Longrightarrow> fifo8_wf f \<Longrightarrow> fifo_capacity f = 16 \<Longrightarrow> lpspi_wf (s\<lparr>rx_fifo := f\<rparr>)"
  by (simp add: lpspi_wf_def)

lemma lpspi_write_CR:
  assumes wf: "lpspi_wf s" and reg: "lpspi_decode addr = Some CR"
  shows "\<exists>s'. nxps32k358_lpspi_write s addr v = Inr s' \<and> lpspi_wf s' \<and> num_cs_lines s' = num_cs_lines s"
proof (cases "(ucast v :: u32) AND LPSPI_CR_RST = 0")
  case False
  have "lpspi_base s" using wf by (simp add: lpspi_wf_base)
  then show ?thesis
    using False reg lpspi_wf_reset_of [of s] by (simp add: nxps32k358_lpspi_write_def lpspi_do_reset_eq)
next
  case True
  define s1 where "s1 = (if (ucast v :: u32) AND LPSPI_CR_RTF \<noteq> 0
      then s\<lparr>tx_fifo := fifo8_reset (tx_fifo s), lpspi_sr := lpspi_sr s OR LPSPI_SR_TDF\<rparr> else s)"
  define s2 where "s2 = (if (ucast v :: u32) AND LPSPI_CR_RRF \<noteq> 0
      then s1\<lparr>rx_fifo := fifo8_reset (rx_fifo s1), lpspi_rsr := lpspi_rsr s1 OR LPSPI_RSR_RXEMPTY\<rparr> else s1)"
  have "lpspi_wf s1" using wf f8.reset_empty [of "tx_fifo s"] by (auto simp: s1_def lpspi_wf_def)
  then have "lpspi_wf s2" using f8.reset_empty [of "rx_fifo s1"] by (auto simp: s2_def lpspi_wf_def)
  moreover have num: "num_cs_lines s2 = num_cs_lines s" by (simp add: s1_def s2_def)
  ultimately show ?thesis
    using True reg
    by (simp add: nxps32k358_lpspi_write_def Let_def lpspi_update_irq_eq flip: s1_def s2_def)
qed

lemma lpspi_write_TCR:
  assumes wf: "lpspi_base s" and reg: "lpspi_decode addr = Some TCR"
    and ok: "tcr_ok (ucast v) (num_cs_lines s)"
  shows "\<exists>s'. nxps32k358_lpspi_write s addr v = Inr s' \<and> lpspi_wf s' \<and> num_cs_lines s' = num_cs_lines s"
proof -
  define s1 where "s1 = s\<lparr>lpspi_tcr := ucast v, frame_size := tcr_frame_size (ucast v),
                    continuous_mode := ((ucast v :: u32) AND (TCR_CONT OR TCR_CONTC) \<noteq> 0)\<rparr>"
  have wf1: "lpspi_wf s1" using wf ok by (simp add: s1_def lpspi_wf_base lpspi_base_def)
  obtain s2 where s2: "(if lpspi_cr s1 AND LPSPI_CR_MEN \<noteq> 0 \<and> \<not> fifo8_is_empty (tx_fifo s1)
                    then lpspi_flush_txfifo s1 else Inr s1) = Inr s2" "lpspi_wf s2" "num_cs_lines s2 = num_cs_lines s1"
    using lpspi_flush_total [OF wf1] wf1 by (metis (full_types))
  show ?thesis
    using reg s2 lpspi_clock_then [OF s2(2), of "Inr (irq_of s2)"] lpspi_update_irq_eq [OF s2(2)]
    by (cases "lpspi_cr s1 AND LPSPI_CR_MEN \<noteq> 0 \<and> \<not> fifo8_is_empty (tx_fifo s1)")
      (auto simp: nxps32k358_lpspi_write_def s1_def)
qed

lemma lpspi_write_TDR:
  assumes wf: "lpspi_wf s" and reg: "lpspi_decode addr = Some TDR"
  shows "\<exists>s'. nxps32k358_lpspi_write s addr v = Inr s' \<and> lpspi_wf s' \<and> num_cs_lines s' = num_cs_lines s"
proof (cases "lpspi_cr s AND LPSPI_CR_MEN \<noteq> 0 \<and> frame_len s \<le> fifo8_num_free (tx_fifo s)")
  case False
  with wf reg show ?thesis
    by (auto simp: nxps32k358_lpspi_write_def Let_def lpspi_update_irq_eq)
next
  case True
  note d = lpspi_wfD [OF wf]
  have "length (tx_bytes s) + frame_len s \<le> 16"
    using True d by (auto simp: f8.free_length simp del: length_fifo_list)
  then obtain f where f: "lpspi_push_tx (lpspi_lsbf (lpspi_tcr s)) (frame_len s) v (tx_fifo s) = Inr f"
      "fifo8_wf f" "fifo_capacity f = 16"
    using lpspi_push_tx_eq [OF d(1)] d(3) by metis
  obtain s' where "lpspi_flush_txfifo (s\<lparr>tx_fifo := f\<rparr>) = Inr s'" "lpspi_wf s'"
      "num_cs_lines s' = num_cs_lines s"
    using lpspi_flush_total [OF lpspi_wf_tx [OF wf f(2,3)]] by auto
  with True f(1) reg show ?thesis
    by (auto simp: nxps32k358_lpspi_write_def Let_def lpspi_update_irq_eq)
qed

lemma lpspi_write_total:
  assumes wf: "lpspi_wf s"
    and ok: "lpspi_decode addr = Some TCR \<Longrightarrow> tcr_ok (ucast v) (num_cs_lines s)"
  shows "\<exists>s'. nxps32k358_lpspi_write s addr v = Inr s' \<and> lpspi_wf s' \<and> num_cs_lines s' = num_cs_lines s"
proof (cases "lpspi_decode addr")
  case None
  with wf show ?thesis by (simp add: nxps32k358_lpspi_write_def)
next
  case (Some r)
  have "lpspi_base s" using wf by (simp add: lpspi_wf_base)
  then show ?thesis
    using wf ok Some lpspi_write_CR [OF wf, of addr v] lpspi_write_TCR [of s addr v]
      lpspi_write_TDR [OF wf, of addr v]
    by (cases r) (simp_all add: nxps32k358_lpspi_write_def lpspi_update_irq_eq lpspi_clock_then
        lpspi_update_status_eq Let_def)
qed

lemma lpspi_read_total:
  assumes wf: "lpspi_wf s"
  shows "\<exists>x s'. nxps32k358_lpspi_read s addr = Inr (x, s') \<and> lpspi_wf s' \<and> num_cs_lines s' = num_cs_lines s"
proof -
  have wf1: "lpspi_wf (status_of s)" using wf by simp
  obtain w f where f: "fifo_pop_frame (lpspi_lsbf (lpspi_tcr (status_of s))) (frame_len (status_of s)) (rx_fifo (status_of s)) =
      Inr (w, f)" "fifo8_wf f" "fifo_capacity f = 16"
    using fifo_pop_frame_eq [OF lpspi_wfD(2) [OF wf1]] lpspi_wfD(4) [OF wf1] by metis
  have wf2: "lpspi_wf ((status_of s)\<lparr>rx_fifo := f, lpspi_rdr := w\<rparr>)"
    using lpspi_wf_rx [OF wf1 f(2,3)] by simp
  show ?thesis
    using wf wf1 f(1) lpspi_wf_rx [OF wf1 f(2,3)] lpspi_update_status_eq [OF wf2]
    by (auto simp: nxps32k358_lpspi_read_def lpspi_update_status_eq wf2 split: option.split lpspi_reg.split)
qed

section \<open>The effect of data register accesses\<close>

lemma sr_flag_bit [simp]:
  "bit LPSPI_SR_TDF k \<longleftrightarrow> k = 0" "bit LPSPI_SR_RDF k \<longleftrightarrow> k = 1" "bit LPSPI_SR_TCF k \<longleftrightarrow> k = 10"
  "bit LPSPI_SR_TEF k \<longleftrightarrow> k = 11" "bit LPSPI_SR_REF k \<longleftrightarrow> k = 12" "bit LPSPI_SR_MBF k \<longleftrightarrow> k = 24"
  unfolding lpspi_sr_bits bit_push_bit_iff bit_1_iff by auto

lemma status_sr_bit:
  assumes "2 \<le> k"
  shows "bit (status_sr s) k = bit (lpspi_sr s) k"
proof (cases "k < 32")
  case True
  with assms show ?thesis by (simp add: status_sr_def Let_def bit_or_iff bit_and_iff bit_not_iff)
qed (auto dest: bit_imp_le_length)

lemma status_irq_frame [simp]:
  "status_sr (s\<lparr>lpspi_irq := b\<rparr>) = status_sr s" "status_fsr (s\<lparr>lpspi_irq := b\<rparr>) = status_fsr s"
  "status_rsr (s\<lparr>lpspi_irq := b\<rparr>) = status_rsr s"
  by (simp_all add: status_sr_def status_fsr_def status_rsr_def Let_def)

lemma status_of_irq_frame [simp]: "status_of (s\<lparr>lpspi_irq := b\<rparr>) = (status_of s)\<lparr>lpspi_irq := b\<rparr>"
  by (simp add: status_of_def)

lemma status_sr_status_of: "status_sr (status_of s) = status_sr s"
  using arg_cong [OF status_of_idem [of s], of lpspi_sr] by simp

lemma irq_of_idem: "irq_of (irq_of s) = irq_of s"
  by (simp add: irq_of_def status_of_idem status_sr_status_of)

text \<open>What the bus, or the loopback, is given and answers for a transmit word \<open>v\<close>.\<close>

definition lpspi_reply :: "('p, 'g) lpspi \<Rightarrow> u64 \<Rightarrow> u32 \<times> ('p, 'g) SSIBus" where
  "lpspi_reply s v = exchange s (take_bit (8 * frame_len s) (ucast v))"

text \<open>The level of the selected line, the busy flag and the flag MBF after a transfer that has
  emptied the transmit FIFO.\<close>

definition cs_after :: "('p, 'g) lpspi \<Rightarrow> bool list" where
  "cs_after s =
     (if single_mode s then (cs_lines s)[cs_index s := \<not> cs_active_high s (cs_index s)]
      else if busy s then cs_lines s
      else (cs_lines s)[cs_index s := cs_active_high s (cs_index s)])"

lemma busy_flush_start [simp]: "busy (flush_start s)"
  by (auto simp: flush_start_def)

lemma exchange_frame [simp]:
  "exchange (s\<lparr>tx_fifo := f\<rparr>) w = exchange s w" "exchange (flush_start s) w = exchange s w"
  by (simp_all add: exchange_def loopback_def)

lemma flush_end_empty:
  assumes "tx_bytes s = []" "busy s"
  shows "tx_fifo (flush_end s) = tx_fifo s" "rx_fifo (flush_end s) = rx_fifo s"
    "lpspi_ssi (flush_end s) = lpspi_ssi s" "lpspi_tcr (flush_end s) = lpspi_tcr s"
    "busy (flush_end s) \<longleftrightarrow> \<not> single_mode s" "bit (lpspi_sr (flush_end s)) 10"
    "bit (lpspi_sr (flush_end s)) 24 \<longleftrightarrow> \<not> single_mode s \<and> bit (lpspi_sr s) 24"
    "cs_lines (flush_end s) = (if single_mode s
       then (cs_lines s)[cs_index s := \<not> cs_active_high s (cs_index s)] else cs_lines s)"
  using assms by (auto simp: flush_end_def bit_or_iff bit_and_iff bit_not_iff)

lemma lpspi_tdr_exchange:
  assumes wf: "lpspi_wf s" and reg: "lpspi_decode addr = Some TDR"
    and men: "lpspi_cr s AND LPSPI_CR_MEN \<noteq> 0" and idle: "tx_bytes s = []"
    and room: "rx_masked s \<or> length (rx_bytes s) + frame_len s \<le> 16"
  shows "\<exists>s'. nxps32k358_lpspi_write s addr v = Inr s' \<and> lpspi_wf s' \<and> tx_bytes s' = [] \<and>
    rx_bytes s' = rx_bytes s @ (if rx_masked s then []
       else frame_bytes (lpspi_lsbf (lpspi_tcr s)) (frame_len s) (fst (lpspi_reply s v))) \<and>
    lpspi_ssi s' = snd (lpspi_reply s v) \<and> lpspi_tcr s' = lpspi_tcr s \<and>
    bit (lpspi_sr s') 10 \<and> (busy s' \<longleftrightarrow> \<not> single_mode s) \<and>
    (single_mode s \<longrightarrow> \<not> bit (lpspi_sr s') 24) \<and> cs_lines s' = cs_after s \<and> irq_of s' = s'"
proof -
  note d = lpspi_wfD [OF wf]
  let ?l = "lpspi_lsbf (lpspi_tcr s)" and ?n = "frame_len s"
  have n16: "?n \<le> 16" using bytes_per_frame_le [of "lpspi_tcr s"] by simp
  obtain f where f: "lpspi_push_tx ?l ?n v (tx_fifo s) = Inr f" "fifo8_wf f" "fifo_capacity f = 16"
      "fifo_list f = frame_bytes ?l ?n v"
    using lpspi_push_tx_eq [OF d(1), of ?n ?l v] idle d(3) n16 by auto
  let ?s = "s\<lparr>tx_fifo := f\<rparr>"
  have wfs: "lpspi_wf ?s" using lpspi_wf_tx [OF wf f(2,3)] .
  have "can_transfer ?s" using f(4) room by (simp add: can_transfer_def del: length_fifo_list)
  then obtain s1 where s1: "lpspi_flush_txfifo ?s = Inr (irq_of (flush_end (status_of s1)))"
      "lpspi_wf s1" "moved (flush_start ?s) s1"
    using lpspi_flush_eq [OF wfs] by blast
  note m = moved_fields [OF s1(3)]
  have tx1: "tx_bytes (status_of s1) = []" and busy1: "busy (status_of s1)"
    using m(4,9) f(4) by simp_all
  let ?s' = "irq_of (flush_end (status_of s1))"
  have free: "\<not> fifo8_num_free (tx_fifo s) < ?n" using idle d n16 by (simp add: f8.free_length)
  have w: "nxps32k358_lpspi_write s addr v = Inr ?s'"
    using reg men free f(1) s1(1,2)
    by (simp add: nxps32k358_lpspi_write_def Let_def lpspi_update_irq_eq irq_of_idem)
  have cs: "cs_lines ?s' = cs_after s"
    using flush_end_empty(8) [OF tx1 busy1] m(1,2,5)
    by (auto simp: cs_after_def flush_start_def cs_active_high_def)
  have rx: "rx_bytes ?s' = rx_bytes s @ (if rx_masked s then []
       else frame_bytes ?l ?n (fst (lpspi_reply s v)))" and ssi: "lpspi_ssi ?s' = snd (lpspi_reply s v)"
    using flush_end_empty(2,3) [OF tx1 busy1] m(10,11) f(4)
    by (simp_all add: lpspi_reply_def frame_word_bytes)
  show ?thesis
    using w cs rx ssi s1(2) flush_end_empty [OF tx1 busy1] tx1 m(1) irq_of_idem
    by (intro exI [of _ ?s']) (simp add: status_sr_bit)
qed

lemma lpspi_rdr_read:
  assumes wf: "lpspi_wf s" and reg: "lpspi_decode addr = Some RDR" and ne: "rx_bytes s \<noteq> []"
  shows "\<exists>s'. nxps32k358_lpspi_read s addr =
      Inr (frame_word (lpspi_lsbf (lpspi_tcr s)) (frame_len s) (take (frame_len s) (rx_bytes s)), s') \<and>
    lpspi_wf s' \<and> rx_bytes s' = drop (frame_len s) (rx_bytes s) \<and> tx_bytes s' = tx_bytes s \<and>
    lpspi_tcr s' = lpspi_tcr s \<and> lpspi_ssi s' = lpspi_ssi s \<and> lpspi_irq s' = lpspi_irq s \<and>
    busy s' = busy s \<and> cs_lines s' = cs_lines s"
proof -
  let ?l = "lpspi_lsbf (lpspi_tcr s)" and ?n = "frame_len s"
  obtain f where f: "fifo_pop_frame ?l ?n (rx_fifo s) =
        Inr (frame_word ?l ?n (take ?n (rx_bytes s)), f)"
      "fifo8_wf f" "fifo_list f = drop ?n (rx_bytes s)" "fifo_capacity f = 16"
    using fifo_pop_frame_eq [OF lpspi_wfD(2) [OF wf]] lpspi_wfD(4) [OF wf] by metis
  define s1 where "s1 = (status_of s)\<lparr>rx_fifo := f, lpspi_rdr := frame_word ?l ?n (take ?n (rx_bytes s))\<rparr>"
  have wf1: "lpspi_wf s1" using wf f lpspi_wf_rx [of "status_of s" f] by (simp add: s1_def)
  have "\<not> fifo8_num_used (rx_fifo s) < 1"
    using ne lpspi_wfD(2) [OF wf] by (simp add: f8.used_length Suc_le_eq del: length_fifo_list)
  then have "nxps32k358_lpspi_read s addr =
      Inr (frame_word ?l ?n (take ?n (rx_bytes s)), status_of s1)"
    using wf reg f(1) lpspi_update_status_eq [OF wf1]
    by (simp add: nxps32k358_lpspi_read_def lpspi_update_status_eq flip: s1_def)
  then show ?thesis using wf1 f(3) by (simp add: s1_def)
qed

end
