(* ===== verification/Lpspi_Properties.thy ===== *)
theory Lpspi_Properties
  imports Lpspi_Correct Mmio
begin

text \<open>
  The properties of the LPSPI controller as its guest sees them: the controller survives every
  acceptable sequence of register accesses; what a write to the data register sends and stores,
  what a read returns, how chip select and the flags move; and where the code stops the emulator
  or leaves the interrupt line behind.
\<close>

section \<open>The life of a controller\<close>

text \<open>An acceptable store is any but a transmit command that \<open>tcr_ok\<close> refuses.\<close>

definition lpspi_store_ok :: "nat \<Rightarrow> nat \<Rightarrow> u64 \<Rightarrow> bool" where
  "lpspi_store_ok n addr v \<longleftrightarrow> (lpspi_decode addr = Some TCR \<longrightarrow> tcr_ok (ucast v) n)"

interpretation spi: mmio_device "\<lambda>s. lpspi_wf s \<and> num_cs_lines s = n" "lpspi_store_ok n"
    nxps32k358_lpspi_read nxps32k358_lpspi_write for n
  using lpspi_read_total lpspi_write_total
  by unfold_locales (fastforce simp: lpspi_store_ok_def)+

abbreviation lpspi_step :: "access \<Rightarrow> ('p, 'g) lpspi \<Rightarrow> ('p, 'g) lpspi res" where
  "lpspi_step \<equiv> mmio_step nxps32k358_lpspi_read nxps32k358_lpspi_write"

text \<open>Power on: the clock and the chip select count are set, the device is realized and reset.\<close>

definition lpspi_boot :: "'g \<Rightarrow> nat \<Rightarrow> nat \<Rightarrow> u8 list \<Rightarrow> u8 list \<Rightarrow> ('p, 'g) lpspi res" where
  "lpspi_boot g hz n txblock rxblock =
     rbind (nxps32k358_lpspi_realize ((nxps32k358_lpspi_init g)\<lparr>lpspi_clk := Some hz, num_cs_lines := n\<rparr>)
              txblock rxblock) nxps32k358_lpspi_do_reset"

lemma lpspi_boot_ok:
  fixes g :: 'g
  assumes "0 < hz" "1 \<le> n" "n \<le> 4" "length b1 = 16" "length b2 = 16"
  shows "\<exists>s :: ('p, 'g) lpspi. lpspi_boot g hz n b1 b2 = Inr (reset_of s) \<and> lpspi_base s \<and> num_cs_lines s = n \<and>
    lpspi_ssi s = ssi_create_bus g \<and> lpspi_clk s = Some hz"
proof -
  define s :: "('p, 'g) lpspi" where "s = (nxps32k358_lpspi_init g)\<lparr>lpspi_clk := Some hz, num_cs_lines := n, input_clk := hz,
    cs_lines := replicate n False, tx_fifo := fifo8_create b1 16, rx_fifo := fifo8_create b2 16\<rparr>"
  have r: "nxps32k358_lpspi_realize ((nxps32k358_lpspi_init g)\<lparr>lpspi_clk := Some hz, num_cs_lines := n\<rparr>) b1 b2 = Inr s"
    using assms by (simp add: s_def nxps32k358_lpspi_realize_def nxps32k358_lpspi_init_def
        LPSPI_FIFO_BYTE_CAPACITY_def)
  have b: "lpspi_base s"
    using assms fifo8_create_refines [of b1 16] fifo8_create_refines [of b2 16]
    by (auto simp: s_def lpspi_base_def fifo8_create_def fifo8_reset_def)
  have "num_cs_lines s = n" "lpspi_ssi s = ssi_create_bus g" "lpspi_clk s = Some hz"
    by (simp_all add: s_def nxps32k358_lpspi_init_def)
  then show ?thesis using r lpspi_do_reset_eq [OF b] b
    by (intro exI [of _ s]) (simp add: lpspi_boot_def)
qed

text \<open>
  C13. A controller that has been powered on with a running clock and one to four chip selects
  survives every sequence of register reads and writes whose writes to TCR are acceptable: no
  access divides by zero, overruns a FIFO or indexes past the chip select lines, and the device
  invariant holds at the end. Registers, offsets and data are otherwise arbitrary.
\<close>

theorem lpspi_run_safe:
  fixes g :: 'g
  assumes "0 < hz" and "1 \<le> n" and "n \<le> 4" and "length b1 = 16" and "length b2 = 16"
    and "\<forall>a \<in> set as. acceptable (lpspi_store_ok n) a"
  shows "\<exists>s s' :: ('p, 'g) lpspi. lpspi_boot g hz n b1 b2 = Inr s \<and> foldE lpspi_step as s = Inr s' \<and> lpspi_wf s'"
proof -
  obtain s :: "('p, 'g) lpspi" where s: "lpspi_boot g hz n b1 b2 = Inr (reset_of s)" "lpspi_base s" "num_cs_lines s = n"
    using lpspi_boot_ok [OF assms(1-5), where ?'p = 'p and g = g] by (elim exE conjE)
  have "lpspi_wf (reset_of s) \<and> num_cs_lines (reset_of s) = n" using s lpspi_wf_reset_of by simp
  from spi.run_inv [OF this assms(6)] s(1) show ?thesis by auto
qed

lemma lpspi_decode_simps [simp]:
  "lpspi_decode 0x00 = Some VERID" "lpspi_decode 0x10 = Some CR" "lpspi_decode 0x14 = Some SR"
  "lpspi_decode 0x60 = Some TCR" "lpspi_decode 0x64 = Some TDR" "lpspi_decode 0x74 = Some RDR"
  "lpspi_decode 0x18 = Some IER" "lpspi_decode 0x58 = Some FCR" "lpspi_decode 0x24 = Some CFGR1"
  by (simp_all add: lpspi_decode_def lpspi_offsets_def)

lemma tcr_byte: "bytes_per_frame 7 = 1" "tcr_pcs 7 = 0" "tcr_single 7" "\<not> tcr_rxmsk 7" "\<not> lpspi_lsbf 7"
  by (simp_all add: bytes_per_frame_def tcr_frame_size_def tcr_pcs_def tcr_single_def tcr_rxmsk_def
      lpspi_lsbf_def reg_simps w8_def)

theorem lpspi_run_safe_witness:
  "\<exists>s s' :: (unit, nat) lpspi. lpspi_boot 0 40000000 1 (replicate 16 0) (replicate 16 0) = Inr s \<and>
     foldE lpspi_step [Store 0x60 7, Store 0x10 1, Store 0x64 0x5A, Load 0x74] s = Inr s' \<and> lpspi_wf s'"
  by (rule lpspi_run_safe) (simp_all add: lpspi_store_ok_def tcr_ok_def tcr_byte)

text \<open>A byte-sized controller in the state the firmware brings it to: enabled, 8-bit frames.\<close>

definition lpspi_ready :: "('p, 'g) lpspi \<Rightarrow> bool" where
  "lpspi_ready s \<longleftrightarrow> lpspi_wf s \<and> lpspi_cr s AND LPSPI_CR_MEN \<noteq> 0 \<and> tx_bytes s = [] \<and> \<not> rx_masked s \<and>
     length (rx_bytes s) + frame_len s \<le> 16"

definition lpspi_example :: "u32 \<Rightarrow> ('p, 'g) SSIBus \<Rightarrow> ('p, 'g) lpspi" where
  "lpspi_example tcr bus = (reset_of ((nxps32k358_lpspi_init (bus_host bus))\<lparr>lpspi_clk := Some 40000000,
      cs_lines := [True], tx_fifo := fifo8_create (replicate 16 0) 16,
      rx_fifo := fifo8_create (replicate 16 0) 16\<rparr>))\<lparr>lpspi_cr := 1, lpspi_tcr := tcr, lpspi_ssi := bus\<rparr>"

lemma lpspi_example_fields:
  "lpspi_tcr (lpspi_example tcr bus) = tcr" "lpspi_ssi (lpspi_example tcr bus) = bus"
  "lpspi_cr (lpspi_example tcr bus) = 1" "num_cs_lines (lpspi_example tcr bus) = 1"
  "lpspi_cfgr1 (lpspi_example tcr bus) = 0" "tx_bytes (lpspi_example tcr bus) = []"
  "rx_bytes (lpspi_example tcr bus) = []"
  by (simp_all add: lpspi_example_def reset_of_def nxps32k358_lpspi_init_def fifo8_create_def
      fifo8_reset_def fifo_list_def)

lemma lpspi_example_wf: "tcr_ok tcr 1 \<Longrightarrow> lpspi_wf (lpspi_example tcr bus)"
  by (simp add: lpspi_wf_def lpspi_example_def reset_of_def nxps32k358_lpspi_init_def fifo8_create_def
      fifo8_reset_def fifo8_wf_def)

lemma lpspi_example_ready: "lpspi_ready (lpspi_example 7 bus)"
  by (simp add: lpspi_ready_def lpspi_example_wf lpspi_example_fields tcr_ok_def tcr_byte
      LPSPI_CR_MEN_def del: length_fifo_list)

section \<open>Data transfer\<close>

text \<open>
  C23. Writing the data register of an enabled, idle controller with room for the reply sends the
  low bytes of the word, in one frame, to the bus (or to the loopback) and queues the answer:
  afterwards the transmit queue is empty, the receive queue has grown by exactly the reply's
  frame (by nothing when receive is masked), the bus is the one the exchange leaves, and the
  transfer complete flag is set. In single mode the controller is idle again, MBF is clear and
  the selected line is released; in continuous mode it stays busy with the line asserted.
\<close>

theorem lpspi_tdr_write_exchanges:
  assumes "lpspi_wf s" and "lpspi_decode addr = Some TDR" and "lpspi_cr s AND LPSPI_CR_MEN \<noteq> 0"
    and "tx_bytes s = []" and "rx_masked s \<or> length (rx_bytes s) + frame_len s \<le> 16"
  shows "\<exists>s'. nxps32k358_lpspi_write s addr v = Inr s' \<and> tx_bytes s' = [] \<and>
    rx_bytes s' = rx_bytes s @ (if rx_masked s then []
       else frame_bytes (lpspi_lsbf (lpspi_tcr s)) (frame_len s) (fst (lpspi_reply s v))) \<and>
    lpspi_ssi s' = snd (lpspi_reply s v) \<and> bit (lpspi_sr s') 10 \<and> (busy s' \<longleftrightarrow> \<not> single_mode s) \<and>
    (single_mode s \<longrightarrow> \<not> bit (lpspi_sr s') 24) \<and> cs_lines s' = cs_after s"
  using lpspi_tdr_exchange [OF assms, of v] by blast

text \<open>A bus on which nothing is plugged.\<close>

definition empty_bus :: "(unit, nat) SSIBus" where
  "empty_bus = ssi_create_bus 0"

lemma lpspi_reply_byte:
  "lpspi_reply (lpspi_example 7 bus) v = ssi_transfer bus (take_bit 8 (ucast v))"
  by (simp add: lpspi_reply_def exchange_def loopback_def lpspi_example_fields tcr_byte)

theorem lpspi_tdr_write_exchanges_witness:
  "\<exists>s'. nxps32k358_lpspi_write (lpspi_example 7 empty_bus) 0x64 0x15A = Inr s' \<and> tx_bytes s' = [] \<and>
    rx_bytes s' = frame_bytes False 1 (fst (ssi_transfer empty_bus 0x5A)) \<and> bit (lpspi_sr s') 10 \<and>
    \<not> busy s' \<and> \<not> bit (lpspi_sr s') 24"
  using lpspi_tdr_write_exchanges [of "lpspi_example 7 empty_bus" "0x64" "0x15A"]
    lpspi_example_ready [of empty_bus]
  by (auto simp: lpspi_ready_def lpspi_reply_byte lpspi_example_fields tcr_byte)

lemma lpspi_write_read:
  assumes wf: "lpspi_ready s" and idle: "rx_bytes s = []"
  shows "\<exists>s1 s2. nxps32k358_lpspi_write s 0x64 v = Inr s1 \<and>
    nxps32k358_lpspi_read s1 0x74 = Inr (take_bit (8 * frame_len s) (fst (lpspi_reply s v)), s2) \<and>
    lpspi_wf s2 \<and> tx_bytes s2 = [] \<and> rx_bytes s2 = [] \<and> lpspi_ssi s2 = snd (lpspi_reply s v)"
proof -
  let ?n = "frame_len s" and ?l = "lpspi_lsbf (lpspi_tcr s)"
  have r: "lpspi_wf s" "lpspi_decode 0x64 = Some TDR" "lpspi_cr s AND LPSPI_CR_MEN \<noteq> 0"
    "tx_bytes s = []" "rx_masked s \<or> length (rx_bytes s) + frame_len s \<le> 16" "\<not> rx_masked s"
    using wf by (simp_all add: lpspi_ready_def del: length_fifo_list)
  obtain s1 where s1: "nxps32k358_lpspi_write s 0x64 v = Inr s1" "lpspi_wf s1" "tx_bytes s1 = []"
      "rx_bytes s1 = frame_bytes ?l ?n (fst (lpspi_reply s v))" "lpspi_ssi s1 = snd (lpspi_reply s v)"
      "lpspi_tcr s1 = lpspi_tcr s"
    using lpspi_tdr_exchange [OF r(1-5), of v] idle r(6) by auto
  have n: "0 < ?n" using lpspi_wfD(6) [OF r(1)] .
  then have "rx_bytes s1 \<noteq> []" using s1(4) length_frame_bytes by (metis list.size(3) less_irrefl)
  then obtain s2 where "nxps32k358_lpspi_read s1 0x74 =
        Inr (frame_word ?l ?n (take ?n (rx_bytes s1)), s2)"
      "lpspi_wf s2" "rx_bytes s2 = drop ?n (rx_bytes s1)" "tx_bytes s2 = tx_bytes s1"
      "lpspi_ssi s2 = lpspi_ssi s1"
    using lpspi_rdr_read [OF s1(2), of "0x74"] s1(6) by auto
  with s1 show ?thesis by (auto simp: frame_word_bytes)
qed

text \<open>
  Write then read: on an enabled controller with empty queues, writing the transmit data
  register and reading the receive data register returns the low bytes of what the bus answered
  to the low bytes of the word written, for every frame length from one to four bytes and both
  byte orders, and leaves both queues empty.
\<close>

theorem lpspi_write_then_read:
  assumes "lpspi_ready s" and "rx_bytes s = []"
  shows "\<exists>s1 s2. nxps32k358_lpspi_write s 0x64 v = Inr s1 \<and>
    nxps32k358_lpspi_read s1 0x74 = Inr (take_bit (8 * frame_len s) (fst (lpspi_reply s v)), s2) \<and>
    lpspi_wf s2 \<and> tx_bytes s2 = [] \<and> rx_bytes s2 = [] \<and> lpspi_ssi s2 = snd (lpspi_reply s v)"
  using assms by (rule lpspi_write_read)

theorem lpspi_write_then_read_witness:
  "\<exists>s1 s2. nxps32k358_lpspi_write (lpspi_example 7 empty_bus) 0x64 0x5A = Inr s1 \<and>
    nxps32k358_lpspi_read s1 0x74 = Inr (take_bit 8 (fst (ssi_transfer empty_bus 0x5A)), s2) \<and>
    lpspi_wf s2 \<and> tx_bytes s2 = [] \<and> rx_bytes s2 = []"
  using lpspi_write_then_read [OF lpspi_example_ready, of empty_bus "0x5A"]
  by (auto simp: lpspi_example_fields lpspi_reply_byte tcr_byte)

text \<open>
  C31. Loopback: with pin configuration 1 the controller reads back the low bytes of what it wrote, for
  every frame length. In particular a frame of one to three bytes is read back whole, where the
  documentation of the device says that the receive register takes four bytes at a time and reads as
  zero when there are fewer.
\<close>

theorem lpspi_loopback_roundtrip:
  assumes "lpspi_ready s" and "rx_bytes s = []" and "drop_bit 8 (lpspi_cfgr1 s) AND 3 = 1"
  shows "\<exists>s1 s2. nxps32k358_lpspi_write s 0x64 v = Inr s1 \<and>
    nxps32k358_lpspi_read s1 0x74 = Inr (take_bit (8 * frame_len s) (ucast v), s2)"
  using lpspi_write_read [OF assms(1,2), of v] assms(3)
  by (auto simp: lpspi_reply_def exchange_def loopback_def)

theorem lpspi_loopback_roundtrip_witness:
  "\<exists>s1 s2. nxps32k358_lpspi_write ((lpspi_example 7 empty_bus)\<lparr>lpspi_cfgr1 := 0x100\<rparr>) 0x64 0x1C3 = Inr s1 \<and>
    nxps32k358_lpspi_read s1 0x74 = Inr (0xC3, s2)"
  using lpspi_loopback_roundtrip [of "(lpspi_example 7 empty_bus)\<lparr>lpspi_cfgr1 := 0x100\<rparr>" "0x1C3"]
    lpspi_example_ready [of empty_bus]
  by (simp add: lpspi_ready_def lpspi_example_fields tcr_byte)

section \<open>Interrupt line, flags and traps\<close>

lemma lpspi_update_irq_law:
  "lpspi_update_irq s = Inr s' \<Longrightarrow>
    lpspi_irq s' \<longleftrightarrow> (lpspi_sr s' AND lpspi_ier s') AND (LPSPI_SR_TDF OR LPSPI_SR_RDF) \<noteq> 0"
  by (auto simp: lpspi_update_irq_def rbind_Inr_iff split: if_splits dest: arg_cong [of _ _ lpspi_irq])

lemma lpspi_write_ends_in_irq:
  assumes "nxps32k358_lpspi_write s addr v = Inr s'" and "lpspi_decode addr = Some r"
    and "r \<notin> {VERID, PARAM, FSR, RSR, RDR}"
  shows "\<exists>x. lpspi_update_irq x = Inr s'"
  using assms
  by (cases r) (auto simp: nxps32k358_lpspi_write_def nxps32k358_lpspi_do_reset_def Let_def
      rbind_Inr_iff split: if_splits)

text \<open>
  C29. After every write to a writable register the interrupt line follows the status and enable
  registers: it is raised exactly when the transmit data flag or the receive data flag is set and
  enabled. No other flag raises it: a transfer-complete or error interrupt that the guest enables never comes,
  although the list of features at the head of the source promises interrupts for those flags as well.
\<close>

theorem lpspi_irq_after_write:
  assumes "nxps32k358_lpspi_write s addr v = Inr s'" and "lpspi_decode addr = Some r"
    and "r \<notin> {VERID, PARAM, FSR, RSR, RDR}"
  shows "lpspi_irq s' \<longleftrightarrow>
    (bit (lpspi_sr s') 0 \<and> bit (lpspi_ier s') 0) \<or> (bit (lpspi_sr s') 1 \<and> bit (lpspi_ier s') 1)"
proof -
  have nz: "w \<noteq> 0 \<longleftrightarrow> (\<exists>k. bit w k)" for w :: u32
    using bit_eq_iff [of w 0] by auto
  show ?thesis
    using lpspi_write_ends_in_irq [OF assms] lpspi_update_irq_law
    by (auto simp: nz bit_and_iff bit_or_iff)
qed

lemma lpspi_example_ier:
  "nxps32k358_lpspi_write (lpspi_example 7 empty_bus) 0x18 1 =
     Inr (irq_of ((lpspi_example 7 empty_bus)\<lparr>lpspi_ier := 1\<rparr>))"
  using lpspi_example_ready [of empty_bus]
  by (simp add: nxps32k358_lpspi_write_def lpspi_update_irq_eq lpspi_ready_def)

theorem lpspi_irq_after_write_witness:
  "\<exists>s'. nxps32k358_lpspi_write (lpspi_example 7 empty_bus) 0x18 1 = Inr s' \<and>
    (lpspi_irq s' \<longleftrightarrow> bit (lpspi_sr s') 0 \<and> bit (lpspi_ier s') 0 \<or> bit (lpspi_sr s') 1 \<and> bit (lpspi_ier s') 1)"
  using lpspi_irq_after_write [OF lpspi_example_ier, of IER] lpspi_example_ier by auto

lemma flush_move_nothing:
  "frame_len s = 0 \<Longrightarrow> flush_move_frame s = Inr (s\<lparr>lpspi_ssi := snd (exchange s 0)\<rparr>)"
  by (simp add: flush_move_frame_def fifo_pop_frame_def lpspi_push_rx_def flush_exchange_eq Let_def)

text \<open>
  C37. A transmit command whose frame size is 2041 to 2048 or 4089 to 4096 bits and that selects an
  existing line stops the emulator: the byte count, kept in eight bits, wraps to zero and the
  status update divides by it.
\<close>

theorem lpspi_tcr_divides_by_zero:
  assumes "lpspi_base s" and "lpspi_decode addr = Some TCR"
    and "tcr_frame_size (ucast v) \<in> {2041..2048} \<or> tcr_frame_size (ucast v) \<in> {4089..4096}"
    and "tcr_pcs (ucast v) < num_cs_lines s"
  shows "nxps32k358_lpspi_write s addr v = Inl DivideByZero"
proof -
  let ?tcr = "ucast v :: u32"
  define s1 where "s1 = s\<lparr>lpspi_tcr := ?tcr, frame_size := tcr_frame_size ?tcr,
                    continuous_mode := (?tcr AND (TCR_CONT OR TCR_CONTC) \<noteq> 0)\<rparr>"
  have z: "bytes_per_frame ?tcr = 0" using assms(3) by (simp add: bytes_per_frame_zero_iff)
  have tcr: "lpspi_tcr s1 = ?tcr" by (simp add: s1_def)
  have div: "lpspi_update_status x = Inl DivideByZero" if "lpspi_tcr x = ?tcr" for x :: "('a, 'b) lpspi"
    using z that by (simp add: lpspi_update_status_def Let_def c_div_def)
  then have irq: "lpspi_update_irq x = Inl DivideByZero" if "lpspi_tcr x = ?tcr" for x :: "('a, 'b) lpspi"
    using that by (simp add: lpspi_update_irq_def)
  obtain hz where clk: "lpspi_clk s1 = Some hz" using assms(1) by (auto simp: lpspi_base_def s1_def)
  have cs: "flush_assert_cs s1 = Inr (flush_start s1)"
    using assms(1,4) by (simp add: flush_assert_cs_def flush_start_def lpspi_set_cs_def s1_def Let_def
        lpspi_base_def)
  have mv: "flush_move_frame (flush_start s1) =
      Inr ((flush_start s1)\<lparr>lpspi_ssi := snd (exchange s1 0)\<rparr>)"
    using z flush_move_nothing [of "flush_start s1"] by (simp add: tcr)
  have "lpspi_flush_txfifo s1 = Inl DivideByZero"
    using z tcr_frame_size_range [of ?tcr] cs mv div [of "(flush_start s1)\<lparr>lpspi_ssi := snd (exchange s1 0)\<rparr>"]
    by (simp add: lpspi_flush_txfifo_def tcr)
  then show ?thesis
    using assms(2) tcr irq [of s1] lpspi_update_clock_config_total [OF clk]
    by (auto simp: nxps32k358_lpspi_write_def s1_def [symmetric])
qed

theorem lpspi_tcr_divides_by_zero_witness:
  "nxps32k358_lpspi_write (lpspi_example 7 empty_bus) 0x60 0x7F8 = Inl DivideByZero"
  by (rule lpspi_tcr_divides_by_zero)
    (use lpspi_example_ready [of empty_bus] in \<open>simp_all add: lpspi_ready_def lpspi_wf_base
      lpspi_example_fields tcr_frame_size_def tcr_pcs_def reg_simps\<close>)

text \<open>
  C38. A data write under a transmit command that selects a chip select line the device does not
  have (the two-bit PCS field reaches 3, the property num-cs-lines defaults to 1) indexes past
  the array of lines.
\<close>

theorem lpspi_pcs_out_of_bounds:
  assumes base: "lpspi_base s" and reg: "lpspi_decode addr = Some TDR"
    and men: "lpspi_cr s AND LPSPI_CR_MEN \<noteq> 0" and idle: "tx_bytes s = []" "\<not> busy s"
    and room: "rx_masked s \<or> length (rx_bytes s) + frame_len s \<le> 16"
    and pcs: "num_cs_lines s \<le> tcr_pcs (lpspi_tcr s)"
  shows "nxps32k358_lpspi_write s addr v = Inl OutOfBounds"
proof -
  let ?l = "lpspi_lsbf (lpspi_tcr s)" and ?n = "frame_len s"
  have n16: "?n \<le> 16" using bytes_per_frame_le [of "lpspi_tcr s"] by simp
  have d: "fifo8_wf (tx_fifo s)" "fifo_capacity (tx_fifo s) = 16" "fifo8_wf (rx_fifo s)"
    "fifo_capacity (rx_fifo s) = 16" using base by (simp_all add: lpspi_base_def)
  obtain f where f: "lpspi_push_tx ?l ?n v (tx_fifo s) = Inr f" "fifo8_wf f" "fifo_capacity f = 16"
      "fifo_list f = frame_bytes ?l ?n v"
    using lpspi_push_tx_eq [OF d(1), of ?n ?l v] idle d(2) n16 by auto
  have free: "\<not> fifo8_num_free (tx_fifo s) < ?n" using idle d n16 by (simp add: f8.free_length)
  have cs: "flush_assert_cs (s\<lparr>tx_fifo := f\<rparr>) = Inl OutOfBounds"
    using idle pcs base by (simp add: flush_assert_cs_def lpspi_set_cs_def lpspi_base_def)
  have "lpspi_flush_txfifo (s\<lparr>tx_fifo := f\<rparr>) = Inl OutOfBounds"
    using cs room f d tcr_frame_size_range [of "lpspi_tcr s"]
    by (auto simp: lpspi_flush_txfifo_def f8.used_length f8.free_length Let_def simp del: length_fifo_list)
  then show ?thesis
    using reg men free f(1) by (simp add: nxps32k358_lpspi_write_def Let_def)
qed

lemma tcr_pcs1: "bytes_per_frame 0x1000007 = 1" "tcr_pcs 0x1000007 = 1" "tcr_rxmsk 0x1000007 = False"
  by (simp_all add: bytes_per_frame_def tcr_frame_size_def tcr_pcs_def tcr_rxmsk_def reg_simps w8_def)

theorem lpspi_pcs_out_of_bounds_witness:
  "nxps32k358_lpspi_write (lpspi_example 0x1000007 empty_bus) 0x64 0x5A = Inl OutOfBounds"
  by (rule lpspi_pcs_out_of_bounds)
    (simp_all add: lpspi_example_fields tcr_pcs1 lpspi_base_def lpspi_example_def reset_of_def
      nxps32k358_lpspi_init_def fifo8_create_def fifo8_reset_def fifo8_wf_def fifo_list_def LPSPI_CR_MEN_def)

text \<open>
  C33. A data write that does not fit the transmit FIFO is rejected without losing anything: both
  queues and the bus are unchanged and the transmit error flag is set.
\<close>

theorem lpspi_tx_overflow:
  assumes wf: "lpspi_wf s" and reg: "lpspi_decode addr = Some TDR"
    and men: "lpspi_cr s AND LPSPI_CR_MEN \<noteq> 0" and full: "16 < length (tx_bytes s) + frame_len s"
  shows "\<exists>s'. nxps32k358_lpspi_write s addr v = Inr s' \<and> tx_bytes s' = tx_bytes s \<and>
    rx_bytes s' = rx_bytes s \<and> lpspi_ssi s' = lpspi_ssi s \<and> bit (lpspi_sr s') 11"
proof -
  have "fifo8_num_free (tx_fifo s) < frame_len s"
    using full lpspi_wfD [OF wf] by (simp add: f8.free_length)
  then show ?thesis
    using wf reg men
    by (auto simp: nxps32k358_lpspi_write_def Let_def lpspi_update_irq_eq status_sr_bit bit_or_iff)
qed

definition lpspi_tx_full :: "(unit, nat) lpspi" where
  "lpspi_tx_full = (lpspi_example 7 empty_bus)\<lparr>
     tx_fifo := \<lparr>fifo_data = replicate 16 0, fifo_capacity = 16, fifo_head = 0, fifo_num = 16\<rparr>\<rparr>"

theorem lpspi_tx_overflow_witness:
  "\<exists>s'. nxps32k358_lpspi_write lpspi_tx_full 0x64 0x5A = Inr s' \<and> tx_bytes s' = tx_bytes lpspi_tx_full \<and>
    length (tx_bytes s') = 16 \<and> bit (lpspi_sr s') 11"
proof -
  have wf: "lpspi_wf lpspi_tx_full"
    using lpspi_example_ready [of empty_bus]
    by (simp add: lpspi_tx_full_def lpspi_ready_def lpspi_wf_def fifo8_wf_def)
  have f: "lpspi_cr lpspi_tx_full = 1" "frame_len lpspi_tx_full = 1" "length (tx_bytes lpspi_tx_full) = 16"
    by (simp_all add: lpspi_tx_full_def lpspi_example_fields tcr_byte)
  show ?thesis
    using lpspi_tx_overflow [OF wf, of "0x64" "0x5A"] f by (auto simp: LPSPI_CR_MEN_def simp del: length_fifo_list)
qed

text \<open>
  C39. Reading the receive register can leave the interrupt line raised with no flag behind it.
  With one-byte frames, receive interrupts only and a watermark below three, reading one of four
  queued bytes clears the receive data flag, yet the line stays high: the read handler updates
  the status but not the line.
\<close>

theorem lpspi_read_leaves_irq:
  assumes wf: "lpspi_wf s" and n: "frame_len s = 1" and len: "length (rx_bytes s) = 4"
    and water: "rx_watermark s < 3" and irq: "lpspi_irq s" "\<not> bit (lpspi_ier s) 0"
  shows "\<exists>x s'. nxps32k358_lpspi_read s 0x74 = Inr (x, s') \<and> lpspi_irq s' \<and>
    \<not> (bit (lpspi_sr s') 0 \<and> bit (lpspi_ier s') 0) \<and> \<not> (bit (lpspi_sr s') 1 \<and> bit (lpspi_ier s') 1)"
proof -
  let ?l = "lpspi_lsbf (lpspi_tcr s)" and ?n = "frame_len s"
  obtain f where f: "fifo_pop_frame ?l ?n (rx_fifo s) = Inr (frame_word ?l ?n (take ?n (rx_bytes s)), f)"
      "fifo8_wf f" "fifo_list f = drop ?n (rx_bytes s)" "fifo_capacity f = 16"
    using fifo_pop_frame_eq [OF lpspi_wfD(2) [OF wf]] lpspi_wfD(4) [OF wf] by metis
  define s1 where "s1 = (status_of s)\<lparr>rx_fifo := f, lpspi_rdr := frame_word ?l ?n (take ?n (rx_bytes s))\<rparr>"
  have wf1: "lpspi_wf s1" using wf f lpspi_wf_rx [of "status_of s" f] by (simp add: s1_def)
  have used: "\<not> fifo8_num_used (rx_fifo s) < 1"
    using len lpspi_wfD(2) [OF wf] by (simp add: f8.used_length)
  have r: "nxps32k358_lpspi_read s 0x74 = Inr (frame_word ?l ?n (take ?n (rx_bytes s)), status_of s1)"
    using wf f(1) used lpspi_update_status_eq [OF wf1]
    by (simp add: nxps32k358_lpspi_read_def lpspi_update_status_eq flip: s1_def)
  have s1: "frame_len s1 = 1" "length (rx_bytes s1) = 3" "rx_watermark s1 < 3" "lpspi_irq s1"
    "\<not> bit (lpspi_ier s1) 0"
    using n len water irq f(3) by (simp_all add: s1_def status_of_def)
  then have "\<not> bit (status_sr s1) 1"
    by (simp add: status_sr_def Let_def bit_and_iff bit_not_iff del: length_fifo_list)
  with r s1(4,5) show ?thesis by simp
qed

definition lpspi_rx_four :: "(unit, nat) lpspi" where
  "lpspi_rx_four = (lpspi_example 7 empty_bus)\<lparr>lpspi_ier := 2, lpspi_irq := True,
     rx_fifo := \<lparr>fifo_data = replicate 16 0, fifo_capacity = 16, fifo_head = 0, fifo_num = 4\<rparr>\<rparr>"

theorem lpspi_read_leaves_irq_witness:
  "\<exists>x s'. nxps32k358_lpspi_read lpspi_rx_four 0x74 = Inr (x, s') \<and> lpspi_irq s' \<and>
    \<not> (bit (lpspi_sr s') 0 \<and> bit (lpspi_ier s') 0) \<and> \<not> (bit (lpspi_sr s') 1 \<and> bit (lpspi_ier s') 1)"
proof (rule lpspi_read_leaves_irq)
  show "lpspi_wf lpspi_rx_four"
    using lpspi_example_ready [of empty_bus]
    by (simp add: lpspi_rx_four_def lpspi_ready_def lpspi_wf_def fifo8_wf_def)
qed (simp_all add: lpspi_rx_four_def lpspi_example_fields tcr_byte, simp add: lpspi_example_def reset_of_def)

lemma flush_ref_bit:
  assumes "lpspi_wf s" "lpspi_flush_txfifo s = Inr s'"
  shows "bit (lpspi_sr s') 12 = bit (lpspi_sr s) 12"
proof (cases "can_transfer s")
  case False
  with assms show ?thesis by (simp add: lpspi_flush_blocked)
next
  case True
  then obtain x where x: "s' = irq_of (flush_end (status_of x))" "moved (flush_start s) x"
    using lpspi_flush_eq [OF assms(1)] assms(2) by auto
  have "bit (lpspi_sr (flush_end y)) 12 = bit (lpspi_sr y) 12" for y :: "('a, 'b) lpspi"
    by (auto simp: flush_end_def bit_or_iff bit_and_iff bit_not_iff)
  moreover have "bit (lpspi_sr (flush_start s)) 12 = bit (lpspi_sr s) 12"
    by (auto simp: flush_start_def bit_or_iff)
  ultimately show ?thesis using x moved_fields(6) [OF x(2)] by (simp add: status_sr_bit)
qed

lemma update_irq_ref_bit:
  "lpspi_wf s \<Longrightarrow> lpspi_update_irq s = Inr s' \<Longrightarrow> bit (lpspi_sr s') 12 = bit (lpspi_sr s) 12"
  by (auto simp: lpspi_update_irq_eq status_sr_bit)

lemma lpspi_write_ref_TCR:
  assumes wf: "lpspi_wf s" and reg: "lpspi_decode addr = Some TCR" and ok: "tcr_ok (ucast v) (num_cs_lines s)"
    and w: "nxps32k358_lpspi_write s addr v = Inr s'"
  shows "bit (lpspi_sr s') 12 = bit (lpspi_sr s) 12"
proof -
  define s1 where "s1 = s\<lparr>lpspi_tcr := ucast v, frame_size := tcr_frame_size (ucast v),
                    continuous_mode := ((ucast v :: u32) AND (TCR_CONT OR TCR_CONTC) \<noteq> 0)\<rparr>"
  have wf1: "lpspi_wf s1" using wf ok by (simp add: s1_def lpspi_wf_def)
  from w reg obtain s2 where s2: "s2 = s1 \<or> lpspi_flush_txfifo s1 = Inr s2"
      "rbind (lpspi_update_clock_config s2) (\<lambda>_. lpspi_update_irq s2) = Inr s'"
    by (auto simp: nxps32k358_lpspi_write_def rbind_Inr_iff s1_def [symmetric] split: if_splits)
  have wf2: "lpspi_wf s2" using s2(1) wf1 lpspi_flush_total [OF wf1] by auto
  have "bit (lpspi_sr s2) 12 = bit (lpspi_sr s1) 12" using s2(1) flush_ref_bit [OF wf1] by auto
  moreover have "lpspi_sr s1 = lpspi_sr s" by (simp add: s1_def)
  ultimately show ?thesis
    using s2(2) update_irq_ref_bit [OF wf2, of s'] by (simp add: lpspi_clock_then [OF wf2])
qed

lemma lpspi_write_ref_TDR:
  assumes wf: "lpspi_wf s" and reg: "lpspi_decode addr = Some TDR"
    and w: "nxps32k358_lpspi_write s addr v = Inr s'"
  shows "bit (lpspi_sr s') 12 = bit (lpspi_sr s) 12"
proof (cases "lpspi_cr s AND LPSPI_CR_MEN \<noteq> 0 \<and> frame_len s \<le> fifo8_num_free (tx_fifo s)")
  case False
  with wf reg w show ?thesis
    by (auto simp: nxps32k358_lpspi_write_def Let_def lpspi_update_irq_eq status_sr_bit bit_or_iff
        split: if_splits)
next
  case True
  note d = lpspi_wfD [OF wf]
  have "length (tx_bytes s) + frame_len s \<le> 16"
    using True d by (auto simp: f8.free_length simp del: length_fifo_list)
  then obtain f where f: "lpspi_push_tx (lpspi_lsbf (lpspi_tcr s)) (frame_len s) v (tx_fifo s) = Inr f"
      "fifo8_wf f" "fifo_capacity f = 16"
    using lpspi_push_tx_eq [OF d(1)] d(3) by metis
  have wf1: "lpspi_wf (s\<lparr>tx_fifo := f\<rparr>)" using lpspi_wf_tx [OF wf f(2,3)] .
  from w True reg f(1) obtain s2 where s2: "lpspi_flush_txfifo (s\<lparr>tx_fifo := f\<rparr>) = Inr s2"
      "lpspi_update_irq s2 = Inr s'"
    by (auto simp: nxps32k358_lpspi_write_def Let_def rbind_Inr_iff)
  have "lpspi_wf s2" using s2(1) lpspi_flush_total [OF wf1] by auto
  from update_irq_ref_bit [OF this s2(2)] flush_ref_bit [OF wf1 s2(1)] show ?thesis by simp
qed

text \<open>
  The receive error flag REF is never raised: no acceptable register write sets it, because a
  frame is only moved when its whole reply fits the receive FIFO. The branch of the receive loop
  that reports an overflow is unreachable.
\<close>

theorem lpspi_ref_never_set:
  assumes wf: "lpspi_wf s" and ok: "lpspi_store_ok (num_cs_lines s) addr v"
    and w: "nxps32k358_lpspi_write s addr v = Inr s'" and clear: "\<not> bit (lpspi_sr s) 12"
  shows "\<not> bit (lpspi_sr s') 12"
proof (cases "lpspi_decode addr")
  case None
  with w clear show ?thesis by (simp add: nxps32k358_lpspi_write_def)
next
  case (Some r)
  have base: "lpspi_base s" using wf by (simp add: lpspi_wf_base)
  have rs: "\<not> bit (lpspi_sr (reset_of s)) 12" by (simp add: reset_of_def bit_or_iff)
  have flags: "bit (lpspi_sr s') 12 = bit (lpspi_sr s) 12" if "r = TCR \<or> r = TDR"
    using that Some wf ok w lpspi_write_ref_TCR [of s addr v s'] lpspi_write_ref_TDR [of s addr v s']
    by (auto simp: lpspi_store_ok_def)
  show ?thesis
  proof (cases "r = TCR \<or> r = TDR \<or> r = CR")
    case True
    with Some base wf w clear rs flags f8.reset_empty [of "tx_fifo s"] f8.reset_empty [of "rx_fifo s"]
    show ?thesis
      by (auto simp: nxps32k358_lpspi_write_def lpspi_do_reset_eq Let_def lpspi_update_irq_eq
          lpspi_wf_def status_sr_bit bit_or_iff split: if_splits)
  next
    case False
    with Some wf w clear show ?thesis
      by (cases r) (auto simp: nxps32k358_lpspi_write_def Let_def lpspi_update_irq_eq lpspi_clock_then
          lpspi_update_status_eq status_sr_bit bit_and_iff)
  qed
qed

theorem lpspi_ref_never_set_witness:
  "\<exists>s'. nxps32k358_lpspi_write (lpspi_example 7 empty_bus) 0x64 0x5A = Inr s' \<and> \<not> bit (lpspi_sr s') 12"
proof -
  have wf: "lpspi_wf (lpspi_example 7 empty_bus)"
    using lpspi_example_ready [of empty_bus] by (simp add: lpspi_ready_def)
  have ok: "lpspi_store_ok (num_cs_lines (lpspi_example 7 empty_bus)) 0x64 0x5A"
    by (simp add: lpspi_store_ok_def)
  obtain s' where s': "nxps32k358_lpspi_write (lpspi_example 7 empty_bus) 0x64 0x5A = Inr s'"
    using lpspi_write_TDR [OF wf, of "0x64" "0x5A"] by auto
  have "\<not> bit (lpspi_sr (lpspi_example 7 empty_bus)) 12"
    by (simp add: lpspi_example_def reset_of_def bit_or_iff)
  with lpspi_ref_never_set [OF wf ok s'] s' show ?thesis by blast
qed

end
