(* ===== verification/Lpuart_Correct.thy ===== *)
theory Lpuart_Correct
  imports Lpuart
begin

text \<open>
  Correctness of the LPUART and of the multiplexer that feeds it: the byte queue behind the two
  free-running counters, what reaches the guest and in which order, the transmit side, the
  interrupt line and the baud rate.
\<close>

section \<open>The multiplexer's buffer is a queue\<close>

definition mux_wf :: "MuxPort \<Rightarrow> bool" where
  "mux_wf d \<longleftrightarrow> length (mux_buffer d) = 32 \<and> mux_prod d - mux_cons d \<le> 32"

definition mux_pending :: "MuxPort \<Rightarrow> u8 list" where
  "mux_pending d = map (\<lambda>i. mux_buffer d ! mux_slot (mux_cons d + of_nat i))
     [0..<unat (mux_prod d - mux_cons d)]"

lemma mux_slot_mod: "mux_slot k = unat k mod 32"
proof -
  have "k AND MUX_BUFFER_MASK = take_bit 5 k"
    by (simp add: MUX_BUFFER_MASK_def MUX_BUFFER_SIZE_def take_bit_eq_mask mask_eq_exp_minus_1)
  moreover have "unat (take_bit 5 k) = unat k mod 2 ^ 5"
    unfolding unsigned_take_bit_eq by (simp add: take_bit_eq_mod)
  ultimately show ?thesis by (simp add: mux_slot_def)
qed

lemma mux_slot_less: "mux_slot k < 32"
  by (simp add: mux_slot_mod)

lemma add_mod_32: "0 < j \<Longrightarrow> j < 32 \<Longrightarrow> (x + j) mod 32 \<noteq> x mod 32" for x j :: nat
  by (metis add.commute add_diff_cancel_left' dvd_imp_le mod_eq_dvd_iff_nat le_add1 not_le)

lemma mux_slot_distinct:
  fixes cons prod :: u32
  assumes "i < unat (prod - cons)" and "unat (prod - cons) < 32"
  shows "mux_slot (cons + of_nat i) \<noteq> mux_slot prod"
proof
  let ?k = "prod - (cons + of_nat i)"
  assume eq: "mux_slot (cons + of_nat i) = mux_slot prod"
  have i: "unat (of_nat i :: u32) = i" using assms by (simp add: unat_of_nat)
  have "unat ?k = unat (prod - cons) - i"
    using assms i by (simp add: diff_diff_eq [symmetric] unat_sub word_le_nat_alt)
  then have k: "0 < unat ?k" "unat ?k < 32" using assms by simp_all
  have sum: "(cons + of_nat i) + ?k = prod" by simp
  have "unat ((cons + of_nat i) + ?k) = (unat (cons + of_nat i) + unat ?k) mod 2 ^ LENGTH(32)"
    by (rule unat_word_ariths(1))
  then have "unat prod = (unat (cons + of_nat i) + unat ?k) mod 2 ^ LENGTH(32)"
    unfolding sum .
  then have "unat prod mod 32 = (unat (cons + of_nat i) + unat ?k) mod 32"
    by (simp add: mod_mod_cancel)
  then show False
    using eq add_mod_32 [OF k, of "unat (cons + of_nat i)"] unfolding mux_slot_mod by metis
qed

lemma mux_pending_cons:
  assumes "mux_prod d \<noteq> mux_cons d"
  shows "mux_pending d = mux_buffer d ! mux_slot (mux_cons d) # mux_pending (d\<lparr>mux_cons := mux_cons d + 1\<rparr>)"
proof -
  let ?n = "unat (mux_prod d - mux_cons d)"
  have nz: "mux_prod d - mux_cons d \<noteq> 0" using assms by simp
  then have "unat (mux_prod d - mux_cons d - 1) = ?n - 1" by (rule unat_minus_one)
  then have n: "?n = Suc (unat (mux_prod d - (mux_cons d + 1)))"
    using nz by (simp add: diff_diff_eq [symmetric] unat_gt_0)
  show ?thesis
    unfolding mux_pending_def n map_upt_Suc
    by (simp add: ac_simps)
qed

lemma mux_count_suc:
  fixes prod cons :: u32
  assumes "unat (prod - cons) < 32"
  shows "unat (prod + 1 - cons) = Suc (unat (prod - cons))"
proof -
  have eq: "prod + 1 - cons = prod - cons + 1" by (simp add: algebra_simps)
  show ?thesis unfolding eq using assms by (simp add: unat_word_ariths)
qed

lemma mux_pending_snoc:
  assumes wf: "mux_wf d" and room: "unat (mux_prod d - mux_cons d) < 32"
  shows "mux_pending (d\<lparr>mux_buffer := (mux_buffer d)[mux_slot (mux_prod d) := b], mux_prod := mux_prod d + 1\<rparr>)
    = mux_pending d @ [b]"
proof -
  let ?n = "unat (mux_prod d - mux_cons d)" and ?buf = "(mux_buffer d)[mux_slot (mux_prod d) := b]"
  have n: "unat (mux_prod d + 1 - mux_cons d) = Suc ?n" using room by (rule mux_count_suc)
  have last: "mux_cons d + of_nat ?n = mux_prod d" by simp
  have len: "mux_slot k < length (mux_buffer d)" for k
    using wf mux_slot_less [of k] by (simp add: mux_wf_def)
  have old: "?buf ! mux_slot (mux_cons d + of_nat i) = mux_buffer d ! mux_slot (mux_cons d + of_nat i)"
    if "i < ?n" for i using mux_slot_distinct [OF that room] by simp
  show ?thesis
    using old len by (simp add: mux_pending_def n last)
qed

lemma mux_pending_empty: "mux_pending d = [] \<longleftrightarrow> mux_prod d = mux_cons d"
  by (simp add: mux_pending_def unat_eq_0)

lemma mux_wf_cons:
  assumes "mux_wf d" "mux_prod d \<noteq> mux_cons d"
  shows "mux_wf (d\<lparr>mux_cons := mux_cons d + 1\<rparr>)"
  using assms mux_distance [OF assms(2)] by (simp add: mux_wf_def word_le_nat_alt)

section \<open>Receiving\<close>

abbreviation rdrf :: "lpuart \<Rightarrow> bool" where "rdrf s \<equiv> bit (lpuart_sr s) 21"
abbreviation rx_enabled :: "lpuart \<Rightarrow> bool" where "rx_enabled s \<equiv> bit (lpuart_cr s) 18"

definition pending :: "lpuart \<Rightarrow> u8 list" where
  "pending s = (case chr_mux s of None \<Rightarrow> [] | Some d \<Rightarrow> mux_pending d)"

definition lpuart_wf :: "lpuart \<Rightarrow> bool" where
  "lpuart_wf s \<longleftrightarrow> (case chr_mux s of None \<Rightarrow> True | Some d \<Rightarrow> mux_wf d)"

lemma and_flag: "w AND push_bit n 1 \<noteq> 0 \<longleftrightarrow> bit w n" for w :: "'a::len word"
proof -
  have "w AND push_bit n 1 \<noteq> 0 \<longleftrightarrow> (\<exists>k. bit (w AND push_bit n 1) k)"
    using bit_eq_iff [of "w AND push_bit n 1" 0] by auto
  also have "\<dots> \<longleftrightarrow> bit w n"
    unfolding bit_and_iff bit_push_bit_iff bit_1_iff by (auto dest: bit_imp_le_length intro: exI [of _ n])
  finally show ?thesis .
qed

lemma lpuart_flag_bit [simp]:
  "bit LPUART_STAT_TDRE k \<longleftrightarrow> k = 23" "bit LPUART_STAT_RDRF k \<longleftrightarrow> k = 21"
  "bit LPUART_CTRL_TIE k \<longleftrightarrow> k = 23" "bit LPUART_CTRL_TCIE k \<longleftrightarrow> k = 22" "bit LPUART_CTRL_RIE k \<longleftrightarrow> k = 21"
  unfolding lpuart_bits bit_push_bit_iff bit_1_iff by auto

lemma can_receive_iff: "nxps32k358_lpuart_can_receive s \<noteq> 0 \<longleftrightarrow> \<not> rdrf s"
  unfolding nxps32k358_lpuart_can_receive_def LPUART_STAT_RDRF_def and_flag by simp

lemma rx_disabled_iff: "lpuart_cr s AND LPUART_CTRL_RE = 0 \<longleftrightarrow> \<not> rx_enabled s"
  using and_flag [of "lpuart_cr s" 18] unfolding LPUART_CTRL_RE_def by auto

lemma update_irq_fields [simp]:
  "lpuart_sr (nxps32k358_lpuart_update_irq s) = lpuart_sr s" "lpuart_cr (nxps32k358_lpuart_update_irq s) = lpuart_cr s"
  "lpuart_dr (nxps32k358_lpuart_update_irq s) = lpuart_dr s" "chr_mux (nxps32k358_lpuart_update_irq s) = chr_mux s"
  "chr_out (nxps32k358_lpuart_update_irq s) = chr_out s"
  by (simp_all add: nxps32k358_lpuart_update_irq_def Let_def)

lemma update_irq_line:
  "lpuart_irq (nxps32k358_lpuart_update_irq s) \<longleftrightarrow>
     (\<exists>k \<in> {21, 22, 23}. bit (lpuart_sr s) k \<and> bit (lpuart_cr s) k)"
proof -
  have "(lpuart_sr s AND lpuart_cr s) AND (LPUART_CTRL_TIE OR LPUART_CTRL_TCIE OR LPUART_CTRL_RIE) \<noteq> 0 \<longleftrightarrow>
      (\<exists>k. bit ((lpuart_sr s AND lpuart_cr s) AND (LPUART_CTRL_TIE OR LPUART_CTRL_TCIE OR LPUART_CTRL_RIE)) k)"
    using bit_eq_iff [of "(lpuart_sr s AND lpuart_cr s) AND (LPUART_CTRL_TIE OR LPUART_CTRL_TCIE OR LPUART_CTRL_RIE)" 0]
    by auto
  then show ?thesis
    by (auto simp: nxps32k358_lpuart_update_irq_def Let_def bit_and_iff bit_or_iff)
qed

lemma receive_eq:
  "nxps32k358_lpuart_receive s [b] =
     (if rx_enabled s then nxps32k358_lpuart_update_irq
        (s\<lparr>lpuart_dr := ucast b, lpuart_sr := lpuart_sr s OR LPUART_STAT_RDRF\<rparr>) else s)"
  by (simp add: nxps32k358_lpuart_receive_def rx_disabled_iff)

text \<open>The three cases of the drain loop: nothing to do, one byte taken, everything dropped.\<close>

lemma accept_none:
  "rdrf s \<or> pending s = [] \<Longrightarrow> mux_chr_accept_input s = s"
  by (subst mux_chr_accept_input.simps)
    (auto simp: pending_def can_receive_iff mux_pending_empty simp del: not_gr_zero neq0_conv split: option.splits)

lemma accept_one:
  assumes "rx_enabled s" "\<not> rdrf s" "pending s = c # cs"
  shows "\<exists>d. chr_mux s = Some d \<and> mux_pending (d\<lparr>mux_cons := mux_cons d + 1\<rparr>) = cs \<and>
    mux_prod d \<noteq> mux_cons d \<and>
    mux_chr_accept_input s = nxps32k358_lpuart_receive
      (s\<lparr>chr_mux := Some (d\<lparr>mux_cons := mux_cons d + 1\<rparr>)\<rparr>) [c]"
proof -
  obtain d where d: "chr_mux s = Some d" using assms(3) by (cases "chr_mux s") (auto simp: pending_def)
  have ne: "mux_prod d \<noteq> mux_cons d" using assms(3) d mux_pending_empty [of d] by (auto simp: pending_def)
  have c: "mux_buffer d ! mux_slot (mux_cons d) = c" "mux_pending (d\<lparr>mux_cons := mux_cons d + 1\<rparr>) = cs"
    using assms(3) mux_pending_cons [OF ne] d by (simp_all add: pending_def)
  let ?s1 = "nxps32k358_lpuart_receive (s\<lparr>chr_mux := Some (d\<lparr>mux_cons := mux_cons d + 1\<rparr>)\<rparr>) [c]"
  have "rdrf ?s1" using assms(1) by (simp add: receive_eq bit_or_iff)
  then have "mux_chr_accept_input ?s1 = ?s1" by (simp add: accept_none)
  moreover have "mux_chr_accept_input s = mux_chr_accept_input ?s1"
    using d ne assms(2) c(1) can_receive_iff [of s] by (subst mux_chr_accept_input.simps) simp
  ultimately show ?thesis using d ne c(2) by auto
qed

lemma accept_dropped:
  "\<not> rx_enabled s \<Longrightarrow> \<not> rdrf s \<Longrightarrow> pending (mux_chr_accept_input s) = [] \<and>
     lpuart_dr (mux_chr_accept_input s) = lpuart_dr s \<and> \<not> rdrf (mux_chr_accept_input s) \<and>
     (lpuart_wf s \<longrightarrow> lpuart_wf (mux_chr_accept_input s))"
proof (induction s rule: mux_chr_accept_input.induct)
  case (1 s)
  show ?case
  proof (cases "pending s = []")
    case True
    then show ?thesis using 1 accept_none [of s] by simp
  next
    case False
    then obtain d where d: "chr_mux s = Some d" "mux_prod d \<noteq> mux_cons d"
      using mux_pending_empty by (cases "chr_mux s") (auto simp: pending_def)
    let ?s1 = "s\<lparr>chr_mux := Some (d\<lparr>mux_cons := mux_cons d + 1\<rparr>)\<rparr>"
    have step: "mux_chr_accept_input s = mux_chr_accept_input ?s1"
      using d "1.prems" can_receive_iff [of s]
      by (subst mux_chr_accept_input.simps) (simp add: receive_eq)
    show ?thesis
      using "1.IH" [OF d(1)] "1.prems" d can_receive_iff [of s] mux_wf_cons [OF _ d(2)]
      unfolding step by (auto simp: receive_eq lpuart_wf_def)
  qed
qed

section \<open>The byte stream from the terminal to the guest\<close>

definition stream :: "lpuart \<Rightarrow> u8 list" where
  "stream s = (if rdrf s then [ucast (lpuart_dr s)] else []) @ pending s"

lemma ucast_byte_word [simp]: "(ucast (ucast b :: u32) :: u8) = b"
  by (rule bit_word_eqI) (simp add: bit_ucast_iff)

lemma receive_stream:
  assumes "rx_enabled s" "\<not> rdrf s"
  shows "stream (nxps32k358_lpuart_receive s [b]) = b # pending s"
    "rx_enabled (nxps32k358_lpuart_receive s [b])" "rdrf (nxps32k358_lpuart_receive s [b])"
  using assms by (simp_all add: receive_eq stream_def pending_def bit_or_iff)

lemma accept_stream:
  assumes "rx_enabled s"
  shows "stream (mux_chr_accept_input s) = stream s" "rx_enabled (mux_chr_accept_input s)"
    "lpuart_wf s \<Longrightarrow> lpuart_wf (mux_chr_accept_input s)"
    "pending (mux_chr_accept_input s) = [] \<or> rdrf (mux_chr_accept_input s)"
proof -
  consider "rdrf s \<or> pending s = []" | c cs where "\<not> rdrf s" "pending s = c # cs"
    by (cases "pending s") auto
  then have "stream (mux_chr_accept_input s) = stream s \<and> rx_enabled (mux_chr_accept_input s) \<and>
    (lpuart_wf s \<longrightarrow> lpuart_wf (mux_chr_accept_input s)) \<and>
    (pending (mux_chr_accept_input s) = [] \<or> rdrf (mux_chr_accept_input s))"
  proof cases
    case 1
    then show ?thesis using assms by (auto simp: accept_none)
  next
    case 2
    then obtain d where d: "chr_mux s = Some d" "mux_pending (d\<lparr>mux_cons := mux_cons d + 1\<rparr>) = cs"
        "mux_prod d \<noteq> mux_cons d" "mux_chr_accept_input s = nxps32k358_lpuart_receive
          (s\<lparr>chr_mux := Some (d\<lparr>mux_cons := mux_cons d + 1\<rparr>)\<rparr>) [c]"
      using accept_one [OF assms] by blast
    then show ?thesis
      using assms 2 receive_stream [of "s\<lparr>chr_mux := Some (d\<lparr>mux_cons := mux_cons d + 1\<rparr>)\<rparr>" c]
        mux_wf_cons [of d]
      by (auto simp: stream_def [of s] pending_def lpuart_wf_def)
  qed
  then show "stream (mux_chr_accept_input s) = stream s" "rx_enabled (mux_chr_accept_input s)"
    "lpuart_wf s \<Longrightarrow> lpuart_wf (mux_chr_accept_input s)"
    "pending (mux_chr_accept_input s) = [] \<or> rdrf (mux_chr_accept_input s)" by auto
qed

lemma length_mux_pending [simp]: "length (mux_pending d) = unat (mux_prod d - mux_cons d)"
  by (simp add: mux_pending_def)

text \<open>The multiplexer says it can take a byte only when there is room for it after the drain.\<close>

lemma accept_room:
  assumes "rx_enabled s" "lpuart_wf s" "chr_mux s = Some d" "mux_chr_can_read s d \<noteq> 0"
  shows "length (pending (mux_chr_accept_input s)) < 32"
proof (cases "rdrf s \<or> pending s = []")
  case True
  have "rdrf s \<Longrightarrow> mux_prod d - mux_cons d < 32"
    using assms(4) can_receive_iff [of s]
    by (auto simp: mux_chr_can_read_def MUX_BUFFER_SIZE_def split: if_splits)
  then have "rdrf s \<Longrightarrow> length (pending s) < 32"
    using assms(3) by (simp add: pending_def word_less_nat_alt)
  with True show ?thesis by (auto simp: accept_none)
next
  case False
  then obtain c cs where c: "\<not> rdrf s" "pending s = c # cs" by (cases "pending s") auto
  have "mux_prod d - mux_cons d \<le> 32" using assms(2,3) by (simp add: lpuart_wf_def mux_wf_def)
  then have le: "length (c # cs) \<le> 32" using c(2) assms(3) by (simp add: pending_def word_le_nat_alt flip: c(2))
  have "pending (mux_chr_accept_input s) = cs"
    using accept_one [OF assms(1) c] by (auto simp: pending_def)
  with le show ?thesis by simp
qed

lemma accept_escape:
  "map_option term_got_escape (chr_mux (mux_chr_accept_input s)) = map_option term_got_escape (chr_mux s)"
proof (induction s rule: mux_chr_accept_input.induct)
  case (1 s)
  then show ?case by (subst mux_chr_accept_input.simps) (auto split: option.splits)
qed

text \<open>A UART that receives through a multiplexer which is not in the middle of an escape sequence.\<close>

definition receiving :: "lpuart \<Rightarrow> bool" where
  "receiving s \<longleftrightarrow> rx_enabled s \<and> lpuart_wf s \<and> (\<exists>d. chr_mux s = Some d \<and> \<not> term_got_escape d)"

lemma mux_read_one:
  assumes "rx_enabled s" and "lpuart_wf s" and "chr_mux s = Some d" and "mux_chr_can_read s d \<noteq> 0"
    and "\<not> term_got_escape d" and "b \<noteq> term_escape_char"
  shows "stream (mux_chr_read [b] s) = stream s @ [b] \<and> receiving (mux_chr_read [b] s)"
proof -
  define s1 where "s1 = mux_chr_accept_input s"
  obtain d1 where d1: "chr_mux s1 = Some d1" "\<not> term_got_escape d1"
    using accept_escape [of s] assms(3,5) by (auto simp: s1_def)
  note a = accept_stream [OF assms(1), folded s1_def]
  have len: "length (pending s1) < 32" using accept_room [OF assms(1-4)] by (simp add: s1_def)
  have wf1: "mux_wf d1" using a(3) [OF assms(2)] d1 by (simp add: lpuart_wf_def)
  have same: "d1\<lparr>term_got_escape := False\<rparr> = d1" using d1(2) by (cases d1) simp
  have s1: "s1\<lparr>chr_mux := Some d1\<rparr> = s1" using d1(1) by (cases s1) simp
  have act: "mux_proc_byte (term_got_escape d1) b = (SendChar, False)"
    using d1(2) assms(6) by (simp add: mux_proc_byte_def)
  have step: "mux_chr_read [b] s = (if mux_prod d1 = mux_cons d1 \<and> \<not> rdrf s1
      then nxps32k358_lpuart_receive s1 [b]
      else s1\<lparr>chr_mux := Some (d1\<lparr>mux_buffer := (mux_buffer d1)[mux_slot (mux_prod d1) := b],
                                   mux_prod := mux_prod d1 + 1\<rparr>)\<rparr>)"
    using can_receive_iff [of s1]
    by (simp add: mux_chr_read_def mux_read_byte_def s1_def [symmetric] d1(1) act same s1 Let_def del: neq0_conv)
  show ?thesis
  proof (cases "mux_prod d1 = mux_cons d1 \<and> \<not> rdrf s1")
    case True
    then have "pending s1 = []" using d1(1) by (simp add: pending_def mux_pending_empty)
    moreover have "chr_mux (nxps32k358_lpuart_receive s1 [b]) = chr_mux s1" by (simp add: receive_eq)
    ultimately show ?thesis using True step a receive_stream [OF a(2), of b] assms(2) d1
      by (auto simp: stream_def [of s1] lpuart_wf_def receiving_def)
  next
    case False
    have room: "unat (mux_prod d1 - mux_cons d1) < 32" using len d1(1) by (simp add: pending_def)
    have rd: "rdrf s1" using False a(4) d1(1) by (auto simp: pending_def mux_pending_empty)
    have "unat (mux_prod d1 + 1 - mux_cons d1) \<le> 32" using room mux_count_suc [OF room] by simp
    then have "mux_wf (d1\<lparr>mux_buffer := (mux_buffer d1)[mux_slot (mux_prod d1) := b], mux_prod := mux_prod d1 + 1\<rparr>)"
      using wf1 by (simp add: mux_wf_def word_le_nat_alt)
    with False step rd a(1,2) d1 mux_pending_snoc [OF wf1 room, of b] show ?thesis
      by (simp add: stream_def pending_def lpuart_wf_def receiving_def)
  qed
qed

text \<open>
  The terminal hands over the bytes that are typed one by one, each as soon as the multiplexer says
  it can read, and keeps the rest.
\<close>

fun offer :: "u8 list \<Rightarrow> lpuart \<Rightarrow> u8 list \<times> lpuart" where
  "offer [] s = ([], s)"
| "offer (b # bs) s =
     (case chr_mux s of
        None \<Rightarrow> (b # bs, s)
      | Some d \<Rightarrow> if mux_chr_can_read s d \<noteq> 0 then offer bs (mux_chr_read [b] s) else (b # bs, s))"

lemma can_read_iff:
  assumes "lpuart_wf s" and "chr_mux s = Some d"
  shows "mux_chr_can_read s d \<noteq> 0 \<longleftrightarrow> length (stream s) < 33" "length (stream s) \<le> 33"
proof -
  have "unat (mux_prod d - mux_cons d) \<le> 32" using assms by (simp add: lpuart_wf_def mux_wf_def word_le_nat_alt)
  then show "mux_chr_can_read s d \<noteq> 0 \<longleftrightarrow> length (stream s) < 33" "length (stream s) \<le> 33"
    using assms(2) can_receive_iff [of s] by (auto simp: stream_def pending_def mux_chr_can_read_def MUX_BUFFER_SIZE_def word_less_nat_alt)
qed

text \<open>
  C22. What is typed arrives in order, as far as there is room: while the receiver is enabled and no
  byte is the multiplexer's escape character, the bytes offered one by one, whenever the multiplexer
  says it can read, are appended to the stream of undelivered bytes (the data register if it is full,
  followed by the buffered bytes) until that holds 33 bytes, one in the register and 32 in the buffer; from
  there on the multiplexer refuses, the terminal keeps the rest, and the buffer never overruns. This is
  about the way in; how the guest reads the bytes is the subject of another theorem.
\<close>

theorem mux_chr_read_lossless:
  assumes "rx_enabled s" and "lpuart_wf s" and "chr_mux s = Some d" and "\<not> term_got_escape d" and "term_escape_char \<notin> set bs"
  shows "\<exists>s'. offer bs s = (drop (33 - length (stream s)) bs, s') \<and> stream s' = stream s @ take (33 - length (stream s)) bs \<and> lpuart_wf s'"
  using assms
proof (induction bs arbitrary: s d)
  case (Cons b bs)
  show ?case
  proof (cases "length (stream s) < 33")
    case True
    let ?s = "mux_chr_read [b] s"
    have r: "mux_chr_can_read s d \<noteq> 0" using True can_read_iff(1) [OF Cons.prems(2,3)] by simp
    then have one: "stream ?s = stream s @ [b]" "receiving ?s"
      using mux_read_one [OF Cons.prems(1-3) _ Cons.prems(4)] Cons.prems(5) by auto
    then obtain d' where "rx_enabled ?s" "lpuart_wf ?s" "chr_mux ?s = Some d'" "\<not> term_got_escape d'" by (auto simp: receiving_def)
    from Cons.IH [OF this] Cons.prems(5) obtain s' where "offer bs ?s = (drop (33 - length (stream ?s)) bs, s')"
        "stream s' = stream ?s @ take (33 - length (stream ?s)) bs" "lpuart_wf s'" by auto
    moreover have "33 - length (stream s) = Suc (33 - length (stream ?s))" using True one(1) by simp
    ultimately show ?thesis using r Cons.prems(3) one(1) by simp
  next
    case False
    then show ?thesis using can_read_iff [OF Cons.prems(2,3)] Cons.prems(2,3) by simp
  qed
qed simp

text \<open>A UART on a multiplexer, receiver enabled, with the given bytes buffered.\<close>

definition lpuart_example :: "bool \<Rightarrow> u8 \<Rightarrow> u8 list \<Rightarrow> lpuart" where
  "lpuart_example full b bs =
     nxps32k358_lpuart_init\<lparr>lpuart_clk := Some 80000000, lpuart_cr := 0x40000,
       lpuart_sr := (if full then 0xE00000 else 0xC00000), lpuart_dr := ucast b,
       chr_mux := Some \<lparr>mux_buffer = bs @ replicate (32 - length bs) 0, mux_prod = of_nat (length bs),
                        mux_cons = 0, term_got_escape = False\<rparr>\<rparr>"

theorem mux_chr_read_lossless_witness:
  "\<exists>s'. offer [0x62, 0x63] (lpuart_example True 0x61 []) = ([], s') \<and> stream s' = [0x61, 0x62, 0x63]"
proof -
  let ?s = "lpuart_example True 0x61 []"
  let ?d = "\<lparr>mux_buffer = replicate 32 0, mux_prod = 0, mux_cons = 0, term_got_escape = False\<rparr> :: MuxPort"
  have "rx_enabled ?s" "lpuart_wf ?s" "chr_mux ?s = Some ?d" "\<not> term_got_escape ?d"
    by (simp_all add: lpuart_example_def lpuart_wf_def mux_wf_def)
  moreover have "stream ?s = [0x61]"
    by (simp add: lpuart_example_def stream_def pending_def mux_pending_def)
  ultimately show ?thesis
    using mux_chr_read_lossless [of ?s ?d "[0x62, 0x63]"] by (auto simp: term_escape_char_def simp del: offer.simps)
qed

section \<open>What the guest reads\<close>

lemma lpuart_decode_simps [simp]:
  "lpuart_decode 0x08 = Some LPUART_GLOBAL" "lpuart_decode 0x10 = Some LPUART_BAUD"
  "lpuart_decode 0x14 = Some LPUART_STAT" "lpuart_decode 0x18 = Some LPUART_CTRL"
  "lpuart_decode 0x1C = Some LPUART_DATA"
  by (simp_all add: lpuart_decode_def lpuart_offsets_def)

fun lpuart_reads :: "nat \<Rightarrow> lpuart \<Rightarrow> u32 list" where
  "lpuart_reads 0 s = []"
| "lpuart_reads (Suc n) s = (let (x, s') = nxps32k358_lpuart_read s 0x1C in x # lpuart_reads n s')"

lemma read_data_empty:
  assumes "pending s = []"
  shows "nxps32k358_lpuart_read s 0x1C =
    (lpuart_dr s, nxps32k358_lpuart_update_irq (s\<lparr>lpuart_sr := lpuart_sr s AND NOT LPUART_STAT_RDRF\<rparr>))"
proof -
  have "pending (s\<lparr>lpuart_sr := lpuart_sr s AND NOT LPUART_STAT_RDRF\<rparr>) = []"
    using assms by (simp add: pending_def)
  then show ?thesis by (simp add: nxps32k358_lpuart_read_def accept_none Let_def)
qed

lemma read_data_pending:
  assumes "rx_enabled s" "pending s = c # cs"
  shows "\<exists>s'. nxps32k358_lpuart_read s 0x1C = (ucast c, s') \<and> lpuart_dr s' = ucast c \<and> rdrf s' \<and>
    rx_enabled s' \<and> pending s' = cs"
proof -
  define s0 where "s0 = s\<lparr>lpuart_sr := lpuart_sr s AND NOT LPUART_STAT_RDRF\<rparr>"
  have s0: "rx_enabled s0" "\<not> rdrf s0" "pending s0 = c # cs"
    using assms by (simp_all add: s0_def pending_def bit_and_iff bit_not_iff)
  obtain d where d: "mux_pending (d\<lparr>mux_cons := mux_cons d + 1\<rparr>) = cs"
      "mux_chr_accept_input s0 = nxps32k358_lpuart_receive
        (s0\<lparr>chr_mux := Some (d\<lparr>mux_cons := mux_cons d + 1\<rparr>)\<rparr>) [c]"
    using accept_one [OF s0] by blast
  have "nxps32k358_lpuart_read s 0x1C = (lpuart_dr (mux_chr_accept_input s0),
      nxps32k358_lpuart_update_irq (mux_chr_accept_input s0))"
    by (simp add: nxps32k358_lpuart_read_def Let_def s0_def)
  then show ?thesis
    using d s0 by (simp add: receive_eq pending_def bit_or_iff)
qed

text \<open>
  C36. With input backed up in the multiplexer the guest loses a byte. When the data register
  holds \<open>b\<close> and \<open>cs\<close> are buffered behind it, draining all of them through the data register
  yields \<open>cs\<close> followed by its last byte once more: the first byte is never seen and the last one
  is seen twice, because the handler lets the multiplexer refill the register before it returns
  it. With nothing buffered the read is right and returns \<open>b\<close>.
\<close>

theorem lpuart_data_reads:
  assumes "rx_enabled s" and "lpuart_dr s = ucast b" and "pending s = cs"
  shows "lpuart_reads (Suc (length cs)) s = map ucast (cs @ [last (b # cs)])"
  using assms
proof (induction cs arbitrary: s b)
  case Nil
  then show ?case by (simp add: read_data_empty)
next
  case (Cons c cs)
  obtain s' where s': "nxps32k358_lpuart_read s 0x1C = (ucast c, s')" "lpuart_dr s' = ucast c"
      "rx_enabled s'" "pending s' = cs"
    using read_data_pending [OF Cons.prems(1,3)] by blast
  then show ?case using Cons.IH [OF s'(3,2,4)] by simp
qed

theorem lpuart_data_reads_witness:
  "lpuart_reads 3 (lpuart_example True 0x61 [0x62, 0x63]) = [0x62, 0x63, 0x63]"
proof -
  have "rx_enabled (lpuart_example True 0x61 [0x62, 0x63])"
    "lpuart_dr (lpuart_example True 0x61 [0x62, 0x63]) = ucast (0x61 :: u8)"
    "pending (lpuart_example True 0x61 [0x62, 0x63]) = [0x62, 0x63]"
    by (simp_all add: lpuart_example_def pending_def mux_pending_def mux_slot_mod upt_rec)
  from lpuart_data_reads [OF this] show ?thesis by (simp add: numeral_3_eq_3)
qed

text \<open>
  A disabled receiver discards the whole backlog: reading the data register then empties the
  multiplexer's buffer without any byte reaching the guest.
\<close>

theorem lpuart_disabled_drops_input:
  assumes "\<not> rx_enabled s"
  shows "\<exists>s'. nxps32k358_lpuart_read s 0x1C = (lpuart_dr s, s') \<and> pending s' = [] \<and> \<not> rdrf s'"
proof -
  define s0 where "s0 = s\<lparr>lpuart_sr := lpuart_sr s AND NOT LPUART_STAT_RDRF\<rparr>"
  have s0: "\<not> rx_enabled s0" "\<not> rdrf s0" using assms by (simp_all add: s0_def bit_and_iff bit_not_iff)
  have "nxps32k358_lpuart_read s 0x1C = (lpuart_dr (mux_chr_accept_input s0),
      nxps32k358_lpuart_update_irq (mux_chr_accept_input s0))"
    by (simp add: nxps32k358_lpuart_read_def Let_def s0_def)
  then show ?thesis using accept_dropped [OF s0] by (simp add: pending_def s0_def)
qed

theorem lpuart_disabled_drops_input_witness:
  "\<exists>s'. nxps32k358_lpuart_read ((lpuart_example True 0x61 [0x62])\<lparr>lpuart_cr := 0\<rparr>) 0x1C = (0x61, s') \<and>
     pending s' = [] \<and> \<not> rdrf s'"
  using lpuart_disabled_drops_input [of "(lpuart_example True 0x61 [0x62])\<lparr>lpuart_cr := 0\<rparr>"]
  by (simp add: lpuart_example_def)

section \<open>Transmitting, interrupts and status\<close>

definition lpuart_puts :: "u8 list \<Rightarrow> lpuart \<Rightarrow> lpuart" where
  "lpuart_puts bs s = fold (\<lambda>b s. nxps32k358_lpuart_write s 0x1C (ucast b)) bs s"

lemma write_data:
  "nxps32k358_lpuart_write s 0x1C (ucast b) = nxps32k358_lpuart_update_irq
     (s\<lparr>chr_out := chr_out s @ [b], lpuart_sr := lpuart_sr s OR LPUART_STAT_TDRE\<rparr>)" for b :: u8
proof -
  have w: "(ucast (ucast b :: u64) :: u32) = ucast b"
    by (rule bit_word_eqI) (auto simp: bit_ucast_iff)
  have "unat b < 2 ^ LENGTH(8)" by (rule unsigned_less)
  then have "(ucast b :: u32) < 0xF000" by (simp add: word_less_nat_alt unat_ucast_up)
  then show ?thesis by (simp add: nxps32k358_lpuart_write_def w)
qed

text \<open>
  C32. Transmission is synchronous and in order: writing a sequence of bytes to the data register
  hands exactly that sequence to the character backend, and the transmit register reads as empty
  after the last one.
\<close>

theorem lpuart_transmits:
  "chr_out (lpuart_puts bs s) = chr_out s @ bs \<and> (bs \<noteq> [] \<longrightarrow> bit (lpuart_sr (lpuart_puts bs s)) 23)"
proof (induction bs rule: rev_induct)
  case (snoc b bs)
  then show ?case by (simp add: lpuart_puts_def write_data bit_or_iff)
qed (simp add: lpuart_puts_def)

theorem lpuart_transmits_witness:
  "chr_out (lpuart_puts [0x48, 0x69] nxps32k358_lpuart_init) = [0x48, 0x69] \<and>
   bit (lpuart_sr (lpuart_puts [0x48, 0x69] nxps32k358_lpuart_init)) 23"
  using lpuart_transmits [of "[0x48, 0x69]" nxps32k358_lpuart_init] by (simp add: nxps32k358_lpuart_init_def)

text \<open>
  C30. After a write to the control register, a data write that is not ignored, and every data
  read, the interrupt line is the one the status and control registers call for.
\<close>

theorem lpuart_irq_follows_registers:
  assumes "s' = nxps32k358_lpuart_write s 0x18 v \<or>
    (s' = nxps32k358_lpuart_write s 0x1C v \<and> (ucast v :: u32) < 0xF000) \<or>
    s' = snd (nxps32k358_lpuart_read s 0x1C)"
  shows "lpuart_irq s' \<longleftrightarrow> (\<exists>k \<in> {21, 22, 23}. bit (lpuart_sr s') k \<and> bit (lpuart_cr s') k)"
  using assms
  by (auto simp: nxps32k358_lpuart_write_def nxps32k358_lpuart_read_def Let_def update_irq_line)

theorem lpuart_irq_follows_registers_witness:
  "lpuart_irq (nxps32k358_lpuart_write (lpuart_example True 0x61 []) 0x18 0x200000)"
  using lpuart_irq_follows_registers [OF disjI1, OF refl, of "lpuart_example True 0x61 []" "0x200000"]
  by (simp add: nxps32k358_lpuart_write_def lpuart_example_def)

text \<open>
  A status write above 0x3FF can clear the transmit-empty flag, which the comment in the
  handler says is kept set, and no status write ever moves the interrupt line.
\<close>

theorem lpuart_stat_write:
  assumes "0x3FF < (ucast v :: u32)" and "\<not> bit (ucast v :: u32) 23"
  shows "\<not> bit (lpuart_sr (nxps32k358_lpuart_write s 0x14 v)) 23 \<and>
    lpuart_irq (nxps32k358_lpuart_write s 0x14 v) = lpuart_irq s"
  using assms by (auto simp: nxps32k358_lpuart_write_def bit_and_iff Let_def not_le)

theorem lpuart_stat_write_witness:
  "bit (lpuart_sr (lpuart_example True 0x61 [])) 23 \<and>
   \<not> bit (lpuart_sr (nxps32k358_lpuart_write (lpuart_example True 0x61 []) 0x14 0x400)) 23"
  using lpuart_stat_write [of "0x400" "lpuart_example True 0x61 []"] by (simp add: lpuart_example_def)

section \<open>The UART as a memory-mapped device\<close>

lemma accept_wf: "lpuart_wf s \<Longrightarrow> lpuart_wf (mux_chr_accept_input s)"
  using accept_none [of s] accept_stream(3) [of s] accept_dropped [of s] by (cases "rdrf s"; cases "rx_enabled s") auto

lemma lpuart_wf_simps [simp]:
  "lpuart_wf (nxps32k358_lpuart_update_irq s) = lpuart_wf s" "lpuart_wf (nxps32k358_lpuart_reset s) = lpuart_wf s"
  "lpuart_wf (nxps32k358_lpuart_update_params s) = lpuart_wf s"
  "lpuart_wf (s\<lparr>lpuart_sr := x\<rparr>) = lpuart_wf s" "lpuart_wf (s\<lparr>lpuart_cr := x\<rparr>) = lpuart_wf s"
  "lpuart_wf (s\<lparr>lpuart_gb := x\<rparr>) = lpuart_wf s" "lpuart_wf (s\<lparr>baud_rate_config := x\<rparr>) = lpuart_wf s"
  "lpuart_wf (s\<lparr>chr_out := y\<rparr>) = lpuart_wf s"
  by (simp_all add: lpuart_wf_def nxps32k358_lpuart_reset_def nxps32k358_lpuart_update_params_def)

lemma lpuart_read_wf: "lpuart_wf s \<Longrightarrow> lpuart_wf (snd (nxps32k358_lpuart_read s a))"
  using accept_wf [of "s\<lparr>lpuart_sr := lpuart_sr s AND NOT LPUART_STAT_RDRF\<rparr>"]
  by (auto simp: nxps32k358_lpuart_read_def Let_def split: option.split lpuart_reg.split)

lemma lpuart_write_wf: "lpuart_wf s \<Longrightarrow> lpuart_wf (nxps32k358_lpuart_write s a v)"
  by (auto simp: nxps32k358_lpuart_write_def Let_def split: option.split lpuart_reg.split)

interpretation uart: mmio_device lpuart_wf "\<lambda>_ _. True" "\<lambda>s a. Inr (nxps32k358_lpuart_read s a)"
    "\<lambda>s a v. Inr (nxps32k358_lpuart_write s a v)"
  using lpuart_read_wf lpuart_write_wf by unfold_locales (auto simp: prod_eq_iff)

end
