(* ===== verification/Soc_Correct.thy ===== *)
theory Soc_Correct
  imports Soc Lpspi_Properties Lpuart_Correct
begin

text \<open>
  Correctness of the system on chip: the board comes up with every device realized and clocked,
  each device answers at its addresses although placeholder devices cover the same ranges, and
  the interrupt lines are the ones the tables name.
\<close>

section \<open>The address space\<close>

definition main_region :: "region_kind \<Rightarrow> nat \<Rightarrow> nat \<Rightarrow> region" where
  "main_region k base sz = \<lparr>mr_kind = k, mr_base = base, mr_size = sz, mr_priority = 0\<rparr>"

definition unimp_region :: "string \<times> nat \<times> nat \<Rightarrow> region" where
  "unimp_region d = (case d of (name, base, sz) \<Rightarrow>
     \<lparr>mr_kind = Unimp name, mr_base = base, mr_size = sz, mr_priority = -1000\<rparr>)"

lemma mr_priority_unimp [simp]: "mr_priority (unimp_region d) = -1000"
  by (simp add: unimp_region_def split: prod.split)

definition all_main :: "region list \<Rightarrow> bool" where
  "all_main rs \<longleftrightarrow> (\<forall>r \<in> set rs. mr_priority r = 0)"

lemma all_main_simps [simp]:
  "all_main []" "all_main (main_region k b n # rs) \<longleftrightarrow> all_main rs"
  "all_main (xs @ ys) \<longleftrightarrow> all_main xs \<and> all_main ys" "all_main (map (\<lambda>i. main_region (f i) (g i) n) is)"
  by (auto simp: all_main_def main_region_def)

lemma add_subregion_main:
  "all_main rs \<Longrightarrow> memory_region_add_subregion k base sz rs = main_region k base sz # rs"
  by (cases rs) (auto simp: memory_region_add_subregion_def main_region_def all_main_def)

lemma insert_below:
  "\<forall>x \<in> set xs. mr_priority r < mr_priority x \<Longrightarrow> \<forall>y \<in> set ys. mr_priority y \<le> mr_priority r \<Longrightarrow>
     memory_region_update_container_subregions r (xs @ ys) = xs @ r # ys"
proof (induction xs)
  case Nil
  then show ?case by (cases ys) auto
qed auto

lemma create_unimplemented:
  "all_main xs \<Longrightarrow> \<forall>y \<in> set ys. mr_priority y \<le> -1000 \<Longrightarrow>
     fold create_unimplemented_device ds (xs @ ys) = xs @ map unimp_region (rev ds) @ ys"
proof (induction ds arbitrary: ys)
  case (Cons d ds)
  have "create_unimplemented_device d (xs @ ys) = xs @ unimp_region d # ys"
    unfolding create_unimplemented_device_def memory_region_add_subregion_overlap_def unimp_region_def
    using Cons.prems insert_below [of xs _ ys] by (auto simp: all_main_def split: prod.split)
  then show ?case using Cons by simp
qed simp

lemma create_unimplemented_devices_eq:
  "all_main xs \<Longrightarrow> create_unimplemented_devices xs =
     xs @ map unimp_region (rev (unimplemented_low @ unimplemented_high))"
  using create_unimplemented [of xs "[]" unimplemented_low]
    create_unimplemented [of xs "map unimp_region (rev unimplemented_low)" unimplemented_high]
  by (auto simp: create_unimplemented_devices_def)

definition disjoint_regions :: "region \<Rightarrow> region \<Rightarrow> bool" where
  "disjoint_regions a b \<longleftrightarrow> mr_base a + mr_size a \<le> mr_base b \<or> mr_base b + mr_size b \<le> mr_base a"

text \<open>A region is reached when nothing that is looked up before it overlaps it.\<close>

lemma resolve_hit:
  assumes "\<forall>x \<in> set xs. disjoint_regions x r" "off < mr_size r"
  shows "resolve (xs @ r # ys) (mr_base r + off) = Some (mr_kind r, off)"
proof -
  have "\<not> covers x (mr_base r + off)" if "x \<in> set xs" for x
    using assms that by (force simp: disjoint_regions_def covers_def)
  then have "find (\<lambda>x. covers x (mr_base r + off)) (xs @ r # ys) = Some r"
    using assms(2) by (induction xs) (auto simp: covers_def)
  then show ?thesis by (simp add: resolve_def)
qed

section \<open>Bringing the board up\<close>

definition clock_child :: "Clock \<Rightarrow> Clock" where
  "clock_child src = clock_initfn\<lparr>clk_period := clock_get_child_period src, clk_has_source := True\<rparr>"

lemma clock_child_fields [simp]:
  "clock_set_source clock_initfn src = Inr (clock_child src)" "clk_has_source (clock_child src)"
  by (simp_all add: clock_set_source_def clock_child_def clock_initfn_def)

definition lpuart_hz :: "'g soc \<Rightarrow> nat \<Rightarrow> nat" where
  "lpuart_hz s i = clock_get_hz (clock_child (if i < 2 \<or> i = 8 then aips_plat_clk s else aips_slow_clk s))"

definition lpuart_up :: "(nat \<Rightarrow> MuxPort option) \<Rightarrow> 'g soc \<Rightarrow> nat \<Rightarrow> lpuart" where
  "lpuart_up ser s i = (lpuarts s ! i)\<lparr>lpuart_clk := Some (lpuart_hz s i), chr_mux := ser i\<rparr>"

definition lpuart_regions :: "nat \<Rightarrow> region list" where
  "lpuart_regions n = map (\<lambda>i. main_region (Lpuart_regs i) (lpuart_addr ! i) 0x4000) (rev [0..<n])"

lemma lpuart_tables: "length lpuart_addr = 16" "length lpuart_irqs = 16" "i < 16 \<Longrightarrow> lpuart_irqs ! i < 240"
proof -
  show "length lpuart_addr = 16" "length lpuart_irqs = 16"
    by (simp_all add: lpuart_addr_def lpuart_irqs_def c_array_def reg_simps)
  have "\<forall>n \<in> set lpuart_irqs. n < 240" by (simp add: lpuart_irqs_def c_array_def reg_simps)
  then show "i < 16 \<Longrightarrow> lpuart_irqs ! i < 240" using \<open>length lpuart_irqs = 16\<close> by simp
qed

lemma list_update_prefix:
  "n < length xs \<Longrightarrow> (map f [0..<n] @ drop n xs)[n := f n] = map f [0..<Suc n] @ drop (Suc n) xs"
  by (simp add: list_update_append flip: Cons_nth_drop_Suc)

lemma nth_prefix: "n < length xs \<Longrightarrow> (map f [0..<n] @ drop n xs) ! n = xs ! n"
  by (simp add: nth_append)

lemma lpuart_loop:
  assumes "num_irq (armv7m s) = 240" "length (lpuarts s) = 16" "all_main (system_memory s)"
  shows "n \<le> 16 \<Longrightarrow> foldE (soc_realize_lpuart ser) [0..<n] s =
    Inr (s\<lparr>lpuarts := map (lpuart_up ser s) [0..<n] @ drop n (lpuarts s),
           system_memory := lpuart_regions n @ system_memory s,
           irq_wires := irq_wires s @ map (\<lambda>i. (Lpuart_irq i, lpuart_irqs ! i)) [0..<n]\<rparr>)"
proof (induction n)
  case 0
  then show ?case by (simp add: lpuart_regions_def)
next
  case (Suc n)
  let ?us = "map (lpuart_up ser s) [0..<n] @ drop n (lpuarts s)"
  have n: "n < 16" using Suc.prems by simp
  have us: "?us ! n = lpuarts s ! n" "?us[n := lpuart_up ser s n] = map (lpuart_up ser s) [0..<Suc n] @ drop (Suc n) (lpuarts s)"
    using n assms(2) by (simp_all only: nth_prefix list_update_prefix)
  have len: "length ?us = 16" using n assms(2) by simp
  have mem: "all_main (lpuart_regions n @ system_memory s)" using assms(3) by (simp add: lpuart_regions_def)
  have up: "nxps32k358_lpuart_realize (ser n) ((lpuarts s ! n)\<lparr>lpuart_clk := Some (lpuart_hz s n)\<rparr>) = Inr (lpuart_up ser s n)"
    by (simp add: nxps32k358_lpuart_realize_def lpuart_up_def)
  have regs: "lpuart_regions (Suc n) = main_region (Lpuart_regs n) (lpuart_addr ! n) 0x4000 # lpuart_regions n"
    by (simp add: lpuart_regions_def)
  let ?s = "\<lambda>n. s\<lparr>lpuarts := map (lpuart_up ser s) [0..<n] @ drop n (lpuarts s),
           system_memory := lpuart_regions n @ system_memory s,
           irq_wires := irq_wires s @ map (\<lambda>i. (Lpuart_irq i, lpuart_irqs ! i)) [0..<n]\<rparr>"
  have hz: "lpuart_hz (?s n) n = lpuart_hz s n" by (simp add: lpuart_hz_def)
  have "soc_realize_lpuart ser n (?s n) = Inr (?s (Suc n))"
    using n assms(1) len us up mem lpuart_tables regs
    by (simp add: soc_realize_lpuart_def add_subregion_main connect_irq_def hz flip: lpuart_hz_def)
  then show ?case using Suc by (simp add: foldE_append)
qed

definition lpspi_up :: "(nat \<Rightarrow> u8 list \<times> u8 list) \<Rightarrow> 'g soc \<Rightarrow> nat \<Rightarrow> (MotorSpeedSensor, 'g) lpspi" where
  "lpspi_up blocks s i =
     (lpspis s ! i)\<lparr>lpspi_clk := Some (clock_get_hz (clock_child (aips_plat_clk s))),
        input_clk := clock_get_hz (clock_child (aips_plat_clk s)), cs_lines := [False],
        tx_fifo := fifo8_create (fst (blocks i)) 16, rx_fifo := fifo8_create (snd (blocks i)) 16\<rparr>"

definition lpspi_regions :: "nat \<Rightarrow> region list" where
  "lpspi_regions n = map (\<lambda>i. main_region (Lpspi_regs i) (lpspi_addr ! i) 0x4000) (rev [0..<n])"

lemma lpspi_tables: "length lpspi_addr = 6" "length lpspi_irqs = 6" "i < 6 \<Longrightarrow> lpspi_irqs ! i < 240"
proof -
  show "length lpspi_addr = 6" "length lpspi_irqs = 6"
    by (simp_all add: lpspi_addr_def lpspi_irqs_def c_array_def reg_simps)
  have "\<forall>n \<in> set lpspi_irqs. n < 240" by (simp add: lpspi_irqs_def c_array_def reg_simps)
  then show "i < 6 \<Longrightarrow> lpspi_irqs ! i < 240" using \<open>length lpspi_irqs = 6\<close> by simp
qed

lemma lpspi_loop:
  assumes "num_irq (armv7m s) = 240" "length (lpspis s) = 6" "all_main (system_memory s)"
    "clock_get_hz (clock_child (aips_plat_clk s)) \<noteq> 0" "\<forall>i<6. num_cs_lines (lpspis s ! i) = 1"
  shows "n \<le> 6 \<Longrightarrow> foldE (soc_realize_lpspi blocks) [0..<n] s =
    Inr (s\<lparr>lpspis := map (lpspi_up blocks s) [0..<n] @ drop n (lpspis s),
           system_memory := lpspi_regions n @ system_memory s,
           irq_wires := irq_wires s @ map (\<lambda>i. (Lpspi_irq i, lpspi_irqs ! i)) [0..<n]\<rparr>)"
proof (induction n)
  case 0
  then show ?case by (simp add: lpspi_regions_def)
next
  case (Suc n)
  let ?us = "map (lpspi_up blocks s) [0..<n] @ drop n (lpspis s)"
  have n: "n < 6" using Suc.prems by simp
  have us: "?us ! n = lpspis s ! n" "?us[n := lpspi_up blocks s n] = map (lpspi_up blocks s) [0..<Suc n] @ drop (Suc n) (lpspis s)"
    using n assms(2) by (simp_all only: nth_prefix list_update_prefix)
  have len: "length ?us = 6" using n assms(2) by simp
  have mem: "all_main (lpspi_regions n @ system_memory s)" using assms(3) by (simp add: lpspi_regions_def)
  let ?hz = "clock_get_hz (clock_child (aips_plat_clk s))"
  have up: "nxps32k358_lpspi_realize ((lpspis s ! n)\<lparr>lpspi_clk := Some ?hz\<rparr>) (fst (blocks n)) (snd (blocks n)) =
      Inr (lpspi_up blocks s n)"
    using assms(4,5) n by (simp add: nxps32k358_lpspi_realize_def lpspi_up_def LPSPI_FIFO_BYTE_CAPACITY_def)
  have regs: "lpspi_regions (Suc n) = main_region (Lpspi_regs n) (lpspi_addr ! n) 0x4000 # lpspi_regions n"
    by (simp add: lpspi_regions_def)
  let ?s = "\<lambda>n. s\<lparr>lpspis := map (lpspi_up blocks s) [0..<n] @ drop n (lpspis s),
           system_memory := lpspi_regions n @ system_memory s,
           irq_wires := irq_wires s @ map (\<lambda>i. (Lpspi_irq i, lpspi_irqs ! i)) [0..<n]\<rparr>"
  have "soc_realize_lpspi blocks n (?s n) = Inr (?s (Suc n))"
    using n assms(1) len us up mem lpspi_tables regs
    by (simp add: soc_realize_lpspi_def add_subregion_main connect_irq_def)
  then show ?case using Suc by (simp add: foldE_append)
qed

text \<open>A sensor goes onto every bus, and each one reseeds the generator.\<close>

definition motor_new :: MotorSpeedSensor where
  "motor_new = \<lparr>last_speed = 0, transfer_value = 0\<rparr>"

definition sensor_up :: "('g \<Rightarrow> nat \<times> 'g) \<Rightarrow> ('g \<Rightarrow> 'g) \<Rightarrow> 'g soc \<Rightarrow> nat \<Rightarrow> (MotorSpeedSensor, 'g) lpspi" where
  "sensor_up rand srand_time s i =
     (lpspis s ! i)\<lparr>lpspi_ssi := motor_bus rand srand_time motor_new ((srand_time ^^ Suc i) (host s))\<rparr>"

lemma sensor_loop:
  assumes "length (lpspis s) = 6" "\<forall>i<6. bus_children (lpspi_ssi (lpspis s ! i)) = []"
  shows "n \<le> 6 \<Longrightarrow> foldE (soc_create_sensor rand srand_time) [0..<n] s =
    Inr (s\<lparr>lpspis := map (sensor_up rand srand_time s) [0..<n] @ drop n (lpspis s),
           host := (srand_time ^^ n) (host s)\<rparr>)"
proof (induction n)
  case (Suc n)
  let ?us = "map (sensor_up rand srand_time s) [0..<n] @ drop n (lpspis s)"
  have n: "n < 6" using Suc.prems by simp
  have us: "?us ! n = lpspis s ! n" "?us[n := sensor_up rand srand_time s n] =
      map (sensor_up rand srand_time s) [0..<Suc n] @ drop (Suc n) (lpspis s)"
    using n assms(1) by (simp_all only: nth_prefix list_update_prefix)
  have len: "length ?us = 6" using n assms(1) by simp
  have bus: "ssi_create_peripheral (lpspi_ssi (with_host g (lpspis s ! n)))
        (motor_speed_sensor_class_init rand srand_time) = Inr (motor_bus rand srand_time motor_new (srand_time g))" for g
    using assms(2) n
    by (simp add: ssi_create_peripheral_def ssi_bus_check_address_def ssi_get_cs_def with_host_def motor_bus_def
        motor_speed_sensor_class_init_def motor_speed_sensor_realize_def motor_new_def)
  let ?s = "\<lambda>n. s\<lparr>lpspis := map (sensor_up rand srand_time s) [0..<n] @ drop n (lpspis s),
           host := (srand_time ^^ n) (host s)\<rparr>"
  have "soc_create_sensor rand srand_time n (?s n) = Inr (?s (Suc n))"
    using n len us bus
    by (simp add: soc_create_sensor_def soc_put_lpspi_def sensor_up_def motor_bus_def)
  then show ?case using Suc by (simp add: foldE_append)
qed simp

section \<open>The board after power-on\<close>

definition sysclk_up :: Clock where
  "sysclk_up = clock_child (clock_set_hz 24000000 clock_initfn)"

definition refclk_up :: Clock where
  "refclk_up = (clock_child sysclk_up)\<lparr>clk_multiplier := 8\<rparr>"

definition plat_up :: Clock where
  "plat_up = clock_child (clock_set_hz 80000000 clock_initfn)"

definition slow_up :: Clock where
  "slow_up = clock_child (clock_set_hz 40000000 clock_initfn)"

lemmas clock_eval = sysclk_up_def refclk_up_def plat_up_def slow_up_def clock_child_def clock_set_hz_def
  clock_initfn_def clock_get_hz_def clock_get_child_period_def CLOCK_PERIOD_1SEC_def w32_def

lemma clock_rates:
  "clock_get_hz (clock_child plat_up) = 80000000" "clock_get_hz (clock_child slow_up) = 40000000"
  "clock_get_hz (clock_child sysclk_up) = 24000000" "clock_get_hz (clock_child refclk_up) = 3000000"
  by (simp_all add: clock_eval)

definition cpu_up :: armv7m_config where
  "cpu_up = \<lparr>num_irq = 240, num_prio_bits = 4, cpu_type = ''cortex-m7'', enable_bitband = True,
     init_svtor = CODE_FLASH_BASE_ADDRESS + 2048, init_nsvtor = CODE_FLASH_BASE_ADDRESS + 2048,
     mpu_ns_regions = 16, mpu_s_regions = 16, cpuclk = clock_child sysclk_up, cpu_refclk = clock_child refclk_up\<rparr>"

definition main_memory :: "region list" where
  "main_memory = lpspi_regions 6 @ lpuart_regions 16 @ main_region Syscfg_regs 0x40013800 0x400 # soc_memories []"

definition board_memory :: "region list" where
  "board_memory = main_memory @ map unimp_region (rev (unimplemented_low @ unimplemented_high))"

definition board_lpuart :: "(nat \<Rightarrow> MuxPort option) \<Rightarrow> nat \<Rightarrow> lpuart" where
  "board_lpuart ser i = nxps32k358_lpuart_init\<lparr>lpuart_clk := Some (if i < 2 \<or> i = 8 then 80000000 else 40000000),
     chr_mux := ser i\<rparr>"

definition board_lpspi :: "(nat \<Rightarrow> u8 list \<times> u8 list) \<Rightarrow> ('g \<Rightarrow> nat \<times> 'g) \<Rightarrow> ('g \<Rightarrow> 'g) \<Rightarrow> 'g \<Rightarrow> nat \<Rightarrow>
    (MotorSpeedSensor, 'g) lpspi" where
  "board_lpspi blocks rand srand_time g i = (nxps32k358_lpspi_init g)\<lparr>lpspi_clk := Some 80000000,
     input_clk := 80000000, cs_lines := [False], tx_fifo := fifo8_create (fst (blocks i)) 16,
     rx_fifo := fifo8_create (snd (blocks i)) 16,
     lpspi_ssi := motor_bus rand srand_time motor_new ((srand_time ^^ Suc i) g)\<rparr>"

definition board :: "(nat \<Rightarrow> MuxPort option) \<Rightarrow> (nat \<Rightarrow> u8 list \<times> u8 list) \<Rightarrow> ('g \<Rightarrow> nat \<times> 'g) \<Rightarrow>
    ('g \<Rightarrow> 'g) \<Rightarrow> 'g \<Rightarrow> 'g soc" where
  "board ser blocks rand srand_time g =
     \<lparr>sysclk = sysclk_up, refclk = refclk_up, aips_plat_clk = plat_up, aips_slow_clk = slow_up,
      armv7m = cpu_up, syscfg_dev = nxps32k358_syscfg_init\<lparr>syscfg_clk := Some 24000000\<rparr>,
      lpuarts = map (board_lpuart ser) [0..<16],
      lpspis = map (board_lpspi blocks rand srand_time g) [0..<6],
      system_memory = board_memory,
      irq_wires = map (\<lambda>i. (Lpuart_irq i, lpuart_irqs ! i)) [0..<16] @ map (\<lambda>i. (Lpspi_irq i, lpspi_irqs ! i)) [0..<6],
      host = (srand_time ^^ 6) g\<rparr>"

lemma soc_memories_main: "all_main (soc_memories [])"
  by (simp add: soc_memories_def add_subregion_main)

lemma main_memory_main: "all_main main_memory"
  by (simp add: main_memory_def soc_memories_main lpspi_regions_def lpuart_regions_def)

lemma realize_clocks_board:
  "soc_realize_clocks ((nxps32k358_soc_initfn g)\<lparr>sysclk := sysclk_up\<rparr>) =
     Inr ((nxps32k358_soc_initfn g)\<lparr>sysclk := sysclk_up, aips_plat_clk := plat_up, aips_slow_clk := slow_up,
       refclk := refclk_up\<rparr>)"
  by (simp add: soc_realize_clocks_def nxps32k358_soc_initfn_def sysclk_up_def refclk_up_def plat_up_def slow_up_def
      clock_set_mul_div_def clock_set_source_def clock_child_def clock_initfn_def)

text \<open>The board's states between the stages of its realization.\<close>

definition stage_cpu :: "'g \<Rightarrow> 'g soc" where
  "stage_cpu g = (nxps32k358_soc_initfn g)\<lparr>sysclk := sysclk_up, aips_plat_clk := plat_up,
    aips_slow_clk := slow_up, refclk := refclk_up, system_memory := soc_memories [], armv7m := cpu_up\<rparr>"

definition stage_syscfg :: "'g \<Rightarrow> 'g soc" where
  "stage_syscfg g = (stage_cpu g)\<lparr>syscfg_dev := nxps32k358_syscfg_init\<lparr>syscfg_clk := Some 24000000\<rparr>,
    system_memory := main_region Syscfg_regs 0x40013800 0x400 # soc_memories []\<rparr>"

definition stage_uarts :: "(nat \<Rightarrow> MuxPort option) \<Rightarrow> 'g \<Rightarrow> 'g soc" where
  "stage_uarts ser g = (stage_syscfg g)\<lparr>lpuarts := map (board_lpuart ser) [0..<16],
    system_memory := lpuart_regions 16 @ system_memory (stage_syscfg g),
    irq_wires := map (\<lambda>i. (Lpuart_irq i, lpuart_irqs ! i)) [0..<16]\<rparr>"

definition stage_spis :: "(nat \<Rightarrow> MuxPort option) \<Rightarrow> (nat \<Rightarrow> u8 list \<times> u8 list) \<Rightarrow> 'g \<Rightarrow> 'g soc" where
  "stage_spis ser blocks g = (stage_uarts ser g)\<lparr>lpspis := map (lpspi_up blocks (stage_uarts ser g)) [0..<6],
    system_memory := main_memory,
    irq_wires := irq_wires (stage_uarts ser g) @ map (\<lambda>i. (Lpspi_irq i, lpspi_irqs ! i)) [0..<6]\<rparr>"

lemma realize_cpu_board:
  assumes "armv7m_realize cpu_up = Inr ()"
  shows "soc_realize_cpu armv7m_realize ((nxps32k358_soc_initfn g)\<lparr>sysclk := sysclk_up,
      aips_plat_clk := plat_up, aips_slow_clk := slow_up, refclk := refclk_up, system_memory := soc_memories []\<rparr>) =
      Inr (stage_cpu g)"
    using assms by (simp add: soc_realize_cpu_def stage_cpu_def cpu_up_def nxps32k358_soc_initfn_def)

lemma realize_syscfg_board: "soc_realize_syscfg (stage_cpu g) = Inr (stage_syscfg g)"
  by (simp add: soc_realize_syscfg_def stage_syscfg_def stage_cpu_def nxps32k358_soc_initfn_def clock_rates
      nxps32k358_syscfg_realize_def add_subregion_main soc_memories_main)

lemma realize_uarts_board: "foldE (soc_realize_lpuart ser) [0..<16] (stage_syscfg g) = Inr (stage_uarts ser g)"
proof -
  have "lpuart_up ser (stage_syscfg g) i = board_lpuart ser i" if "i < 16" for i
    using that by (simp add: lpuart_up_def board_lpuart_def lpuart_hz_def stage_syscfg_def stage_cpu_def clock_rates
        nxps32k358_soc_initfn_def NXP_NUM_LPUARTS_def)
  then show ?thesis
    using lpuart_loop [of "stage_syscfg g" 16 ser]
    by (simp add: stage_uarts_def stage_syscfg_def stage_cpu_def cpu_up_def nxps32k358_soc_initfn_def
        NXP_NUM_LPUARTS_def soc_memories_main cong: map_cong)
qed

lemma stage_uarts_fields:
  "lpspis (stage_uarts ser g) = replicate 6 (nxps32k358_lpspi_init g)" "host (stage_uarts ser g) = g"
  "num_irq (armv7m (stage_uarts ser g)) = 240" "aips_plat_clk (stage_uarts ser g) = plat_up"
  "all_main (system_memory (stage_uarts ser g))"
  by (simp_all add: stage_uarts_def stage_syscfg_def stage_cpu_def cpu_up_def nxps32k358_soc_initfn_def
      NXP_NUM_LPSPIS_def soc_memories_main lpuart_regions_def)

lemma realize_spis_board: "foldE (soc_realize_lpspi blocks) [0..<6] (stage_uarts ser g) = Inr (stage_spis ser blocks g)"
proof -
  let ?s = "stage_uarts ser g"
  have "foldE (soc_realize_lpspi blocks) [0..<6] ?s = Inr (?s\<lparr>lpspis := map (lpspi_up blocks ?s) [0..<6],
      system_memory := lpspi_regions 6 @ system_memory ?s,
      irq_wires := irq_wires ?s @ map (\<lambda>i. (Lpspi_irq i, lpspi_irqs ! i)) [0..<6]\<rparr>)"
    using lpspi_loop [of ?s 6 blocks] stage_uarts_fields [of ser g] by (simp add: clock_rates nxps32k358_lpspi_init_def)
  also have "\<dots> = Inr (stage_spis ser blocks g)"
    by (simp add: stage_spis_def stage_uarts_def stage_syscfg_def main_memory_def)
  finally show ?thesis .
qed

lemma create_sensors_board:
  "foldE (soc_create_sensor rand srand_time) [0..<6] (stage_spis ser blocks g) = Inr ((stage_spis ser blocks g)\<lparr>
      lpspis := map (board_lpspi blocks rand srand_time g) [0..<6], host := (srand_time ^^ 6) g\<rparr>)"
proof -
  let ?s = "stage_spis ser blocks g"
  have spi: "lpspis ?s ! i = (nxps32k358_lpspi_init g)\<lparr>lpspi_clk := Some 80000000, input_clk := 80000000,
      cs_lines := [False], tx_fifo := fifo8_create (fst (blocks i)) 16,
      rx_fifo := fifo8_create (snd (blocks i)) 16\<rparr>" if "i < 6" for i
    using that stage_uarts_fields [of ser g] by (simp add: stage_spis_def lpspi_up_def clock_rates)
  have h: "host ?s = g" "length (lpspis ?s) = 6" by (simp_all add: stage_spis_def stage_uarts_fields)
  have "sensor_up rand srand_time ?s i = board_lpspi blocks rand srand_time g i" if "i < 6" for i
    using that spi [OF that] h by (simp add: sensor_up_def board_lpspi_def)
  moreover have "\<forall>i<6. bus_children (lpspi_ssi (lpspis ?s ! i)) = []"
    using spi by (simp add: nxps32k358_lpspi_init_def ssi_create_bus_def)
  ultimately show ?thesis
    using sensor_loop [of ?s 6 rand srand_time] h by (simp cong: map_cong)
qed

lemma discovery_init_eq:
  assumes "armv7m_realize cpu_up = Inr ()"
  shows "nxp_s32k358discovery_init armv7m_realize ser blocks rand srand_time g = Inr (board ser blocks rand srand_time g)"
proof -
  have fin: "create_unimplemented_devices main_memory = board_memory"
    by (simp add: create_unimplemented_devices_eq main_memory_main board_memory_def)
  have "system_memory ((nxps32k358_soc_initfn g)\<lparr>sysclk := sysclk_up\<rparr>) = []"
    by (simp add: nxps32k358_soc_initfn_def)
  moreover have "(stage_spis ser blocks g)\<lparr>lpspis := map (board_lpspi blocks rand srand_time g) [0..<6],
      host := (srand_time ^^ 6) g, system_memory := board_memory\<rparr> = board ser blocks rand srand_time g"
    by (simp add: stage_spis_def stage_uarts_def stage_syscfg_def stage_cpu_def nxps32k358_soc_initfn_def board_def)
  moreover have "system_memory (stage_spis ser blocks g) = main_memory" by (simp add: stage_spis_def)
  ultimately have "nxps32k358_soc_realize armv7m_realize ser blocks rand srand_time
      ((nxps32k358_soc_initfn g)\<lparr>sysclk := sysclk_up\<rparr>) = Inr (board ser blocks rand srand_time g)"
    using realize_cpu_board [of armv7m_realize g, OF assms]
    by (simp add: nxps32k358_soc_realize_def realize_clocks_board realize_syscfg_board realize_uarts_board
        realize_spis_board create_sensors_board NXP_NUM_LPUARTS_def NXP_NUM_LPSPIS_def fin)
  then show ?thesis
    by (simp add: nxp_s32k358discovery_init_def SYSCLK_FRQ_def sysclk_up_def nxps32k358_soc_initfn_def)
qed

section \<open>Which device answers\<close>

definition reachable_at :: "region list \<Rightarrow> nat \<Rightarrow> bool" where
  "reachable_at rs k \<longleftrightarrow> k < length rs \<and> (\<forall>x \<in> set (take k rs). disjoint_regions x (rs ! k))"

lemma resolve_nth:
  assumes "reachable_at rs k" "off < mr_size (rs ! k)"
  shows "resolve (rs @ ys) (mr_base (rs ! k) + off) = Some (mr_kind (rs ! k), off)"
proof -
  have "k < length rs" using assms(1) by (simp add: reachable_at_def)
  then have "rs @ ys = take k rs @ rs ! k # (drop (Suc k) rs @ ys)"
    by (metis append.assoc append_Cons id_take_nth_drop)
  moreover have "resolve (take k rs @ rs ! k # (drop (Suc k) rs @ ys)) (mr_base (rs ! k) + off) = Some (mr_kind (rs ! k), off)"
    using assms by (intro resolve_hit) (simp_all add: reachable_at_def)
  ultimately show ?thesis by (simp only:)
qed

lemma rev_upts:
  "rev [0..<6] = [5, 4, 3, 2, 1, 0]"
  "rev [0..<16] = [15, 14, 13, 12, 11, 10, 9, 8, 7, 6, 5, 4, 3, 2, 1, 0]"
  by (simp_all add: eval_nat_numeral)

lemma main_memory_eq: "main_memory =
  [main_region (Lpspi_regs 5) 0x404C0000 0x4000, main_region (Lpspi_regs 4) 0x404BC000 0x4000,
   main_region (Lpspi_regs 3) 0x40364000 0x4000, main_region (Lpspi_regs 2) 0x40360000 0x4000,
   main_region (Lpspi_regs 1) 0x4035C000 0x4000, main_region (Lpspi_regs 0) 0x40358000 0x4000,
   main_region (Lpuart_regs 15) 0x404A8000 0x4000, main_region (Lpuart_regs 14) 0x404A4000 0x4000,
   main_region (Lpuart_regs 13) 0x404A0000 0x4000, main_region (Lpuart_regs 12) 0x4049C000 0x4000,
   main_region (Lpuart_regs 11) 0x40498000 0x4000, main_region (Lpuart_regs 10) 0x40494000 0x4000,
   main_region (Lpuart_regs 9) 0x40490000 0x4000, main_region (Lpuart_regs 8) 0x4048C000 0x4000,
   main_region (Lpuart_regs 7) 0x40344000 0x4000, main_region (Lpuart_regs 6) 0x40340000 0x4000,
   main_region (Lpuart_regs 5) 0x4033C000 0x4000, main_region (Lpuart_regs 4) 0x40338000 0x4000,
   main_region (Lpuart_regs 3) 0x40334000 0x4000, main_region (Lpuart_regs 2) 0x40330000 0x4000,
   main_region (Lpuart_regs 1) 0x4032C000 0x4000, main_region (Lpuart_regs 0) 0x40328000 0x4000,
   main_region Syscfg_regs 0x40013800 0x400,
   main_region (Ram ''itcm'') 0 0x10000, main_region (Ram ''dtcm'') 0x20000000 0x20001,
   main_region (Ram ''sram_2'') 0x20480000 0x40000, main_region (Ram ''sram_1'') 0x20440000 0x40000,
   main_region (Ram ''sram_0'') 0x20400000 0x40000, main_region (Rom ''data_flash'') 0x10000000 0x20000,
   main_region (Rom ''code_flash_3'') 0xA00000 0x200000, main_region (Rom ''code_flash_2'') 0x800000 0x200000,
   main_region (Rom ''code_flash_1'') 0x600000 0x200000, main_region (Rom ''code_flash_0'') 0x400000 0x200000]"
  by (simp add: main_memory_def lpspi_regions_def lpuart_regions_def rev_upts lpspi_addr_def lpuart_addr_def
      c_array_def soc_memories_def add_subregion_main reg_simps)

definition main_ranges :: "(nat \<times> nat) list" where
  "main_ranges =
     [(0x404C0000, 0x4000), (0x404BC000, 0x4000), (0x40364000, 0x4000), (0x40360000,
      0x4000), (0x4035C000, 0x4000), (0x40358000, 0x4000), (0x404A8000, 0x4000),
      (0x404A4000, 0x4000), (0x404A0000, 0x4000), (0x4049C000, 0x4000), (0x40498000,
      0x4000), (0x40494000, 0x4000), (0x40490000, 0x4000), (0x4048C000, 0x4000),
      (0x40344000, 0x4000), (0x40340000, 0x4000), (0x4033C000, 0x4000), (0x40338000,
      0x4000), (0x40334000, 0x4000), (0x40330000, 0x4000), (0x4032C000, 0x4000),
      (0x40328000, 0x4000), (0x40013800, 0x400), (0, 0x10000), (0x20000000, 0x20001),
      (0x20480000, 0x40000), (0x20440000, 0x40000), (0x20400000, 0x40000), (0x10000000,
      0x20000), (0xA00000, 0x200000), (0x800000, 0x200000), (0x600000, 0x200000),
      (0x400000, 0x200000)]"

lemma main_memory_disjoint: "sorted_wrt disjoint_regions main_memory"
proof -
  have sel: "map (\<lambda>r. (mr_base r, mr_size r)) main_memory = main_ranges"
    by (simp add: main_memory_eq main_region_def main_ranges_def)
  have "sorted_wrt (\<lambda>(b, n) (b', n'). b + n \<le> b' \<or> b' + n' \<le> b) main_ranges"
    by (simp add: main_ranges_def)
  then show ?thesis
    unfolding sel [symmetric] sorted_wrt_map disjoint_regions_def [abs_def] by (simp add: case_prod_unfold)
qed

lemma main_memory_reachable: "k < length main_memory \<Longrightarrow> reachable_at main_memory k"
  using main_memory_disjoint by (auto simp: reachable_at_def in_set_conv_nth sorted_wrt_iff_nth_less)

lemma board_resolve:
  assumes "r \<in> set main_memory" "off < mr_size r"
  shows "resolve board_memory (mr_base r + off) = Some (mr_kind r, off)"
proof -
  obtain k where k: "k < length main_memory" "main_memory ! k = r" using assms(1) by (auto simp: in_set_conv_nth)
  show ?thesis
    using resolve_nth [OF main_memory_reachable [OF k(1)]] assms(2) k(2) by (simp add: board_memory_def)
qed

lemma lpspi_region_mem: "i < 6 \<Longrightarrow> main_region (Lpspi_regs i) (lpspi_addr ! i) 0x4000 \<in> set main_memory"
  by (auto simp: main_memory_def lpspi_regions_def simp del: upt_rec_numeral)

lemma lpuart_region_mem: "i < 16 \<Longrightarrow> main_region (Lpuart_regs i) (lpuart_addr ! i) 0x4000 \<in> set main_memory"
  by (auto simp: main_memory_def lpuart_regions_def simp del: upt_rec_numeral)

lemma lpspi_resolve: "i < 6 \<Longrightarrow> off < 0x4000 \<Longrightarrow> resolve board_memory (lpspi_addr ! i + off) = Some (Lpspi_regs i, off)"
  using board_resolve [OF lpspi_region_mem, of i off] by (simp add: main_region_def)

text \<open>
  C24. The board comes up and its address decoding is right. If the processor realizes, the board
  initialises without error, and every register of every UART, SPI controller and of the system
  configuration answers at its address, although placeholder devices cover the same ranges; the
  memories answer at theirs.
\<close>

theorem board_address_map:
  assumes "armv7m_realize cpu_up = Inr ()"
  shows "\<exists>s. nxp_s32k358discovery_init armv7m_realize ser blocks rand srand_time g = Inr s \<and>
    (\<forall>i<16. \<forall>off<0x4000. resolve (system_memory s) (lpuart_addr ! i + off) = Some (Lpuart_regs i, off)) \<and>
    (\<forall>i<6. \<forall>off<0x4000. resolve (system_memory s) (lpspi_addr ! i + off) = Some (Lpspi_regs i, off)) \<and>
    (\<forall>off<0x400. resolve (system_memory s) (0x40013800 + off) = Some (Syscfg_regs, off)) \<and>
    (\<forall>off<0x20000. resolve (system_memory s) (DTCM_BASE_ADDRESS + off) = Some (Ram ''dtcm'', off)) \<and>
    (\<forall>off<0x40000. resolve (system_memory s) (SRAM_BASE_ADDRESS + off) = Some (Ram ''sram_0'', off))"
proof -
  have r: "resolve board_memory (b + off) = Some (k, off)"
    if "main_region k b n \<in> set main_memory" "off < n" for k b n off
    using board_resolve [OF that(1)] that(2) by (simp add: main_region_def)
  have "main_region Syscfg_regs 0x40013800 0x400 \<in> set main_memory"
    "main_region (Ram ''dtcm'') DTCM_BASE_ADDRESS 0x20001 \<in> set main_memory"
    "main_region (Ram ''sram_0'') SRAM_BASE_ADDRESS 0x40000 \<in> set main_memory"
    by (simp_all add: main_memory_eq reg_simps)
  from r [OF this(1)] r [OF this(2)] r [OF this(3)] r [OF lpuart_region_mem] r [OF lpspi_region_mem] show ?thesis
    using discovery_init_eq [of armv7m_realize ser blocks rand srand_time g, OF assms] by (auto simp: board_def)
qed

theorem board_address_map_witness:
  "\<exists>s. nxp_s32k358discovery_init (\<lambda>_. Inr ()) (\<lambda>_. None) (\<lambda>_. (replicate 16 0, replicate 16 0))
      (\<lambda>n. (n, n + 1)) id (0 :: nat) = Inr s \<and>
    resolve (system_memory s) 0x40358064 = Some (Lpspi_regs 0, 0x64)"
proof -
  have a: "lpspi_addr ! 0 + 0x64 = 0x40358064" by (simp add: lpspi_addr_def c_array_def)
  show ?thesis
    using board_address_map [of "\<lambda>_. Inr ()" "\<lambda>_. None" "\<lambda>_. (replicate 16 0, replicate 16 0)" "\<lambda>n. (n, n + 1)" id "0 :: nat"]
    by (auto simp flip: a)
qed

text \<open>
  C40. The interrupt lines of the board as its start-up code wires them: the SPI controllers are wired to
  the interrupts from 165 on and the first seven UARTs to those from 141 on, each to its own and to no other;
  but the table of UART interrupts has only seven entries, so UARTs 7 to 15 are all wired to
  interrupt 0.
\<close>

theorem board_irq_wires:
  assumes "armv7m_realize cpu_up = Inr ()"
  shows "\<exists>s. nxp_s32k358discovery_init armv7m_realize ser blocks rand srand_time g = Inr s \<and>
    irq_wires s = map (\<lambda>i. (Lpuart_irq i, if i < 7 then 141 + i else 0)) [0..<16] @ map (\<lambda>i. (Lpspi_irq i, 165 + i)) [0..<6]"
proof -
  have "map (\<lambda>i. (Lpuart_irq i, lpuart_irqs ! i)) [0..<16] = map (\<lambda>i. (Lpuart_irq i, if i < 7 then 141 + i else 0)) [0..<16]"
    "map (\<lambda>i. (Lpspi_irq i, lpspi_irqs ! i)) [0..<6] = map (\<lambda>i. (Lpspi_irq i, 165 + i)) [0..<6]"
    by code_simp+
  then show ?thesis using discovery_init_eq [of armv7m_realize ser blocks rand srand_time g, OF assms] by (simp add: board_def del: upt_rec_numeral)
qed

theorem board_irq_wires_witness:
  "\<exists>s. nxp_s32k358discovery_init (\<lambda>_. Inr ()) (\<lambda>_. None) (\<lambda>_. (replicate 16 0, replicate 16 0)) (\<lambda>n. (n, n + 1)) id (0 :: nat) = Inr s \<and>
    (Lpspi_irq 0, 165) \<in> set (irq_wires s) \<and> (Lpuart_irq 9, 0) \<in> set (irq_wires s) \<and> (Lpuart_irq 10, 0) \<in> set (irq_wires s)"
  using board_irq_wires [of "\<lambda>_. Inr ()" "\<lambda>_. None" "\<lambda>_. (replicate 16 0, replicate 16 0)" "\<lambda>n. (n, n + 1)" id "0 :: nat"]
  by (auto simp: image_iff)

section \<open>Configuring a controller from reset\<close>

lemma lpspi_configure:
  assumes "lpspi_base s"
  shows "\<exists>s1 s2. nxps32k358_lpspi_write (reset_of s) 0x60 7 = Inr s1 \<and> nxps32k358_lpspi_write s1 0x10 1 = Inr s2 \<and>
    lpspi_ready s2 \<and> rx_bytes s2 = [] \<and> frame_len s2 = 1 \<and> \<not> loopback s2 \<and> lpspi_ssi s1 = lpspi_ssi s \<and>
    lpspi_ssi s2 = lpspi_ssi s"
proof -
  let ?r = "(reset_of s)\<lparr>lpspi_tcr := 7, frame_size := tcr_frame_size 7, continuous_mode := False\<rparr>"
  have empty: "fifo_list (fifo8_reset (tx_fifo s)) = []" "fifo_list (fifo8_reset (rx_fifo s)) = []"
    using f8.reset_empty [of "tx_fifo s"] f8.reset_empty [of "rx_fifo s"] assms by (simp_all add: lpspi_base_def)
  have n: "1 \<le> num_cs_lines s" using assms by (simp add: lpspi_base_def)
  have wf: "lpspi_wf ?r"
    using lpspi_wf_reset_of [OF assms] n by (simp add: lpspi_wf_def tcr_ok_def tcr_byte)
  have "nxps32k358_lpspi_write (reset_of s) 0x60 7 = Inr (irq_of ?r)"
    using lpspi_clock_then [OF wf, of "Inr (irq_of ?r)"] lpspi_update_irq_eq [OF wf]
    by (simp add: nxps32k358_lpspi_write_def Let_def reset_of_def reg_simps)
  moreover have wf2: "lpspi_wf ((irq_of ?r)\<lparr>lpspi_cr := 1\<rparr>)" using wf by simp
  then have "nxps32k358_lpspi_write (irq_of ?r) 0x10 1 = Inr (irq_of ((irq_of ?r)\<lparr>lpspi_cr := 1\<rparr>))"
    by (simp add: nxps32k358_lpspi_write_def Let_def lpspi_update_irq_eq reg_simps)
  ultimately show ?thesis
    using wf2 empty
    by (simp add: lpspi_ready_def tcr_byte loopback_def reset_of_def LPSPI_CR_MEN_def del: length_fifo_list)
qed

section \<open>Accesses of the processor to an SPI controller\<close>

definition on_board :: "'g soc \<Rightarrow> bool" where
  "on_board s \<longleftrightarrow> system_memory s = board_memory \<and> length (lpspis s) = 6"

lemma on_board_put [simp]: "on_board (soc_put_lpspi k d s) \<longleftrightarrow> on_board s"
  by (simp add: on_board_def soc_put_lpspi_def)

lemma soc_store_lpspi:
  assumes "on_board s" "k < 6" "off < 0x4000"
    and "nxps32k358_lpspi_write (with_host (host s) (lpspis s ! k)) off v = Inr d"
  shows "soc_store (lpspi_addr ! k + off) v s = Inr (Some (soc_put_lpspi k d s))"
  using assms lpspi_resolve [OF assms(2,3)] by (simp add: soc_store_def on_board_def)

lemma soc_load_lpspi:
  assumes "on_board s" "k < 6" "off < 0x4000"
    and "nxps32k358_lpspi_read (with_host (host s) (lpspis s ! k)) off = Inr (x, d)"
  shows "soc_load (lpspi_addr ! k + off) s = Inr (Some (x, soc_put_lpspi k d s))"
  using assms lpspi_resolve [OF assms(2,3)] by (simp add: soc_load_def on_board_def)

lemma with_host_put [simp]:
  "on_board s \<Longrightarrow> k < 6 \<Longrightarrow> with_host (host (soc_put_lpspi k d s)) (lpspis (soc_put_lpspi k d s) ! k) = d"
  by (simp add: on_board_def soc_put_lpspi_def with_host_def)

lemma reset_of_ssi [simp]: "lpspi_ssi (reset_of d) = lpspi_ssi d"
  by (simp add: reset_of_def)

lemma with_host_reset: "with_host g (reset_of d) = reset_of (with_host g d)"
  by (simp add: with_host_def reset_of_def)

lemma lpspi_base_with_host [simp]: "lpspi_base (with_host g d) \<longleftrightarrow> lpspi_base d"
  by (simp add: lpspi_base_def with_host_def)

lemma reset_loop:
  assumes "\<forall>i < length (lpspis s). lpspi_base (lpspis s ! i)"
  shows "n \<le> length (lpspis s) \<Longrightarrow> foldE soc_reset_lpspi [0..<n] s =
    Inr (s\<lparr>lpspis := map (\<lambda>i. reset_of (lpspis s ! i)) [0..<n] @ drop n (lpspis s)\<rparr>)"
proof (induction n)
  case (Suc n)
  let ?us = "map (\<lambda>i. reset_of (lpspis s ! i)) [0..<n] @ drop n (lpspis s)"
  have n: "n < length (lpspis s)" using Suc.prems by simp
  have us: "?us ! n = lpspis s ! n" "length ?us = length (lpspis s)" using n by (simp_all add: nth_append)
  have upd: "?us[n := reset_of (lpspis s ! n)] = map (\<lambda>i. reset_of (lpspis s ! i)) [0..<Suc n] @ drop (Suc n) (lpspis s)"
    by (rule list_update_prefix [OF n])
  have "soc_reset_lpspi n (s\<lparr>lpspis := ?us\<rparr>) = Inr (s\<lparr>lpspis := ?us[n := reset_of (lpspis s ! n)]\<rparr>)"
    using us n assms by (simp add: soc_reset_lpspi_def lpspi_do_reset_eq)
  then show ?case using Suc unfolding upd by (simp add: foldE_append)
qed simp

lemma board_lpspi_base:
  assumes "length (fst (blocks i)) = 16" "length (snd (blocks i)) = 16"
  shows "lpspi_base (board_lpspi blocks rand srand_time g i)"
  using assms fifo8_create_refines [of "fst (blocks i)" 16] fifo8_create_refines [of "snd (blocks i)" 16]
  by (auto simp: lpspi_base_def board_lpspi_def nxps32k358_lpspi_init_def fifo8_create_def fifo8_reset_def)

lemma board_reset:
  assumes "\<forall>i<6. length (fst (blocks i)) = 16 \<and> length (snd (blocks i)) = 16"
  shows "\<exists>s. soc_reset (board ser blocks rand srand_time g) = Inr s \<and> on_board s \<and> host s = (srand_time ^^ 6) g \<and>
    (\<forall>i<6. lpspis s ! i = reset_of (board_lpspi blocks rand srand_time g i))"
proof -
  let ?s = "(board ser blocks rand srand_time g)\<lparr>
      syscfg_dev := nxps32k358_syscfg_hold_reset (syscfg_dev (board ser blocks rand srand_time g)),
      lpuarts := map nxps32k358_lpuart_reset (lpuarts (board ser blocks rand srand_time g))\<rparr>"
  have sp: "lpspis ?s = map (board_lpspi blocks rand srand_time g) [0..<6]" by (simp add: board_def)
  have base: "\<forall>i<6. lpspi_base (board_lpspi blocks rand srand_time g i)"
    using assms by (intro allI impI board_lpspi_base) simp_all
  have "foldE soc_reset_lpspi [0..<6] ?s = Inr (?s\<lparr>lpspis := map (\<lambda>i. reset_of (lpspis ?s ! i)) [0..<6]\<rparr>)"
    using reset_loop [of ?s 6] base unfolding sp by simp
  then have "soc_reset (board ser blocks rand srand_time g) = Inr (?s\<lparr>lpspis := map (\<lambda>i. reset_of (lpspis ?s ! i)) [0..<6]\<rparr>)"
    by (simp add: soc_reset_def NXP_NUM_LPSPIS_def)
  then show ?thesis using sp by (simp add: on_board_def board_def)
qed

end
