(* ===== verification/Lpspi_Ip_Board.thy ===== *)
theory Lpspi_Ip_Board
  imports Lpspi_Ip_Port Soc_Correct
begin

text \<open>
  The emulated board keeps the contract of \<^verbatim>\<open>spi_port\<close>: what the SPI driver stores to and loads
  from the registers of a controller goes through the board's address map to the model of
  \<^verbatim>\<open>nxps32k358_lpspi.c\<close> and the bus with the speed sensor behind it.
\<close>

unbundle bit_operations_syntax

section \<open>The controller\<close>

lemma flush_config:
  assumes "lpspi_wf s" "lpspi_flush_txfifo s = Inr s'"
  shows "lpspi_cr s' = lpspi_cr s" "lpspi_cfgr1 s' = lpspi_cfgr1 s"
proof -
  have "lpspi_cr s' = lpspi_cr s \<and> lpspi_cfgr1 s' = lpspi_cfgr1 s"
  proof (cases "can_transfer s")
    case False
    with assms show ?thesis by (simp add: lpspi_flush_blocked)
  next
    case True
    then obtain x where x: "s' = irq_of (flush_end (status_of x))" "moved (flush_start s) x"
      using lpspi_flush_eq [OF assms(1)] assms(2) by auto
    have "lpspi_cr (flush_end y) = lpspi_cr y" "lpspi_cfgr1 (flush_end y) = lpspi_cfgr1 y" for y :: "('a, 'b) lpspi"
      by (simp_all add: flush_end_def)
    moreover have "lpspi_cr (flush_start s) = lpspi_cr s" "lpspi_cfgr1 (flush_start s) = lpspi_cfgr1 s" by (simp_all add: flush_start_def)
    ultimately show ?thesis using x moved_fields(2,3) [OF x(2)] by simp
  qed
  then show "lpspi_cr s' = lpspi_cr s" "lpspi_cfgr1 s' = lpspi_cfgr1 s" by simp_all
qed

lemma tdr_config:
  assumes wf: "lpspi_wf s" and w: "nxps32k358_lpspi_write s addr v = Inr s'" and reg: "lpspi_decode addr = Some TDR"
  shows "lpspi_cr s' = lpspi_cr s \<and> lpspi_cfgr1 s' = lpspi_cfgr1 s"
proof (cases "lpspi_cr s AND LPSPI_CR_MEN \<noteq> 0 \<and> frame_len s \<le> fifo8_num_free (tx_fifo s)")
  case False
  with wf reg w show ?thesis by (auto simp: nxps32k358_lpspi_write_def Let_def lpspi_update_irq_eq split: if_splits)
next
  case True
  note d = lpspi_wfD [OF wf]
  have "length (tx_bytes s) + frame_len s \<le> 16"
    using True d by (auto simp: f8.free_length simp del: length_fifo_list)
  then obtain f where f: "lpspi_push_tx (lpspi_lsbf (lpspi_tcr s)) (frame_len s) v (tx_fifo s) = Inr f" "fifo8_wf f" "fifo_capacity f = 16"
    using lpspi_push_tx_eq [OF d(1)] d(3) by metis
  have wf1: "lpspi_wf (s\<lparr>tx_fifo := f\<rparr>)" using lpspi_wf_tx [OF wf f(2,3)] .
  then obtain s2 where s2: "lpspi_flush_txfifo (s\<lparr>tx_fifo := f\<rparr>) = Inr s2" "lpspi_wf s2" using lpspi_flush_total by blast
  then have "s' = irq_of s2" using True reg w f(1) by (simp add: nxps32k358_lpspi_write_def Let_def lpspi_update_irq_eq)
  then show ?thesis using flush_config [OF wf1 s2(1)] by simp
qed

lemma read_config:
  assumes wf: "lpspi_wf s" and r: "nxps32k358_lpspi_read s addr = Inr (v, s')"
  shows "lpspi_cr s' = lpspi_cr s \<and> lpspi_cfgr1 s' = lpspi_cfgr1 s"
proof -
  have wf1: "lpspi_wf (status_of s)" using wf by simp
  obtain w f where f: "fifo_pop_frame (lpspi_lsbf (lpspi_tcr (status_of s))) (frame_len (status_of s)) (rx_fifo (status_of s)) =
      Inr (w, f)" "fifo8_wf f" "fifo_capacity f = 16"
    using fifo_pop_frame_eq [OF lpspi_wfD(2) [OF wf1]] lpspi_wfD(4) [OF wf1] by metis
  have wf2: "lpspi_wf ((status_of s)\<lparr>rx_fifo := f, lpspi_rdr := w\<rparr>)"
    using lpspi_wf_rx [OF wf1 f(2,3)] by simp
  show ?thesis
    using r wf f(1) lpspi_update_status_eq [OF wf2]
    by (auto simp: nxps32k358_lpspi_read_def lpspi_update_status_eq split: option.splits lpspi_reg.splits if_splits)
qed

text \<open>What the controller's state stands for.\<close>

definition port_state :: "('p, 'g) lpspi \<Rightarrow> bool \<Rightarrow> u32 \<Rightarrow> u8 list \<Rightarrow> ('p, 'g) SSIBus \<Rightarrow> bool" where
  "port_state s en c rx b \<longleftrightarrow> lpspi_wf s \<and> tx_bytes s = [] \<and> rx_bytes s = rx \<and> bit (lpspi_cr s) 0 = en \<and>
     \<not> bit (lpspi_cr s) 1 \<and> \<not> bit (lpspi_cr s) 8 \<and> \<not> bit (lpspi_cr s) 9 \<and> lpspi_tcr s = c \<and> lpspi_ssi s = b \<and> \<not> loopback s"

definition byte_command :: "u32 \<Rightarrow> bool" where
  "byte_command c \<longleftrightarrow> bytes_per_frame c = 1 \<and> tcr_pcs c = 0 \<and> \<not> tcr_rxmsk c"

definition bus_config :: "u32 \<Rightarrow> bool" where
  "bus_config v \<longleftrightarrow> drop_bit 8 v AND 3 \<noteq> 1"

definition bus_exchange :: "('p, 'g) SSIBus \<Rightarrow> u8 \<Rightarrow> u8 \<times> ('p, 'g) SSIBus" where
  "bus_exchange b x = (let (r, b) = ssi_transfer b (ucast x) in (ucast r, b))"

lemma port_state_irq [simp]:
  "port_state (irq_of s) en c rx b \<longleftrightarrow> port_state s en c rx b" "port_state (status_of s) en c rx b \<longleftrightarrow> port_state s en c rx b"
  by (simp_all add: port_state_def loopback_def)

lemma decodes:
  "lpspi_decode 0x10 = Some CR" "lpspi_decode 0x14 = Some SR" "lpspi_decode 0x18 = Some IER" "lpspi_decode 0x1C = Some DER"
  "lpspi_decode 0x24 = Some CFGR1" "lpspi_decode 0x40 = Some CCR" "lpspi_decode 0x58 = Some FCR" "lpspi_decode 0x5C = Some FSR"
  "lpspi_decode 0x60 = Some TCR" "lpspi_decode 0x64 = Some TDR" "lpspi_decode 0x74 = Some RDR"
  by (simp_all add: lpspi_decode_def lpspi_offsets_def)

lemma port_reads:
  assumes "port_state s en c rx b"
  shows "nxps32k358_lpspi_read s 0x10 = Inr (lpspi_cr s, status_of s)" "\<exists>v. nxps32k358_lpspi_read s 0x14 = Inr (v, status_of s)"
    "nxps32k358_lpspi_read s 0x60 = Inr (c, status_of s)" "nxps32k358_lpspi_read s 0x24 = Inr (lpspi_cfgr1 s, status_of s)"
    "nxps32k358_lpspi_read s 0x5C = Inr (status_fsr s, status_of s)" "port_state (status_of s) en c rx b"
  using assms by (simp_all add: port_state_def nxps32k358_lpspi_read_def decodes lpspi_update_status_eq loopback_def) (simp_all add: status_of_def)

lemma port_count:
  assumes "port_state s en c rx b" and "byte_command c" and "length rx \<le> 4"
  shows "unat (drop_bit 16 (status_fsr s AND 0x70000)) = length rx"
proof -
  have "status_fsr s = push_bit 16 (of_nat (length rx))"
    using assms(1,2) by (simp add: status_fsr_def port_state_def byte_command_def del: length_fifo_list)
  moreover have "length rx = 0 \<or> length rx = 1 \<or> length rx = 2 \<or> length rx = 3 \<or> length rx = 4" using assms(3) by linarith
  ultimately show ?thesis by (elim disjE) simp_all
qed

lemma port_read_empty:
  assumes "port_state s en c [] b"
  shows "nxps32k358_lpspi_read s 0x74 = Inr (0, status_of s)"
proof -
  have wf: "lpspi_wf s" "rx_bytes s = []" using assms by (simp_all add: port_state_def)
  have "fifo8_num_used (rx_fifo s) = 0" using f8.used_length lpspi_wfD(2) [OF wf(1)] wf(2) by (metis list.size(3))
  then show ?thesis using wf(1) by (simp add: nxps32k358_lpspi_read_def decodes lpspi_update_status_eq)
qed

lemma port_read_frame:
  assumes "port_state s en c (x # rx) b" and "byte_command c"
  shows "\<exists>s'. nxps32k358_lpspi_read s 0x74 = Inr (ucast x, s') \<and> port_state s' en c rx b"
proof -
  have p: "lpspi_wf s" "rx_bytes s = x # rx" "lpspi_tcr s = c" "bytes_per_frame c = 1" using assms by (simp_all add: port_state_def byte_command_def)
  obtain s' where s': "nxps32k358_lpspi_read s 0x74 = Inr (frame_word (lpspi_lsbf c) 1 [x], s')" "lpspi_wf s'" "rx_bytes s' = rx" "tx_bytes s' = tx_bytes s"
      "lpspi_tcr s' = c" "lpspi_ssi s' = lpspi_ssi s"
    using lpspi_rdr_read [OF p(1) decodes(11)] p(2-4) by auto
  have "frame_word (lpspi_lsbf c) 1 [x] = ucast x" by (simp add: frame_word_def byte_shift_def)
  then show ?thesis using s' read_config [OF p(1) s'(1)] assms(1) by (auto simp: port_state_def loopback_def)
qed

lemma port_reset:
  assumes "lpspi_base s"
  shows "port_state (reset_of s) False (lpspi_tcr (reset_of s)) [] (lpspi_ssi s)"
  using assms lpspi_wf_reset_of [OF assms] f8.reset_empty [of "rx_fifo s"] f8.reset_empty [of "tx_fifo s"]
  by (simp add: port_state_def reset_of_def loopback_def lpspi_base_def)

lemma port_write_CR:
  assumes "port_state s en c rx b"
  shows "\<not> bit (v :: u32) 1 \<Longrightarrow> \<exists>s'. nxps32k358_lpspi_write s 0x10 (ucast v) = Inr s' \<and> port_state s' (bit v 0) c (if bit v 9 then [] else rx) b"
    "bit v 1 \<Longrightarrow> \<exists>s' c'. nxps32k358_lpspi_write s 0x10 (ucast v) = Inr s' \<and> port_state s' False c' [] b"
proof -
  note p = assms [unfolded port_state_def]
  have cr: "(v AND LPSPI_CR_RST \<noteq> 0) = bit v 1" "(v AND LPSPI_CR_RTF \<noteq> 0) = bit v 8" "(v AND LPSPI_CR_RRF \<noteq> 0) = bit v 9"
    by (simp_all add: LPSPI_CR_RST_def LPSPI_CR_RTF_def LPSPI_CR_RRF_def bit_iff_and_push_bit_not_eq_0)
  have uc: "(ucast (ucast v :: u64) :: u32) = v" by (rule bit_word_eqI) (simp add: bit_ucast_iff)
  show "\<exists>s'. nxps32k358_lpspi_write s 0x10 (ucast v) = Inr s' \<and> port_state s' (bit v 0) c (if bit v 9 then [] else rx) b" if "\<not> bit v 1"
  proof -
    define s1 where "s1 = (if v AND LPSPI_CR_RTF \<noteq> 0 then s\<lparr>tx_fifo := fifo8_reset (tx_fifo s), lpspi_sr := lpspi_sr s OR LPSPI_SR_TDF\<rparr> else s)"
    define s2 where "s2 = (if v AND LPSPI_CR_RRF \<noteq> 0 then s1\<lparr>rx_fifo := fifo8_reset (rx_fifo s1), lpspi_rsr := lpspi_rsr s1 OR LPSPI_RSR_RXEMPTY\<rparr> else s1)"
    define s3 where "s3 = s2\<lparr>lpspi_cr := v AND NOT (LPSPI_CR_RST OR LPSPI_CR_RTF OR LPSPI_CR_RRF)\<rparr>"
    have "lpspi_wf s1 \<and> tx_bytes s1 = [] \<and> rx_bytes s1 = rx" using p f8.reset_empty [of "tx_fifo s"] by (auto simp: s1_def lpspi_wf_def)
    then have "lpspi_wf s2 \<and> tx_bytes s2 = [] \<and> rx_bytes s2 = (if bit v 9 then [] else rx)"
      using f8.reset_empty [of "rx_fifo s1"] cr(3) by (auto simp: s2_def lpspi_wf_def)
    moreover have "bit (lpspi_cr s3) 0 = bit v 0" "\<not> bit (lpspi_cr s3) 1" "\<not> bit (lpspi_cr s3) 8" "\<not> bit (lpspi_cr s3) 9"
      by (simp_all add: s3_def bit_and_iff bit_not_iff bit_or_iff LPSPI_CR_RST_def LPSPI_CR_RTF_def LPSPI_CR_RRF_def)
    ultimately have s3: "port_state s3 (bit v 0) c (if bit v 9 then [] else rx) b"
      using p by (simp add: port_state_def s3_def s2_def s1_def loopback_def)
    have "nxps32k358_lpspi_write s 0x10 (ucast v) = lpspi_update_irq s3"
      using that cr(1) by (simp add: nxps32k358_lpspi_write_def decodes uc Let_def s3_def s2_def s1_def)
    moreover have "lpspi_wf s3" using s3 by (simp add: port_state_def)
    ultimately show ?thesis using s3 by (simp add: lpspi_update_irq_eq)
  qed
  show "\<exists>s' c'. nxps32k358_lpspi_write s 0x10 (ucast v) = Inr s' \<and> port_state s' False c' [] b" if "bit v 1"
  proof -
    have base: "lpspi_base s" using p by (simp add: lpspi_wf_base)
    have "nxps32k358_lpspi_write s 0x10 (ucast v) = Inr (reset_of s)"
      using that cr(1) base by (simp add: nxps32k358_lpspi_write_def decodes uc lpspi_do_reset_eq)
    moreover have "port_state (reset_of s) False (lpspi_tcr (reset_of s)) [] b" using port_reset [OF base] p by simp
    ultimately show ?thesis by blast
  qed
qed

lemma ucast_wide [simp]: "(ucast (ucast (v :: u32) :: u64) :: u32) = v"
  by (rule bit_word_eqI) (simp add: bit_ucast_iff)

lemma port_write_other:
  assumes "port_state s en c rx b" and "off \<in> {0x14, 0x18, 0x1C, 0x40, 0x58}"
  shows "\<exists>s'. nxps32k358_lpspi_write s off (ucast (v :: u32)) = Inr s' \<and> port_state s' en c rx b"
proof -
  have wf: "lpspi_wf s" using assms(1) by (simp add: port_state_def)
  have wf1: "lpspi_wf (s\<lparr>lpspi_fcr := x, tx_watermark := y, rx_watermark := z\<rparr>)" for x y z using wf by (simp add: lpspi_wf_def)
  show ?thesis
    using assms(2) by (elim insertE emptyE)
      (use assms(1) wf1 in \<open>simp_all add: nxps32k358_lpspi_write_def decodes lpspi_update_irq_eq lpspi_update_status_eq lpspi_clock_then port_state_def loopback_def\<close>)
qed

lemma port_write_CFGR1:
  assumes "port_state s en c rx b" and "bus_config v"
  shows "\<exists>s'. nxps32k358_lpspi_write s 0x24 (ucast v) = Inr s' \<and> port_state s' en c rx b"
  using assms by (simp add: nxps32k358_lpspi_write_def decodes lpspi_update_irq_eq lpspi_clock_then port_state_def bus_config_def loopback_def)

lemma port_write_TCR:
  assumes "port_state s en c rx b" and "byte_command v"
  shows "\<exists>s'. nxps32k358_lpspi_write s 0x60 (ucast v) = Inr s' \<and> port_state s' en v rx b"
proof -
  define s1 where "s1 = s\<lparr>lpspi_tcr := v, frame_size := tcr_frame_size v, continuous_mode := (v AND (TCR_CONT OR TCR_CONTC) \<noteq> 0)\<rparr>"
  have wf: "lpspi_wf s1" using assms by (auto simp: s1_def port_state_def byte_command_def lpspi_wf_def tcr_ok_def)
  have e: "fifo8_is_empty (tx_fifo s1)" using assms(1) f8.empty_iff [of "tx_fifo s"] by (auto simp: s1_def port_state_def dest: lpspi_wfD)
  have "nxps32k358_lpspi_write s 0x60 (ucast v) = Inr (irq_of s1)"
    using e wf lpspi_clock_then [OF wf, of "Inr (irq_of s1)"] by (simp add: nxps32k358_lpspi_write_def decodes lpspi_update_irq_eq s1_def)
  moreover have "port_state s1 en v rx b" using assms(1) wf by (simp add: s1_def port_state_def loopback_def)
  ultimately show ?thesis by simp
qed

lemma port_write_TDR:
  assumes "port_state s True c rx b" and "byte_command c" and "length rx < 16" and "bus_exchange b x = (y, b')"
  shows "\<exists>s'. nxps32k358_lpspi_write s 0x64 (ucast (ucast x :: u32)) = Inr s' \<and> port_state s' True c (rx @ [y]) b'"
proof -
  let ?v = "ucast (ucast x :: u32) :: u64"
  have p: "lpspi_wf s" "lpspi_cr s AND LPSPI_CR_MEN \<noteq> 0" "tx_bytes s = []" "\<not> rx_masked s" "frame_len s = 1" "length (rx_bytes s) + frame_len s \<le> 16"
    using assms(1-3) by (auto simp: port_state_def byte_command_def LPSPI_CR_MEN_def bit_iff_and_push_bit_not_eq_0 simp del: length_fifo_list)
  obtain s' where s': "nxps32k358_lpspi_write s 0x64 ?v = Inr s'" "lpspi_wf s'" "tx_bytes s' = []"
      "rx_bytes s' = rx_bytes s @ frame_bytes (lpspi_lsbf c) 1 (fst (lpspi_reply s ?v))" "lpspi_ssi s' = snd (lpspi_reply s ?v)" "lpspi_tcr s' = c"
    using lpspi_tdr_exchange [OF p(1) decodes(10) p(2,3), of ?v] p(4-6) assms(1) by (auto simp: port_state_def)
  have tb: "take_bit 8 (ucast ?v :: u32) = ucast x" by (rule bit_word_eqI) (auto simp: bit_take_bit_iff bit_ucast_iff dest: bit_imp_le_length)
  have "lpspi_reply s ?v = ssi_transfer b (ucast x)"
    using assms(1) p(5) tb by (simp add: lpspi_reply_def exchange_def port_state_def)
  then have "ucast (fst (lpspi_reply s ?v)) = y" "snd (lpspi_reply s ?v) = b'" using assms(4) by (simp_all add: bus_exchange_def Let_def case_prod_beta)
  moreover have "frame_bytes (lpspi_lsbf c) 1 w = [ucast w]" for w :: u32 by (simp add: frame_bytes_def byte_shift_def byte_mask)
  ultimately show ?thesis
    using s' tdr_config [OF p(1) s'(1) decodes(10)] assms(1) by (auto simp: port_state_def loopback_def)
qed

section \<open>The board\<close>

text \<open>
  The driver's environment on the emulated board: loads and stores of the processor at physical
  addresses. An access that reaches no device is a bus fault.
\<close>

definition board_port :: "lpspi_header \<Rightarrow> 'g soc spi_env" where
  "board_port H = \<lparr>LPSPI_INSTANCE_COUNT = LPSPI_INSTANCE_COUNT H, hdr_base = hdr_base H, hdr_offset = hdr_offset H, hdr_shift = hdr_shift H,
     hdr_mask = hdr_mask H, DevAssert = DevAssert H, ERR_IPV_LPSPIV2_0001 = ERR_IPV_LPSPIV2_0001 H,
     env_load = (\<lambda>a s. rbind (soc_load a s) (\<lambda>x. case x of None \<Rightarrow> Inl (ErrorSet ''bus fault'') | Some y \<Rightarrow> Inr y)),
     env_store = (\<lambda>a v s. rbind (soc_store a (ucast v) s) (\<lambda>x. case x of None \<Rightarrow> Inl (ErrorSet ''bus fault'') | Some y \<Rightarrow> Inr y))\<rparr>"

definition documented_offsets :: "(lpspi_reg \<times> nat) list" where
  "documented_offsets = [(CR, 0x10), (SR, 0x14), (IER, 0x18), (DER, 0x1C), (CFGR1, 0x24), (CCR, 0x40), (FCR, 0x58), (FSR, 0x5C),
     (TCR, 0x60), (TDR, 0x64), (RDR, 0x74)]"

text \<open>What the reference manual says of the second controller: its address, its registers, their fields.\<close>

definition documented_header :: "lpspi_header \<Rightarrow> bool" where
  "documented_header H \<longleftrightarrow> 2 < LPSPI_INSTANCE_COUNT H \<and> hdr_base H 2 = 0x40360000 \<and> DevAssert H True = Inr () \<and>
     list_all (\<lambda>(r, off). hdr_offset H r = off) documented_offsets \<and>
     list_all (\<lambda>(f, n, w). hdr_shift H f = n \<and> hdr_mask H f = w) documented_fields"

definition soc_port :: "nat \<Rightarrow> 'g soc \<Rightarrow> bool \<Rightarrow> u32 \<Rightarrow> u8 list \<Rightarrow> (MotorSpeedSensor, 'g) SSIBus \<Rightarrow> bool" where
  "soc_port k s en c rx b \<longleftrightarrow> on_board s \<and> port_state (with_host (host s) (lpspis s ! k)) en c rx b"

lemma soc_port_load:
  assumes "soc_port 2 s en c rx b" and "hdr_base H 2 = 0x40360000" and "hdr_offset H r = off" and "off < 0x4000"
    and "nxps32k358_lpspi_read (with_host (host s) (lpspis s ! 2)) off = Inr (v, d)" and "port_state d en' c' rx' b'"
  shows "env_load (board_port H) (hdr_base (board_port H) 2 + hdr_offset (board_port H) r) s = Inr (v, soc_put_lpspi 2 d s) \<and>
    soc_port 2 (soc_put_lpspi 2 d s) en' c' rx' b'"
proof -
  have a: "lpspi_addr ! 2 = 0x40360000" by (simp add: lpspi_addr_def c_array_def)
  have "on_board s" using assms(1) by (simp add: soc_port_def)
  then show ?thesis using soc_load_lpspi [of s 2 off v d] assms(2-6) a by (simp add: board_port_def soc_port_def)
qed

lemma soc_port_store:
  assumes "soc_port 2 s en c rx b" and "hdr_base H 2 = 0x40360000" and "hdr_offset H r = off" and "off < 0x4000"
    and "nxps32k358_lpspi_write (with_host (host s) (lpspis s ! 2)) off (ucast v) = Inr d" and "port_state d en' c' rx' b'"
  shows "env_store (board_port H) (hdr_base (board_port H) 2 + hdr_offset (board_port H) r) v s = Inr (soc_put_lpspi 2 d s) \<and>
    soc_port 2 (soc_put_lpspi 2 d s) en' c' rx' b'"
proof -
  have a: "lpspi_addr ! 2 = 0x40360000" by (simp add: lpspi_addr_def c_array_def)
  have "on_board s" using assms(1) by (simp add: soc_port_def)
  then show ?thesis using soc_store_lpspi [of s 2 off "ucast v" d] assms(2-6) a by (simp add: board_port_def soc_port_def)
qed

lemma soc_load_law:
  assumes "soc_port 2 s en c rx b" and "hdr_base H 2 = 0x40360000" and "hdr_offset H r = off" and "off < 0x4000"
    and "\<exists>v d. nxps32k358_lpspi_read (with_host (host s) (lpspis s ! 2)) off = Inr (v, d) \<and> port_state d en' c' rx' b' \<and> Q v"
  shows "\<exists>v s'. env_load (board_port H) (hdr_base (board_port H) 2 + hdr_offset (board_port H) r) s = Inr (v, s') \<and> soc_port 2 s' en' c' rx' b' \<and> Q v"
  using soc_port_load [OF assms(1-4)] assms(5) by blast

lemma soc_store_law:
  assumes "soc_port 2 s en c rx b" and "hdr_base H 2 = 0x40360000" and "hdr_offset H r = off" and "off < 0x4000"
    and "\<exists>d. nxps32k358_lpspi_write (with_host (host s) (lpspis s ! 2)) off (ucast v) = Inr d \<and> port_state d en' c' rx' b'"
  shows "\<exists>s'. env_store (board_port H) (hdr_base (board_port H) 2 + hdr_offset (board_port H) r) v s = Inr s' \<and> soc_port 2 s' en' c' rx' b'"
  using soc_port_store [OF assms(1-4)] assms(5) by blast

locale documented_board =
  fixes H :: lpspi_header
  assumes documented: "documented_header H"
begin

lemma offsets:
  "hdr_base H 2 = 0x40360000" "hdr_offset H CR = 0x10" "hdr_offset H SR = 0x14" "hdr_offset H IER = 0x18" "hdr_offset H DER = 0x1C" "hdr_offset H CFGR1 = 0x24"
  "hdr_offset H CCR = 0x40" "hdr_offset H FCR = 0x58" "hdr_offset H FSR = 0x5C" "hdr_offset H TCR = 0x60" "hdr_offset H TDR = 0x64" "hdr_offset H RDR = 0x74"
  using documented by (simp_all add: documented_header_def documented_offsets_def)

end

sublocale documented_board \<subseteq> spi_port "board_port H" 2 "soc_port 2" byte_command bus_config bus_exchange
proof
  show "documented_layout (board_port H)" using documented by (simp add: documented_layout_def documented_header_def board_port_def)
  show "DevAssert (board_port H) True = Inr ()" using documented by (simp add: board_port_def documented_header_def)
  show "byte_command demo_command" "byte_command end_command"
    by (simp_all add: byte_command_def demo_command_def end_command_def bytes_per_frame_def tcr_frame_size_def tcr_pcs_def tcr_rxmsk_def reg_simps w8_def)
  show "bus_config 1" by (simp add: bus_config_def)
next
  fix m :: "'a soc" and en c rx b
  assume st: "soc_port 2 m en c rx b"
  then have P: "port_state (with_host (host m) (lpspis m ! 2)) en c rx b" by (simp add: soc_port_def)
  note L = soc_load_law [OF st offsets(1)] and W = soc_store_law [OF st offsets(1)]
  show "\<exists>v m'. env_load (board_port H) (hdr_base (board_port H) 2 + hdr_offset (board_port H) CR) m = Inr (v, m') \<and> soc_port 2 m' en c rx b \<and>
      bit v 0 = en \<and> \<not> bit v 1 \<and> \<not> bit v 8 \<and> \<not> bit v 9"
    by (rule L [OF offsets(2)]) (use port_reads(1,6) [OF P] P in \<open>simp_all add: port_state_def\<close>)
  show "\<exists>v m'. env_load (board_port H) (hdr_base (board_port H) 2 + hdr_offset (board_port H) SR) m = Inr (v, m') \<and> soc_port 2 m' en c rx b"
    using L [OF offsets(3), of en c rx b "\<lambda>_. True"] port_reads(2,6) [OF P] by fastforce
  show "\<exists>m'. env_load (board_port H) (hdr_base (board_port H) 2 + hdr_offset (board_port H) TCR) m = Inr (c, m') \<and> soc_port 2 m' en c rx b"
    using L [OF offsets(10), of en c rx b "\<lambda>v. v = c"] port_reads(3,6) [OF P] by simp
  show "\<exists>v m'. env_load (board_port H) (hdr_base (board_port H) 2 + hdr_offset (board_port H) CFGR1) m = Inr (v, m') \<and> soc_port 2 m' en c rx b \<and> bus_config v"
    by (rule L [OF offsets(6)]) (use port_reads(4,6) [OF P] P in \<open>simp_all add: bus_config_def port_state_def loopback_def\<close>)
  show "\<exists>v m'. env_load (board_port H) (hdr_base (board_port H) 2 + hdr_offset (board_port H) FSR) m = Inr (v, m') \<and> soc_port 2 m' en c rx b \<and>
      unat (drop_bit 16 (v AND 0x70000)) = length rx" if "byte_command c" "length rx \<le> 4"
    by (rule L [OF offsets(9)]) (use port_reads(5,6) [OF P] port_count [OF P that] in simp_all)
  show "\<exists>m'. env_store (board_port H) (hdr_base (board_port H) 2 + hdr_offset (board_port H) CR) v m = Inr m' \<and>
      soc_port 2 m' (bit v 0) c (if bit v 9 then [] else rx) b" if "\<not> bit v 1" for v
    by (rule W [OF offsets(2)]) (simp, rule port_write_CR(1) [OF P that])
  show "\<exists>m' c'. env_store (board_port H) (hdr_base (board_port H) 2 + hdr_offset (board_port H) CR) v m = Inr m' \<and> soc_port 2 m' False c' [] b" if "bit v 1" for v
    using W [OF offsets(2), of v False _ "[]" b] port_write_CR(2) [OF P that] by fastforce
  show "\<exists>m'. env_store (board_port H) (hdr_base (board_port H) 2 + hdr_offset (board_port H) r) v m = Inr m' \<and> soc_port 2 m' en c rx b"
    if "r \<in> {SR, CCR, DER, IER, FCR}" for r v
    by (rule W [OF refl]) (use that offsets in \<open>force, intro port_write_other [OF P], force\<close>)
  show "\<exists>m'. env_store (board_port H) (hdr_base (board_port H) 2 + hdr_offset (board_port H) CFGR1) v m = Inr m' \<and> soc_port 2 m' en c rx b" if "bus_config v" for v
    by (rule W [OF offsets(6)]) (simp, rule port_write_CFGR1 [OF P that])
  show "\<exists>m'. env_store (board_port H) (hdr_base (board_port H) 2 + hdr_offset (board_port H) TCR) v m = Inr m' \<and> soc_port 2 m' en v rx b" if "byte_command v" for v
    by (rule W [OF offsets(10)]) (simp, rule port_write_TCR [OF P that])
next
  fix m :: "'a soc" and en c b
  assume st: "soc_port 2 m en c [] b"
  then have P: "port_state (with_host (host m) (lpspis m ! 2)) en c [] b" by (simp add: soc_port_def)
  show "\<exists>v m'. env_load (board_port H) (hdr_base (board_port H) 2 + hdr_offset (board_port H) RDR) m = Inr (v, m') \<and> soc_port 2 m' en c [] b"
    using soc_load_law [OF st offsets(1,12), of en c "[]" b "\<lambda>_. True"] port_read_empty [OF P] port_reads(6) [OF P] by simp
next
  fix m :: "'a soc" and en c x rx b
  assume st: "soc_port 2 m en c (x # rx) b" and good: "byte_command c"
  then have P: "port_state (with_host (host m) (lpspis m ! 2)) en c (x # rx) b" by (simp add: soc_port_def)
  show "\<exists>m'. env_load (board_port H) (hdr_base (board_port H) 2 + hdr_offset (board_port H) RDR) m = Inr (ucast x, m') \<and> soc_port 2 m' en c rx b"
    using soc_load_law [OF st offsets(1,12), of en c rx b "\<lambda>v. v = ucast x"] port_read_frame [OF P good] by auto
next
  fix m :: "'a soc" and c rx b x y b'
  assume st: "soc_port 2 m True c rx b" and good: "byte_command c" "length rx < 16" "bus_exchange b x = (y, b')"
  then have P: "port_state (with_host (host m) (lpspis m ! 2)) True c rx b" by (simp add: soc_port_def)
  show "\<exists>m'. env_store (board_port H) (hdr_base (board_port H) 2 + hdr_offset (board_port H) TDR) (ucast x) m = Inr m' \<and> soc_port 2 m' True c (rx @ [y]) b'"
    by (rule soc_store_law [OF st offsets(1,11)]) (simp, rule port_write_TDR [OF P good])
qed

context documented_board
begin

lemma keeps_contract: "spi_port (board_port H) 2 (soc_port 2) byte_command bus_config bus_exchange"
  by (rule spi_port_axioms)

end

lemma board_is_port: "documented_header H \<Longrightarrow> spi_port (board_port H) 2 (soc_port 2) byte_command bus_config bus_exchange"
  by (rule documented_board.keeps_contract [OF documented_board.intro])

text \<open>A header with the documented values.\<close>

definition example_header :: "erratum \<Rightarrow> lpspi_header" where
  "example_header er = \<lparr>LPSPI_INSTANCE_COUNT = 6, hdr_base = (\<lambda>k. lpspi_addr ! k), hdr_offset = (\<lambda>r. the (map_of documented_offsets r)),
     hdr_shift = (\<lambda>f. case map_of documented_fields f of None \<Rightarrow> 0 | Some (n, _) \<Rightarrow> n),
     hdr_mask = (\<lambda>f. case map_of documented_fields f of None \<Rightarrow> 0 | Some (_, w) \<Rightarrow> w),
     DevAssert = (\<lambda>b. if b then Inr () else Inl AssertFailed), ERR_IPV_LPSPIV2_0001 = er\<rparr>"

lemma example_documented: "documented_header (example_header er)"
  by (simp add: documented_header_def example_header_def documented_offsets_def documented_fields_def lpspi_addr_def c_array_def)

interpretation example_board: documented_board "example_header er"
  by unfold_locales (rule example_documented)

end
