(* ===== verification/Heap_1.thy ===== *)
theory Heap_1
  imports Prelude
begin

text \<open>
  The firmware's memory allocator (\<^verbatim>\<open>Demo_FreeRTOS/FreeRTOS/Source/portable/MemMang/heap_1.c\<close>)
  with the heap size of \<^verbatim>\<open>FreeRTOSConfig.h\<close> and the alignment of the Cortex-M7 port. Sizes and
  addresses are 32 bits wide and wrap. The address the linker gives the array \<^verbatim>\<open>ucHeap\<close> is a
  parameter. The surrounding suspension of the scheduler does not touch the allocator's state.
\<close>

section \<open>The allocator\<close>

definition configTOTAL_HEAP_SIZE :: u32 where [reg_simps]:
  "configTOTAL_HEAP_SIZE = 8192"

definition portBYTE_ALIGNMENT :: u32 where [reg_simps]:
  "portBYTE_ALIGNMENT = 8"

definition portBYTE_ALIGNMENT_MASK :: u32 where [reg_simps]:
  "portBYTE_ALIGNMENT_MASK = 7"

definition configADJUSTED_HEAP_SIZE :: u32 where [reg_simps]:
  "configADJUSTED_HEAP_SIZE = configTOTAL_HEAP_SIZE - portBYTE_ALIGNMENT"

record heap1 =
  xNextFreeByte :: u32
  pucAlignedHeap :: "u32 option"

definition heap1_new :: heap1 where
  "heap1_new = \<lparr>xNextFreeByte = 0, pucAlignedHeap = None\<rparr>"

definition align_size :: "u32 \<Rightarrow> u32" where
  "align_size xWantedSize =
     (if xWantedSize AND portBYTE_ALIGNMENT_MASK \<noteq> 0 then
        if xWantedSize + (portBYTE_ALIGNMENT - (xWantedSize AND portBYTE_ALIGNMENT_MASK)) > xWantedSize
        then xWantedSize + (portBYTE_ALIGNMENT - (xWantedSize AND portBYTE_ALIGNMENT_MASK))
        else 0
      else xWantedSize)"

definition pvPortMalloc :: "u32 \<Rightarrow> u32 \<Rightarrow> heap1 \<Rightarrow> u32 option \<times> heap1" where
  "pvPortMalloc ucHeap xWantedSize h =
     (let xWantedSize = align_size xWantedSize;
          base = (case pucAlignedHeap h of
                    None \<Rightarrow> (ucHeap + (portBYTE_ALIGNMENT - 1)) AND NOT portBYTE_ALIGNMENT_MASK
                  | Some p \<Rightarrow> p);
          h = h\<lparr>pucAlignedHeap := Some base\<rparr>
      in if xWantedSize > 0 \<and> xNextFreeByte h + xWantedSize < configADJUSTED_HEAP_SIZE \<and>
            xNextFreeByte h + xWantedSize > xNextFreeByte h
         then (Some (base + xNextFreeByte h), h\<lparr>xNextFreeByte := xNextFreeByte h + xWantedSize\<rparr>)
         else (None, h))"

text \<open>Memory cannot be freed: the function only asserts that it is given a null pointer.\<close>

definition vPortFree :: "u32 option \<Rightarrow> heap1 \<Rightarrow> heap1 res" where
  "vPortFree pv h = rbind (c_assert (pv = None)) (\<lambda>_. Inr h)"

definition vPortInitialiseBlocks :: "heap1 \<Rightarrow> heap1" where
  "vPortInitialiseBlocks h = h\<lparr>xNextFreeByte := 0\<rparr>"

definition xPortGetFreeHeapSize :: "heap1 \<Rightarrow> u32" where
  "xPortGetFreeHeapSize h = configADJUSTED_HEAP_SIZE - xNextFreeByte h"

section \<open>Blocks are aligned, disjoint and inside the heap\<close>

lemma and_alignment_mask: "unat (w AND portBYTE_ALIGNMENT_MASK) = unat w mod 8"
proof -
  have m: "portBYTE_ALIGNMENT_MASK = mask 3" by (simp add: portBYTE_ALIGNMENT_MASK_def mask_eq_exp_minus_1)
  show ?thesis unfolding m take_bit_eq_mask [symmetric]
    by (simp only: unsigned_take_bit_eq) (simp add: take_bit_eq_mod)
qed

lemma and_not_alignment_mask: "unat (w AND NOT portBYTE_ALIGNMENT_MASK) = unat w div 8 * 8"
proof -
  have "w - (w AND portBYTE_ALIGNMENT_MASK) = w AND NOT (w AND portBYTE_ALIGNMENT_MASK)"
    by (rule disjunctive_diff) (simp add: bit_and_iff)
  then have "w AND NOT portBYTE_ALIGNMENT_MASK = w - (w AND portBYTE_ALIGNMENT_MASK)"
    by (auto simp: bit_eq_iff bit_and_iff bit_not_iff bit_or_iff)
  moreover have "(w AND portBYTE_ALIGNMENT_MASK) \<le> w" by (simp add: word_le_nat_alt and_alignment_mask)
  ultimately show ?thesis by (simp add: unat_sub and_alignment_mask minus_mod_eq_div_mult)
qed

lemma unat_add: "unat (a + b) = (unat a + unat b) mod 2 ^ 32" for a b :: u32
  by (simp add: unat_word_ariths)

lemma unat_lt: "unat a < 4294967296" for a :: u32
  using unsigned_less [where ?'a = nat, of a] by simp

definition round_up :: "nat \<Rightarrow> nat" where
  "round_up n = (n + 7) div 8 * 8"

lemma round_up_bounds: "n \<le> round_up n" "round_up n < n + 8" "8 dvd round_up n"
  by (auto simp: round_up_def) 

lemma round_up_eq:
  assumes "n mod 8 \<noteq> 0"
  shows "round_up n = n + (8 - n mod 8)"
proof -
  define q r where "q = n div 8" and "r = n mod 8"
  then have n: "n = 8 * q + r" "r < 8" by simp_all
  then have r: "n mod 8 = r" by simp
  then have "(n + 7) div 8 = q + 1" using assms n by (intro div_nat_eqI) simp_all
  with n r show ?thesis unfolding round_up_def by simp
qed

lemma align_size_unat: "unat (align_size n) = (if round_up (unat n) < 2 ^ 32 then round_up (unat n) else 0)"
proof (cases "unat n mod 8 = 0")
  case True
  then have "n AND portBYTE_ALIGNMENT_MASK = 0" using and_alignment_mask [of n] by (simp add: unat_eq_zero)
  moreover have "round_up (unat n) = unat n" using True unfolding round_up_def by presburger
  ultimately show ?thesis using unat_lt [of n] by (simp add: align_size_def)
next
  case False
  then have nz: "n AND portBYTE_ALIGNMENT_MASK \<noteq> 0" using and_alignment_mask [of n] by auto
  let ?d = "portBYTE_ALIGNMENT - (n AND portBYTE_ALIGNMENT_MASK)"
  have "n AND portBYTE_ALIGNMENT_MASK \<le> portBYTE_ALIGNMENT" using and_alignment_mask [of n] by (simp add: word_le_nat_alt portBYTE_ALIGNMENT_def)
  then have d: "unat ?d = 8 - unat n mod 8" by (simp add: unat_sub and_alignment_mask portBYTE_ALIGNMENT_def)
  have r: "round_up (unat n) = unat n + (8 - unat n mod 8)" using False by (rule round_up_eq)
  have "unat (n + ?d) = round_up (unat n) mod 2 ^ 32" by (simp add: unat_add d r)
  moreover have "round_up (unat n) \<le> 2 ^ 32"
    using div_le_mono [of "unat n + 7" 4294967302 8] unat_lt [of n] by (simp add: round_up_def)
  ultimately show ?thesis using nz r d unat_lt [of n]
    by (cases "round_up (unat n) = 2 ^ 32") (auto simp: align_size_def word_less_nat_alt)
qed

definition heap1_base :: "u32 \<Rightarrow> nat" where
  "heap1_base ucHeap = (unat ucHeap + 7) div 8 * 8"

definition heap1_wf :: "u32 \<Rightarrow> heap1 \<Rightarrow> bool" where
  "heap1_wf ucHeap h \<longleftrightarrow> unat (xNextFreeByte h) < 8184 \<and> 8 dvd unat (xNextFreeByte h) \<and>
     (\<forall>p. pucAlignedHeap h = Some p \<longrightarrow> unat p = heap1_base ucHeap)"

definition heap1_fits :: "u32 \<Rightarrow> bool" where
  "heap1_fits ucHeap \<longleftrightarrow> unat ucHeap + 8192 \<le> 2 ^ 32"

lemma aligned_heap:
  assumes "heap1_wf ucHeap h" and "heap1_fits ucHeap"
  shows "unat (case pucAlignedHeap h of None \<Rightarrow> (ucHeap + (portBYTE_ALIGNMENT - 1)) AND NOT portBYTE_ALIGNMENT_MASK | Some p \<Rightarrow> p) = heap1_base ucHeap"
  using assms by (auto simp: heap1_wf_def heap1_fits_def and_not_alignment_mask heap1_base_def unat_add portBYTE_ALIGNMENT_def split: option.splits)

text \<open>What a call does: it succeeds exactly when the rounded size still fits below the limit.\<close>

lemma malloc_cases:
  assumes "heap1_wf ucHeap h" and "heap1_fits ucHeap" and "pvPortMalloc ucHeap n h = (r, h')"
  shows "heap1_wf ucHeap h'"
    "0 < unat n \<and> unat (xNextFreeByte h) + round_up (unat n) < 8184 \<Longrightarrow>
       \<exists>p. r = Some p \<and> unat p = heap1_base ucHeap + unat (xNextFreeByte h) \<and>
           unat (xNextFreeByte h') = unat (xNextFreeByte h) + round_up (unat n)"
    "\<not> (0 < unat n \<and> unat (xNextFreeByte h) + round_up (unat n) < 8184) \<Longrightarrow> r = None \<and> xNextFreeByte h' = xNextFreeByte h"
proof -
  let ?next = "xNextFreeByte h"
  define w where "w = align_size n"
  define b where "b = (case pucAlignedHeap h of None \<Rightarrow> (ucHeap + (portBYTE_ALIGNMENT - 1)) AND NOT portBYTE_ALIGNMENT_MASK | Some p \<Rightarrow> p)"
  have b: "unat b = heap1_base ucHeap" unfolding b_def by (rule aligned_heap [OF assms(1,2)])
  have nx: "unat ?next < 8184" "8 dvd unat ?next" using assms(1) by (simp_all add: heap1_wf_def)
  have w: "unat w = (if round_up (unat n) < 2 ^ 32 then round_up (unat n) else 0)" unfolding w_def by (rule align_size_unat)
  have base: "heap1_base ucHeap \<le> unat ucHeap + 7" unfolding heap1_base_def by simp
  have pos: "0 < unat n \<longleftrightarrow> 0 < round_up (unat n)" using round_up_bounds(1) [of "unat n"] by (auto simp: round_up_def)
  have sum: "unat (?next + w) = (if unat ?next + unat w < 4294967296 then unat ?next + unat w else unat ?next + unat w - 4294967296)"
    using ring_index [of "unat ?next" 4294967296 "unat w"] nx(1) unat_lt [of w] by (simp add: unat_add)
  have ok: "(0 < w \<and> ?next + w < configADJUSTED_HEAP_SIZE \<and> ?next < ?next + w) \<longleftrightarrow>
      0 < unat n \<and> unat ?next + round_up (unat n) < 8184"
    using nx(1) w pos sum unat_lt [of w]
    by (auto simp: word_less_nat_alt configADJUSTED_HEAP_SIZE_def configTOTAL_HEAP_SIZE_def portBYTE_ALIGNMENT_def split: if_splits)
  have eq: "(r, h') = (if 0 < unat n \<and> unat ?next + round_up (unat n) < 8184
      then (Some (b + ?next), h\<lparr>pucAlignedHeap := Some b, xNextFreeByte := ?next + w\<rparr>) else (None, h\<lparr>pucAlignedHeap := Some b\<rparr>))"
    unfolding ok [symmetric] assms(3) [symmetric] pvPortMalloc_def Let_def b_def [symmetric] w_def [symmetric] by simp
  have pos2: "unat (b + ?next) = heap1_base ucHeap + unat ?next"
    using assms(2) base nx(1) b by (simp add: unat_add heap1_fits_def)
  show "heap1_wf ucHeap h'"
    using eq nx b w sum round_up_bounds(3) [of "unat n"] by (auto simp: heap1_wf_def split: if_splits)
  show "\<exists>p. r = Some p \<and> unat p = heap1_base ucHeap + unat ?next \<and> unat (xNextFreeByte h') = unat ?next + round_up (unat n)"
    if "0 < unat n \<and> unat ?next + round_up (unat n) < 8184"
    using eq that pos2 w sum by auto
  show "r = None \<and> xNextFreeByte h' = ?next" if "\<not> (0 < unat n \<and> unat ?next + round_up (unat n) < 8184)"
    using eq that by auto
qed

text \<open>The blocks a series of requests obtains, with the sizes asked for.\<close>

fun mallocs :: "u32 \<Rightarrow> u32 list \<Rightarrow> heap1 \<Rightarrow> (u32 \<times> u32) list \<times> heap1" where
  "mallocs ucHeap [] h = ([], h)"
| "mallocs ucHeap (n # ns) h =
     (let (r, h) = pvPortMalloc ucHeap n h; (bs, h) = mallocs ucHeap ns h
      in ((case r of None \<Rightarrow> bs | Some p \<Rightarrow> (p, n) # bs), h))"

lemma mallocs_blocks:
  assumes "heap1_wf ucHeap h" and "heap1_fits ucHeap" and "mallocs ucHeap ns h = (bs, h')"
  shows "sorted_wrt (\<lambda>(p, n) (q, m). unat p + unat n \<le> unat q) bs \<and>
    (\<forall>(p, n)\<in>set bs. 8 dvd unat p \<and> heap1_base ucHeap + unat (xNextFreeByte h) \<le> unat p \<and> unat p + unat n < heap1_base ucHeap + 8184)"
  using assms
proof (induction ns arbitrary: h bs)
  case (Cons n ns)
  obtain r h1 where m: "pvPortMalloc ucHeap n h = (r, h1)" by (cases "pvPortMalloc ucHeap n h")
  obtain cs where cs: "mallocs ucHeap ns h1 = (cs, h')" "bs = (case r of None \<Rightarrow> cs | Some p \<Rightarrow> (p, n) # cs)"
    using Cons.prems(3) m by (auto simp: Let_def split: prod.splits)
  note M = malloc_cases [OF Cons.prems(1,2) m]
  note IH = Cons.IH [OF M(1) Cons.prems(2) cs(1)]
  show ?case
  proof (cases "0 < unat n \<and> unat (xNextFreeByte h) + round_up (unat n) < 8184")
    case True
    then obtain p where p: "r = Some p" "unat p = heap1_base ucHeap + unat (xNextFreeByte h)"
        "unat (xNextFreeByte h1) = unat (xNextFreeByte h) + round_up (unat n)"
      using M(2) by blast
    have "8 dvd unat p" using p(2) Cons.prems(1) by (simp add: heap1_wf_def heap1_base_def)
    moreover have "unat p + unat n \<le> heap1_base ucHeap + unat (xNextFreeByte h1)"
      using p(2,3) round_up_bounds(1) [of "unat n"] by simp
    ultimately show ?thesis using p True IH cs(2) by auto
  next
    case False
    then show ?thesis using M(3) IH cs(2) by simp
  qed
qed simp

text \<open>
  C26. Allocations never overlap: whatever sizes the firmware asks for, the blocks it is given are
  aligned to eight bytes, lie inside the heap array, and each ends before the next one begins.
\<close>

theorem malloc_disjoint:
  assumes "heap1_fits ucHeap" and "mallocs ucHeap ns heap1_new = (bs, h')"
  shows "sorted_wrt (\<lambda>(p, n) (q, m). unat p + unat n \<le> unat q) bs \<and>
    (\<forall>(p, n)\<in>set bs. 8 dvd unat p \<and> unat ucHeap \<le> unat p \<and> unat p + unat n \<le> unat ucHeap + 8192)"
proof -
  have "heap1_wf ucHeap heap1_new" by (simp add: heap1_wf_def heap1_new_def)
  moreover have "unat ucHeap \<le> heap1_base ucHeap" "heap1_base ucHeap \<le> unat ucHeap + 7" unfolding heap1_base_def by simp_all
  ultimately show ?thesis using mallocs_blocks [of ucHeap heap1_new ns bs h'] assms by fastforce
qed

theorem malloc_disjoint_witness:
  "sorted_wrt (\<lambda>(p, n) (q, m). unat p + unat n \<le> unat q) (fst (mallocs 0x20400004 [5, 0, 9000, 16] heap1_new)) \<and>
   map fst (fst (mallocs 0x20400004 [5, 0, 9000, 16] heap1_new)) = [0x20400008, 0x20400010]"
proof -
  have m: "mallocs 0x20400004 [5, 0, 9000, 16] heap1_new = ([(0x20400008, 5), (0x20400010, 16)], heap1_new\<lparr>xNextFreeByte := 24, pucAlignedHeap := Some 0x20400008\<rparr>)"
    by (simp add: pvPortMalloc_def align_size_def heap1_new_def reg_simps Let_def)
  show ?thesis using malloc_disjoint [OF _ m] m by (simp add: heap1_fits_def)
qed

text \<open>
  A request fails exactly when it is for no memory or its size, rounded up to eight bytes, does
  not leave the total below 8184 bytes. In particular a size close to the top of the address range
  is refused although rounding it up wraps. A refused request takes nothing.
\<close>

theorem malloc_fails_iff:
  assumes "heap1_wf ucHeap h" and "heap1_fits ucHeap" and "pvPortMalloc ucHeap n h = (r, h')"
  shows "(r = None \<longleftrightarrow> n = 0 \<or> 8184 \<le> unat (xNextFreeByte h) + round_up (unat n)) \<and>
    (r = None \<longrightarrow> xPortGetFreeHeapSize h' = xPortGetFreeHeapSize h)"
proof (cases "0 < unat n \<and> unat (xNextFreeByte h) + round_up (unat n) < 8184")
  case True
  then show ?thesis using malloc_cases(2) [OF assms True] by auto
next
  case False
  then show ?thesis using malloc_cases(3) [OF assms False] by (auto simp: xPortGetFreeHeapSize_def unat_gt_0)
qed

theorem malloc_fails_iff_witness:
  "fst (pvPortMalloc 0x20400000 0xFFFFFFFD heap1_new) = None \<and>
   xPortGetFreeHeapSize (snd (pvPortMalloc 0x20400000 0xFFFFFFFD heap1_new)) = 8184"
  using malloc_fails_iff [where ucHeap = "0x20400000" and h = heap1_new and n = "0xFFFFFFFD" and
      r = "fst (pvPortMalloc 0x20400000 0xFFFFFFFD heap1_new)" and h' = "snd (pvPortMalloc 0x20400000 0xFFFFFFFD heap1_new)"]
  by (simp add: heap1_wf_def heap1_fits_def heap1_new_def round_up_def xPortGetFreeHeapSize_def reg_simps)

end
