(* ===== verification/FreeRTOS_Tasks.thy ===== *)
theory FreeRTOS_Tasks
  imports FreeRTOS_List Heap_1
begin

text \<open>
  The scheduler of the firmware (\<^verbatim>\<open>Demo_FreeRTOS/FreeRTOS/Source/tasks.c\<close>) in the configuration
  of \<^verbatim>\<open>generate/include/FreeRTOSConfig.h\<close>: task control blocks, the state and event lists, creation,
  delays, suspension, priorities and their inheritance, the tick, the context switch, time-outs and
  task notifications. Lists are the sequences of the store that the list theory shows the linked
  lists to implement; tick counts are 32 bits wide and wrap.

  A task is named by the address of its control block. Critical sections are atomic. A request for
  a context switch sets the pending bit of the PendSV interrupt; the switch is the interrupt's own
  step. Functions that block are split where the calling task stops running. Stack contents,
  run-time statistics and trace hooks are not part of the state.
\<close>

section \<open>Data\<close>

type_synonym tid = nat

datatype list_id = ReadyTasks nat | DelayedTaskList1 | DelayedTaskList2 | PendingReadyList
  | TasksWaitingTermination | SuspendedTaskList | TasksWaitingToSend nat | TasksWaitingToReceive nat
  | ActiveTimerList1 | ActiveTimerList2

datatype item = StateItem tid | EventItem tid | TimerItem nat

text \<open>
  The owner of an item is the task or timer it is embedded in: the code sets \<^verbatim>\<open>pvOwner\<close> once, when it
  initialises the structure, to the structure itself, and never writes it again.
\<close>

fun item_owner :: "item \<Rightarrow> nat" where
  "item_owner (StateItem t) = t"
| "item_owner (EventItem t) = t"
| "item_owner (TimerItem n) = n"

datatype notify_state = taskNOT_WAITING_NOTIFICATION | taskWAITING_NOTIFICATION | taskNOTIFICATION_RECEIVED

record TCB_t =
  uxPriority :: nat
  pxStack :: u32
  pcTaskName :: string
  uxTCBNumber :: nat
  uxBasePriority :: nat
  uxMutexesHeld :: nat
  ulNotifiedValue :: u32
  ucNotifyState :: notify_state
  ucDelayAborted :: bool

record kernel =
  pxCurrentTCB :: "tid option"
  klists :: "(list_id, item) lists"
  tcb :: "tid \<Rightarrow> TCB_t"
  pxDelayedTaskList :: list_id
  pxOverflowDelayedTaskList :: list_id
  uxDeletedTasksWaitingCleanUp :: nat
  uxCurrentNumberOfTasks :: nat
  xTickCount :: u32
  uxTopReadyPriority :: nat
  xSchedulerRunning :: bool
  xPendedTicks :: u32
  xYieldPending :: bool
  xNumOfOverflows :: u32
  uxTaskNumber :: nat
  xNextTaskUnblockTime :: u32
  xIdleTaskHandle :: "tid option"
  uxSchedulerSuspended :: nat
  xPendSV :: bool
  heap :: heap1

definition configMAX_PRIORITIES :: nat where [reg_simps]: "configMAX_PRIORITIES = 5"

definition configMAX_TASK_NAME_LEN :: nat where [reg_simps]: "configMAX_TASK_NAME_LEN = 10"

definition configMINIMAL_STACK_SIZE :: nat where [reg_simps]: "configMINIMAL_STACK_SIZE = 90"

definition configTASK_NOTIFICATION_ARRAY_ENTRIES :: nat where [reg_simps]:
  "configTASK_NOTIFICATION_ARRAY_ENTRIES = 1"

definition tskIDLE_PRIORITY :: nat where [reg_simps]: "tskIDLE_PRIORITY = 0"

definition taskEVENT_LIST_ITEM_VALUE_IN_USE :: u32 where [reg_simps]:
  "taskEVENT_LIST_ITEM_VALUE_IN_USE = 0x80000000"

text \<open>The size of \<^verbatim>\<open>TCB_t\<close> on a 32-bit processor with the configured fields, padding included.\<close>

definition sizeof_TCB_t :: u32 where [reg_simps]:
  "sizeof_TCB_t = 4 + 20 + 20 + 4 + 4 + 10 + 2 + 4 + 4 + 4 + 4 + 4 + 1 + 1 + 2"

section \<open>Access to the state\<close>

definition current :: "kernel \<Rightarrow> tid res" where
  "current k = (case pxCurrentTCB k of None \<Rightarrow> Inl NullPointer | Some t \<Rightarrow> Inr t)"

definition prvGetTCBFromHandle :: "tid option \<Rightarrow> kernel \<Rightarrow> tid res" where
  "prvGetTCBFromHandle pxHandle k = (case pxHandle of None \<Rightarrow> current k | Some t \<Rightarrow> Inr t)"

definition set_tcb :: "tid \<Rightarrow> (TCB_t \<Rightarrow> TCB_t) \<Rightarrow> kernel \<Rightarrow> kernel" where
  "set_tcb t f k = k\<lparr>tcb := (tcb k)(t := f (tcb k t))\<rparr>"

definition remove_item :: "item \<Rightarrow> kernel \<Rightarrow> kernel res" where
  "remove_item i k = rbind (list_remove i (klists k)) (\<lambda>A. Inr (k\<lparr>klists := A\<rparr>))"

definition insert_end_item :: "list_id \<Rightarrow> item \<Rightarrow> kernel \<Rightarrow> kernel" where
  "insert_end_item l i k = k\<lparr>klists := list_insert_end l i (klists k)\<rparr>"

definition insert_item :: "list_id \<Rightarrow> item \<Rightarrow> kernel \<Rightarrow> kernel" where
  "insert_item l i k = k\<lparr>klists := list_insert l i (klists k)\<rparr>"

definition set_item_value :: "item \<Rightarrow> u32 \<Rightarrow> kernel \<Rightarrow> kernel" where
  "set_item_value i v k = k\<lparr>klists := list_set_value i v (klists k)\<rparr>"

abbreviation item_value :: "item \<Rightarrow> kernel \<Rightarrow> u32" where
  "item_value i k \<equiv> lvalue (klists k) i"

abbreviation container :: "item \<Rightarrow> kernel \<Rightarrow> list_id option" where
  "container i k \<equiv> lcontainer (klists k) i"

abbreviation items :: "list_id \<Rightarrow> kernel \<Rightarrow> item list" where
  "items l k \<equiv> litems (klists k) l"

definition pxReadyTasksLists :: "nat \<Rightarrow> list_id res" where
  "pxReadyTasksLists p = (if p < configMAX_PRIORITIES then Inr (ReadyTasks p) else Inl OutOfBounds)"

definition priority_value :: "nat \<Rightarrow> u32" where
  "priority_value p = of_nat configMAX_PRIORITIES - of_nat p"

definition value_in_use :: "tid \<Rightarrow> kernel \<Rightarrow> bool" where
  "value_in_use t k \<longleftrightarrow> item_value (EventItem t) k AND taskEVENT_LIST_ITEM_VALUE_IN_USE \<noteq> 0"

text \<open>A request for a context switch sets the pending bit of PendSV.\<close>

definition portYIELD_WITHIN_API :: "kernel \<Rightarrow> kernel" where
  "portYIELD_WITHIN_API k = k\<lparr>xPendSV := True\<rparr>"

section \<open>Ready and delayed lists\<close>

definition taskRECORD_READY_PRIORITY :: "nat \<Rightarrow> kernel \<Rightarrow> kernel" where
  "taskRECORD_READY_PRIORITY p k = (if p > uxTopReadyPriority k then k\<lparr>uxTopReadyPriority := p\<rparr> else k)"

definition prvAddTaskToReadyList :: "tid \<Rightarrow> kernel \<Rightarrow> kernel res" where
  "prvAddTaskToReadyList pxTCB k =
     (let p = uxPriority (tcb k pxTCB); k = taskRECORD_READY_PRIORITY p k
      in rbind (pxReadyTasksLists p) (\<lambda>l. Inr (insert_end_item l (StateItem pxTCB) k)))"

text \<open>The search for the highest priority with a ready task, from a given priority downwards.\<close>

fun select_priority :: "nat \<Rightarrow> kernel \<Rightarrow> nat res" where
  "select_priority uxTopPriority k =
     rbind (pxReadyTasksLists uxTopPriority) (\<lambda>l.
       if items l k \<noteq> [] then Inr uxTopPriority
       else case uxTopPriority of 0 \<Rightarrow> Inl AssertFailed | Suc p \<Rightarrow> select_priority p k)"

declare select_priority.simps [simp del]

definition taskSELECT_HIGHEST_PRIORITY_TASK :: "kernel \<Rightarrow> kernel res" where
  "taskSELECT_HIGHEST_PRIORITY_TASK k =
     rbind (select_priority (uxTopReadyPriority k) k) (\<lambda>uxTopPriority.
     rbind (list_next (ReadyTasks uxTopPriority) (klists k)) (\<lambda>(i, A).
     Inr (k\<lparr>klists := A, pxCurrentTCB := Some (item_owner i), uxTopReadyPriority := uxTopPriority\<rparr>)))"

definition prvResetNextTaskUnblockTime :: "kernel \<Rightarrow> kernel" where
  "prvResetNextTaskUnblockTime k =
     k\<lparr>xNextTaskUnblockTime :=
        (case items (pxDelayedTaskList k) k of [] \<Rightarrow> portMAX_DELAY | i # _ \<Rightarrow> item_value i k)\<rparr>"

definition taskSWITCH_DELAYED_LISTS :: "kernel \<Rightarrow> kernel res" where
  "taskSWITCH_DELAYED_LISTS k =
     rbind (c_assert (items (pxDelayedTaskList k) k = [])) (\<lambda>_.
     Inr (prvResetNextTaskUnblockTime
       (k\<lparr>pxDelayedTaskList := pxOverflowDelayedTaskList k, pxOverflowDelayedTaskList := pxDelayedTaskList k,
          xNumOfOverflows := xNumOfOverflows k + 1\<rparr>)))"

definition prvAddCurrentTaskToDelayedList :: "u32 \<Rightarrow> bool \<Rightarrow> kernel \<Rightarrow> kernel res" where
  "prvAddCurrentTaskToDelayedList xTicksToWait xCanBlockIndefinitely k =
     rbind (current k) (\<lambda>t.
     rbind (remove_item (StateItem t) (set_tcb t (ucDelayAborted_update (\<lambda>_. False)) k)) (\<lambda>k.
     if xTicksToWait = portMAX_DELAY \<and> xCanBlockIndefinitely
     then Inr (insert_end_item SuspendedTaskList (StateItem t) k)
     else
       let xTimeToWake = xTickCount k + xTicksToWait; k = set_item_value (StateItem t) xTimeToWake k
       in if xTimeToWake < xTickCount k
          then Inr (insert_item (pxOverflowDelayedTaskList k) (StateItem t) k)
          else
            let k = insert_item (pxDelayedTaskList k) (StateItem t) k
            in Inr (if xTimeToWake < xNextTaskUnblockTime k then k\<lparr>xNextTaskUnblockTime := xTimeToWake\<rparr> else k)))"

section \<open>Context switch and tick\<close>

definition vTaskSwitchContext :: "kernel \<Rightarrow> kernel res" where
  "vTaskSwitchContext k =
     (if uxSchedulerSuspended k \<noteq> 0 then Inr (k\<lparr>xYieldPending := True\<rparr>)
      else taskSELECT_HIGHEST_PRIORITY_TASK (k\<lparr>xYieldPending := False\<rparr>))"

text \<open>The PendSV handler: the registers it saves and restores belong to the tasks' stacks.\<close>

definition xPortPendSVHandler :: "kernel \<Rightarrow> kernel res" where
  "xPortPendSVHandler k = vTaskSwitchContext (k\<lparr>xPendSV := False\<rparr>)"

text \<open>Waking one task: its state item and, if it waits for an event, its event item leave their lists.\<close>

definition unblock_task :: "tid \<Rightarrow> kernel \<Rightarrow> kernel res" where
  "unblock_task pxTCB k =
     rbind (remove_item (StateItem pxTCB) k) (\<lambda>k.
     rbind (if container (EventItem pxTCB) k \<noteq> None then remove_item (EventItem pxTCB) k else Inr k) (\<lambda>k.
     prvAddTaskToReadyList pxTCB k))"

text \<open>The loop that wakes the tasks whose time has come; the first argument bounds its iterations.\<close>

fun unblock_loop :: "nat \<Rightarrow> bool \<Rightarrow> kernel \<Rightarrow> (bool \<times> kernel) res" where
  "unblock_loop 0 xSwitchRequired k = Inl Diverges"
| "unblock_loop (Suc n) xSwitchRequired k =
     (if items (pxDelayedTaskList k) k = [] then Inr (xSwitchRequired, k\<lparr>xNextTaskUnblockTime := portMAX_DELAY\<rparr>)
      else
        rbind (list_head (pxDelayedTaskList k) (klists k)) (\<lambda>i.
        let pxTCB = item_owner i; xItemValue = item_value (StateItem pxTCB) k
        in if xTickCount k < xItemValue then Inr (xSwitchRequired, k\<lparr>xNextTaskUnblockTime := xItemValue\<rparr>)
           else
             rbind (unblock_task pxTCB k) (\<lambda>k.
             rbind (current k) (\<lambda>t.
             unblock_loop n (xSwitchRequired \<or> uxPriority (tcb k pxTCB) > uxPriority (tcb k t)) k))))"

definition xTaskIncrementTick :: "kernel \<Rightarrow> (bool \<times> kernel) res" where
  "xTaskIncrementTick k =
     (if uxSchedulerSuspended k = 0 then
        let k = k\<lparr>xTickCount := xTickCount k + 1\<rparr>
        in rbind (if xTickCount k = 0 then taskSWITCH_DELAYED_LISTS k else Inr k) (\<lambda>k.
           rbind (if xTickCount k \<ge> xNextTaskUnblockTime k
                  then unblock_loop (Suc (length (items (pxDelayedTaskList k) k))) False k
                  else Inr (False, k)) (\<lambda>(xSwitchRequired, k).
           rbind (current k) (\<lambda>t.
           rbind (pxReadyTasksLists (uxPriority (tcb k t))) (\<lambda>l.
           Inr (xSwitchRequired \<or> length (items l k) > 1 \<or> xYieldPending k, k)))))
      else Inr (False, k\<lparr>xPendedTicks := xPendedTicks k + 1\<rparr>))"

definition xPortSysTickHandler :: "kernel \<Rightarrow> kernel res" where
  "xPortSysTickHandler k =
     rbind (xTaskIncrementTick k) (\<lambda>(sw, k). Inr (if sw then k\<lparr>xPendSV := True\<rparr> else k))"

section \<open>Suspending the scheduler\<close>

definition vTaskSuspendAll :: "kernel \<Rightarrow> kernel" where
  "vTaskSuspendAll k = k\<lparr>uxSchedulerSuspended := uxSchedulerSuspended k + 1\<rparr>"

text \<open>Tasks made ready while the scheduler was suspended; the first argument bounds the loop.\<close>

fun pending_ready_loop :: "nat \<Rightarrow> bool \<Rightarrow> kernel \<Rightarrow> (bool \<times> kernel) res" where
  "pending_ready_loop 0 found k = Inl Diverges"
| "pending_ready_loop (Suc n) found k =
     (if items PendingReadyList k = [] then Inr (found, k)
      else
        rbind (list_head PendingReadyList (klists k)) (\<lambda>i.
        let pxTCB = item_owner i
        in rbind (remove_item (EventItem pxTCB) k) (\<lambda>k.
           rbind (remove_item (StateItem pxTCB) k) (\<lambda>k.
           rbind (prvAddTaskToReadyList pxTCB k) (\<lambda>k.
           rbind (current k) (\<lambda>t.
           pending_ready_loop n True
             (if uxPriority (tcb k pxTCB) \<ge> uxPriority (tcb k t) then k\<lparr>xYieldPending := True\<rparr> else k)))))))"

text \<open>The ticks missed while the scheduler was suspended.\<close>

fun pended_ticks_loop :: "nat \<Rightarrow> kernel \<Rightarrow> kernel res" where
  "pended_ticks_loop 0 k = Inr k"
| "pended_ticks_loop (Suc n) k =
     rbind (xTaskIncrementTick k) (\<lambda>(sw, k). pended_ticks_loop n (if sw then k\<lparr>xYieldPending := True\<rparr> else k))"

definition xTaskResumeAll :: "kernel \<Rightarrow> (bool \<times> kernel) res" where
  "xTaskResumeAll k =
     rbind (c_assert (uxSchedulerSuspended k \<noteq> 0)) (\<lambda>_.
     let k = k\<lparr>uxSchedulerSuspended := uxSchedulerSuspended k - 1\<rparr>
     in if uxSchedulerSuspended k = 0 \<and> uxCurrentNumberOfTasks k > 0 then
          rbind (pending_ready_loop (Suc (length (items PendingReadyList k))) False k) (\<lambda>(found, k).
          let k = (if found then prvResetNextTaskUnblockTime k else k)
          in rbind (if xPendedTicks k > 0
                    then rbind (pended_ticks_loop (unat (xPendedTicks k)) k) (\<lambda>k. Inr (k\<lparr>xPendedTicks := 0\<rparr>))
                    else Inr k) (\<lambda>k.
             Inr (if xYieldPending k then (True, portYIELD_WITHIN_API k) else (False, k))))
        else Inr (False, k))"

section \<open>Creating and deleting tasks\<close>

definition prvInitialiseTaskLists :: "kernel \<Rightarrow> kernel" where
  "prvInitialiseTaskLists k =
     k\<lparr>klists := fold list_initialise
         (map ReadyTasks [0..<configMAX_PRIORITIES] @
          [DelayedTaskList1, DelayedTaskList2, PendingReadyList, TasksWaitingTermination, SuspendedTaskList]) (klists k),
       pxDelayedTaskList := DelayedTaskList1, pxOverflowDelayedTaskList := DelayedTaskList2\<rparr>"

definition prvInitialiseNewTask :: "string \<Rightarrow> u32 \<Rightarrow> nat \<Rightarrow> tid \<Rightarrow> kernel \<Rightarrow> kernel res" where
  "prvInitialiseNewTask pcName stack p pxNewTCB k =
     rbind (c_assert (p < configMAX_PRIORITIES)) (\<lambda>_.
     let k = set_tcb pxNewTCB (\<lambda>_. \<lparr>uxPriority = p, pxStack = stack,
               pcTaskName = take (configMAX_TASK_NAME_LEN - 1) pcName, uxTCBNumber = 0, uxBasePriority = p,
               uxMutexesHeld = 0, ulNotifiedValue = 0, ucNotifyState = taskNOT_WAITING_NOTIFICATION,
               ucDelayAborted = False\<rparr>) k;
         k = k\<lparr>klists := list_initialise_item (EventItem pxNewTCB) (list_initialise_item (StateItem pxNewTCB) (klists k))\<rparr>
     in Inr (set_item_value (EventItem pxNewTCB) (priority_value p) k))"

definition prvAddNewTaskToReadyList :: "tid \<Rightarrow> kernel \<Rightarrow> kernel res" where
  "prvAddNewTaskToReadyList pxNewTCB k =
     (let p = uxPriority (tcb k pxNewTCB);
          k = k\<lparr>uxCurrentNumberOfTasks := uxCurrentNumberOfTasks k + 1\<rparr>;
          k = (case pxCurrentTCB k of
                 None \<Rightarrow>
                   let k = k\<lparr>pxCurrentTCB := Some pxNewTCB\<rparr>
                   in if uxCurrentNumberOfTasks k = 1 then prvInitialiseTaskLists k else k
               | Some t \<Rightarrow>
                   if \<not> xSchedulerRunning k \<and> uxPriority (tcb k t) \<le> p then k\<lparr>pxCurrentTCB := Some pxNewTCB\<rparr> else k);
          k = k\<lparr>uxTaskNumber := uxTaskNumber k + 1\<rparr>;
          k = set_tcb pxNewTCB (uxTCBNumber_update (\<lambda>_. uxTaskNumber k)) k
      in rbind (prvAddTaskToReadyList pxNewTCB k) (\<lambda>k.
         rbind (current k) (\<lambda>t.
         Inr (if xSchedulerRunning k \<and> uxPriority (tcb k t) < p then portYIELD_WITHIN_API k else k))))"

text \<open>
  The stack is allocated before the control block; when the control block does not fit, the stack
  is given back, which the allocator answers with a failed assertion. The result is the new task,
  or \<^term>\<open>None\<close> for \<^verbatim>\<open>errCOULD_NOT_ALLOCATE_REQUIRED_MEMORY\<close>.
\<close>

definition xTaskCreate :: "u32 \<Rightarrow> string \<Rightarrow> u16 \<Rightarrow> nat \<Rightarrow> kernel \<Rightarrow> (tid option \<times> kernel) res" where
  "xTaskCreate ucHeap pcName usStackDepth p k =
     (case pvPortMalloc ucHeap (ucast usStackDepth * 4) (heap k) of
        (None, h) \<Rightarrow> Inr (None, k\<lparr>heap := h\<rparr>)
      | (Some stack, h) \<Rightarrow>
          (case pvPortMalloc ucHeap sizeof_TCB_t h of
             (None, h) \<Rightarrow> rbind (vPortFree (Some stack) h) (\<lambda>h. Inr (None, k\<lparr>heap := h\<rparr>))
           | (Some a, h) \<Rightarrow>
               let pxNewTCB = unat a
               in rbind (prvInitialiseNewTask pcName stack p pxNewTCB (k\<lparr>heap := h\<rparr>)) (\<lambda>k.
                  rbind (prvAddNewTaskToReadyList pxNewTCB k) (\<lambda>k. Inr (Some pxNewTCB, k)))))"

definition prvDeleteTCB :: "tid \<Rightarrow> kernel \<Rightarrow> kernel res" where
  "prvDeleteTCB pxTCB k =
     rbind (vPortFree (Some (pxStack (tcb k pxTCB))) (heap k)) (\<lambda>h.
     rbind (vPortFree (Some (of_nat pxTCB)) h) (\<lambda>h. Inr (k\<lparr>heap := h\<rparr>)))"

definition vTaskDelete :: "tid option \<Rightarrow> kernel \<Rightarrow> kernel res" where
  "vTaskDelete xTaskToDelete k =
     rbind (prvGetTCBFromHandle xTaskToDelete k) (\<lambda>pxTCB.
     rbind (remove_item (StateItem pxTCB) k) (\<lambda>k.
     rbind (if container (EventItem pxTCB) k \<noteq> None then remove_item (EventItem pxTCB) k else Inr k) (\<lambda>k.
     let k = k\<lparr>uxTaskNumber := uxTaskNumber k + 1\<rparr>
     in if Some pxTCB = pxCurrentTCB k then
          let k = insert_end_item TasksWaitingTermination (StateItem pxTCB) k;
              k = k\<lparr>uxDeletedTasksWaitingCleanUp := uxDeletedTasksWaitingCleanUp k + 1\<rparr>
          in if xSchedulerRunning k
             then rbind (c_assert (uxSchedulerSuspended k = 0)) (\<lambda>_. Inr (portYIELD_WITHIN_API k))
             else Inr k
        else
          prvDeleteTCB pxTCB
            (prvResetNextTaskUnblockTime (k\<lparr>uxCurrentNumberOfTasks := uxCurrentNumberOfTasks k - 1\<rparr>)))))"

text \<open>The clean-up loop of the idle task; it runs once for every task waiting to be deleted.\<close>

fun termination_loop :: "nat \<Rightarrow> kernel \<Rightarrow> kernel res" where
  "termination_loop 0 k = Inr k"
| "termination_loop (Suc n) k =
     rbind (list_head TasksWaitingTermination (klists k)) (\<lambda>i.
     rbind (remove_item (StateItem (item_owner i)) k) (\<lambda>k.
     rbind (prvDeleteTCB (item_owner i)
       (k\<lparr>uxCurrentNumberOfTasks := uxCurrentNumberOfTasks k - 1,
          uxDeletedTasksWaitingCleanUp := uxDeletedTasksWaitingCleanUp k - 1\<rparr>)) (\<lambda>k.
     termination_loop n k)))"

definition prvCheckTasksWaitingTermination :: "kernel \<Rightarrow> kernel res" where
  "prvCheckTasksWaitingTermination k = termination_loop (uxDeletedTasksWaitingCleanUp k) k"

text \<open>One round of the idle task's loop.\<close>

definition prvIdleTask :: "kernel \<Rightarrow> kernel res" where
  "prvIdleTask k =
     rbind (prvCheckTasksWaitingTermination k) (\<lambda>k.
     Inr (if length (items (ReadyTasks tskIDLE_PRIORITY) k) > 1 then portYIELD_WITHIN_API k else k))"

section \<open>Power-on and start\<close>

text \<open>
  The static initialisers. The task lists and the pointers to the delayed lists are set up when the
  first task is created; until then nothing reads them.
\<close>

definition kernel_boot :: kernel where
  "kernel_boot = \<lparr>pxCurrentTCB = None,
     klists = \<lparr>litems = (\<lambda>_. []), lindex = (\<lambda>_. None), lvalue = (\<lambda>_. 0), lcontainer = (\<lambda>_. None)\<rparr>,
     tcb = (\<lambda>_. \<lparr>uxPriority = 0, pxStack = 0, pcTaskName = [], uxTCBNumber = 0, uxBasePriority = 0, uxMutexesHeld = 0,
                 ulNotifiedValue = 0, ucNotifyState = taskNOT_WAITING_NOTIFICATION, ucDelayAborted = False\<rparr>),
     pxDelayedTaskList = DelayedTaskList1, pxOverflowDelayedTaskList = DelayedTaskList2,
     uxDeletedTasksWaitingCleanUp = 0, uxCurrentNumberOfTasks = 0, xTickCount = 0, uxTopReadyPriority = tskIDLE_PRIORITY,
     xSchedulerRunning = False, xPendedTicks = 0, xYieldPending = False, xNumOfOverflows = 0, uxTaskNumber = 0,
     xNextTaskUnblockTime = 0, xIdleTaskHandle = None, uxSchedulerSuspended = 0, xPendSV = False, heap = heap1_new\<rparr>"

text \<open>What \<^verbatim>\<open>vTaskStartScheduler\<close> does once its own tasks exist.\<close>

definition start_scheduler :: "kernel \<Rightarrow> kernel" where
  "start_scheduler k = k\<lparr>xNextTaskUnblockTime := portMAX_DELAY, xSchedulerRunning := True, xTickCount := 0\<rparr>"

section \<open>Delays\<close>

definition vTaskDelay :: "u32 \<Rightarrow> kernel \<Rightarrow> kernel res" where
  "vTaskDelay xTicksToDelay k =
     rbind (if xTicksToDelay > 0 then
              rbind (c_assert (uxSchedulerSuspended k = 0)) (\<lambda>_.
              rbind (prvAddCurrentTaskToDelayedList xTicksToDelay False (vTaskSuspendAll k)) (\<lambda>k.
              xTaskResumeAll k))
            else Inr (False, k)) (\<lambda>(xAlreadyYielded, k).
     Inr (if \<not> xAlreadyYielded then portYIELD_WITHIN_API k else k))"

definition should_delay :: "u32 \<Rightarrow> u32 \<Rightarrow> u32 \<Rightarrow> bool" where
  "should_delay xConstTickCount xPreviousWakeTime xTimeToWake \<longleftrightarrow>
     (if xConstTickCount < xPreviousWakeTime
      then xTimeToWake < xPreviousWakeTime \<and> xTimeToWake > xConstTickCount
      else xTimeToWake < xPreviousWakeTime \<or> xTimeToWake > xConstTickCount)"

text \<open>The result is whether the task was delayed, its new wake time, and the state.\<close>

definition xTaskDelayUntil :: "u32 \<Rightarrow> u32 \<Rightarrow> kernel \<Rightarrow> (bool \<times> u32 \<times> kernel) res" where
  "xTaskDelayUntil xPreviousWakeTime xTimeIncrement k =
     rbind (c_assert (xTimeIncrement > 0)) (\<lambda>_.
     rbind (c_assert (uxSchedulerSuspended k = 0)) (\<lambda>_.
     let k = vTaskSuspendAll k; xTimeToWake = xPreviousWakeTime + xTimeIncrement;
         xShouldDelay = should_delay (xTickCount k) xPreviousWakeTime xTimeToWake
     in rbind (if xShouldDelay then prvAddCurrentTaskToDelayedList (xTimeToWake - xTickCount k) False k else Inr k) (\<lambda>k.
        rbind (xTaskResumeAll k) (\<lambda>(xAlreadyYielded, k).
        Inr (xShouldDelay, xTimeToWake, if \<not> xAlreadyYielded then portYIELD_WITHIN_API k else k)))))"

definition xTaskCatchUpTicks :: "u32 \<Rightarrow> kernel \<Rightarrow> (bool \<times> kernel) res" where
  "xTaskCatchUpTicks xTicksToCatchUp k =
     rbind (c_assert (uxSchedulerSuspended k = 0)) (\<lambda>_.
     let k = vTaskSuspendAll k
     in xTaskResumeAll (k\<lparr>xPendedTicks := xPendedTicks k + xTicksToCatchUp\<rparr>))"

section \<open>State, priority, suspension\<close>

datatype eTaskState = eRunning | eReady | eBlocked | eSuspended | eDeleted

definition eTaskGetState :: "tid \<Rightarrow> kernel \<Rightarrow> eTaskState" where
  "eTaskGetState pxTCB k =
     (if Some pxTCB = pxCurrentTCB k then eRunning
      else
        let pxStateList = container (StateItem pxTCB) k
        in if pxStateList = Some (pxDelayedTaskList k) \<or> pxStateList = Some (pxOverflowDelayedTaskList k) then eBlocked
           else if pxStateList = Some SuspendedTaskList then
             (if container (EventItem pxTCB) k = None
              then (if ucNotifyState (tcb k pxTCB) = taskWAITING_NOTIFICATION then eBlocked else eSuspended)
              else eBlocked)
           else if pxStateList = Some TasksWaitingTermination \<or> pxStateList = None then eDeleted
           else eReady)"

definition uxTaskPriorityGet :: "tid option \<Rightarrow> kernel \<Rightarrow> nat res" where
  "uxTaskPriorityGet xTask k = rbind (prvGetTCBFromHandle xTask k) (\<lambda>t. Inr (uxPriority (tcb k t)))"

text \<open>Moving a ready task to the list of its new priority.\<close>

definition requeue_if_ready :: "nat \<Rightarrow> tid \<Rightarrow> kernel \<Rightarrow> kernel res" where
  "requeue_if_ready uxPriorityUsedOnEntry pxTCB k =
     rbind (pxReadyTasksLists uxPriorityUsedOnEntry) (\<lambda>l.
     if container (StateItem pxTCB) k = Some l
     then rbind (remove_item (StateItem pxTCB) k) (prvAddTaskToReadyList pxTCB) else Inr k)"

definition set_event_priority :: "tid \<Rightarrow> nat \<Rightarrow> kernel \<Rightarrow> kernel" where
  "set_event_priority t p k = (if \<not> value_in_use t k then set_item_value (EventItem t) (priority_value p) k else k)"

definition vTaskPrioritySet :: "tid option \<Rightarrow> nat \<Rightarrow> kernel \<Rightarrow> kernel res" where
  "vTaskPrioritySet xTask uxNewPriority k =
     rbind (c_assert (uxNewPriority < configMAX_PRIORITIES)) (\<lambda>_.
     rbind (prvGetTCBFromHandle xTask k) (\<lambda>pxTCB.
     let uxCurrentBasePriority = uxBasePriority (tcb k pxTCB); uxPriorityUsedOnEntry = uxPriority (tcb k pxTCB)
     in if uxCurrentBasePriority \<noteq> uxNewPriority then
          rbind (if uxNewPriority > uxCurrentBasePriority then
                   if Some pxTCB \<noteq> pxCurrentTCB k
                   then rbind (current k) (\<lambda>t. Inr (uxNewPriority \<ge> uxPriority (tcb k t))) else Inr False
                 else Inr (Some pxTCB = pxCurrentTCB k)) (\<lambda>xYieldRequired.
          let k = (if uxBasePriority (tcb k pxTCB) = uxPriority (tcb k pxTCB)
                   then set_tcb pxTCB (uxPriority_update (\<lambda>_. uxNewPriority)) k else k);
              k = set_tcb pxTCB (uxBasePriority_update (\<lambda>_. uxNewPriority)) k;
              k = set_event_priority pxTCB uxNewPriority k
          in rbind (requeue_if_ready uxPriorityUsedOnEntry pxTCB k) (\<lambda>k.
             Inr (if xYieldRequired then portYIELD_WITHIN_API k else k)))
        else Inr k))"

definition vTaskSuspend :: "tid option \<Rightarrow> kernel \<Rightarrow> kernel res" where
  "vTaskSuspend xTaskToSuspend k =
     rbind (prvGetTCBFromHandle xTaskToSuspend k) (\<lambda>pxTCB.
     rbind (remove_item (StateItem pxTCB) k) (\<lambda>k.
     rbind (if container (EventItem pxTCB) k \<noteq> None then remove_item (EventItem pxTCB) k else Inr k) (\<lambda>k.
     let k = insert_end_item SuspendedTaskList (StateItem pxTCB) k;
         k = (if ucNotifyState (tcb k pxTCB) = taskWAITING_NOTIFICATION
              then set_tcb pxTCB (ucNotifyState_update (\<lambda>_. taskNOT_WAITING_NOTIFICATION)) k else k);
         k = (if xSchedulerRunning k then prvResetNextTaskUnblockTime k else k)
     in if Some pxTCB = pxCurrentTCB k then
          if xSchedulerRunning k
          then rbind (c_assert (uxSchedulerSuspended k = 0)) (\<lambda>_. Inr (portYIELD_WITHIN_API k))
          else if length (items SuspendedTaskList k) = uxCurrentNumberOfTasks k
          then Inr (k\<lparr>pxCurrentTCB := None\<rparr>) else vTaskSwitchContext k
        else Inr k)))"

definition prvTaskIsTaskSuspended :: "tid \<Rightarrow> kernel \<Rightarrow> bool" where
  "prvTaskIsTaskSuspended pxTCB k \<longleftrightarrow>
     container (StateItem pxTCB) k = Some SuspendedTaskList \<and>
     container (EventItem pxTCB) k \<noteq> Some PendingReadyList \<and> container (EventItem pxTCB) k = None"

definition vTaskResume :: "tid \<Rightarrow> kernel \<Rightarrow> kernel res" where
  "vTaskResume pxTCB k =
     (if Some pxTCB \<noteq> pxCurrentTCB k \<and> prvTaskIsTaskSuspended pxTCB k then
        rbind (remove_item (StateItem pxTCB) k) (\<lambda>k.
        rbind (prvAddTaskToReadyList pxTCB k) (\<lambda>k.
        rbind (current k) (\<lambda>t.
        Inr (if uxPriority (tcb k pxTCB) \<ge> uxPriority (tcb k t) then portYIELD_WITHIN_API k else k))))
      else Inr k)"

definition xTaskResumeFromISR :: "tid \<Rightarrow> kernel \<Rightarrow> (bool \<times> kernel) res" where
  "xTaskResumeFromISR pxTCB k =
     (if prvTaskIsTaskSuspended pxTCB k then
        if uxSchedulerSuspended k = 0 then
          rbind (current k) (\<lambda>t.
          let xYieldRequired = uxPriority (tcb k pxTCB) \<ge> uxPriority (tcb k t);
              k = (if xYieldRequired then k\<lparr>xYieldPending := True\<rparr> else k)
          in rbind (remove_item (StateItem pxTCB) k) (\<lambda>k.
             rbind (prvAddTaskToReadyList pxTCB k) (\<lambda>k. Inr (xYieldRequired, k))))
        else Inr (False, insert_end_item PendingReadyList (EventItem pxTCB) k)
      else Inr (False, k))"

definition vTaskEndScheduler :: "kernel \<Rightarrow> kernel" where
  "vTaskEndScheduler k = k\<lparr>xSchedulerRunning := False\<rparr>"

definition xTaskGetTickCount :: "kernel \<Rightarrow> u32" where
  "xTaskGetTickCount k = xTickCount k"

definition uxTaskGetNumberOfTasks :: "kernel \<Rightarrow> nat" where
  "uxTaskGetNumberOfTasks k = uxCurrentNumberOfTasks k"

definition pcTaskGetName :: "tid option \<Rightarrow> kernel \<Rightarrow> string res" where
  "pcTaskGetName xTaskToQuery k = rbind (prvGetTCBFromHandle xTaskToQuery k) (\<lambda>t. Inr (pcTaskName (tcb k t)))"

definition xTaskGetCurrentTaskHandle :: "kernel \<Rightarrow> tid option" where
  "xTaskGetCurrentTaskHandle k = pxCurrentTCB k"

datatype scheduler_state = taskSCHEDULER_SUSPENDED | taskSCHEDULER_NOT_STARTED | taskSCHEDULER_RUNNING

definition xTaskGetSchedulerState :: "kernel \<Rightarrow> scheduler_state" where
  "xTaskGetSchedulerState k =
     (if \<not> xSchedulerRunning k then taskSCHEDULER_NOT_STARTED
      else if uxSchedulerSuspended k = 0 then taskSCHEDULER_RUNNING else taskSCHEDULER_SUSPENDED)"

definition xTaskAbortDelay :: "tid \<Rightarrow> kernel \<Rightarrow> (bool \<times> kernel) res" where
  "xTaskAbortDelay pxTCB k =
     (let k = vTaskSuspendAll k
      in rbind (if eTaskGetState pxTCB k = eBlocked then
                  rbind (remove_item (StateItem pxTCB) k) (\<lambda>k.
                  rbind (if container (EventItem pxTCB) k \<noteq> None
                         then rbind (remove_item (EventItem pxTCB) k)
                                (\<lambda>k. Inr (set_tcb pxTCB (ucDelayAborted_update (\<lambda>_. True)) k))
                         else Inr k) (\<lambda>k.
                  rbind (prvAddTaskToReadyList pxTCB k) (\<lambda>k.
                  rbind (current k) (\<lambda>t.
                  Inr (True, if uxPriority (tcb k pxTCB) > uxPriority (tcb k t) then k\<lparr>xYieldPending := True\<rparr> else k)))))
                else Inr (False, k)) (\<lambda>(xReturn, k).
         rbind (xTaskResumeAll k) (\<lambda>(_, k). Inr (xReturn, k))))"

section \<open>Event lists and time-outs\<close>

definition vTaskPlaceOnEventList :: "list_id \<Rightarrow> u32 \<Rightarrow> kernel \<Rightarrow> kernel res" where
  "vTaskPlaceOnEventList pxEventList xTicksToWait k =
     rbind (current k) (\<lambda>t.
     prvAddCurrentTaskToDelayedList xTicksToWait True (insert_item pxEventList (EventItem t) k))"

definition vTaskPlaceOnUnorderedEventList :: "list_id \<Rightarrow> u32 \<Rightarrow> u32 \<Rightarrow> kernel \<Rightarrow> kernel res" where
  "vTaskPlaceOnUnorderedEventList pxEventList v xTicksToWait k =
     rbind (c_assert (uxSchedulerSuspended k \<noteq> 0)) (\<lambda>_.
     rbind (current k) (\<lambda>t.
     prvAddCurrentTaskToDelayedList xTicksToWait True
       (insert_end_item pxEventList (EventItem t)
         (set_item_value (EventItem t) (v OR taskEVENT_LIST_ITEM_VALUE_IN_USE) k))))"

definition vTaskPlaceOnEventListRestricted :: "list_id \<Rightarrow> u32 \<Rightarrow> bool \<Rightarrow> kernel \<Rightarrow> kernel res" where
  "vTaskPlaceOnEventListRestricted pxEventList xTicksToWait xWaitIndefinitely k =
     rbind (current k) (\<lambda>t.
     prvAddCurrentTaskToDelayedList (if xWaitIndefinitely then portMAX_DELAY else xTicksToWait) xWaitIndefinitely
       (insert_end_item pxEventList (EventItem t) k))"

definition xTaskRemoveFromEventList :: "list_id \<Rightarrow> kernel \<Rightarrow> (bool \<times> kernel) res" where
  "xTaskRemoveFromEventList pxEventList k =
     rbind (list_head pxEventList (klists k)) (\<lambda>i.
     let pxUnblockedTCB = item_owner i
     in rbind (remove_item (EventItem pxUnblockedTCB) k) (\<lambda>k.
        rbind (if uxSchedulerSuspended k = 0
               then rbind (remove_item (StateItem pxUnblockedTCB) k) (prvAddTaskToReadyList pxUnblockedTCB)
               else Inr (insert_end_item PendingReadyList (EventItem pxUnblockedTCB) k)) (\<lambda>k.
        rbind (current k) (\<lambda>t.
        Inr (if uxPriority (tcb k pxUnblockedTCB) > uxPriority (tcb k t)
             then (True, k\<lparr>xYieldPending := True\<rparr>) else (False, k))))))"

definition vTaskRemoveFromUnorderedEventList :: "item \<Rightarrow> u32 \<Rightarrow> kernel \<Rightarrow> kernel res" where
  "vTaskRemoveFromUnorderedEventList pxEventListItem v k =
     rbind (c_assert (uxSchedulerSuspended k \<noteq> 0)) (\<lambda>_.
     let pxUnblockedTCB = item_owner pxEventListItem;
         k = set_item_value pxEventListItem (v OR taskEVENT_LIST_ITEM_VALUE_IN_USE) k
     in rbind (remove_item pxEventListItem k) (\<lambda>k.
        rbind (remove_item (StateItem pxUnblockedTCB) k) (\<lambda>k.
        rbind (prvAddTaskToReadyList pxUnblockedTCB k) (\<lambda>k.
        rbind (current k) (\<lambda>t.
        Inr (if uxPriority (tcb k pxUnblockedTCB) > uxPriority (tcb k t) then k\<lparr>xYieldPending := True\<rparr> else k))))))"

record TimeOut_t =
  xOverflowCount :: u32
  xTimeOnEntering :: u32

definition vTaskInternalSetTimeOutState :: "kernel \<Rightarrow> TimeOut_t" where
  "vTaskInternalSetTimeOutState k = \<lparr>xOverflowCount = xNumOfOverflows k, xTimeOnEntering = xTickCount k\<rparr>"

definition vTaskSetTimeOutState :: "kernel \<Rightarrow> TimeOut_t" where
  "vTaskSetTimeOutState k = \<lparr>xOverflowCount = xNumOfOverflows k, xTimeOnEntering = xTickCount k\<rparr>"

text \<open>The result is whether the time is over, the updated time-out and remaining ticks, and the state.\<close>

definition xTaskCheckForTimeOut :: "TimeOut_t \<Rightarrow> u32 \<Rightarrow> kernel \<Rightarrow> (bool \<times> TimeOut_t \<times> u32 \<times> kernel) res" where
  "xTaskCheckForTimeOut pxTimeOut xTicksToWait k =
     rbind (current k) (\<lambda>t.
     let xElapsedTime = xTickCount k - xTimeOnEntering pxTimeOut
     in if ucDelayAborted (tcb k t)
        then Inr (True, pxTimeOut, xTicksToWait, set_tcb t (ucDelayAborted_update (\<lambda>_. False)) k)
        else if xTicksToWait = portMAX_DELAY then Inr (False, pxTimeOut, xTicksToWait, k)
        else if xNumOfOverflows k \<noteq> xOverflowCount pxTimeOut \<and> xTickCount k \<ge> xTimeOnEntering pxTimeOut
        then Inr (True, pxTimeOut, 0, k)
        else if xElapsedTime < xTicksToWait
        then Inr (False, vTaskInternalSetTimeOutState k, xTicksToWait - xElapsedTime, k)
        else Inr (True, pxTimeOut, 0, k))"

definition vTaskMissedYield :: "kernel \<Rightarrow> kernel" where
  "vTaskMissedYield k = k\<lparr>xYieldPending := True\<rparr>"

section \<open>Priority inheritance\<close>

definition xTaskPriorityInherit :: "tid option \<Rightarrow> kernel \<Rightarrow> (bool \<times> kernel) res" where
  "xTaskPriorityInherit pxMutexHolder k =
     (case pxMutexHolder of
        None \<Rightarrow> Inr (False, k)
      | Some holder \<Rightarrow>
          rbind (current k) (\<lambda>t.
          if uxPriority (tcb k holder) < uxPriority (tcb k t) then
            let uxPriorityUsedOnEntry = uxPriority (tcb k holder);
                k = set_event_priority holder (uxPriority (tcb k t)) k;
                k = set_tcb holder (uxPriority_update (\<lambda>_. uxPriority (tcb k t))) k
            in rbind (requeue_if_ready uxPriorityUsedOnEntry holder k) (\<lambda>k. Inr (True, k))
          else Inr (uxBasePriority (tcb k holder) < uxPriority (tcb k t), k)))"

definition xTaskPriorityDisinherit :: "tid option \<Rightarrow> kernel \<Rightarrow> (bool \<times> kernel) res" where
  "xTaskPriorityDisinherit pxMutexHolder k =
     (case pxMutexHolder of
        None \<Rightarrow> Inr (False, k)
      | Some pxTCB \<Rightarrow>
          rbind (c_assert (Some pxTCB = pxCurrentTCB k)) (\<lambda>_.
          rbind (c_assert (uxMutexesHeld (tcb k pxTCB) \<noteq> 0)) (\<lambda>_.
          let k = set_tcb pxTCB (uxMutexesHeld_update (\<lambda>n. n - 1)) k
          in if uxPriority (tcb k pxTCB) \<noteq> uxBasePriority (tcb k pxTCB) \<and> uxMutexesHeld (tcb k pxTCB) = 0 then
               rbind (remove_item (StateItem pxTCB) k) (\<lambda>k.
               let k = set_tcb pxTCB (uxPriority_update (\<lambda>_. uxBasePriority (tcb k pxTCB))) k;
                   k = set_item_value (EventItem pxTCB) (priority_value (uxPriority (tcb k pxTCB))) k
               in rbind (prvAddTaskToReadyList pxTCB k) (\<lambda>k. Inr (True, k)))
             else Inr (False, k))))"

definition vTaskPriorityDisinheritAfterTimeout :: "tid option \<Rightarrow> nat \<Rightarrow> kernel \<Rightarrow> kernel res" where
  "vTaskPriorityDisinheritAfterTimeout pxMutexHolder uxHighestPriorityWaitingTask k =
     (case pxMutexHolder of
        None \<Rightarrow> Inr k
      | Some pxTCB \<Rightarrow>
          rbind (c_assert (uxMutexesHeld (tcb k pxTCB) \<noteq> 0)) (\<lambda>_.
          let uxPriorityToUse = (if uxBasePriority (tcb k pxTCB) < uxHighestPriorityWaitingTask
                                 then uxHighestPriorityWaitingTask else uxBasePriority (tcb k pxTCB))
          in if uxPriority (tcb k pxTCB) \<noteq> uxPriorityToUse \<and> uxMutexesHeld (tcb k pxTCB) = 1 then
               rbind (c_assert (Some pxTCB \<noteq> pxCurrentTCB k)) (\<lambda>_.
               let uxPriorityUsedOnEntry = uxPriority (tcb k pxTCB);
                   k = set_tcb pxTCB (uxPriority_update (\<lambda>_. uxPriorityToUse)) k
               in requeue_if_ready uxPriorityUsedOnEntry pxTCB (set_event_priority pxTCB uxPriorityToUse k))
             else Inr k))"

definition uxTaskResetEventItemValue :: "kernel \<Rightarrow> (u32 \<times> kernel) res" where
  "uxTaskResetEventItemValue k =
     rbind (current k) (\<lambda>t.
     Inr (item_value (EventItem t) k, set_item_value (EventItem t) (priority_value (uxPriority (tcb k t))) k))"

definition pvTaskIncrementMutexHeldCount :: "kernel \<Rightarrow> tid option \<times> kernel" where
  "pvTaskIncrementMutexHeldCount k =
     (pxCurrentTCB k,
      case pxCurrentTCB k of None \<Rightarrow> k | Some t \<Rightarrow> set_tcb t (uxMutexesHeld_update (\<lambda>n. n + 1)) k)"

section \<open>Task notifications\<close>

datatype eNotifyAction = eNoAction | eSetBits | eIncrement | eSetValueWithOverwrite | eSetValueWithoutOverwrite

text \<open>Up to the point where the caller blocks, and what it does once it runs again.\<close>

definition notify_take_enter :: "nat \<Rightarrow> u32 \<Rightarrow> kernel \<Rightarrow> kernel res" where
  "notify_take_enter uxIndexToWait xTicksToWait k =
     rbind (c_assert (uxIndexToWait < configTASK_NOTIFICATION_ARRAY_ENTRIES)) (\<lambda>_.
     rbind (current k) (\<lambda>t.
     if ulNotifiedValue (tcb k t) = 0 then
       let k = set_tcb t (ucNotifyState_update (\<lambda>_. taskWAITING_NOTIFICATION)) k
       in if xTicksToWait > 0
          then rbind (prvAddCurrentTaskToDelayedList xTicksToWait True k) (\<lambda>k. Inr (portYIELD_WITHIN_API k))
          else Inr k
     else Inr k))"

definition notify_take_exit :: "bool \<Rightarrow> kernel \<Rightarrow> (u32 \<times> kernel) res" where
  "notify_take_exit xClearCountOnExit k =
     rbind (current k) (\<lambda>t.
     let ulReturn = ulNotifiedValue (tcb k t);
         k = (if ulReturn \<noteq> 0
              then set_tcb t (ulNotifiedValue_update (\<lambda>_. if xClearCountOnExit then 0 else ulReturn - 1)) k else k)
     in Inr (ulReturn, set_tcb t (ucNotifyState_update (\<lambda>_. taskNOT_WAITING_NOTIFICATION)) k))"

definition notify_wait_enter :: "nat \<Rightarrow> u32 \<Rightarrow> u32 \<Rightarrow> kernel \<Rightarrow> kernel res" where
  "notify_wait_enter uxIndexToWait ulBitsToClearOnEntry xTicksToWait k =
     rbind (c_assert (uxIndexToWait < configTASK_NOTIFICATION_ARRAY_ENTRIES)) (\<lambda>_.
     rbind (current k) (\<lambda>t.
     if ucNotifyState (tcb k t) \<noteq> taskNOTIFICATION_RECEIVED then
       let k = set_tcb t (ulNotifiedValue_update (\<lambda>v. v AND NOT ulBitsToClearOnEntry)) k;
           k = set_tcb t (ucNotifyState_update (\<lambda>_. taskWAITING_NOTIFICATION)) k
       in if xTicksToWait > 0
          then rbind (prvAddCurrentTaskToDelayedList xTicksToWait True k) (\<lambda>k. Inr (portYIELD_WITHIN_API k))
          else Inr k
     else Inr k))"

definition notify_wait_exit :: "u32 \<Rightarrow> kernel \<Rightarrow> (bool \<times> u32 \<times> kernel) res" where
  "notify_wait_exit ulBitsToClearOnExit k =
     rbind (current k) (\<lambda>t.
     let v = ulNotifiedValue (tcb k t); xReturn = (ucNotifyState (tcb k t) = taskNOTIFICATION_RECEIVED);
         k = (if xReturn then set_tcb t (ulNotifiedValue_update (\<lambda>v. v AND NOT ulBitsToClearOnExit)) k else k)
     in Inr (xReturn, v, set_tcb t (ucNotifyState_update (\<lambda>_. taskNOT_WAITING_NOTIFICATION)) k))"

fun notify_action :: "eNotifyAction \<Rightarrow> u32 \<Rightarrow> notify_state \<Rightarrow> u32 \<Rightarrow> bool \<times> u32" where
  "notify_action eSetBits ulValue st v = (True, v OR ulValue)"
| "notify_action eIncrement ulValue st v = (True, v + 1)"
| "notify_action eSetValueWithOverwrite ulValue st v = (True, ulValue)"
| "notify_action eSetValueWithoutOverwrite ulValue st v =
     (if st \<noteq> taskNOTIFICATION_RECEIVED then (True, ulValue) else (False, v))"
| "notify_action eNoAction ulValue st v = (True, v)"

text \<open>The result is the return value, the previous notification value and the state.\<close>

definition xTaskGenericNotify :: "tid \<Rightarrow> nat \<Rightarrow> u32 \<Rightarrow> eNotifyAction \<Rightarrow> kernel \<Rightarrow> (bool \<times> u32 \<times> kernel) res" where
  "xTaskGenericNotify pxTCB uxIndexToNotify ulValue eAction k =
     rbind (c_assert (uxIndexToNotify < configTASK_NOTIFICATION_ARRAY_ENTRIES)) (\<lambda>_.
     let prev = ulNotifiedValue (tcb k pxTCB); ucOriginalNotifyState = ucNotifyState (tcb k pxTCB);
         (xReturn, v) = notify_action eAction ulValue ucOriginalNotifyState prev;
         k = set_tcb pxTCB (ucNotifyState_update (\<lambda>_. taskNOTIFICATION_RECEIVED)) k;
         k = set_tcb pxTCB (ulNotifiedValue_update (\<lambda>_. v)) k
     in if ucOriginalNotifyState = taskWAITING_NOTIFICATION then
          rbind (remove_item (StateItem pxTCB) k) (\<lambda>k.
          rbind (prvAddTaskToReadyList pxTCB k) (\<lambda>k.
          rbind (c_assert (container (EventItem pxTCB) k = None)) (\<lambda>_.
          rbind (current k) (\<lambda>t.
          Inr (xReturn, prev, if uxPriority (tcb k pxTCB) > uxPriority (tcb k t) then portYIELD_WITHIN_API k else k)))))
        else Inr (xReturn, prev, k))"

text \<open>From an interrupt: the last component of the result says that a context switch is due.\<close>

definition notify_wake_from_isr :: "tid \<Rightarrow> kernel \<Rightarrow> (bool \<times> kernel) res" where
  "notify_wake_from_isr pxTCB k =
     rbind (c_assert (container (EventItem pxTCB) k = None)) (\<lambda>_.
     rbind (if uxSchedulerSuspended k = 0
            then rbind (remove_item (StateItem pxTCB) k) (prvAddTaskToReadyList pxTCB)
            else Inr (insert_end_item PendingReadyList (EventItem pxTCB) k)) (\<lambda>k.
     rbind (current k) (\<lambda>t.
     Inr (if uxPriority (tcb k pxTCB) > uxPriority (tcb k t) then (True, k\<lparr>xYieldPending := True\<rparr>) else (False, k)))))"

definition xTaskGenericNotifyFromISR ::
  "tid \<Rightarrow> nat \<Rightarrow> u32 \<Rightarrow> eNotifyAction \<Rightarrow> kernel \<Rightarrow> (bool \<times> u32 \<times> bool \<times> kernel) res" where
  "xTaskGenericNotifyFromISR pxTCB uxIndexToNotify ulValue eAction k =
     rbind (c_assert (uxIndexToNotify < configTASK_NOTIFICATION_ARRAY_ENTRIES)) (\<lambda>_.
     let prev = ulNotifiedValue (tcb k pxTCB); ucOriginalNotifyState = ucNotifyState (tcb k pxTCB);
         (xReturn, v) = notify_action eAction ulValue ucOriginalNotifyState prev;
         k = set_tcb pxTCB (ucNotifyState_update (\<lambda>_. taskNOTIFICATION_RECEIVED)) k;
         k = set_tcb pxTCB (ulNotifiedValue_update (\<lambda>_. v)) k
     in rbind (if ucOriginalNotifyState = taskWAITING_NOTIFICATION then notify_wake_from_isr pxTCB k
               else Inr (False, k)) (\<lambda>(woken, k). Inr (xReturn, prev, woken, k)))"

definition vTaskGenericNotifyGiveFromISR :: "tid \<Rightarrow> nat \<Rightarrow> kernel \<Rightarrow> (bool \<times> kernel) res" where
  "vTaskGenericNotifyGiveFromISR pxTCB uxIndexToNotify k =
     rbind (c_assert (uxIndexToNotify < configTASK_NOTIFICATION_ARRAY_ENTRIES)) (\<lambda>_.
     let ucOriginalNotifyState = ucNotifyState (tcb k pxTCB);
         k = set_tcb pxTCB (ucNotifyState_update (\<lambda>_. taskNOTIFICATION_RECEIVED)) k;
         k = set_tcb pxTCB (ulNotifiedValue_update (\<lambda>v. v + 1)) k
     in if ucOriginalNotifyState = taskWAITING_NOTIFICATION then notify_wake_from_isr pxTCB k else Inr (False, k))"

definition xTaskGenericNotifyStateClear :: "tid option \<Rightarrow> nat \<Rightarrow> kernel \<Rightarrow> (bool \<times> kernel) res" where
  "xTaskGenericNotifyStateClear xTask uxIndexToClear k =
     rbind (c_assert (uxIndexToClear < configTASK_NOTIFICATION_ARRAY_ENTRIES)) (\<lambda>_.
     rbind (prvGetTCBFromHandle xTask k) (\<lambda>pxTCB.
     Inr (if ucNotifyState (tcb k pxTCB) = taskNOTIFICATION_RECEIVED
          then (True, set_tcb pxTCB (ucNotifyState_update (\<lambda>_. taskNOT_WAITING_NOTIFICATION)) k) else (False, k))))"

definition ulTaskGenericNotifyValueClear :: "tid option \<Rightarrow> nat \<Rightarrow> u32 \<Rightarrow> kernel \<Rightarrow> (u32 \<times> kernel) res" where
  "ulTaskGenericNotifyValueClear xTask uxIndexToClear ulBitsToClear k =
     rbind (prvGetTCBFromHandle xTask k) (\<lambda>pxTCB.
     if uxIndexToClear < configTASK_NOTIFICATION_ARRAY_ENTRIES
     then Inr (ulNotifiedValue (tcb k pxTCB), set_tcb pxTCB (ulNotifiedValue_update (\<lambda>v. v AND NOT ulBitsToClear)) k)
     else Inl OutOfBounds)"

end
