(* ===== verification/FreeRTOS_Queue.thy ===== *)
theory FreeRTOS_Queue
  imports FreeRTOS_Tasks
begin

text \<open>
  Queues, semaphores and mutexes of the firmware (\<^verbatim>\<open>Demo_FreeRTOS/FreeRTOS/Source/queue.c\<close> and the
  macros of \<^verbatim>\<open>include/semphr.h\<close>) in the configuration of \<^verbatim>\<open>FreeRTOSConfig.h\<close>: no queue sets, no
  static allocation.

  A queue is named by its address, which is never null. The pointers into the storage are offsets
  from its start; a read position that would fall below the start is compared before subtracting. A
  function that may block is split where other tasks can run: \<^verbatim>\<open>_try\<close> is its critical section,
  \<^verbatim>\<open>_block\<close> the part between \<^verbatim>\<open>vTaskSuspendAll\<close> and \<^verbatim>\<open>xTaskResumeAll\<close>; the result \<^term>\<open>None\<close> means
  that the loop goes round again, with the local variables in the record \<open>wait\<close>.
\<close>

section \<open>Data\<close>

datatype queue_type = queueQUEUE_TYPE_BASE | queueQUEUE_TYPE_MUTEX | queueQUEUE_TYPE_COUNTING_SEMAPHORE
  | queueQUEUE_TYPE_BINARY_SEMAPHORE | queueQUEUE_TYPE_RECURSIVE_MUTEX

datatype copy_position = queueSEND_TO_BACK | queueSEND_TO_FRONT | queueOVERWRITE

text \<open>
  The null value of \<^verbatim>\<open>pcHead\<close> marks a mutex. The queue pointers and the mutex data share memory in a
  union; a queue uses the former, a mutex the latter.
\<close>

record Queue_t =
  pcHead :: "u32 option"
  pcWriteTo :: nat
  pcTail :: nat
  pcReadFrom :: nat
  xMutexHolder :: "tid option"
  uxRecursiveCallCount :: u32
  uxMessagesWaiting :: nat
  uxLength :: nat
  uxItemSize :: nat
  cRxLock :: int
  cTxLock :: int
  uxQueueNumber :: u32
  ucQueueType :: queue_type
  storage :: "u8 list"

type_synonym qid = nat

record qstate =
  kern :: kernel
  queue :: "qid \<Rightarrow> Queue_t"
  xQueueRegistry :: "(string option \<times> qid option) list"

definition queueUNLOCKED :: int where [reg_simps]: "queueUNLOCKED = -1"

definition queueLOCKED_UNMODIFIED :: int where [reg_simps]: "queueLOCKED_UNMODIFIED = 0"

definition queueINT8_MAX :: int where [reg_simps]: "queueINT8_MAX = 127"

definition queueSEMAPHORE_QUEUE_ITEM_LENGTH :: u32 where [reg_simps]: "queueSEMAPHORE_QUEUE_ITEM_LENGTH = 0"

definition queueMUTEX_GIVE_BLOCK_TIME :: u32 where [reg_simps]: "queueMUTEX_GIVE_BLOCK_TIME = 0"

definition configQUEUE_REGISTRY_SIZE :: nat where [reg_simps]: "configQUEUE_REGISTRY_SIZE = 2"

text \<open>The size of \<^verbatim>\<open>Queue_t\<close> on a 32-bit processor with the configured fields, padding included.\<close>

definition sizeof_Queue_t :: nat where [reg_simps]:
  "sizeof_Queue_t = 4 + 4 + 8 + 20 + 20 + 4 + 4 + 4 + 1 + 1 + 2 + 4 + 1 + 3"

definition set_queue :: "qid \<Rightarrow> (Queue_t \<Rightarrow> Queue_t) \<Rightarrow> qstate \<Rightarrow> qstate" where
  "set_queue q f s = s\<lparr>queue := (queue s)(q := f (queue s q))\<rparr>"

definition is_mutex :: "Queue_t \<Rightarrow> bool" where
  "is_mutex Q \<longleftrightarrow> pcHead Q = None"

section \<open>Locking\<close>

definition prvLockQueue :: "qid \<Rightarrow> qstate \<Rightarrow> qstate" where
  "prvLockQueue q = set_queue q (\<lambda>Q.
     let Q = (if cRxLock Q = queueUNLOCKED then Q\<lparr>cRxLock := queueLOCKED_UNMODIFIED\<rparr> else Q)
     in if cTxLock Q = queueUNLOCKED then Q\<lparr>cTxLock := queueLOCKED_UNMODIFIED\<rparr> else Q)"

definition increment_lock :: "int \<Rightarrow> kernel \<Rightarrow> int res" where
  "increment_lock cLock k =
     (if nat cLock < uxTaskGetNumberOfTasks k
      then rbind (c_assert (cLock \<noteq> queueINT8_MAX)) (\<lambda>_. Inr (cLock + 1)) else Inr cLock)"

definition prvIncrementQueueTxLock :: "qid \<Rightarrow> qstate \<Rightarrow> qstate res" where
  "prvIncrementQueueTxLock q s =
     rbind (increment_lock (cTxLock (queue s q)) (kern s)) (\<lambda>v. Inr (set_queue q (cTxLock_update (\<lambda>_. v)) s))"

definition prvIncrementQueueRxLock :: "qid \<Rightarrow> qstate \<Rightarrow> qstate res" where
  "prvIncrementQueueRxLock q s =
     rbind (increment_lock (cRxLock (queue s q)) (kern s)) (\<lambda>v. Inr (set_queue q (cRxLock_update (\<lambda>_. v)) s))"

text \<open>The loop over the operations that happened while the queue was locked.\<close>

fun unlock_loop :: "nat \<Rightarrow> list_id \<Rightarrow> kernel \<Rightarrow> kernel res" where
  "unlock_loop 0 l k = Inr k"
| "unlock_loop (Suc n) l k =
     (if items l k \<noteq> []
      then rbind (xTaskRemoveFromEventList l k) (\<lambda>(b, k). unlock_loop n l (if b then vTaskMissedYield k else k))
      else Inr k)"

definition prvUnlockQueue :: "qid \<Rightarrow> qstate \<Rightarrow> qstate res" where
  "prvUnlockQueue q s =
     rbind (unlock_loop (nat (cTxLock (queue s q))) (TasksWaitingToReceive q) (kern s)) (\<lambda>k.
     let s = set_queue q (cTxLock_update (\<lambda>_. queueUNLOCKED)) (s\<lparr>kern := k\<rparr>)
     in rbind (unlock_loop (nat (cRxLock (queue s q))) (TasksWaitingToSend q) (kern s)) (\<lambda>k.
        Inr (set_queue q (cRxLock_update (\<lambda>_. queueUNLOCKED)) (s\<lparr>kern := k\<rparr>))))"

definition prvIsQueueEmpty :: "qid \<Rightarrow> qstate \<Rightarrow> bool" where
  "prvIsQueueEmpty q s \<longleftrightarrow> uxMessagesWaiting (queue s q) = 0"

definition prvIsQueueFull :: "qid \<Rightarrow> qstate \<Rightarrow> bool" where
  "prvIsQueueFull q s \<longleftrightarrow> uxMessagesWaiting (queue s q) = uxLength (queue s q)"

definition xQueueIsQueueEmptyFromISR :: "qid \<Rightarrow> qstate \<Rightarrow> bool" where
  "xQueueIsQueueEmptyFromISR q s \<longleftrightarrow> uxMessagesWaiting (queue s q) = 0"

definition xQueueIsQueueFullFromISR :: "qid \<Rightarrow> qstate \<Rightarrow> bool" where
  "xQueueIsQueueFullFromISR q s \<longleftrightarrow> uxMessagesWaiting (queue s q) = uxLength (queue s q)"

section \<open>Copying items\<close>

text \<open>The data of a queue with items; the second component of a read is the item.\<close>

definition copy_to_storage :: "u8 list option \<Rightarrow> copy_position \<Rightarrow> Queue_t \<Rightarrow> Queue_t res" where
  "copy_to_storage pvItemToQueue xPosition Q =
     (case pvItemToQueue of None \<Rightarrow> Inl NullPointer
      | Some d \<Rightarrow> rbind (mem_read d 0 (uxItemSize Q)) (\<lambda>d.
          if xPosition = queueSEND_TO_BACK then
            rbind (mem_write (storage Q) (pcWriteTo Q) d) (\<lambda>m.
            let Q = Q\<lparr>storage := m, pcWriteTo := pcWriteTo Q + uxItemSize Q\<rparr>
            in Inr (if pcWriteTo Q \<ge> pcTail Q then Q\<lparr>pcWriteTo := 0\<rparr> else Q))
          else
            rbind (mem_write (storage Q) (pcReadFrom Q) d) (\<lambda>m.
            let Q = Q\<lparr>storage := m\<rparr>
            in Inr (if pcReadFrom Q < uxItemSize Q then Q\<lparr>pcReadFrom := pcTail Q - uxItemSize Q\<rparr>
                    else Q\<lparr>pcReadFrom := pcReadFrom Q - uxItemSize Q\<rparr>))))"

definition messages_before :: "copy_position \<Rightarrow> Queue_t \<Rightarrow> nat" where
  "messages_before xPosition Q =
     (if uxItemSize Q \<noteq> 0 \<and> xPosition = queueOVERWRITE \<and> uxMessagesWaiting Q > 0
      then uxMessagesWaiting Q - 1 else uxMessagesWaiting Q)"

definition prvCopyDataToQueue :: "qid \<Rightarrow> u8 list option \<Rightarrow> copy_position \<Rightarrow> qstate \<Rightarrow> (bool \<times> qstate) res" where
  "prvCopyDataToQueue q pvItemToQueue xPosition s =
     (let Q = queue s q; n = messages_before xPosition Q
      in rbind (if uxItemSize Q = 0 then
                  if is_mutex Q
                  then rbind (xTaskPriorityDisinherit (xMutexHolder Q) (kern s)) (\<lambda>(xReturn, k).
                       Inr (xReturn, set_queue q (xMutexHolder_update (\<lambda>_. None)) (s\<lparr>kern := k\<rparr>)))
                  else Inr (False, s)
                else rbind (copy_to_storage pvItemToQueue xPosition Q) (\<lambda>Q. Inr (False, set_queue q (\<lambda>_. Q) s)))
         (\<lambda>(xReturn, s). Inr (xReturn, set_queue q (uxMessagesWaiting_update (\<lambda>_. n + 1)) s)))"

definition copy_from_storage :: "Queue_t \<Rightarrow> (u8 list \<times> Queue_t) res" where
  "copy_from_storage Q =
     (let Q = Q\<lparr>pcReadFrom := pcReadFrom Q + uxItemSize Q\<rparr>;
          Q = (if pcReadFrom Q \<ge> pcTail Q then Q\<lparr>pcReadFrom := 0\<rparr> else Q)
      in rbind (mem_read (storage Q) (pcReadFrom Q) (uxItemSize Q)) (\<lambda>d. Inr (d, Q)))"

definition prvCopyDataFromQueue :: "qid \<Rightarrow> qstate \<Rightarrow> (u8 list \<times> qstate) res" where
  "prvCopyDataFromQueue q s =
     (if uxItemSize (queue s q) \<noteq> 0
      then rbind (copy_from_storage (queue s q)) (\<lambda>(d, Q). Inr (d, set_queue q (\<lambda>_. Q) s)) else Inr ([], s))"

section \<open>Creation\<close>

definition xQueueGenericReset :: "qid \<Rightarrow> bool \<Rightarrow> qstate \<Rightarrow> qstate res" where
  "xQueueGenericReset q xNewQueue s =
     (let Q = queue s q
      in rbind (c_assert (uxLength Q \<ge> 1 \<and> (2 ^ 32 - 1) div uxLength Q \<ge> uxItemSize Q)) (\<lambda>_.
         let Q = Q\<lparr>pcTail := uxLength Q * uxItemSize Q, uxMessagesWaiting := 0, pcWriteTo := 0,
                   pcReadFrom := (uxLength Q - 1) * uxItemSize Q, cRxLock := queueUNLOCKED, cTxLock := queueUNLOCKED\<rparr>;
             Q = (if is_mutex Q then Q\<lparr>xMutexHolder := None, uxRecursiveCallCount := 0\<rparr> else Q);
             s = set_queue q (\<lambda>_. Q) s
         in if \<not> xNewQueue then
              if items (TasksWaitingToSend q) (kern s) \<noteq> []
              then rbind (xTaskRemoveFromEventList (TasksWaitingToSend q) (kern s)) (\<lambda>(b, k).
                   Inr (s\<lparr>kern := if b then portYIELD_WITHIN_API k else k\<rparr>))
              else Inr s
            else
              Inr (s\<lparr>kern := (kern s)\<lparr>klists := list_initialise (TasksWaitingToReceive q)
                       (list_initialise (TasksWaitingToSend q) (klists (kern s)))\<rparr>\<rparr>)))"

text \<open>The storage of a new queue is memory of the heap, whose contents \<open>mem\<close> are whatever was there.\<close>

definition prvInitialiseNewQueue :: "nat \<Rightarrow> nat \<Rightarrow> u8 list \<Rightarrow> queue_type \<Rightarrow> qid \<Rightarrow> qstate \<Rightarrow> qstate res" where
  "prvInitialiseNewQueue uxQueueLength uxSize mem ty q s =
     (let s = set_queue q (\<lambda>Q. Q\<lparr>
                pcHead := Some (if uxSize = 0 then of_nat q else of_nat (q + sizeof_Queue_t)),
                uxLength := uxQueueLength, uxItemSize := uxSize, storage := mem\<rparr>) s
      in rbind (xQueueGenericReset q True s) (\<lambda>s. Inr (set_queue q (ucQueueType_update (\<lambda>_. ty)) s)))"

definition xQueueGenericCreate :: "u32 \<Rightarrow> (nat \<Rightarrow> u8) \<Rightarrow> u32 \<Rightarrow> u32 \<Rightarrow> queue_type \<Rightarrow> qstate \<Rightarrow> (qid option \<times> qstate) res" where
  "xQueueGenericCreate ucHeap mem uxQueueLength uxSize ty s =
     (let n = unat uxQueueLength; m = unat uxSize
      in if n > 0 \<and> (2 ^ 32 - 1) div n \<ge> m \<and> (2 ^ 32 - 1) - sizeof_Queue_t \<ge> n * m then
           (case pvPortMalloc ucHeap (of_nat (sizeof_Queue_t + n * m)) (heap (kern s)) of
              (None, h) \<Rightarrow> Inr (None, s\<lparr>kern := (kern s)\<lparr>heap := h\<rparr>\<rparr>)
            | (Some a, h) \<Rightarrow>
                rbind (prvInitialiseNewQueue n m (map mem [0..<n * m]) ty (unat a) (s\<lparr>kern := (kern s)\<lparr>heap := h\<rparr>\<rparr>)) (\<lambda>s.
                Inr (Some (unat a), s)))
         else Inl AssertFailed)"

section \<open>Sending\<close>

record wait =
  xEntryTimeSet :: bool
  xTimeOut :: TimeOut_t
  xTicksToWait :: u32
  xInheritanceOccurred :: bool

definition enter_wait :: "wait \<Rightarrow> kernel \<Rightarrow> wait" where
  "enter_wait w k = (if \<not> xEntryTimeSet w then w\<lparr>xTimeOut := vTaskInternalSetTimeOutState k, xEntryTimeSet := True\<rparr> else w)"

text \<open>Waking the first task of an event list after a change of the queue.\<close>

definition wake_waiting :: "list_id \<Rightarrow> bool \<Rightarrow> kernel \<Rightarrow> kernel res" where
  "wake_waiting l xYieldRequired k =
     (if items l k \<noteq> []
      then rbind (xTaskRemoveFromEventList l k) (\<lambda>(b, k). Inr (if b then portYIELD_WITHIN_API k else k))
      else Inr (if xYieldRequired then portYIELD_WITHIN_API k else k))"

definition scheduler_allows :: "u32 \<Rightarrow> kernel \<Rightarrow> bool" where
  "scheduler_allows xTicks k \<longleftrightarrow> \<not> (xTaskGetSchedulerState k = taskSCHEDULER_SUSPENDED \<and> xTicks \<noteq> 0)"

definition send_checks :: "qid \<Rightarrow> u8 list option \<Rightarrow> copy_position \<Rightarrow> qstate \<Rightarrow> unit res" where
  "send_checks q pvItemToQueue xCopyPosition s =
     rbind (c_assert (\<not> (pvItemToQueue = None \<and> uxItemSize (queue s q) \<noteq> 0))) (\<lambda>_.
     c_assert (\<not> (xCopyPosition = queueOVERWRITE \<and> uxLength (queue s q) \<noteq> 1)))"

definition send_try :: "qid \<Rightarrow> u8 list option \<Rightarrow> copy_position \<Rightarrow> wait \<Rightarrow> qstate \<Rightarrow> (bool option \<times> wait \<times> qstate) res" where
  "send_try q pvItemToQueue xCopyPosition w s =
     (if uxMessagesWaiting (queue s q) < uxLength (queue s q) \<or> xCopyPosition = queueOVERWRITE then
        rbind (prvCopyDataToQueue q pvItemToQueue xCopyPosition s) (\<lambda>(xYieldRequired, s).
        rbind (wake_waiting (TasksWaitingToReceive q) xYieldRequired (kern s)) (\<lambda>k.
        Inr (Some True, w, s\<lparr>kern := k\<rparr>)))
      else if xTicksToWait w = 0 then Inr (Some False, w, s)
      else Inr (None, enter_wait w (kern s), s))"

text \<open>The end of a blocking part: the queue is unlocked and the scheduler resumed.\<close>

definition leave_block :: "qid \<Rightarrow> bool \<Rightarrow> qstate \<Rightarrow> qstate res" where
  "leave_block q xBlocked s =
     rbind (prvUnlockQueue q s) (\<lambda>s.
     rbind (xTaskResumeAll (kern s)) (\<lambda>(y, k).
     Inr (s\<lparr>kern := if xBlocked \<and> \<not> y then portYIELD_WITHIN_API k else k\<rparr>)))"

definition send_block :: "qid \<Rightarrow> wait \<Rightarrow> qstate \<Rightarrow> (bool option \<times> wait \<times> qstate) res" where
  "send_block q w s =
     (let s = prvLockQueue q (s\<lparr>kern := vTaskSuspendAll (kern s)\<rparr>)
      in rbind (xTaskCheckForTimeOut (xTimeOut w) (xTicksToWait w) (kern s)) (\<lambda>(over, to, n, k).
         let w = w\<lparr>xTimeOut := to, xTicksToWait := n\<rparr>; s = s\<lparr>kern := k\<rparr>
         in if \<not> over then
              if prvIsQueueFull q s
              then rbind (vTaskPlaceOnEventList (TasksWaitingToSend q) n (kern s)) (\<lambda>k.
                   rbind (leave_block q True (s\<lparr>kern := k\<rparr>)) (\<lambda>s. Inr (None, w, s)))
              else rbind (leave_block q False s) (\<lambda>s. Inr (None, w, s))
            else rbind (leave_block q False s) (\<lambda>s. Inr (Some False, w, s))))"

text \<open>A call: the checks on entry, then the first pass; the local time-out is not yet set.\<close>

definition wait_start :: "TimeOut_t \<Rightarrow> u32 \<Rightarrow> wait" where
  "wait_start to xTicks = \<lparr>xEntryTimeSet = False, xTimeOut = to, xTicksToWait = xTicks, xInheritanceOccurred = False\<rparr>"

definition xQueueGenericSend ::
  "TimeOut_t \<Rightarrow> qid \<Rightarrow> u8 list option \<Rightarrow> u32 \<Rightarrow> copy_position \<Rightarrow> qstate \<Rightarrow> (bool option \<times> wait \<times> qstate) res" where
  "xQueueGenericSend to q pvItemToQueue xTicks xCopyPosition s =
     rbind (send_checks q pvItemToQueue xCopyPosition s) (\<lambda>_.
     rbind (c_assert (scheduler_allows xTicks (kern s))) (\<lambda>_.
     send_try q pvItemToQueue xCopyPosition (wait_start to xTicks) s))"

text \<open>
  From an interrupt. The results are the return value and whether a task of higher priority was
  woken. A locked queue leaves the waking to whoever unlocks it.
\<close>

definition wake_from_isr :: "list_id \<Rightarrow> kernel \<Rightarrow> (bool \<times> kernel) res" where
  "wake_from_isr l k = (if items l k \<noteq> [] then xTaskRemoveFromEventList l k else Inr (False, k))"

definition signal_sent :: "qid \<Rightarrow> int \<Rightarrow> qstate \<Rightarrow> (bool \<times> qstate) res" where
  "signal_sent q cLock s =
     (if cLock = queueUNLOCKED
      then rbind (wake_from_isr (TasksWaitingToReceive q) (kern s)) (\<lambda>(b, k). Inr (b, s\<lparr>kern := k\<rparr>))
      else rbind (prvIncrementQueueTxLock q s) (\<lambda>s. Inr (False, s)))"

definition xQueueGenericSendFromISR ::
  "qid \<Rightarrow> u8 list option \<Rightarrow> copy_position \<Rightarrow> qstate \<Rightarrow> (bool \<times> bool \<times> qstate) res" where
  "xQueueGenericSendFromISR q pvItemToQueue xCopyPosition s =
     rbind (send_checks q pvItemToQueue xCopyPosition s) (\<lambda>_.
     if uxMessagesWaiting (queue s q) < uxLength (queue s q) \<or> xCopyPosition = queueOVERWRITE then
       let cLock = cTxLock (queue s q)
       in rbind (prvCopyDataToQueue q pvItemToQueue xCopyPosition s) (\<lambda>(_, s).
          rbind (signal_sent q cLock s) (\<lambda>(b, s). Inr (True, b, s)))
     else Inr (False, False, s))"

definition xQueueGiveFromISR :: "qid \<Rightarrow> qstate \<Rightarrow> (bool \<times> bool \<times> qstate) res" where
  "xQueueGiveFromISR q s =
     rbind (c_assert (uxItemSize (queue s q) = 0)) (\<lambda>_.
     rbind (c_assert (\<not> (is_mutex (queue s q) \<and> xMutexHolder (queue s q) \<noteq> None))) (\<lambda>_.
     if uxMessagesWaiting (queue s q) < uxLength (queue s q) then
       let cLock = cTxLock (queue s q); s = set_queue q (uxMessagesWaiting_update (\<lambda>n. n + 1)) s
       in rbind (signal_sent q cLock s) (\<lambda>(b, s). Inr (True, b, s))
     else Inr (False, False, s)))"

section \<open>Receiving\<close>

definition receive_checks :: "qid \<Rightarrow> bool \<Rightarrow> u32 \<Rightarrow> qstate \<Rightarrow> unit res" where
  "receive_checks q buffer xTicks s =
     rbind (c_assert (\<not> (\<not> buffer \<and> uxItemSize (queue s q) \<noteq> 0))) (\<lambda>_.
     c_assert (scheduler_allows xTicks (kern s)))"

text \<open>The results: \<^term>\<open>Some (Some d)\<close> for \<^verbatim>\<open>pdPASS\<close> with the item, \<^term>\<open>Some None\<close> for \<^verbatim>\<open>errQUEUE_EMPTY\<close>.\<close>

definition receive_try :: "qid \<Rightarrow> wait \<Rightarrow> qstate \<Rightarrow> (u8 list option option \<times> wait \<times> qstate) res" where
  "receive_try q w s =
     (if uxMessagesWaiting (queue s q) > 0 then
        rbind (prvCopyDataFromQueue q s) (\<lambda>(d, s).
        let s = set_queue q (uxMessagesWaiting_update (\<lambda>n. n - 1)) s
        in rbind (wake_waiting (TasksWaitingToSend q) False (kern s)) (\<lambda>k. Inr (Some (Some d), w, s\<lparr>kern := k\<rparr>)))
      else if xTicksToWait w = 0 then Inr (Some None, w, s)
      else Inr (None, enter_wait w (kern s), s))"

text \<open>
  One pass of the part of the loop that blocks. When the time is over, the scheduler is resumed and the
  queue is looked at once more; here both happen in one step, so this covers the runs in which no
  other task gets in between. If one does, the look sees the queue that task has left.
\<close>

definition receive_block :: "qid \<Rightarrow> wait \<Rightarrow> qstate \<Rightarrow> (u8 list option option \<times> wait \<times> qstate) res" where
  "receive_block q w s =
     (let s = prvLockQueue q (s\<lparr>kern := vTaskSuspendAll (kern s)\<rparr>)
      in rbind (xTaskCheckForTimeOut (xTimeOut w) (xTicksToWait w) (kern s)) (\<lambda>(over, to, n, k).
         let w = w\<lparr>xTimeOut := to, xTicksToWait := n\<rparr>; s = s\<lparr>kern := k\<rparr>
         in if \<not> over then
              if prvIsQueueEmpty q s
              then rbind (vTaskPlaceOnEventList (TasksWaitingToReceive q) n (kern s)) (\<lambda>k.
                   rbind (leave_block q True (s\<lparr>kern := k\<rparr>)) (\<lambda>s. Inr (None, w, s)))
              else rbind (leave_block q False s) (\<lambda>s. Inr (None, w, s))
            else rbind (leave_block q False s) (\<lambda>s. Inr (if prvIsQueueEmpty q s then Some None else None, w, s))))"

definition xQueueReceive :: "TimeOut_t \<Rightarrow> qid \<Rightarrow> bool \<Rightarrow> u32 \<Rightarrow> qstate \<Rightarrow> (u8 list option option \<times> wait \<times> qstate) res" where
  "xQueueReceive to q buffer xTicks s =
     rbind (receive_checks q buffer xTicks s) (\<lambda>_. receive_try q (wait_start to xTicks) s)"

definition peek_try :: "qid \<Rightarrow> wait \<Rightarrow> qstate \<Rightarrow> (u8 list option option \<times> wait \<times> qstate) res" where
  "peek_try q w s =
     (if uxMessagesWaiting (queue s q) > 0 then
        let pcOriginalReadPosition = pcReadFrom (queue s q)
        in rbind (prvCopyDataFromQueue q s) (\<lambda>(d, s).
           let s = set_queue q (pcReadFrom_update (\<lambda>_. pcOriginalReadPosition)) s
           in rbind (wake_waiting (TasksWaitingToReceive q) False (kern s)) (\<lambda>k. Inr (Some (Some d), w, s\<lparr>kern := k\<rparr>)))
      else if xTicksToWait w = 0 then Inr (Some None, w, s)
      else Inr (None, enter_wait w (kern s), s))"

text \<open>The blocking part of \<^verbatim>\<open>xQueuePeek\<close> is that of \<^verbatim>\<open>xQueueReceive\<close>.\<close>

definition peek_block :: "qid \<Rightarrow> wait \<Rightarrow> qstate \<Rightarrow> (u8 list option option \<times> wait \<times> qstate) res" where
  "peek_block q w s = receive_block q w s"

definition xQueuePeek :: "TimeOut_t \<Rightarrow> qid \<Rightarrow> bool \<Rightarrow> u32 \<Rightarrow> qstate \<Rightarrow> (u8 list option option \<times> wait \<times> qstate) res" where
  "xQueuePeek to q buffer xTicks s =
     rbind (receive_checks q buffer xTicks s) (\<lambda>_. peek_try q (wait_start to xTicks) s)"

definition xQueueReceiveFromISR :: "qid \<Rightarrow> bool \<Rightarrow> qstate \<Rightarrow> (u8 list option \<times> bool \<times> qstate) res" where
  "xQueueReceiveFromISR q buffer s =
     rbind (c_assert (\<not> (\<not> buffer \<and> uxItemSize (queue s q) \<noteq> 0))) (\<lambda>_.
     if uxMessagesWaiting (queue s q) > 0 then
       let cLock = cRxLock (queue s q)
       in rbind (prvCopyDataFromQueue q s) (\<lambda>(d, s).
          let s = set_queue q (uxMessagesWaiting_update (\<lambda>n. n - 1)) s
          in rbind (if cLock = queueUNLOCKED
                    then rbind (wake_from_isr (TasksWaitingToSend q) (kern s)) (\<lambda>(b, k). Inr (b, s\<lparr>kern := k\<rparr>))
                    else rbind (prvIncrementQueueRxLock q s) (\<lambda>s. Inr (False, s))) (\<lambda>(b, s). Inr (Some d, b, s)))
     else Inr (None, False, s))"

definition xQueuePeekFromISR :: "qid \<Rightarrow> bool \<Rightarrow> qstate \<Rightarrow> (u8 list option \<times> qstate) res" where
  "xQueuePeekFromISR q buffer s =
     rbind (c_assert (\<not> (\<not> buffer \<and> uxItemSize (queue s q) \<noteq> 0))) (\<lambda>_.
     rbind (c_assert (uxItemSize (queue s q) \<noteq> 0)) (\<lambda>_.
     if uxMessagesWaiting (queue s q) > 0 then
       let pcOriginalReadPosition = pcReadFrom (queue s q)
       in rbind (prvCopyDataFromQueue q s) (\<lambda>(d, s).
          Inr (Some d, set_queue q (pcReadFrom_update (\<lambda>_. pcOriginalReadPosition)) s))
     else Inr (None, s)))"

section \<open>Semaphores and mutexes\<close>

definition take_try :: "qid \<Rightarrow> wait \<Rightarrow> qstate \<Rightarrow> (bool option \<times> wait \<times> qstate) res" where
  "take_try q w s =
     (if uxMessagesWaiting (queue s q) > 0 then
        let s = set_queue q (uxMessagesWaiting_update (\<lambda>n. n - 1)) s;
            s = (if is_mutex (queue s q)
                 then let (t, k) = pvTaskIncrementMutexHeldCount (kern s)
                      in set_queue q (xMutexHolder_update (\<lambda>_. t)) (s\<lparr>kern := k\<rparr>)
                 else s)
        in rbind (wake_waiting (TasksWaitingToSend q) False (kern s)) (\<lambda>k. Inr (Some True, w, s\<lparr>kern := k\<rparr>))
      else if xTicksToWait w = 0 then Inr (Some False, w, s)
      else Inr (None, enter_wait w (kern s), s))"

definition prvGetDisinheritPriorityAfterTimeout :: "qid \<Rightarrow> qstate \<Rightarrow> nat" where
  "prvGetDisinheritPriorityAfterTimeout q s =
     (case items (TasksWaitingToReceive q) (kern s) of
        [] \<Rightarrow> tskIDLE_PRIORITY
      | i # _ \<Rightarrow> unat (of_nat configMAX_PRIORITIES - item_value i (kern s)))"

text \<open>One pass of the part that blocks, with the second look of \<^verbatim>\<open>receive_block\<close> when the time is over.\<close>

definition take_block :: "qid \<Rightarrow> wait \<Rightarrow> qstate \<Rightarrow> (bool option \<times> wait \<times> qstate) res" where
  "take_block q w s =
     (let s = prvLockQueue q (s\<lparr>kern := vTaskSuspendAll (kern s)\<rparr>)
      in rbind (xTaskCheckForTimeOut (xTimeOut w) (xTicksToWait w) (kern s)) (\<lambda>(over, to, n, k).
         let w = w\<lparr>xTimeOut := to, xTicksToWait := n\<rparr>; s = s\<lparr>kern := k\<rparr>
         in if \<not> over then
              if prvIsQueueEmpty q s
              then rbind (if is_mutex (queue s q)
                          then rbind (xTaskPriorityInherit (xMutexHolder (queue s q)) (kern s)) (\<lambda>(b, k).
                               Inr (w\<lparr>xInheritanceOccurred := b\<rparr>, s\<lparr>kern := k\<rparr>))
                          else Inr (w, s)) (\<lambda>(w, s).
                   rbind (vTaskPlaceOnEventList (TasksWaitingToReceive q) n (kern s)) (\<lambda>k.
                   rbind (leave_block q True (s\<lparr>kern := k\<rparr>)) (\<lambda>s. Inr (None, w, s))))
              else rbind (leave_block q False s) (\<lambda>s. Inr (None, w, s))
            else
              rbind (leave_block q False s) (\<lambda>s.
              if prvIsQueueEmpty q s
              then rbind (if xInheritanceOccurred w
                          then vTaskPriorityDisinheritAfterTimeout (xMutexHolder (queue s q))
                                 (prvGetDisinheritPriorityAfterTimeout q s) (kern s)
                          else Inr (kern s)) (\<lambda>k. Inr (Some False, w, s\<lparr>kern := k\<rparr>))
              else Inr (None, w, s))))"

definition xQueueSemaphoreTake :: "TimeOut_t \<Rightarrow> qid \<Rightarrow> u32 \<Rightarrow> qstate \<Rightarrow> (bool option \<times> wait \<times> qstate) res" where
  "xQueueSemaphoreTake to q xTicks s =
     rbind (c_assert (uxItemSize (queue s q) = 0)) (\<lambda>_.
     rbind (c_assert (scheduler_allows xTicks (kern s))) (\<lambda>_. take_try q (wait_start to xTicks) s))"

definition xSemaphoreGive :: "TimeOut_t \<Rightarrow> qid \<Rightarrow> qstate \<Rightarrow> (bool option \<times> wait \<times> qstate) res" where
  "xSemaphoreGive to q s = xQueueGenericSend to q None 0 queueSEND_TO_BACK s"

definition prvInitialiseMutex :: "TimeOut_t \<Rightarrow> qid option \<Rightarrow> qstate \<Rightarrow> qstate res" where
  "prvInitialiseMutex to pxNewQueue s =
     (case pxNewQueue of None \<Rightarrow> Inr s
      | Some q \<Rightarrow>
          let s = set_queue q (\<lambda>Q. Q\<lparr>xMutexHolder := None, pcHead := None, uxRecursiveCallCount := 0\<rparr>) s
          in rbind (xQueueGenericSend to q None 0 queueSEND_TO_BACK s) (\<lambda>(_, _, s). Inr s))"

definition xQueueCreateMutex ::
  "u32 \<Rightarrow> (nat \<Rightarrow> u8) \<Rightarrow> TimeOut_t \<Rightarrow> queue_type \<Rightarrow> qstate \<Rightarrow> (qid option \<times> qstate) res" where
  "xQueueCreateMutex ucHeap mem to ty s =
     rbind (xQueueGenericCreate ucHeap mem 1 0 ty s) (\<lambda>(q, s).
     rbind (prvInitialiseMutex to q s) (\<lambda>s. Inr (q, s)))"

definition xSemaphoreCreateBinary :: "u32 \<Rightarrow> (nat \<Rightarrow> u8) \<Rightarrow> qstate \<Rightarrow> (qid option \<times> qstate) res" where
  "xSemaphoreCreateBinary ucHeap mem s =
     xQueueGenericCreate ucHeap mem 1 queueSEMAPHORE_QUEUE_ITEM_LENGTH queueQUEUE_TYPE_BINARY_SEMAPHORE s"

definition xQueueCreateCountingSemaphore ::
  "u32 \<Rightarrow> (nat \<Rightarrow> u8) \<Rightarrow> u32 \<Rightarrow> u32 \<Rightarrow> qstate \<Rightarrow> (qid option \<times> qstate) res" where
  "xQueueCreateCountingSemaphore ucHeap mem uxMaxCount uxInitialCount s =
     (if uxMaxCount \<noteq> 0 \<and> uxInitialCount \<le> uxMaxCount then
        rbind (xQueueGenericCreate ucHeap mem uxMaxCount queueSEMAPHORE_QUEUE_ITEM_LENGTH queueQUEUE_TYPE_COUNTING_SEMAPHORE s)
          (\<lambda>(q, s). Inr (q, case q of None \<Rightarrow> s | Some q \<Rightarrow> set_queue q (uxMessagesWaiting_update (\<lambda>_. unat uxInitialCount)) s))
      else Inl AssertFailed)"

definition xQueueGetMutexHolder :: "qid \<Rightarrow> qstate \<Rightarrow> tid option" where
  "xQueueGetMutexHolder q s = (if is_mutex (queue s q) then xMutexHolder (queue s q) else None)"

definition xQueueGetMutexHolderFromISR :: "qid \<Rightarrow> qstate \<Rightarrow> tid option" where
  "xQueueGetMutexHolderFromISR q s = (if is_mutex (queue s q) then xMutexHolder (queue s q) else None)"

definition xQueueGiveMutexRecursive :: "TimeOut_t \<Rightarrow> qid \<Rightarrow> qstate \<Rightarrow> (bool \<times> qstate) res" where
  "xQueueGiveMutexRecursive to q s =
     (if xMutexHolder (queue s q) = xTaskGetCurrentTaskHandle (kern s) then
        let s = set_queue q (uxRecursiveCallCount_update (\<lambda>n. n - 1)) s
        in if uxRecursiveCallCount (queue s q) = 0
           then rbind (xQueueGenericSend to q None queueMUTEX_GIVE_BLOCK_TIME queueSEND_TO_BACK s) (\<lambda>(_, _, s). Inr (True, s))
           else Inr (True, s)
      else Inr (False, s))"

text \<open>When the task does not hold the mutex, the blocking part and later passes are those of a take.\<close>

definition count_taken :: "qid \<Rightarrow> (bool option \<times> wait \<times> qstate) res \<Rightarrow> (bool option \<times> wait \<times> qstate) res" where
  "count_taken q r =
     rbind r (\<lambda>(b, w, s). Inr (b, w, if b = Some True then set_queue q (uxRecursiveCallCount_update (\<lambda>n. n + 1)) s else s))"

definition xQueueTakeMutexRecursive :: "TimeOut_t \<Rightarrow> qid \<Rightarrow> u32 \<Rightarrow> qstate \<Rightarrow> (bool option \<times> wait \<times> qstate) res" where
  "xQueueTakeMutexRecursive to q xTicks s =
     (if xMutexHolder (queue s q) = xTaskGetCurrentTaskHandle (kern s)
      then Inr (Some True, wait_start to xTicks, set_queue q (uxRecursiveCallCount_update (\<lambda>n. n + 1)) s)
      else count_taken q (xQueueSemaphoreTake to q xTicks s))"

section \<open>Queries, deletion and the registry\<close>

definition uxQueueMessagesWaiting :: "qid \<Rightarrow> qstate \<Rightarrow> nat" where
  "uxQueueMessagesWaiting q s = uxMessagesWaiting (queue s q)"

definition uxQueueSpacesAvailable :: "qid \<Rightarrow> qstate \<Rightarrow> nat" where
  "uxQueueSpacesAvailable q s = uxLength (queue s q) - uxMessagesWaiting (queue s q)"

definition uxQueueMessagesWaitingFromISR :: "qid \<Rightarrow> qstate \<Rightarrow> nat" where
  "uxQueueMessagesWaitingFromISR q s = uxMessagesWaiting (queue s q)"

definition uxQueueGetQueueNumber :: "qid \<Rightarrow> qstate \<Rightarrow> u32" where
  "uxQueueGetQueueNumber q s = uxQueueNumber (queue s q)"

definition vQueueSetQueueNumber :: "qid \<Rightarrow> u32 \<Rightarrow> qstate \<Rightarrow> qstate" where
  "vQueueSetQueueNumber q n = set_queue q (uxQueueNumber_update (\<lambda>_. n))"

definition ucQueueGetQueueType :: "qid \<Rightarrow> qstate \<Rightarrow> queue_type" where
  "ucQueueGetQueueType q s = ucQueueType (queue s q)"

text \<open>The entry to write: the queue's own, else the first that is free.\<close>

fun registry_slot :: "qid \<Rightarrow> nat \<Rightarrow> nat option \<Rightarrow> (string option \<times> qid option) list \<Rightarrow> nat option" where
  "registry_slot q ux pxEntryToWrite [] = pxEntryToWrite"
| "registry_slot q ux pxEntryToWrite ((nm, h) # es) =
     (if h = Some q then Some ux
      else registry_slot q (ux + 1) (if pxEntryToWrite = None \<and> nm = None then Some ux else pxEntryToWrite) es)"

definition vQueueAddToRegistry :: "qid \<Rightarrow> string option \<Rightarrow> qstate \<Rightarrow> qstate" where
  "vQueueAddToRegistry q pcQueueName s =
     (case (if pcQueueName = None then None else registry_slot q 0 None (xQueueRegistry s)) of
        None \<Rightarrow> s
      | Some ux \<Rightarrow> s\<lparr>xQueueRegistry := (xQueueRegistry s)[ux := (pcQueueName, Some q)]\<rparr>)"

fun registry_name :: "qid \<Rightarrow> (string option \<times> qid option) list \<Rightarrow> string option" where
  "registry_name q [] = None"
| "registry_name q ((nm, h) # es) = (if h = Some q then nm else registry_name q es)"

definition pcQueueGetName :: "qid \<Rightarrow> qstate \<Rightarrow> string option" where
  "pcQueueGetName q s = registry_name q (xQueueRegistry s)"

fun registry_remove :: "qid \<Rightarrow> (string option \<times> qid option) list \<Rightarrow> (string option \<times> qid option) list" where
  "registry_remove q [] = []"
| "registry_remove q ((nm, h) # es) = (if h = Some q then (None, None) # es else (nm, h) # registry_remove q es)"

definition vQueueUnregisterQueue :: "qid \<Rightarrow> qstate \<Rightarrow> qstate" where
  "vQueueUnregisterQueue q s = s\<lparr>xQueueRegistry := registry_remove q (xQueueRegistry s)\<rparr>"

definition vQueueDelete :: "qid \<Rightarrow> qstate \<Rightarrow> qstate res" where
  "vQueueDelete q s =
     (let s = vQueueUnregisterQueue q s
      in rbind (vPortFree (Some (of_nat q)) (heap (kern s))) (\<lambda>h. Inr (s\<lparr>kern := (kern s)\<lparr>heap := h\<rparr>\<rparr>)))"

text \<open>Waiting of the timer task; the scheduler is suspended by the caller.\<close>

definition vQueueWaitForMessageRestricted :: "qid \<Rightarrow> u32 \<Rightarrow> bool \<Rightarrow> qstate \<Rightarrow> qstate res" where
  "vQueueWaitForMessageRestricted q xTicks xWaitIndefinitely s =
     (let s = prvLockQueue q s
      in rbind (if uxMessagesWaiting (queue s q) = 0
                then rbind (vTaskPlaceOnEventListRestricted (TasksWaitingToReceive q) xTicks xWaitIndefinitely (kern s)) (\<lambda>k.
                     Inr (s\<lparr>kern := k\<rparr>))
                else Inr s) (prvUnlockQueue q))"

end
