(* ===== verification/FreeRTOS_List_Correct.thy ===== *)
theory FreeRTOS_List_Correct
  imports FreeRTOS_List
begin

text \<open>
  The pointer operations of the kernel lists implement the operations on sequences: a
  representation relation between the heap of nodes and the store of sequences, the proof that
  linking and unlinking a node keeps it, the simulation of every list operation, and the
  termination of the sorted insertion.
\<close>

section \<open>Doubly linked chains\<close>

fun chain :: "('n \<Rightarrow> 'n) \<Rightarrow> ('n \<Rightarrow> 'n) \<Rightarrow> 'n \<Rightarrow> 'n list \<Rightarrow> 'n \<Rightarrow> bool" where
  "chain nx pv a [] b \<longleftrightarrow> nx a = b \<and> pv b = a"
| "chain nx pv a (x # xs) b \<longleftrightarrow> nx a = x \<and> pv x = a \<and> chain nx pv x xs b"

lemma chain_cong:
  "(\<And>n. n = a \<or> n \<in> set xs \<Longrightarrow> nx' n = nx n) \<Longrightarrow> (\<And>n. n = b \<or> n \<in> set xs \<Longrightarrow> pv' n = pv n) \<Longrightarrow>
   chain nx' pv' a xs b = chain nx pv a xs b"
  by (induction xs arbitrary: a) auto

lemma chain_append: "chain nx pv a (xs @ y # ys) b \<longleftrightarrow> chain nx pv a xs y \<and> chain nx pv y ys b"
  by (induction xs arbitrary: a) auto

lemma chain_prev: "chain nx pv a xs b \<Longrightarrow> pv b = last (a # xs)"
  by (induction xs arbitrary: a) auto

lemma chain_next: "chain nx pv a xs b \<Longrightarrow> nx a = hd (xs @ [b])"
  by (cases xs) auto

lemma chain_prev_at: "chain nx pv a (us @ vs) b \<Longrightarrow> pv (hd (vs @ [b])) = last (a # us)"
  by (cases vs) (auto simp: chain_append dest: chain_prev)

lemma chain_next_at: "chain nx pv a (us @ vs) b \<Longrightarrow> nx (last (a # us)) = hd (vs @ [b])"
  by (induction us arbitrary: a) (auto dest: chain_next split: if_splits)

lemma chain_link:
  assumes "chain nx pv a (us @ vs) b" and "distinct (us @ vs)" and "a \<notin> set (us @ vs)" and "b \<notin> set (us @ vs)"
    and "x \<notin> set (us @ vs)" and "x \<noteq> a" and "x \<noteq> b"
  shows "chain (nx(last (a # us) := x, x := hd (vs @ [b]))) (pv(hd (vs @ [b]) := x, x := last (a # us))) a (us @ x # vs) b"
  using assms
proof (induction us arbitrary: a)
  case Nil
  then show ?case
  proof (cases vs)
    case (Cons v ws)
    then have "chain (nx(a := x, x := v)) (pv(v := x, x := a)) v ws b = chain nx pv v ws b"
      using Nil by (intro chain_cong) auto
    moreover have "v \<noteq> x" using Nil Cons by auto
    ultimately show ?thesis using Nil Cons by (simp add: fun_upd_def)
  qed auto
next
  case (Cons u us)
  have "hd (vs @ [b]) \<noteq> u" using Cons.prems by (cases vs) auto
  moreover have "last (u # us) \<noteq> a" using Cons.prems(3) last_in_set [of "u # us"] by (metis Un_iff list.distinct(1) set_append append_Cons)
  ultimately show ?case using Cons.IH [of u] Cons.prems by auto
qed

lemma chain_unlink:
  assumes "chain nx pv a (us @ x # vs) b" and "distinct (us @ x # vs)" and "a \<notin> set (us @ x # vs)" and "b \<notin> set (us @ x # vs)"
  shows "chain (nx(last (a # us) := hd (vs @ [b]))) (pv(hd (vs @ [b]) := last (a # us))) a (us @ vs) b"
  using assms
proof (induction us arbitrary: a)
  case Nil
  then show ?case
  proof (cases vs)
    case (Cons v ws)
    then have "chain (nx(a := v)) (pv(v := a)) v ws b = chain nx pv v ws b"
      using Nil by (intro chain_cong) auto
    moreover have "v \<noteq> x" using Nil Cons by auto
    ultimately show ?thesis using Nil Cons by (simp add: fun_upd_def)
  qed auto
next
  case (Cons u us)
  have "hd (vs @ [b]) \<noteq> u" using Cons.prems by (cases vs) auto
  moreover have "last (u # us) \<noteq> a" using Cons.prems(3) last_in_set [of "u # us"] by (metis Un_iff list.distinct(1) set_append append_Cons)
  ultimately show ?case using Cons.IH [of u] Cons.prems by auto
qed

section \<open>The representation relation\<close>

definition index_node :: "'l \<Rightarrow> 'i option \<Rightarrow> ('l, 'i) node" where
  "index_node l idx = (case idx of None \<Rightarrow> ListEnd l | Some i \<Rightarrow> Item i)"

definition ring :: "('l, 'i) list_heap \<Rightarrow> ('l, 'i) lists \<Rightarrow> 'l \<Rightarrow> bool" where
  "ring h A l \<longleftrightarrow> chain (pxNext h) (pxPrevious h) (ListEnd l) (map Item (litems A l)) (ListEnd l) \<and>
     uxNumberOfItems h l = of_nat (length (litems A l)) \<and> pxIndex h l = index_node l (lindex A l) \<and>
     xItemValue h (ListEnd l) = portMAX_DELAY"

definition repr :: "'l set \<Rightarrow> ('l, 'i) list_heap \<Rightarrow> ('l, 'i) lists \<Rightarrow> bool" where
  "repr L h A \<longleftrightarrow> lists_wf A \<and> (\<forall>l. l \<notin> L \<longrightarrow> litems A l = []) \<and> (\<forall>l\<in>L. ring h A l) \<and>
     (\<forall>i. xItemValue h (Item i) = lvalue A i \<and> pxContainer h i = lcontainer A i)"

lemma repr_D:
  assumes "repr L h A"
  shows "lists_wf A" "l \<notin> L \<Longrightarrow> litems A l = []" "l \<in> L \<Longrightarrow> ring h A l" 
    "xItemValue h (Item i) = lvalue A i" "pxContainer h i = lcontainer A i"
  using assms by (auto simp: repr_def)

lemma lists_wf_D:
  assumes "lists_wf A"
  shows "distinct (litems A l)" "lcontainer A i = Some l \<longleftrightarrow> i \<in> set (litems A l)"
    "lindex A l = Some i \<Longrightarrow> i \<in> set (litems A l)"
  using assms by (auto simp: lists_wf_def)

lemma ring_frame:
  assumes "ring h A l" and "\<And>n. n = ListEnd l \<or> n \<in> Item ` set (litems A l) \<Longrightarrow> pxNext h' n = pxNext h n \<and> pxPrevious h' n = pxPrevious h n"
    and "uxNumberOfItems h' l = uxNumberOfItems h l" "pxIndex h' l = pxIndex h l" "xItemValue h' (ListEnd l) = xItemValue h (ListEnd l)"
    and "litems A' l = litems A l" "lindex A' l = lindex A l"
  shows "ring h' A' l"
proof -
  have "chain (pxNext h') (pxPrevious h') (ListEnd l) (map Item (litems A l)) (ListEnd l) =
        chain (pxNext h) (pxPrevious h) (ListEnd l) (map Item (litems A l)) (ListEnd l)"
    using assms(2) by (intro chain_cong) auto
  with assms show ?thesis by (simp add: ring_def)
qed

definition place :: "'l \<Rightarrow> 'i \<Rightarrow> 'i list \<Rightarrow> 'i list \<Rightarrow> ('l, 'i) lists \<Rightarrow> ('l, 'i) lists" where
  "place l i us vs A = A\<lparr>litems := (litems A)(l := us @ i # vs), lcontainer := (lcontainer A)(i := Some l)\<rparr>"

lemma lists_wf_place:
  assumes "lists_wf A" and "lcontainer A i = None" and "litems A l = us @ vs"
  shows "lists_wf (place l i us vs A)"
proof -
  have out: "i \<notin> set (litems A l')" for l' using lists_wf_D(2) [OF assms(1), of i l'] assms(2) by simp
  have "distinct (us @ vs)" using lists_wf_D(1) [OF assms(1), of l] assms(3) by simp
  with out [of l] assms(3) have "distinct (us @ i # vs)" by auto
  with assms out show ?thesis unfolding lists_wf_def place_def
    by (simp) (metis option.inject Un_iff set_append)
qed

definition link :: "'l \<Rightarrow> 'i \<Rightarrow> ('l, 'i) node \<Rightarrow> ('l, 'i) node \<Rightarrow> ('l, 'i) list_heap \<Rightarrow> ('l, 'i) list_heap" where
  "link l i p q h = h\<lparr>pxNext := (pxNext h)(p := Item i, Item i := q),
     pxPrevious := (pxPrevious h)(q := Item i, Item i := p),
     pxContainer := (pxContainer h)(i := Some l),
     uxNumberOfItems := (uxNumberOfItems h)(l := uxNumberOfItems h l + 1)\<rparr>"

lemma last_node: "last (ListEnd l # map Item us) \<in> insert (ListEnd l) (Item ` set us)"
  by (cases us rule: rev_cases) auto

lemma hd_node: "hd (map Item vs @ [ListEnd l]) \<in> insert (ListEnd l) (Item ` set vs)"
  by (cases vs) auto

lemma repr_link:
  assumes "repr L h A" and "l \<in> L" and "lcontainer A i = None" and "litems A l = us @ vs"
    and "p = last (ListEnd l # map Item us)" and "q = hd (map Item vs @ [ListEnd l])"
  shows "repr L (link l i p q h) (place l i us vs A)"
proof -
  note R = repr_D [OF assms(1)] 
  note W = lists_wf_D [OF R(1)]
  have out: "i \<notin> set (litems A l')" for l' using W(2) [of i l'] assms(3) by simp
  have disj: "l' \<noteq> l \<Longrightarrow> j \<in> set (litems A l') \<Longrightarrow> j \<notin> set (litems A l)" for l' j
    using W(2) [of j l] W(2) [of j l'] by auto
  have pq: "p \<in> insert (ListEnd l) (Item ` set (litems A l))" "q \<in> insert (ListEnd l) (Item ` set (litems A l))"
    using last_node [of l us] hd_node [of vs l] assms(4-6) by auto
  have "ring (link l i p q h) (place l i us vs A) l"
  proof -
    have "chain (pxNext h) (pxPrevious h) (ListEnd l) (map Item us @ map Item vs) (ListEnd l)"
      using R(3) [OF assms(2)] assms(4) by (simp add: ring_def)
    moreover have "distinct (map Item us @ map Item vs)"
      using W(1) [of l] assms(4) by (auto simp: distinct_map inj_on_def)
    ultimately have "chain ((pxNext h)(p := Item i, Item i := q)) ((pxPrevious h)(q := Item i, Item i := p))
        (ListEnd l) (map Item us @ Item i # map Item vs) (ListEnd l)"
      unfolding assms(5,6) by (rule chain_link) (use out [of l] assms(4) in auto)
    then show ?thesis using R(3) [OF assms(2)] assms(4)
      by (simp add: ring_def place_def link_def)
  qed
  moreover have "ring (link l i p q h) (place l i us vs A) l'" if "l' \<in> L" "l' \<noteq> l" for l'
    using R(3) [OF that(1)] by (rule ring_frame) (use that(2) out [of l'] disj [OF that(2)] pq in \<open>auto simp: link_def place_def\<close>)
  ultimately have "\<forall>l'\<in>L. ring (link l i p q h) (place l i us vs A) l'" by metis
  moreover have "lists_wf (place l i us vs A)" using R(1) assms(3,4) by (rule lists_wf_place)
  ultimately show ?thesis using R(2,4,5) assms(2) by (auto simp: repr_def link_def place_def)
qed
section \<open>Simulation of the operations\<close>

lemma lists_wf_split: "lists_wf A \<Longrightarrow> lcontainer A i = Some l \<Longrightarrow> \<exists>us vs. litems A l = us @ i # vs \<and> i \<notin> set us \<and> i \<notin> set vs"
  using lists_wf_D(1) [of A l] lists_wf_D(2) [of A i l] split_list [of i "litems A l"] by fastforce

lemma index_split:
  assumes "lists_wf A"
  shows "index_node l (lindex A l) = hd (map Item (dropWhile (\<lambda>j. lindex A l \<noteq> Some j) (litems A l)) @ [ListEnd l])"
proof (cases "lindex A l")
  case (Some j)
  then obtain us vs where s: "litems A l = us @ j # vs" "j \<notin> set us"
    using lists_wf_D(3) [OF assms Some] split_list_first [of j "litems A l"] by metis
  have "dropWhile (\<lambda>k. lindex A l \<noteq> Some k) (us @ j # vs) = j # vs"
    using s(2) Some by (auto simp: dropWhile_append)
  with s(1) Some show ?thesis by (simp add: index_node_def)
next
  case None
  then have "dropWhile (\<lambda>j. lindex A l \<noteq> Some j) (litems A l) = []" by (simp add: dropWhile_eq_Nil_conv)
  then show ?thesis using None by (simp only:) (simp add: index_node_def)
qed

lemma vListInsertEnd_link:
  assumes "Item i \<noteq> pxIndex h l" and "Item i \<noteq> pxPrevious h (pxIndex h l)"
  shows "vListInsertEnd l i h = link l i (pxPrevious h (pxIndex h l)) (pxIndex h l) h"
  using assms fun_upd_twist [OF assms(2) [symmetric], of "pxNext h"] fun_upd_twist [OF assms(1) [symmetric], of "pxPrevious h"]
  by (simp add: vListInsertEnd_def link_def Let_def)

lemma out_of_rings:
  assumes "repr L h A" and "lcontainer A i = None" and "litems A l = us @ vs"
  shows "Item i \<noteq> last (ListEnd l # map Item us)" "Item i \<noteq> hd (map Item vs @ [ListEnd l])"
  using last_node [of l us] hd_node [of vs l] lists_wf_D(2) [OF repr_D(1) [OF assms(1)], of i l] assms(2,3) by auto

lemma repr_insert_end:
  assumes "repr L h A" and "l \<in> L" and "lcontainer A i = None"
  shows "repr L (vListInsertEnd l i h) (list_insert_end l i A)"
proof -
  define us vs where "us = takeWhile (\<lambda>j. lindex A l \<noteq> Some j) (litems A l)"
    and "vs = dropWhile (\<lambda>j. lindex A l \<noteq> Some j) (litems A l)"
  have s: "litems A l = us @ vs" by (simp add: us_def vs_def)
  have q: "pxIndex h l = hd (map Item vs @ [ListEnd l])"
    using repr_D(3) [OF assms(1,2)] index_split [OF repr_D(1) [OF assms(1)], of l] by (simp add: ring_def vs_def)
  have "chain (pxNext h) (pxPrevious h) (ListEnd l) (map Item us @ map Item vs) (ListEnd l)"
    using repr_D(3) [OF assms(1,2)] by (simp add: ring_def s)
  then have p: "pxPrevious h (pxIndex h l) = last (ListEnd l # map Item us)"
    unfolding q by (rule chain_prev_at)
  have "list_insert_end l i A = place l i us vs A"
    by (simp add: list_insert_end_def place_def us_def vs_def Let_def)
  moreover have "vListInsertEnd l i h = link l i (last (ListEnd l # map Item us)) (hd (map Item vs @ [ListEnd l])) h"
    using vListInsertEnd_link [of i h l] out_of_rings [OF assms(1,3) s] p q by simp
  ultimately show ?thesis using repr_link [OF assms s refl refl] by simp
qed

lemma insert_position_stops:
  assumes "chain (pxNext h) pv a (us @ vs) b" and "\<And>n. n \<in> set us \<Longrightarrow> xItemValue h n \<le> v"
    and "\<not> xItemValue h (hd (vs @ [b])) \<le> v"
  shows "insert_position h v a = Some (last (a # us))"
  using assms
proof (induction us arbitrary: a)
  case Nil
  then have "pxNext h a = hd (vs @ [b])" by (cases vs) auto
  with Nil show ?case by (simp add: insert_position.simps)
next
  case (Cons u us)
  then show ?case by (subst insert_position.simps) simp
qed

lemma vListInsert_link:
  assumes "(if xItemValue h (Item i) = portMAX_DELAY then Some (pxPrevious h (ListEnd l))
      else insert_position h (xItemValue h (Item i)) (ListEnd l)) = Some p"
    and "Item i \<noteq> p" and "Item i \<noteq> pxNext h p"
  shows "vListInsert l i h = Some (link l i p (pxNext h p) h)"
  using assms fun_upd_twist [OF assms(2) [symmetric], of "pxNext h"] 
  by (simp add: vListInsert_def link_def Let_def)

lemma max_delay_top: "portMAX_DELAY \<le> v \<longleftrightarrow> v = portMAX_DELAY"
  using unsigned_less [where ?'a = nat, of v] by (auto simp: portMAX_DELAY_def word_le_nat_alt word_unat_eq_iff)

lemma le_max_delay [simp]: "v \<le> portMAX_DELAY"
  using unsigned_less [where ?'a = nat, of v] by (simp add: portMAX_DELAY_def word_le_nat_alt)

lemma insert_stops_at:
  assumes "repr L h A" and "l \<in> L"
  shows "(if xItemValue h (Item i) = portMAX_DELAY then Some (pxPrevious h (ListEnd l))
      else insert_position h (xItemValue h (Item i)) (ListEnd l)) =
      Some (last (ListEnd l # map Item (takeWhile (\<lambda>j. lvalue A j \<le> lvalue A i) (litems A l))))"
proof -
  let ?v = "lvalue A i" and ?us = "takeWhile (\<lambda>j. lvalue A j \<le> lvalue A i) (litems A l)"
    and ?vs = "dropWhile (\<lambda>j. lvalue A j \<le> lvalue A i) (litems A l)"
  have val: "xItemValue h (Item j) = lvalue A j" for j using repr_D(4) [OF assms(1)] .
  have ch: "chain (pxNext h) (pxPrevious h) (ListEnd l) (map Item ?us @ map Item ?vs) (ListEnd l)"
    using repr_D(3) [OF assms] unfolding map_append [symmetric] takeWhile_dropWhile_id by (simp add: ring_def)
  show ?thesis
  proof (cases "?v = portMAX_DELAY")
    case True
    then have "?vs = []" by (simp add: dropWhile_eq_Nil_conv)
    with True val chain_prev [OF ch] show ?thesis by simp
  next
    case False
    have "\<not> xItemValue h (hd (map Item ?vs @ [ListEnd l])) \<le> ?v"
    proof (cases ?vs)
      case Nil
      show ?thesis unfolding Nil using False repr_D(3) [OF assms] by (simp add: ring_def max_delay_top)
    next
      case (Cons j js)
      then have "\<not> lvalue A j \<le> ?v" by (simp add: dropWhile_eq_Cons_conv)
      then show ?thesis unfolding Cons using val by simp
    qed
    then have "insert_position h ?v (ListEnd l) = Some (last (ListEnd l # map Item ?us))"
      using ch val by (intro insert_position_stops [where vs = "map Item ?vs" and b = "ListEnd l"]) (auto dest: set_takeWhileD)
    with False val show ?thesis by simp
  qed
qed

lemma repr_insert:
  assumes "repr L h A" and "l \<in> L" and "lcontainer A i = None"
  shows "\<exists>h'. vListInsert l i h = Some h' \<and> repr L h' (list_insert l i A)"
proof -
  let ?us = "takeWhile (\<lambda>j. lvalue A j \<le> lvalue A i) (litems A l)" and ?vs = "dropWhile (\<lambda>j. lvalue A j \<le> lvalue A i) (litems A l)"
  have s: "litems A l = ?us @ ?vs" by simp
  let ?p = "last (ListEnd l # map Item ?us)"
  have "chain (pxNext h) (pxPrevious h) (ListEnd l) (map Item ?us @ map Item ?vs) (ListEnd l)"
    using repr_D(3) [OF assms(1,2)] unfolding map_append [symmetric] takeWhile_dropWhile_id by (simp add: ring_def)
  then have q: "pxNext h ?p = hd (map Item ?vs @ [ListEnd l])" by (rule chain_next_at)
  have "vListInsert l i h = Some (link l i ?p (pxNext h ?p) h)"
    using insert_stops_at [OF assms(1,2)] out_of_rings(1) [OF assms(1,3) s] out_of_rings(2) [OF assms(1,3) s]
    unfolding q [symmetric] by (rule vListInsert_link)
  moreover have "list_insert l i A = place l i ?us ?vs A" by (simp add: list_insert_def place_def Let_def)
  ultimately show ?thesis using repr_link [OF assms s refl refl] unfolding q [symmetric] by simp
qed

lemma pred_in_split: "i \<notin> set us \<Longrightarrow> index_node l (pred_in (us @ i # vs) i) = last (ListEnd l # map Item us)"
proof (induction us)
  case Nil
  show ?case by (cases vs) (simp_all add: index_node_def)
next
  case (Cons u us)
  then show ?case by (cases us) (auto simp: index_node_def)
qed

lemma pred_in_mem: "pred_in xs i = Some j \<Longrightarrow> distinct xs \<Longrightarrow> j \<in> set (remove1 i xs)"
  by (induction xs i rule: pred_in.induct) (auto split: if_splits)

lemma remove1_split: "i \<notin> set us \<Longrightarrow> remove1 i (us @ i # vs) = us @ vs"
  by (induction us) auto

lemma lists_wf_remove:
  assumes "lists_wf A" and "list_remove i A = Inr A'"
  shows "lists_wf A'"
proof -
  obtain l where l: "lcontainer A i = Some l" using assms(2) by (auto simp: list_remove_def split: option.splits)
  note W = lists_wf_D [OF assms(1)]
  have iff: "i \<in> set (litems A l') \<longleftrightarrow> l' = l" for l' using W(2) [of i l'] l by auto
  have "\<exists>us vs. litems A l = us @ i # vs \<and> i \<notin> set us \<and> i \<notin> set vs" by (rule lists_wf_split [OF assms(1) l])
  then obtain us vs where s: "litems A l = us @ i # vs" "i \<notin> set us" "i \<notin> set vs" by (elim exE conjE)
  have d: "distinct (us @ vs)" using W(1) [of l] s(1) by simp
  show ?thesis unfolding lists_wf_def
  proof (intro allI conjI impI)
    fix l'
    show "distinct (litems A' l')" using assms(2) l W(1) [of l'] by (auto simp: list_remove_def)
    show "(lcontainer A' j = Some l') = (j \<in> set (litems A' l'))" for j
      using assms(2) l W(2) [of j l'] iff [of l'] d s by (auto simp: list_remove_def split: if_splits)
    show "j \<in> set (litems A' l')" if "lindex A' l' = Some j" for j
      using assms(2) l W(3) [of l' j] that pred_in_mem [of "litems A l" i j] W(1) [of l] iff [of l']
      by (auto simp: list_remove_def split: if_splits)
  qed
qed

definition unlink :: "'l \<Rightarrow> 'i \<Rightarrow> ('l, 'i) node \<Rightarrow> ('l, 'i) node \<Rightarrow> ('l, 'i) list_heap \<Rightarrow> ('l, 'i) list_heap" where
  "unlink l i p q h = h\<lparr>pxNext := (pxNext h)(p := q), pxPrevious := (pxPrevious h)(q := p),
     pxIndex := (pxIndex h)(l := if pxIndex h l = Item i then p else pxIndex h l),
     pxContainer := (pxContainer h)(i := None),
     uxNumberOfItems := (uxNumberOfItems h)(l := uxNumberOfItems h l - 1)\<rparr>"

lemma uxListRemove_unlink:
  assumes "pxContainer h i = Some l" and "pxNext h (Item i) \<noteq> Item i" and "pxPrevious h (Item i) \<noteq> Item i"
  shows "uxListRemove i h = Inr (uxNumberOfItems h l - 1, unlink l i (pxPrevious h (Item i)) (pxNext h (Item i)) h)"
  using assms by (simp add: uxListRemove_def unlink_def Let_def fun_upd_idem)

lemma repr_remove:
  assumes "repr L h A" and "lcontainer A i = Some l"
  shows "\<exists>h' A'. uxListRemove i h = Inr (of_nat (length (litems A' l)), h') \<and> list_remove i A = Inr A' \<and> repr L h' A'"
proof -
  note R = repr_D [OF assms(1)]
  note W = lists_wf_D [OF R(1)]
  have L: "l \<in> L" using R(2) [of l] W(2) [of i l] assms(2) by (cases "l \<in> L") auto
  have "\<exists>us vs. litems A l = us @ i # vs \<and> i \<notin> set us \<and> i \<notin> set vs" by (rule lists_wf_split [OF R(1) assms(2)])
  then obtain us vs where s: "litems A l = us @ i # vs" "i \<notin> set us" "i \<notin> set vs" by (elim exE conjE)
  have disj: "l' \<noteq> l \<Longrightarrow> j \<in> set (litems A l') \<Longrightarrow> j \<notin> set (litems A l)" for l' j
    using W(2) [of j l] W(2) [of j l'] by auto
  have ch: "chain (pxNext h) (pxPrevious h) (ListEnd l) (map Item us @ Item i # map Item vs) (ListEnd l)"
    using R(3) [OF L] s(1) by (simp add: ring_def)
  define p q where "p = last (ListEnd l # map Item us)" and "q = hd (map Item vs @ [ListEnd l] :: ('a, 'b) node list)"
  have pq: "pxPrevious h (Item i) = p" "pxNext h (Item i) = q"
    using chain_prev [of _ _ _ _ "Item i"] chain_next [of _ _ "Item i"] ch unfolding chain_append p_def q_def by metis+
  have pq_in: "p \<in> insert (ListEnd l) (Item ` (set (litems A l) - {i}))" "q \<in> insert (ListEnd l) (Item ` (set (litems A l) - {i}))"
    using last_node [of l us] hd_node [of vs l] s unfolding p_def q_def by auto
  then have "p \<noteq> Item i" "q \<noteq> Item i" by auto
  then have un: "uxListRemove i h = Inr (uxNumberOfItems h l - 1, unlink l i p q h)"
    using uxListRemove_unlink [of h i l] R(5) [of i] assms(2) pq by simp
  obtain A' where A': "list_remove i A = Inr A'" using assms(2) by (simp add: list_remove_def)
  then have items: "litems A' = (litems A)(l := us @ vs)"
      "lindex A' = (lindex A)(l := if lindex A l = Some i then pred_in (litems A l) i else lindex A l)"
      "lvalue A' = lvalue A" "lcontainer A' = (lcontainer A)(i := None)"
    using assms(2) s remove1_split [OF s(2), of vs] by (auto simp: list_remove_def)
  have "ring (unlink l i p q h) A' l"
  proof -
    have "distinct (map Item us @ Item i # map Item vs :: ('a, 'b) node list)"
      using W(1) [of l] s by (auto simp: distinct_map inj_on_def)
    with ch have "chain ((pxNext h)(p := q)) ((pxPrevious h)(q := p)) (ListEnd l) (map Item us @ map Item vs) (ListEnd l)"
      unfolding p_def q_def by (rule chain_unlink) auto
    moreover have "(if pxIndex h l = Item i then p else pxIndex h l) = index_node l (lindex A' l)"
      using R(3) [OF L] s pred_in_split [OF s(2), of l vs] items(2)
      by (auto simp: ring_def p_def index_node_def split: option.splits)
    ultimately show ?thesis using R(3) [OF L] s(1) items(1)
      by (simp add: ring_def unlink_def)
  qed
  moreover have "ring (unlink l i p q h) A' l'" if "l' \<in> L" "l' \<noteq> l" for l'
    using R(3) [OF that(1)] by (rule ring_frame) (use that(2) disj [OF that(2)] pq_in items in \<open>auto simp: unlink_def\<close>)
  ultimately have rings: "\<forall>l'\<in>L. ring (unlink l i p q h) A' l'" by metis
  then have "repr L (unlink l i p q h) A'"
    using lists_wf_remove [OF R(1) A'] R(2,4,5) L items by (auto simp: repr_def unlink_def)
  moreover have "uxNumberOfItems h l - 1 = of_nat (length (litems A' l))"
    using R(3) [OF L] s(1) items(1) by (simp add: ring_def)
  ultimately show ?thesis using un A' by auto
qed

lemma succ_in_chain:
  assumes "chain nx pv a (map Item xs) (ListEnd l)" and "distinct xs" and "i \<in> set xs"
  shows "nx (Item i) = index_node l (succ_in xs i)"
  using assms
proof (induction xs arbitrary: a)
  case (Cons x xs)
  then show ?case by (cases xs) (auto simp: index_node_def)
qed simp

lemma succ_in_mem: "succ_in xs i = Some j \<Longrightarrow> j \<in> set xs"
  by (induction xs i rule: succ_in.induct) (auto split: if_splits)

lemma first_node: "chain nx pv (ListEnd l) (map Item xs) (ListEnd l) \<Longrightarrow>
    nx (ListEnd l) = index_node l (case xs of [] \<Rightarrow> None | x # _ \<Rightarrow> Some x)"
  by (cases xs) (simp_all add: index_node_def)

lemma index_node_simps [simp]: "index_node l None = ListEnd l" "index_node l (Some i) = Item i"
  by (simp_all add: index_node_def)

lemma index_node_end: "index_node l x = ListEnd l \<longleftrightarrow> x = None"
  by (cases x) simp_all

lemma owner_of_index: "owner_of (index_node l x) = (case x of None \<Rightarrow> Inl OutOfBounds | Some i \<Rightarrow> Inr i)"
  by (cases x) simp_all

lemma walk_mem: "walk xs idx = Some i \<Longrightarrow> i \<in> set xs"
  by (auto simp: walk_def Let_def dest: succ_in_mem split: option.splits list.splits)

lemma lists_wf_next: "lists_wf A \<Longrightarrow> list_next l A = Inr (i, A') \<Longrightarrow> lists_wf A'"
  by (auto simp: list_next_def lists_wf_def dest: walk_mem split: option.splits if_splits)

lemma next_entry_walk:
  assumes "repr L h A" and "l \<in> L"
  shows "listGET_OWNER_OF_NEXT_ENTRY l h =
    (case walk (litems A l) (lindex A l) of None \<Rightarrow> Inl OutOfBounds
     | Some i \<Rightarrow> Inr (i, h\<lparr>pxIndex := (pxIndex h)(l := Item i)\<rparr>))"
proof -
  have ch: "chain (pxNext h) (pxPrevious h) (ListEnd l) (map Item (litems A l)) (ListEnd l)"
    and ix: "pxIndex h l = index_node l (lindex A l)"
    using repr_D(3) [OF assms] by (simp_all add: ring_def)
  note d = lists_wf_D(1) [OF repr_D(1) [OF assms(1)], of l]
  show ?thesis
  proof (cases "lindex A l")
    case None
    then show ?thesis using ix first_node [OF ch]
      by (auto simp: listGET_OWNER_OF_NEXT_ENTRY_def walk_def Let_def split: list.splits)
  next
    case (Some i)
    have "pxNext h (Item i) = index_node l (succ_in (litems A l) i)"
      using succ_in_chain [OF ch d] lists_wf_D(3) [OF repr_D(1) [OF assms(1)] Some] by simp
    then show ?thesis using Some ix first_node [OF ch]
      by (auto simp: listGET_OWNER_OF_NEXT_ENTRY_def walk_def Let_def split: list.splits option.splits)
  qed
qed

lemma repr_set_index:
  assumes "repr L h A" and "i \<in> set (litems A l)"
  shows "repr L (h\<lparr>pxIndex := (pxIndex h)(l := Item i)\<rparr>) (A\<lparr>lindex := (lindex A)(l := Some i)\<rparr>)"
  using assms by (auto simp: repr_def ring_def lists_wf_def)

lemma repr_next:
  assumes "repr L h A" and "l \<in> L" and "litems A l \<noteq> []"
  shows "\<exists>i h' A'. listGET_OWNER_OF_NEXT_ENTRY l h = Inr (i, h') \<and> list_next l A = Inr (i, A') \<and> repr L h' A'"
proof -
  have "walk (litems A l) (lindex A l) \<noteq> None"
    using assms(3) by (auto simp: walk_def Let_def split: list.splits option.splits)
  then obtain i where w: "walk (litems A l) (lindex A l) = Some i" by blast
  then have "repr L (h\<lparr>pxIndex := (pxIndex h)(l := Item i)\<rparr>) (A\<lparr>lindex := (lindex A)(l := Some i)\<rparr>)"
    using assms(1) walk_mem by (intro repr_set_index) auto
  then show ?thesis using next_entry_walk [OF assms(1,2)] w by (simp add: list_next_def)
qed

lemma repr_set_value:
  "repr L h A \<Longrightarrow> repr L (listSET_LIST_ITEM_VALUE i v h) (list_set_value i v A)"
  by (auto simp: repr_def ring_def lists_wf_def listSET_LIST_ITEM_VALUE_def list_set_value_def)

lemma repr_initialise:
  assumes "repr L h A" and "l \<notin> L"
  shows "repr (insert l L) (vListInitialise l h) (A\<lparr>lindex := (lindex A)(l := None)\<rparr>)"
proof -
  have e: "litems A l = []" using repr_D(2) [OF assms] .
  have "ring (vListInitialise l h) (A\<lparr>lindex := (lindex A)(l := None)\<rparr>) l"
    using e by (simp add: ring_def vListInitialise_def)
  moreover have "ring (vListInitialise l h) (A\<lparr>lindex := (lindex A)(l := None)\<rparr>) l'" if "l' \<in> L" for l'
    using repr_D(3) [OF assms(1) that] by (rule ring_frame) (use that assms(2) in \<open>auto simp: vListInitialise_def\<close>)
  ultimately show ?thesis using assms e by (auto simp: repr_def lists_wf_def vListInitialise_def)
qed

lemma repr_initialise_item:
  assumes "repr L h A" and "lcontainer A i = None"
  shows "repr L (vListInitialiseItem i h) A"
  using assms by (auto simp: repr_def ring_def vListInitialiseItem_def)

lemma empty_iff:
  assumes "repr L h A" and "l \<in> L" and "length (litems A l) < 2 ^ 32"
  shows "listLIST_IS_EMPTY l h \<longleftrightarrow> litems A l = []"
proof -
  have "uxNumberOfItems h l = of_nat (length (litems A l))" using repr_D(3) [OF assms(1,2)] by (simp add: ring_def)
  then have "unat (uxNumberOfItems h l) = length (litems A l)" using assms(3) by (simp add: unat_of_nat_small)
  then show ?thesis by (auto simp: listLIST_IS_EMPTY_def unat_eq_0 [symmetric])
qed

lemma head_owner:
  assumes "repr L h A" and "l \<in> L"
  shows "listGET_OWNER_OF_HEAD_ENTRY l h = list_head l A"
  using repr_D(3) [OF assms] first_node
  by (auto simp: ring_def listGET_OWNER_OF_HEAD_ENTRY_def list_head_def split: list.splits)

lemma head_value:
  assumes "repr L h A" and "l \<in> L"
  shows "listGET_ITEM_VALUE_OF_HEAD_ENTRY l h = (case litems A l of [] \<Rightarrow> portMAX_DELAY | i # _ \<Rightarrow> lvalue A i)"
  using repr_D(3) [OF assms] repr_D(4) [OF assms(1)] first_node
  by (auto simp: ring_def listGET_ITEM_VALUE_OF_HEAD_ENTRY_def split: list.splits)

section \<open>Sequences of list operations\<close>

text \<open>
  The calls a client makes, on the heap and on the store. \<^term>\<open>None\<close> is a call that never
  returns; the caller has to name initialised lists, to insert only items that are in no list and
  to remove only items that are in one, and to walk only lists that are not empty.
\<close>

datatype ('l, 'i) list_op = InsertEnd 'l 'i | Insert 'l 'i | Remove 'i | NextEntry 'l | SetValue 'i u32

fun heap_op :: "('l, 'i) list_op \<Rightarrow> ('l, 'i) list_heap \<Rightarrow> ('l, 'i) list_heap res option" where
  "heap_op (InsertEnd l i) h = Some (Inr (vListInsertEnd l i h))"
| "heap_op (Insert l i) h = map_option Inr (vListInsert l i h)"
| "heap_op (Remove i) h = Some (rbind (uxListRemove i h) (\<lambda>(n, h). Inr h))"
| "heap_op (NextEntry l) h = Some (rbind (listGET_OWNER_OF_NEXT_ENTRY l h) (\<lambda>(i, h). Inr h))"
| "heap_op (SetValue i v) h = Some (Inr (listSET_LIST_ITEM_VALUE i v h))"

fun store_op :: "('l, 'i) list_op \<Rightarrow> ('l, 'i) lists \<Rightarrow> ('l, 'i) lists res" where
  "store_op (InsertEnd l i) A = Inr (list_insert_end l i A)"
| "store_op (Insert l i) A = Inr (list_insert l i A)"
| "store_op (Remove i) A = list_remove i A"
| "store_op (NextEntry l) A = rbind (list_next l A) (\<lambda>(i, A). Inr A)"
| "store_op (SetValue i v) A = Inr (list_set_value i v A)"

fun op_ok :: "'l set \<Rightarrow> ('l, 'i) lists \<Rightarrow> ('l, 'i) list_op \<Rightarrow> bool" where
  "op_ok L A (InsertEnd l i) \<longleftrightarrow> l \<in> L \<and> lcontainer A i = None"
| "op_ok L A (Insert l i) \<longleftrightarrow> l \<in> L \<and> lcontainer A i = None"
| "op_ok L A (Remove i) \<longleftrightarrow> lcontainer A i \<noteq> None"
| "op_ok L A (NextEntry l) \<longleftrightarrow> l \<in> L \<and> litems A l \<noteq> []"
| "op_ok L A (SetValue i v) \<longleftrightarrow> True"

fun heap_ops :: "('l, 'i) list_op list \<Rightarrow> ('l, 'i) list_heap \<Rightarrow> ('l, 'i) list_heap res option" where
  "heap_ops [] h = Some (Inr h)"
| "heap_ops (c # cs) h = Option.bind (heap_op c h) (\<lambda>r. case r of Inl e \<Rightarrow> Some (Inl e) | Inr h \<Rightarrow> heap_ops cs h)"

fun ops_ok :: "'l set \<Rightarrow> ('l, 'i) lists \<Rightarrow> ('l, 'i) list_op list \<Rightarrow> bool" where
  "ops_ok L A [] \<longleftrightarrow> True"
| "ops_ok L A (c # cs) \<longleftrightarrow> op_ok L A c \<and> (case store_op c A of Inl e \<Rightarrow> True | Inr A \<Rightarrow> ops_ok L A cs)"

lemma heap_op_simulates:
  assumes "repr L h A" and "op_ok L A c"
  shows "\<exists>h' A'. heap_op c h = Some (Inr h') \<and> store_op c A = Inr A' \<and> repr L h' A'"
proof (cases c)
  case (InsertEnd l i)
  with assms repr_insert_end [OF assms(1), of l i] show ?thesis by auto
next
  case (Insert l i)
  with assms repr_insert [OF assms(1), of l i] show ?thesis by auto
next
  case (Remove i)
  with assms obtain l where "lcontainer A i = Some l" by auto
  from repr_remove [OF assms(1) this] Remove show ?thesis by auto
next
  case (NextEntry l)
  with assms repr_next [OF assms(1), of l] show ?thesis by auto
next
  case (SetValue i v)
  with assms repr_set_value [OF assms(1), of i v] show ?thesis by auto
qed

text \<open>The heap of one initialised list and no items in it, the starting point of the examples.\<close>

definition one_list :: "nat \<Rightarrow> (nat \<Rightarrow> u32) \<Rightarrow> (nat, nat) list_heap" where
  "one_list l v = vListInitialise l \<lparr>xItemValue = (\<lambda>n. case n of Item i \<Rightarrow> v i | ListEnd _ \<Rightarrow> 0),
     pxNext = id, pxPrevious = id, pxContainer = Map.empty, uxNumberOfItems = (\<lambda>_. 0), pxIndex = ListEnd\<rparr>"

definition one_store :: "(nat \<Rightarrow> u32) \<Rightarrow> (nat, nat) lists" where
  "one_store v = \<lparr>litems = (\<lambda>_. []), lindex = (\<lambda>_. None), lvalue = v, lcontainer = Map.empty\<rparr>"

lemma one_list_repr: "repr {l} (one_list l v) (one_store v)"
  by (auto simp: repr_def ring_def lists_wf_def one_list_def one_store_def vListInitialise_def)

text \<open>
  C6. The linked lists implement sequences: starting from a heap that represents a store of
  sequences, every series of insertions at the index, sorted insertions, removals, walks and value
  changes that respects the callers' obligations returns (no search runs forever, no pointer is
  null), and the heap it leaves represents the store the same series of sequence operations leaves,
  for the lists it touched and for all the others.
\<close>

theorem list_ops_simulate:
  assumes "repr L h A" and "ops_ok L A cs"
  shows "\<exists>h' A'. heap_ops cs h = Some (Inr h') \<and> foldE store_op cs A = Inr A' \<and> repr L h' A'"
  using assms
proof (induction cs arbitrary: h A)
  case (Cons c cs)
  then obtain h1 A1 where s: "heap_op c h = Some (Inr h1)" "store_op c A = Inr A1" "repr L h1 A1"
    using heap_op_simulates [of L h A c] by auto
  with Cons.prems have "ops_ok L A1 cs" by simp
  from Cons.IH [OF s(3) this] s(1,2) show ?case by auto
qed auto

theorem list_ops_simulate_witness:
  "\<exists>h' A'. heap_ops [Insert 0 1, Insert 0 2, InsertEnd 0 3, NextEntry 0, Remove 1] (one_list 0 (\<lambda>i. if i = 1 then 7 else 5)) = Some (Inr h') \<and>
     repr {0} h' A' \<and> litems A' 0 = [2, 3]"
proof -
  let ?cs = "[Insert 0 1, Insert 0 2, InsertEnd 0 3, NextEntry 0, Remove 1]" and ?A = "one_store (\<lambda>i. if i = 1 then 7 else 5)"
  have ok: "ops_ok {0} ?A ?cs"
    by (simp add: one_store_def list_insert_def list_insert_end_def list_remove_def list_next_def walk_def Let_def)
  have "\<exists>A'. foldE store_op ?cs ?A = Inr A' \<and> litems A' 0 = [2, 3]"
    by (simp add: one_store_def list_insert_def list_insert_end_def list_remove_def list_next_def walk_def Let_def)
  then show ?thesis using list_ops_simulate [OF one_list_repr ok] by auto
qed

lemma sorted_place:
  fixes f :: "'i \<Rightarrow> 'v :: linorder"
  assumes "sorted (map f xs)" and "us = takeWhile (\<lambda>j. f j \<le> v) xs" and "vs = dropWhile (\<lambda>j. f j \<le> v) xs"
  shows "\<forall>j\<in>set us. f j \<le> v" "\<forall>j\<in>set vs. v < f j" "sorted (map f us @ v # map f vs)"
proof -
  have s: "sorted (map f us @ map f vs)" unfolding map_append [symmetric] assms(2,3) using assms(1) by simp
  show us: "\<forall>j\<in>set us. f j \<le> v" unfolding assms(2) by (auto dest: set_takeWhileD)
  show vs: "\<forall>j\<in>set vs. v < f j"
  proof (cases vs)
    case (Cons j js)
    then have "v < f j" using assms(3) by (metis dropWhile_eq_Cons_conv not_le)
    with s Cons show ?thesis by (auto simp: sorted_append)
  qed simp
  from s us vs show "sorted (map f us @ v # map f vs)" by (auto simp: sorted_append less_imp_le)
qed

text \<open>
  C25. Sorted insertion returns and keeps order: on a list in ascending order of item values,
  \<^verbatim>\<open>vListInsert\<close> terminates and leaves an ascending list, in which the new item stands after every
  item of the same value and before every greater one.
\<close>

theorem vListInsert_sorts:
  assumes "repr L h A" and "l \<in> L" and "lcontainer A i = None" and "sorted (map (lvalue A) (litems A l))"
  shows "\<exists>h' A' us vs. vListInsert l i h = Some h' \<and> repr L h' A' \<and> litems A l = us @ vs \<and> litems A' l = us @ i # vs \<and>
    sorted (map (lvalue A') (litems A' l)) \<and> (\<forall>j\<in>set us. lvalue A j \<le> lvalue A i) \<and> (\<forall>j\<in>set vs. lvalue A i < lvalue A j)"
proof -
  let ?P = "\<lambda>j. lvalue A j \<le> lvalue A i"
  let ?us = "takeWhile ?P (litems A l)" and ?vs = "dropWhile ?P (litems A l)"
  note S = sorted_place [OF assms(4) refl refl, of "lvalue A i"]
  have "sorted (map (lvalue A) (?us @ i # ?vs))" using S(3) by simp
  moreover obtain h' where "vListInsert l i h = Some h'" "repr L h' (list_insert l i A)"
    using repr_insert [OF assms(1-3)] by blast
  moreover have "litems (list_insert l i A) l = ?us @ i # ?vs" "lvalue (list_insert l i A) = lvalue A"
    by (simp_all add: list_insert_def Let_def)
  ultimately show ?thesis using S(1,2) takeWhile_dropWhile_id [of ?P "litems A l", symmetric] by metis
qed

theorem vListInsert_sorts_witness:
  "\<exists>h' A'. vListInsert 0 4 (one_list 0 (\<lambda>_. 9)) = Some h' \<and> repr {0} h' A' \<and> litems A' 0 = [4]"
  using vListInsert_sorts [OF one_list_repr [of 0 "\<lambda>_. 9"], of 0 4] by (auto simp: one_store_def)

text \<open>
  Why \<^verbatim>\<open>vListInsert\<close> treats \<^verbatim>\<open>portMAX_DELAY\<close> apart, as its comment says: from no node
  and in no heap does the search loop return for that value.
\<close>

theorem insert_position_max_diverges: "insert_position h portMAX_DELAY pxIterator = None"
proof -
  have "insert_position h v a = Some r \<Longrightarrow> \<not> xItemValue h (pxNext h r) \<le> v" for a v r
    by (rule insert_position.raw_induct [where P = "\<lambda>h v a r. \<not> xItemValue h (pxNext h r) \<le> v"])
       (auto split: if_splits)
  from this [of portMAX_DELAY] show ?thesis by (cases "insert_position h portMAX_DELAY pxIterator") auto
qed

section \<open>Round robin\<close>

text \<open>The owners that successive calls of \<^verbatim>\<open>listGET_OWNER_OF_NEXT_ENTRY\<close> return.\<close>

fun next_owners :: "nat \<Rightarrow> 'l \<Rightarrow> ('l, 'i) list_heap \<Rightarrow> ('i list \<times> ('l, 'i) list_heap) res" where
  "next_owners 0 l h = Inr ([], h)"
| "next_owners (Suc n) l h =
     rbind (listGET_OWNER_OF_NEXT_ENTRY l h) (\<lambda>(i, h).
     rbind (next_owners n l h) (\<lambda>(is, h). Inr (i # is, h)))"

fun walks :: "nat \<Rightarrow> 'i list \<Rightarrow> 'i option \<Rightarrow> 'i list" where
  "walks 0 xs idx = []"
| "walks (Suc n) xs idx = (case walk xs idx of None \<Rightarrow> [] | Some i \<Rightarrow> i # walks n xs (Some i))"

lemma next_owners_walks:
  assumes "repr L h A" and "l \<in> L" and "litems A l \<noteq> []"
  shows "\<exists>h' A'. next_owners n l h = Inr (walks n (litems A l) (lindex A l), h') \<and> repr L h' A' \<and> litems A' = litems A"
  using assms
proof (induction n arbitrary: h A)
  case (Suc n)
  obtain i h1 A1 where s: "listGET_OWNER_OF_NEXT_ENTRY l h = Inr (i, h1)" "list_next l A = Inr (i, A1)" "repr L h1 A1"
    using repr_next [OF Suc.prems] by blast
  from s(2) have A1: "walk (litems A l) (lindex A l) = Some i" "litems A1 = litems A" "lindex A1 l = Some i"
    by (auto simp: list_next_def split: option.splits)
  obtain h' A' where "next_owners n l h1 = Inr (walks n (litems A l) (Some i), h')" "repr L h' A'" "litems A' = litems A"
    using Suc.IH [OF s(3) Suc.prems(2)] Suc.prems(3) A1 by auto
  with s(1) A1(1) show ?case by auto
qed auto

lemma succ_in_nth: "distinct xs \<Longrightarrow> k < length xs \<Longrightarrow> succ_in xs (xs ! k) = (if Suc k < length xs then Some (xs ! Suc k) else None)"
proof (induction xs arbitrary: k)
  case (Cons x xs)
  show ?case
  proof (cases xs)
    case (Cons y ys)
    then show ?thesis using Cons.IH [of "k - 1"] Cons.prems by (cases k) (auto simp: nth_Cons')
  qed (use Cons.prems in simp)
qed simp

lemma walk_nth: "distinct xs \<Longrightarrow> k < length xs \<Longrightarrow> walk xs (Some (xs ! k)) = Some (xs ! (Suc k mod length xs))"
  by (auto simp: walk_def Let_def succ_in_nth mod_Suc nth_Cons' split: list.splits)

lemma walks_nth:
  "distinct xs \<Longrightarrow> k < length xs \<Longrightarrow> walks n xs (Some (xs ! k)) = map (\<lambda>t. xs ! ((k + 1 + t) mod length xs)) [0..<n]"
proof (induction n arbitrary: k)
  case (Suc n)
  have "Suc k mod length xs < length xs" using Suc.prems(2) by (intro mod_less_divisor) auto
  from Suc.IH [OF Suc.prems(1) this] show ?case
    using walk_nth [OF Suc.prems] mod_Suc_eq [of "k + 1 + _" "length xs"]
    by (simp add: map_Suc_upt [symmetric] upt_conv_Cons del: upt_Suc map_Suc_upt) (metis add_Suc mod_Suc_eq mod_add_left_eq)
qed simp

lemma walks_none: "xs \<noteq> [] \<Longrightarrow> distinct xs \<Longrightarrow> walks n xs None = walks n xs (Some (xs ! (length xs - 1)))"
  using walk_nth [of xs "length xs - 1"]
  by (cases n; cases xs) (auto simp: walk_def Let_def)

lemma walks_rotate:
  assumes "distinct xs" and "xs \<noteq> []" and "case idx of None \<Rightarrow> k = length xs - 1 | Some i \<Rightarrow> k < length xs \<and> i = xs ! k"
  shows "walks (length xs) xs idx = rotate (k + 1) xs"
proof -
  have "k < length xs" using assms(2,3) by (auto split: option.splits)
  then have "walks (length xs) xs idx = map (\<lambda>t. xs ! ((k + 1 + t) mod length xs)) [0..<length xs]"
    using assms walks_none [OF assms(2,1)] walks_nth [OF assms(1)] by (auto split: option.splits)
  also have "\<dots> = rotate (k + 1) xs"
    by (rule nth_equalityI) (simp_all only: nth_rotate length_map length_upt length_rotate nth_map nth_upt minus_nat.diff_0 plus_nat.add_0)
  finally show ?thesis .
qed

text \<open>
  The walk is fair: as many calls of \<^verbatim>\<open>listGET_OWNER_OF_NEXT_ENTRY\<close> as the list has items
  return every item exactly once, in list order from the item after the index on, and leave the
  list's contents unchanged. This is the round robin among tasks of equal priority.
\<close>

theorem next_entry_round_robin:
  assumes "repr L h A" and "l \<in> L" and "litems A l \<noteq> []"
  shows "\<exists>h' A' k. next_owners (length (litems A l)) l h = Inr (rotate k (litems A l), h') \<and> repr L h' A' \<and> litems A' = litems A"
proof -
  let ?xs = "litems A l"
  note W = lists_wf_D [OF repr_D(1) [OF assms(1)], where l = l]
  have "\<exists>k. case lindex A l of None \<Rightarrow> k = length ?xs - 1 | Some i \<Rightarrow> k < length ?xs \<and> i = ?xs ! k"
    using W(3) by (cases "lindex A l") (auto simp: in_set_conv_nth)
  then obtain k where "walks (length ?xs) ?xs (lindex A l) = rotate (k + 1) ?xs"
    using walks_rotate [OF W(1) assms(3)] by blast
  then show ?thesis using next_owners_walks [OF assms, of "length ?xs"] by metis
qed

theorem next_entry_round_robin_witness:
  "\<exists>h' A' k. next_owners 1 0 (vListInsertEnd 0 4 (one_list 0 (\<lambda>_. 0))) = Inr (rotate k [4], h') \<and> repr {0} h' A'"
proof -
  have items: "litems (list_insert_end 0 4 (one_store (\<lambda>_. 0))) 0 = [4]"
    by (simp add: list_insert_end_def one_store_def Let_def)
  have "repr {0} (vListInsertEnd 0 4 (one_list 0 (\<lambda>_. 0))) (list_insert_end 0 4 (one_store (\<lambda>_. 0)))"
    by (rule repr_insert_end [OF one_list_repr]) (simp_all add: one_store_def)
  from next_entry_round_robin [OF this, of 0] items show ?thesis by (fastforce simp del: rotate_length01)
qed

end
