(* ===== verification/FreeRTOS_Tasks_Correct.thy ===== *)
theory FreeRTOS_Tasks_Correct
  imports FreeRTOS_Tasks FreeRTOS_List_Correct
begin

text \<open>
  Correctness of the scheduler: the invariant that ties the state lists, the priorities and the
  wake times together, its preservation by every call, and the theorems about delays, the choice of
  the running task, suspension of the scheduler, time-outs, priority inheritance and notifications.
\<close>

section \<open>Effects of the list operations\<close>

named_theorems kernel_simps \<open>the effect of primitive kernel operations on the fields of the state\<close>

lemma lists_wf_insert: "lists_wf A \<Longrightarrow> lcontainer A i = None \<Longrightarrow> lists_wf (list_insert l i A)"
  using lists_wf_place [of A i l "takeWhile (\<lambda>j. lvalue A j \<le> lvalue A i) (litems A l)" "dropWhile (\<lambda>j. lvalue A j \<le> lvalue A i) (litems A l)"]
  by (simp add: list_insert_def place_def Let_def)

lemma lists_wf_insert_end: "lists_wf A \<Longrightarrow> lcontainer A i = None \<Longrightarrow> lists_wf (list_insert_end l i A)"
  using lists_wf_place [of A i l "takeWhile (\<lambda>j. lindex A l \<noteq> Some j) (litems A l)" "dropWhile (\<lambda>j. lindex A l \<noteq> Some j) (litems A l)"]
  by (simp add: list_insert_end_def place_def Let_def)

lemma lists_wf_set_value: "lists_wf A \<Longrightarrow> lists_wf (list_set_value i v A)"
  by (simp add: lists_wf_def list_set_value_def)

lemma set_split_while: "set (takeWhile P xs @ i # dropWhile P xs) = insert i (set xs)"
  using takeWhile_dropWhile_id [of P xs] by (metis Un_insert_right list.simps(15) set_append)

lemma insert_fields [kernel_simps]:
  "set (litems (list_insert l i A) l') = (if l' = l then insert i (set (litems A l)) else set (litems A l'))"
  "lcontainer (list_insert l i A) = (lcontainer A)(i := Some l)"
  "lvalue (list_insert l i A) = lvalue A"
  "l' \<noteq> l \<Longrightarrow> litems (list_insert l i A) l' = litems A l'"
  "lindex (list_insert l i A) = lindex A"
  using set_split_while [of "\<lambda>j. lvalue A j \<le> lvalue A i" "litems A l" i] by (simp_all add: list_insert_def Let_def)

lemma insert_end_fields [kernel_simps]:
  "set (litems (list_insert_end l i A) l') = (if l' = l then insert i (set (litems A l)) else set (litems A l'))"
  "lcontainer (list_insert_end l i A) = (lcontainer A)(i := Some l)"
  "lvalue (list_insert_end l i A) = lvalue A"
  "l' \<noteq> l \<Longrightarrow> litems (list_insert_end l i A) l' = litems A l'"
  using set_split_while [of "\<lambda>j. lindex A l \<noteq> Some j" "litems A l" i] by (simp_all add: list_insert_end_def Let_def)

lemma set_value_fields [kernel_simps]:
  "litems (list_set_value i v A) = litems A" "lcontainer (list_set_value i v A) = lcontainer A"
  "lvalue (list_set_value i v A) = (lvalue A)(i := v)" "lindex (list_set_value i v A) = lindex A"
  by (simp_all add: list_set_value_def)

lemma sorted_remove1: "sorted (map f xs) \<Longrightarrow> sorted (map f (remove1 x xs))" for f :: "'a \<Rightarrow> 'b::linorder"
  by (induction xs) (auto dest: notin_set_remove1)

lemma remove_ok: "lcontainer A i \<noteq> None \<Longrightarrow> \<exists>A'. list_remove i A = Inr A'"
  by (auto simp: list_remove_def)

lemma remove_fields:
  fixes f :: "'i \<Rightarrow> 'v :: linorder"
  assumes "lists_wf A" and "list_remove i A = Inr A'"
  shows "set (litems A' l) = set (litems A l) - {i}" "lcontainer A' = (lcontainer A)(i := None)" "lvalue A' = lvalue A"
    "sorted (map f (litems A l)) \<Longrightarrow> sorted (map f (litems A' l))"
proof -
  obtain l0 where l0: "lcontainer A i = Some l0" using assms(2) by (auto simp: list_remove_def split: option.splits)
  have m: "i \<in> set (litems A l) \<longleftrightarrow> l = l0" for l using lists_wf_D(2) [OF assms(1), of i l] l0 by auto
  have d: "distinct (litems A l0)" by (rule lists_wf_D(1) [OF assms(1)])
  show "set (litems A' l) = set (litems A l) - {i}" using assms(2) l0 m [of l] d by (auto simp: list_remove_def)
  show "lcontainer A' = (lcontainer A)(i := None)" "lvalue A' = lvalue A" using assms(2) l0 by (auto simp: list_remove_def)
  show "sorted (map f (litems A' l))" if "sorted (map f (litems A l))"
    using that assms(2) l0 sorted_remove1 [of f "litems A l"] by (auto simp: list_remove_def)
qed

section \<open>The invariant\<close>

text \<open>Which items a list may hold.\<close>

fun fits :: "list_id \<Rightarrow> item \<Rightarrow> bool" where
  "fits (ReadyTasks p) (StateItem t) = True"
| "fits DelayedTaskList1 (StateItem t) = True"
| "fits DelayedTaskList2 (StateItem t) = True"
| "fits SuspendedTaskList (StateItem t) = True"
| "fits TasksWaitingTermination (StateItem t) = True"
| "fits PendingReadyList (EventItem t) = True"
| "fits (TasksWaitingToSend q) (EventItem t) = True"
| "fits (TasksWaitingToReceive q) (EventItem t) = True"
| "fits ActiveTimerList1 (TimerItem n) = True"
| "fits ActiveTimerList2 (TimerItem n) = True"
| "fits _ _ = False"

definition typed :: "kernel \<Rightarrow> bool" where
  "typed k \<longleftrightarrow> lists_wf (klists k) \<and> (\<forall>l. \<forall>i\<in>set (items l k). fits l i)"

text \<open>A task stands in the ready list of its priority, and none above the recorded top priority.\<close>

definition ready_ok :: "kernel \<Rightarrow> bool" where
  "ready_ok k \<longleftrightarrow> uxTopReadyPriority k < configMAX_PRIORITIES \<and>
     (\<forall>p t. StateItem t \<in> set (items (ReadyTasks p) k) \<longrightarrow> uxPriority (tcb k t) = p \<and> p \<le> uxTopReadyPriority k)"

text \<open>
  The two delayed lists are in order of wake time; the current one holds times still ahead in this
  round of the tick counter, none before the next unblock time, and the overflow list holds times of
  the next round.
\<close>

definition lists_ok :: "kernel \<Rightarrow> bool" where
  "lists_ok k \<longleftrightarrow> (pxDelayedTaskList k, pxOverflowDelayedTaskList k) \<in>
     {(DelayedTaskList1, DelayedTaskList2), (DelayedTaskList2, DelayedTaskList1)}"

definition delayed_ok :: "kernel \<Rightarrow> bool" where
  "delayed_ok k \<longleftrightarrow> lists_ok k \<and>
     sorted (map (\<lambda>i. item_value i k) (items DelayedTaskList1 k)) \<and>
     sorted (map (\<lambda>i. item_value i k) (items DelayedTaskList2 k)) \<and>
     (\<forall>i\<in>set (items (pxDelayedTaskList k) k). xNextTaskUnblockTime k \<le> item_value i k) \<and>
     (\<forall>i\<in>set (items (pxOverflowDelayedTaskList k) k). item_value i k < xTickCount k)"

definition future :: "kernel \<Rightarrow> bool" where
  "future k \<longleftrightarrow> (\<forall>i\<in>set (items (pxDelayedTaskList k) k). xTickCount k < item_value i k)"

definition base_inv :: "kernel \<Rightarrow> bool" where
  "base_inv k \<longleftrightarrow> typed k \<and> ready_ok k \<and> delayed_ok k"

definition sched_inv :: "kernel \<Rightarrow> bool" where
  "sched_inv k \<longleftrightarrow> base_inv k \<and> future k"

lemma lists_okD: "lists_ok k \<Longrightarrow> pxDelayedTaskList k \<noteq> pxOverflowDelayedTaskList k \<and>
    pxDelayedTaskList k \<in> {DelayedTaskList1, DelayedTaskList2} \<and> pxOverflowDelayedTaskList k \<in> {DelayedTaskList1, DelayedTaskList2}"
  by (auto simp: lists_ok_def)

lemma typedD:
  assumes "typed k"
  shows "lists_wf (klists k)" "i \<in> set (items l k) \<Longrightarrow> fits l i" "container i k = Some l \<longleftrightarrow> i \<in> set (items l k)"
  using assms lists_wf_D(2) [of "klists k"] by (auto simp: typed_def)

lemma fits_state: "fits l i \<Longrightarrow> l \<in> {DelayedTaskList1, DelayedTaskList2, SuspendedTaskList, TasksWaitingTermination} \<or> (\<exists>p. l = ReadyTasks p) \<Longrightarrow> \<exists>t. i = StateItem t"
  by (cases "(l, i)" rule: fits.cases) auto

lemma fits_event: "fits l (EventItem t) \<Longrightarrow> l = PendingReadyList \<or> (\<exists>q. l = TasksWaitingToSend q \<or> l = TasksWaitingToReceive q)"
  by (cases "(l, EventItem t)" rule: fits.cases) auto

section \<open>Primitive steps\<close>

lemma remove_item_inv:
  assumes "remove_item i k = Inr k'" and "base_inv k"
  shows "base_inv k'" "future k \<Longrightarrow> future k'"
proof -
  obtain A where A: "list_remove i (klists k) = Inr A" "k' = k\<lparr>klists := A\<rparr>"
    using assms(1) by (auto simp: remove_item_def rbind_Inr_iff)
  have inv: "typed k" "ready_ok k" "delayed_ok k" using assms(2) by (simp_all add: base_inv_def)
  note F = remove_fields [OF typedD(1) [OF inv(1)] A(1)]
  have "typed k'" using inv(1) lists_wf_remove [OF typedD(1) [OF inv(1)] A(1)] A(2) F(1) by (auto simp: typed_def)
  moreover have "ready_ok k'" using inv(2) A(2) F(1) by (auto simp: ready_ok_def)
  moreover have "delayed_ok k'" using inv(3) A(2) F(1,3) F(4) [of "lvalue (klists k)"] by (auto simp: delayed_ok_def lists_ok_def)
  ultimately show "base_inv k'" by (simp add: base_inv_def)
  show "future k'" if "future k" using that A(2) F(1,3) by (auto simp: future_def)
qed

lemma remove_item_container: "remove_item i k = Inr k' \<Longrightarrow> container i k \<noteq> None"
  by (auto simp: remove_item_def rbind_Inr_iff list_remove_def split: option.splits)

lemma remove_item_ok: "container i k \<noteq> None \<Longrightarrow> \<exists>k'. remove_item i k = Inr k'"
  using remove_ok [of "klists k" i] by (auto simp: remove_item_def)

lemma remove_item_fields:
  assumes "typed k" and "remove_item i k = Inr k'"
  shows "set (items l k') = set (items l k) - {i}" "lcontainer (klists k') = (lcontainer (klists k))(i := None)"
    "lvalue (klists k') = lvalue (klists k)" "tcb k' = tcb k" "xTickCount k' = xTickCount k"
    "pxDelayedTaskList k' = pxDelayedTaskList k" "pxOverflowDelayedTaskList k' = pxOverflowDelayedTaskList k"
    "xNextTaskUnblockTime k' = xNextTaskUnblockTime k" "pxCurrentTCB k' = pxCurrentTCB k"
    "uxSchedulerSuspended k' = uxSchedulerSuspended k" "uxTopReadyPriority k' = uxTopReadyPriority k"
proof -
  obtain A where A: "list_remove i (klists k) = Inr A" "k' = k\<lparr>klists := A\<rparr>"
    using assms(2) by (auto simp: remove_item_def rbind_Inr_iff)
  note F = remove_fields [OF typedD(1) [OF assms(1)] A(1)]
  show "set (items l k') = set (items l k) - {i}" "lcontainer (klists k') = (lcontainer (klists k))(i := None)"
    "lvalue (klists k') = lvalue (klists k)" using F A(2) by simp_all
  show "tcb k' = tcb k" "xTickCount k' = xTickCount k"
    "pxDelayedTaskList k' = pxDelayedTaskList k" "pxOverflowDelayedTaskList k' = pxOverflowDelayedTaskList k"
    "xNextTaskUnblockTime k' = xNextTaskUnblockTime k" "pxCurrentTCB k' = pxCurrentTCB k"
    "uxSchedulerSuspended k' = uxSchedulerSuspended k" "uxTopReadyPriority k' = uxTopReadyPriority k" using A(2) by simp_all
qed

lemma base_invD: "base_inv k \<Longrightarrow> typed k" "base_inv k \<Longrightarrow> ready_ok k" "base_inv k \<Longrightarrow> delayed_ok k" "base_inv k \<Longrightarrow> lists_ok k"
  by (simp_all add: base_inv_def delayed_ok_def)

lemma prvAddTaskToReadyList_eq:
  "prvAddTaskToReadyList t k = (if uxPriority (tcb k t) < configMAX_PRIORITIES
     then Inr (k\<lparr>klists := list_insert_end (ReadyTasks (uxPriority (tcb k t))) (StateItem t) (klists k),
                uxTopReadyPriority := max (uxPriority (tcb k t)) (uxTopReadyPriority k)\<rparr>) else Inl OutOfBounds)"
  by (simp add: prvAddTaskToReadyList_def pxReadyTasksLists_def taskRECORD_READY_PRIORITY_def insert_end_item_def Let_def max_def)

lemma add_ready_inv:
  assumes "prvAddTaskToReadyList t k = Inr k'" and "base_inv k" and "container (StateItem t) k = None"
  shows "base_inv k'" "future k \<Longrightarrow> future k'"
proof -
  have p: "uxPriority (tcb k t) < configMAX_PRIORITIES" using assms(1) by (auto simp: prvAddTaskToReadyList_eq split: if_splits)
  then have k': "k' = k\<lparr>klists := list_insert_end (ReadyTasks (uxPriority (tcb k t))) (StateItem t) (klists k),
      uxTopReadyPriority := max (uxPriority (tcb k t)) (uxTopReadyPriority k)\<rparr>"
    using assms(1) by (simp add: prvAddTaskToReadyList_eq)
  note inv = base_invD [OF assms(2)]
  have "typed k'" using inv(1) lists_wf_insert_end [OF typedD(1) [OF inv(1)] assms(3)] k' by (auto simp: typed_def kernel_simps)
  moreover have "ready_ok k'" using inv(2) p k' by (auto simp: ready_ok_def kernel_simps le_max_iff_disj split: if_splits)
  moreover have "delayed_ok k'" using inv(3) lists_okD [OF inv(4)] k' by (auto simp: delayed_ok_def lists_ok_def kernel_simps)
  ultimately show "base_inv k'" by (simp add: base_inv_def)
  show "future k'" if "future k" using that lists_okD [OF inv(4)] k' by (auto simp: future_def kernel_simps)
qed

lemma add_ready_fields:
  assumes "prvAddTaskToReadyList t k = Inr k'"
  shows "container (StateItem t) k' = Some (ReadyTasks (uxPriority (tcb k t)))" "i \<noteq> StateItem t \<Longrightarrow> container i k' = container i k"
    "lvalue (klists k') = lvalue (klists k)" "tcb k' = tcb k" "xTickCount k' = xTickCount k"
    "pxDelayedTaskList k' = pxDelayedTaskList k" "pxOverflowDelayedTaskList k' = pxOverflowDelayedTaskList k"
    "xNextTaskUnblockTime k' = xNextTaskUnblockTime k" "pxCurrentTCB k' = pxCurrentTCB k"
    "uxSchedulerSuspended k' = uxSchedulerSuspended k" "l \<noteq> ReadyTasks (uxPriority (tcb k t)) \<Longrightarrow> items l k' = items l k"
    "uxPriority (tcb k t) < configMAX_PRIORITIES"
  using assms by (auto simp: prvAddTaskToReadyList_eq kernel_simps split: if_splits)

lemma add_ready_ok: "uxPriority (tcb k t) < configMAX_PRIORITIES \<Longrightarrow> \<exists>k'. prvAddTaskToReadyList t k = Inr k'"
  by (simp add: prvAddTaskToReadyList_eq)

lemma inv_updates [simp]:
  "base_inv (k\<lparr>xPendSV := b\<rparr>) = base_inv k" "future (k\<lparr>xPendSV := b\<rparr>) = future k" "typed (k\<lparr>xPendSV := b\<rparr>) = typed k"
  "base_inv (k\<lparr>xYieldPending := b\<rparr>) = base_inv k" "future (k\<lparr>xYieldPending := b\<rparr>) = future k" "typed (k\<lparr>xYieldPending := b\<rparr>) = typed k"
  "base_inv (k\<lparr>uxSchedulerSuspended := n\<rparr>) = base_inv k" "future (k\<lparr>uxSchedulerSuspended := n\<rparr>) = future k" "typed (k\<lparr>uxSchedulerSuspended := n\<rparr>) = typed k"
  "base_inv (k\<lparr>xPendedTicks := w\<rparr>) = base_inv k" "future (k\<lparr>xPendedTicks := w\<rparr>) = future k" "typed (k\<lparr>xPendedTicks := w\<rparr>) = typed k"
  "base_inv (k\<lparr>pxCurrentTCB := c\<rparr>) = base_inv k" "future (k\<lparr>pxCurrentTCB := c\<rparr>) = future k" "typed (k\<lparr>pxCurrentTCB := c\<rparr>) = typed k"
  "base_inv (k\<lparr>uxTaskNumber := n\<rparr>) = base_inv k" "future (k\<lparr>uxTaskNumber := n\<rparr>) = future k" "typed (k\<lparr>uxTaskNumber := n\<rparr>) = typed k"
  "base_inv (k\<lparr>uxCurrentNumberOfTasks := n\<rparr>) = base_inv k" "future (k\<lparr>uxCurrentNumberOfTasks := n\<rparr>) = future k" "typed (k\<lparr>uxCurrentNumberOfTasks := n\<rparr>) = typed k"
  "base_inv (k\<lparr>uxDeletedTasksWaitingCleanUp := n\<rparr>) = base_inv k" "future (k\<lparr>uxDeletedTasksWaitingCleanUp := n\<rparr>) = future k" "typed (k\<lparr>uxDeletedTasksWaitingCleanUp := n\<rparr>) = typed k"
  "base_inv (k\<lparr>heap := h\<rparr>) = base_inv k" "future (k\<lparr>heap := h\<rparr>) = future k" "typed (k\<lparr>heap := h\<rparr>) = typed k"
  "base_inv (k\<lparr>xSchedulerRunning := b\<rparr>) = base_inv k" "future (k\<lparr>xSchedulerRunning := b\<rparr>) = future k" "typed (k\<lparr>xSchedulerRunning := b\<rparr>) = typed k"
  "base_inv (k\<lparr>xNumOfOverflows := w\<rparr>) = base_inv k" "future (k\<lparr>xNumOfOverflows := w\<rparr>) = future k" "typed (k\<lparr>xNumOfOverflows := w\<rparr>) = typed k"
  by (simp_all add: base_inv_def typed_def ready_ok_def delayed_ok_def lists_ok_def future_def)

lemma set_tcb_fields [simp]:
  "klists (set_tcb t f k) = klists k" "xTickCount (set_tcb t f k) = xTickCount k"
  "pxDelayedTaskList (set_tcb t f k) = pxDelayedTaskList k" "pxOverflowDelayedTaskList (set_tcb t f k) = pxOverflowDelayedTaskList k"
  "xNextTaskUnblockTime (set_tcb t f k) = xNextTaskUnblockTime k" "pxCurrentTCB (set_tcb t f k) = pxCurrentTCB k"
  "uxSchedulerSuspended (set_tcb t f k) = uxSchedulerSuspended k" "uxTopReadyPriority (set_tcb t f k) = uxTopReadyPriority k"
  "tcb (set_tcb t f k) = (tcb k)(t := f (tcb k t))" "xSchedulerRunning (set_tcb t f k) = xSchedulerRunning k"
  "xPendedTicks (set_tcb t f k) = xPendedTicks k" "xYieldPending (set_tcb t f k) = xYieldPending k"
  "xNumOfOverflows (set_tcb t f k) = xNumOfOverflows k" "uxCurrentNumberOfTasks (set_tcb t f k) = uxCurrentNumberOfTasks k"
  by (simp_all add: set_tcb_def)

text \<open>A control block may change freely, except for the priority of a task in a ready list.\<close>

lemma set_tcb_inv:
  assumes "uxPriority (f (tcb k t)) = uxPriority (tcb k t) \<or> (\<forall>p. container (StateItem t) k \<noteq> Some (ReadyTasks p))"
  shows "base_inv k \<Longrightarrow> base_inv (set_tcb t f k)" "future (set_tcb t f k) = future k" "typed (set_tcb t f k) = typed k"
  using assms typedD(3) [of k "StateItem t"]
  by (auto simp: base_inv_def typed_def ready_ok_def delayed_ok_def lists_ok_def future_def)

text \<open>The value of an item that is in no delayed list may change.\<close>

lemma set_item_value_fields [simp]:
  "tcb (set_item_value i v k) = tcb k" "xTickCount (set_item_value i v k) = xTickCount k"
  "pxDelayedTaskList (set_item_value i v k) = pxDelayedTaskList k" "pxOverflowDelayedTaskList (set_item_value i v k) = pxOverflowDelayedTaskList k"
  "xNextTaskUnblockTime (set_item_value i v k) = xNextTaskUnblockTime k" "pxCurrentTCB (set_item_value i v k) = pxCurrentTCB k"
  "uxSchedulerSuspended (set_item_value i v k) = uxSchedulerSuspended k" "uxTopReadyPriority (set_item_value i v k) = uxTopReadyPriority k"
  "lcontainer (klists (set_item_value i v k)) = lcontainer (klists k)" "litems (klists (set_item_value i v k)) = litems (klists k)"
  "lvalue (klists (set_item_value i v k)) = (lvalue (klists k))(i := v)" "xSchedulerRunning (set_item_value i v k) = xSchedulerRunning k"
  "xPendedTicks (set_item_value i v k) = xPendedTicks k" "xYieldPending (set_item_value i v k) = xYieldPending k"
  by (simp_all add: set_item_value_def kernel_simps)

lemma map_value_upd: "i \<notin> set xs \<Longrightarrow> map (\<lambda>j. if j = i then v else f j) xs = map (\<lambda>j. f j :: u32) xs"
  by (induction xs) auto

lemma set_item_value_inv:
  assumes "base_inv k" and "container i k \<noteq> Some DelayedTaskList1" and "container i k \<noteq> Some DelayedTaskList2"
  shows "base_inv (set_item_value i v k)" "future (set_item_value i v k) = future k"
proof -
  note inv = base_invD [OF assms(1)]
  have out: "i \<notin> set (items DelayedTaskList1 k)" "i \<notin> set (items DelayedTaskList2 k)"
    using typedD(3) [OF inv(1)] assms(2,3) by auto
  have "typed (set_item_value i v k)"
    using inv(1) lists_wf_set_value [of "klists k" i v] by (simp add: typed_def set_item_value_def kernel_simps)
  moreover have "ready_ok (set_item_value i v k)" using inv(2) by (simp add: ready_ok_def)
  moreover have "delayed_ok (set_item_value i v k)"
    unfolding delayed_ok_def lists_ok_def set_item_value_fields fun_upd_apply map_value_upd [OF out(1)] map_value_upd [OF out(2)]
    using inv(3) out by (auto simp: delayed_ok_def lists_ok_def)
  ultimately show "base_inv (set_item_value i v k)" by (simp add: base_inv_def)
  show "future (set_item_value i v k) = future k"
  proof -
    have "i \<notin> set (items (pxDelayedTaskList k) k)" using out lists_okD [OF inv(4)] by (metis insertE singletonD)
    then show ?thesis unfolding future_def set_item_value_fields by (intro ball_cong) auto
  qed
qed

lemma insert_end_item_fields [simp]:
  "tcb (insert_end_item l i k) = tcb k" "xTickCount (insert_end_item l i k) = xTickCount k"
  "pxDelayedTaskList (insert_end_item l i k) = pxDelayedTaskList k" "pxOverflowDelayedTaskList (insert_end_item l i k) = pxOverflowDelayedTaskList k"
  "xNextTaskUnblockTime (insert_end_item l i k) = xNextTaskUnblockTime k" "pxCurrentTCB (insert_end_item l i k) = pxCurrentTCB k"
  "uxSchedulerSuspended (insert_end_item l i k) = uxSchedulerSuspended k" "uxTopReadyPriority (insert_end_item l i k) = uxTopReadyPriority k"
  "lcontainer (klists (insert_end_item l i k)) = (lcontainer (klists k))(i := Some l)"
  "lvalue (klists (insert_end_item l i k)) = lvalue (klists k)"
  "set (items l' (insert_end_item l i k)) = (if l' = l then insert i (set (items l k)) else set (items l' k))"
  "l' \<noteq> l \<Longrightarrow> items l' (insert_end_item l i k) = items l' k"
  "xSchedulerRunning (insert_end_item l i k) = xSchedulerRunning k"
  by (simp_all add: insert_end_item_def kernel_simps)

lemma insert_item_fields [simp]:
  "tcb (insert_item l i k) = tcb k" "xTickCount (insert_item l i k) = xTickCount k"
  "pxDelayedTaskList (insert_item l i k) = pxDelayedTaskList k" "pxOverflowDelayedTaskList (insert_item l i k) = pxOverflowDelayedTaskList k"
  "xNextTaskUnblockTime (insert_item l i k) = xNextTaskUnblockTime k" "pxCurrentTCB (insert_item l i k) = pxCurrentTCB k"
  "uxSchedulerSuspended (insert_item l i k) = uxSchedulerSuspended k" "uxTopReadyPriority (insert_item l i k) = uxTopReadyPriority k"
  "lcontainer (klists (insert_item l i k)) = (lcontainer (klists k))(i := Some l)"
  "lvalue (klists (insert_item l i k)) = lvalue (klists k)"
  "set (items l' (insert_item l i k)) = (if l' = l then insert i (set (items l k)) else set (items l' k))"
  "l' \<noteq> l \<Longrightarrow> items l' (insert_item l i k) = items l' k"
  "xSchedulerRunning (insert_item l i k) = xSchedulerRunning k"
  by (simp_all add: insert_item_def kernel_simps)

definition side_list :: "list_id \<Rightarrow> bool" where
  "side_list l \<longleftrightarrow> l \<notin> {DelayedTaskList1, DelayedTaskList2} \<and> (\<forall>p. l \<noteq> ReadyTasks p)"

lemma side_list_simps [simp]:
  "side_list SuspendedTaskList" "side_list PendingReadyList" "side_list TasksWaitingTermination"
  "side_list (TasksWaitingToSend q)" "side_list (TasksWaitingToReceive q)"
  by (simp_all add: side_list_def)

lemma insert_end_side_inv:
  assumes "base_inv k" and "side_list l" and "fits l i" and "container i k = None"
  shows "base_inv (insert_end_item l i k)" "future (insert_end_item l i k) = future k"
proof -
  note inv = base_invD [OF assms(1)]
  have d: "pxDelayedTaskList k \<noteq> l" "pxOverflowDelayedTaskList k \<noteq> l" using lists_okD [OF inv(4)] assms(2) by (auto simp: side_list_def)
  have ty: "typed (insert_end_item l i k)"
    using inv(1) lists_wf_insert_end [OF typedD(1) [OF inv(1)] assms(4)] assms(3) unfolding typed_def
    by (simp add: insert_end_item_def kernel_simps)
  show "base_inv (insert_end_item l i k)"
    using inv ty d assms(2) by (auto simp: base_inv_def ready_ok_def delayed_ok_def lists_ok_def side_list_def)
  show "future (insert_end_item l i k) = future k" using d by (simp add: future_def)
qed

lemma insert_side_inv:
  assumes "base_inv k" and "side_list l" and "fits l i" and "container i k = None"
  shows "base_inv (insert_item l i k)" "future (insert_item l i k) = future k"
proof -
  note inv = base_invD [OF assms(1)]
  have d: "pxDelayedTaskList k \<noteq> l" "pxOverflowDelayedTaskList k \<noteq> l" using lists_okD [OF inv(4)] assms(2) by (auto simp: side_list_def)
  have ty: "typed (insert_item l i k)"
    using inv(1) lists_wf_insert [OF typedD(1) [OF inv(1)] assms(4)] assms(3) unfolding typed_def
    by (simp add: insert_item_def kernel_simps)
  show "base_inv (insert_item l i k)"
    using inv ty d assms(2) by (auto simp: base_inv_def ready_ok_def delayed_ok_def lists_ok_def side_list_def)
  show "future (insert_item l i k) = future k" using d by (simp add: future_def)
qed

text \<open>Sorted insertion into one of the delayed lists.\<close>

lemma insert_sorted:
  assumes "sorted (map (\<lambda>i. item_value i k) (items l k))"
  shows "sorted (map (\<lambda>i. item_value i (insert_item l j k)) (items l (insert_item l j k)))"
proof -
  have "litems (klists (insert_item l j k)) l =
      takeWhile (\<lambda>i. item_value i k \<le> item_value j k) (items l k) @ j # dropWhile (\<lambda>i. item_value i k \<le> item_value j k) (items l k)"
    by (simp add: insert_item_def list_insert_def Let_def)
  then show ?thesis using sorted_place(3) [OF assms refl refl, of "item_value j k"] by simp
qed

lemma insert_delayed_inv:
  assumes "base_inv k" and "future k" and "container (StateItem t) k = None"
    and "xTickCount k < item_value (StateItem t) k"
    and k': "k' = insert_item (pxDelayedTaskList k) (StateItem t) k"
  shows "base_inv (k'\<lparr>xNextTaskUnblockTime := min (item_value (StateItem t) k) (xNextTaskUnblockTime k)\<rparr>)" (is "base_inv ?k")
    "future (k'\<lparr>xNextTaskUnblockTime := n\<rparr>)"
proof -
  note inv = base_invD [OF assms(1)]
  note L = lists_okD [OF inv(4)]
  have fit: "fits (pxDelayedTaskList k) (StateItem t)" using L by auto
  have "typed ?k"
    using inv(1) lists_wf_insert [OF typedD(1) [OF inv(1)] assms(3)] fit unfolding typed_def k'
    by (simp add: insert_item_def kernel_simps)
  moreover have "ready_ok ?k" using inv(2) L unfolding ready_ok_def k' by auto
  moreover have "delayed_ok ?k"
  proof -
    have s: "sorted (map (\<lambda>i. item_value i k') (items l k'))" if "l \<in> {DelayedTaskList1, DelayedTaskList2}" for l
    proof (cases "l = pxDelayedTaskList k")
      case True
      then show ?thesis using insert_sorted [of k l "StateItem t"] inv(3) that k' by (auto simp: delayed_ok_def)
    next
      case False
      then show ?thesis using inv(3) that by (auto simp: delayed_ok_def k')
    qed
    have "lists_ok ?k" using inv(4) k' by (simp add: lists_ok_def)
    moreover have "\<forall>i\<in>set (items (pxDelayedTaskList k) k'). min (item_value (StateItem t) k) (xNextTaskUnblockTime k) \<le> item_value i k"
      using inv(3) by (auto simp: k' delayed_ok_def min_le_iff_disj)
    moreover have "\<forall>i\<in>set (items (pxOverflowDelayedTaskList k) k'). item_value i k < xTickCount k"
      using inv(3) L by (auto simp: k' delayed_ok_def)
    ultimately show ?thesis using s unfolding delayed_ok_def by (simp add: k')
  qed
  ultimately show "base_inv ?k" by (simp add: base_inv_def)
  show "future (k'\<lparr>xNextTaskUnblockTime := n\<rparr>)" using assms(2,4) by (simp add: future_def k')
qed

lemma insert_overflow_inv:
  assumes "base_inv k" and "container (StateItem t) k = None" and "item_value (StateItem t) k < xTickCount k"
    and k': "k' = insert_item (pxOverflowDelayedTaskList k) (StateItem t) k"
  shows "base_inv k'" "future k' = future k"
proof -
  note inv = base_invD [OF assms(1)]
  note L = lists_okD [OF inv(4)]
  have fit: "fits (pxOverflowDelayedTaskList k) (StateItem t)" using L by auto
  have "typed k'"
    using inv(1) lists_wf_insert [OF typedD(1) [OF inv(1)] assms(2)] fit unfolding typed_def k'
    by (simp add: insert_item_def kernel_simps)
  moreover have "ready_ok k'" using inv(2) L unfolding ready_ok_def k' by auto
  moreover have "delayed_ok k'"
  proof -
    have s: "sorted (map (\<lambda>i. item_value i k') (items l k'))" if "l \<in> {DelayedTaskList1, DelayedTaskList2}" for l
    proof (cases "l = pxOverflowDelayedTaskList k")
      case True
      then show ?thesis using insert_sorted [of k l "StateItem t"] inv(3) that k' by (auto simp: delayed_ok_def)
    next
      case False
      then show ?thesis using inv(3) that by (auto simp: delayed_ok_def k')
    qed
    have "lists_ok k'" using inv(4) k' by (simp add: lists_ok_def)
    moreover have "\<forall>i\<in>set (items (pxDelayedTaskList k) k'). xNextTaskUnblockTime k \<le> item_value i k"
      using inv(3) L by (simp add: k' delayed_ok_def)
    moreover have "\<forall>i\<in>set (items (pxOverflowDelayedTaskList k) k'). item_value i k < xTickCount k"
      using inv(3) assms(3) by (auto simp: k' delayed_ok_def)
    ultimately show ?thesis using s unfolding delayed_ok_def by (simp add: k')
  qed
  ultimately show "base_inv k'" by (simp add: base_inv_def)
  show "future k' = future k" using L by (simp add: future_def k')
qed

lemma current_Inr: "current k = Inr t \<longleftrightarrow> pxCurrentTCB k = Some t"
  by (auto simp: current_def split: option.splits)

lemma u32_add_neq: "d \<noteq> 0 \<Longrightarrow> \<not> c + d < c \<Longrightarrow> c < c + d" for c d :: u32
  by (metis add_cancel_right_right not_less_iff_gr_or_eq)

text \<open>Blocking the running task, for a number of ticks or until an event.\<close>

lemma add_delayed_cases:
  assumes "prvAddCurrentTaskToDelayedList w b k = Inr k'" and "sched_inv k" and "w > 0" and "pxCurrentTCB k = Some t"
  obtains k1 where "remove_item (StateItem t) (set_tcb t (ucDelayAborted_update (\<lambda>_. False)) k) = Inr k1"
    "base_inv k1" "future k1" "container (StateItem t) k1 = None"
    "if w = portMAX_DELAY \<and> b then k' = insert_end_item SuspendedTaskList (StateItem t) k1
     else let k2 = set_item_value (StateItem t) (xTickCount k + w) k1 in
       if xTickCount k + w < xTickCount k then k' = insert_item (pxOverflowDelayedTaskList k) (StateItem t) k2
       else k' = (insert_item (pxDelayedTaskList k) (StateItem t) k2)\<lparr>xNextTaskUnblockTime := min (xTickCount k + w) (xNextTaskUnblockTime k)\<rparr>"
proof -
  define k0 where "k0 = set_tcb t (ucDelayAborted_update (\<lambda>_. False)) k"
  obtain k1 where k1: "remove_item (StateItem t) k0 = Inr k1"
    using assms(1,4) by (auto simp: prvAddCurrentTaskToDelayedList_def current_def rbind_Inr_iff k0_def)
  have inv0: "base_inv k0" "future k0" using assms(2) by (simp_all add: k0_def sched_inv_def set_tcb_inv)
  note F = remove_item_fields [OF base_invD(1) [OF inv0(1)] k1]
  have k': "k' = (if w = portMAX_DELAY \<and> b then insert_end_item SuspendedTaskList (StateItem t) k1
     else let k2 = set_item_value (StateItem t) (xTickCount k + w) k1 in
       if xTickCount k + w < xTickCount k then insert_item (pxOverflowDelayedTaskList k) (StateItem t) k2
       else (insert_item (pxDelayedTaskList k) (StateItem t) k2)\<lparr>xNextTaskUnblockTime := min (xTickCount k + w) (xNextTaskUnblockTime k)\<rparr>)"
    using assms(1,4) k1 F(5-8) by (auto simp: prvAddCurrentTaskToDelayedList_def current_def k0_def Let_def min_def split: if_splits)
  show thesis
    using that [of k1] k1 remove_item_inv [OF k1 inv0(1)] inv0(2) F(2) k' by (auto simp: k0_def Let_def)
qed

lemma add_delayed_inv:
  assumes "prvAddCurrentTaskToDelayedList w b k = Inr k'" and "sched_inv k" and "w > 0"
  shows "sched_inv k'"
proof -
  obtain t where t: "pxCurrentTCB k = Some t"
    using assms(1) by (auto simp: prvAddCurrentTaskToDelayedList_def current_def split: option.splits)
  obtain k1 where k1: "remove_item (StateItem t) (set_tcb t (ucDelayAborted_update (\<lambda>_. False)) k) = Inr k1"
    "base_inv k1" "future k1" "container (StateItem t) k1 = None"
    "if w = portMAX_DELAY \<and> b then k' = insert_end_item SuspendedTaskList (StateItem t) k1
     else let k2 = set_item_value (StateItem t) (xTickCount k + w) k1 in
       if xTickCount k + w < xTickCount k then k' = insert_item (pxOverflowDelayedTaskList k) (StateItem t) k2
       else k' = (insert_item (pxDelayedTaskList k) (StateItem t) k2)\<lparr>xNextTaskUnblockTime := min (xTickCount k + w) (xNextTaskUnblockTime k)\<rparr>"
    by (rule add_delayed_cases [OF assms t])
  have "typed (set_tcb t (ucDelayAborted_update (\<lambda>_. False)) k)"
    using assms(2) base_invD(1) by (simp add: sched_inv_def set_tcb_inv(3))
  note F = remove_item_fields [OF this k1(1)]
  let ?k2 = "set_item_value (StateItem t) (xTickCount k + w) k1"
  have k2: "base_inv ?k2" "future ?k2" using set_item_value_inv [OF k1(2), of "StateItem t"] k1(3,4) by simp_all
  show ?thesis
  proof (cases "w = portMAX_DELAY \<and> b")
    case True
    then show ?thesis using k1(5) insert_end_side_inv [OF k1(2), of SuspendedTaskList "StateItem t"] k1(3,4) by (simp add: sched_inv_def)
  next
    case False
    show ?thesis
    proof (cases "xTickCount k + w < xTickCount k")
      case True
      have "k' = insert_item (pxOverflowDelayedTaskList ?k2) (StateItem t) ?k2"
        using False True k1(5) F(7) by (auto simp: Let_def split: if_splits)
      then have "base_inv k'" "future k' = future ?k2"
        using insert_overflow_inv [OF k2(1), of t k'] True k1(4) F(5) by simp_all
      with k2(2) show ?thesis by (simp add: sched_inv_def)
    next
      case le: False
      then have "xTickCount k < xTickCount k + w" using assms(3) by (intro u32_add_neq) (auto simp: word_gt_0)
      then have "base_inv ((insert_item (pxDelayedTaskList ?k2) (StateItem t) ?k2)\<lparr>xNextTaskUnblockTime := min (item_value (StateItem t) ?k2) (xNextTaskUnblockTime ?k2)\<rparr>)"
        "future ((insert_item (pxDelayedTaskList ?k2) (StateItem t) ?k2)\<lparr>xNextTaskUnblockTime := min (item_value (StateItem t) ?k2) (xNextTaskUnblockTime ?k2)\<rparr>)"
        using insert_delayed_inv [OF k2, of t] k1(4) F(5) by simp_all
      moreover have "k' = (insert_item (pxDelayedTaskList ?k2) (StateItem t) ?k2)\<lparr>xNextTaskUnblockTime := min (item_value (StateItem t) ?k2) (xNextTaskUnblockTime ?k2)\<rparr>"
        using le False k1(5) F(6,8) by (auto simp: Let_def split: if_splits)
      ultimately show ?thesis by (simp add: sched_inv_def)
    qed
  qed
qed

text \<open>How many ticks a delayed task still has to wait.\<close>

definition waiting :: "tid \<Rightarrow> kernel \<Rightarrow> bool" where
  "waiting t k \<longleftrightarrow> container (StateItem t) k \<in> {Some DelayedTaskList1, Some DelayedTaskList2}"

definition ticks_left :: "tid \<Rightarrow> kernel \<Rightarrow> nat" where
  "ticks_left t k = unat (item_value (StateItem t) k - xTickCount k)"

lemma add_delayed_waits:
  assumes "prvAddCurrentTaskToDelayedList w b k = Inr k'" and "sched_inv k" and "w > 0" and "pxCurrentTCB k = Some t"
    and "\<not> (w = portMAX_DELAY \<and> b)"
  shows "waiting t k'" "ticks_left t k' = unat w" "xTickCount k' = xTickCount k" "pxCurrentTCB k' = Some t"
    "uxSchedulerSuspended k' = uxSchedulerSuspended k" "uxPriority (tcb k' u) = uxPriority (tcb k u)"
    "i \<noteq> StateItem t \<Longrightarrow> container i k' = container i k" 
proof -
  obtain k1 where k1: "remove_item (StateItem t) (set_tcb t (ucDelayAborted_update (\<lambda>_. False)) k) = Inr k1"
    "base_inv k1" "future k1" "container (StateItem t) k1 = None"
    "if w = portMAX_DELAY \<and> b then k' = insert_end_item SuspendedTaskList (StateItem t) k1
     else let k2 = set_item_value (StateItem t) (xTickCount k + w) k1 in
       if xTickCount k + w < xTickCount k then k' = insert_item (pxOverflowDelayedTaskList k) (StateItem t) k2
       else k' = (insert_item (pxDelayedTaskList k) (StateItem t) k2)\<lparr>xNextTaskUnblockTime := min (xTickCount k + w) (xNextTaskUnblockTime k)\<rparr>"
    by (rule add_delayed_cases [OF assms(1-4)])
  have ty: "typed (set_tcb t (ucDelayAborted_update (\<lambda>_. False)) k)" and L: "lists_ok k"
    using assms(2) base_invD(1,4) by (simp_all add: sched_inv_def set_tcb_inv(3))
  note F = remove_item_fields [OF ty k1(1)]
  show "waiting t k'" using k1(5) assms(5) lists_okD [OF L] by (auto simp: waiting_def Let_def split: if_splits)
  show "ticks_left t k' = unat w" using k1(5) assms(5) F(5) by (auto simp: ticks_left_def Let_def split: if_splits)
  show "xTickCount k' = xTickCount k" "pxCurrentTCB k' = Some t" "uxSchedulerSuspended k' = uxSchedulerSuspended k"
    "uxPriority (tcb k' u) = uxPriority (tcb k u)" "i \<noteq> StateItem t \<Longrightarrow> container i k' = container i k"
    using k1(5) assms(4,5) F by (auto simp: Let_def split: if_splits)
qed

section \<open>The tick\<close>

text \<open>What the scheduler needs besides the invariant to run on: a running task and valid priorities.\<close>

definition live :: "kernel \<Rightarrow> bool" where
  "live k \<longleftrightarrow> (\<exists>c. pxCurrentTCB k = Some c \<and> uxPriority (tcb k c) < configMAX_PRIORITIES) \<and>
     (\<forall>t. container (StateItem t) k \<noteq> None \<longrightarrow> uxPriority (tcb k t) < configMAX_PRIORITIES)"

lemma live_updates [simp]:
  "live (k\<lparr>xPendSV := b\<rparr>) = live k" "live (k\<lparr>xYieldPending := b\<rparr>) = live k" "live (k\<lparr>uxSchedulerSuspended := n\<rparr>) = live k"
  "live (k\<lparr>xPendedTicks := w\<rparr>) = live k" "live (k\<lparr>xTickCount := w\<rparr>) = live k" "live (k\<lparr>xNextTaskUnblockTime := w\<rparr>) = live k"
  "live (k\<lparr>xNumOfOverflows := w\<rparr>) = live k"
  by (simp_all add: live_def)

text \<open>Steps that move items between lists leave all other data of the kernel as it is.\<close>

definition frame :: "kernel \<Rightarrow> kernel \<Rightarrow> bool" where
  "frame k k' \<longleftrightarrow> lvalue (klists k') = lvalue (klists k) \<and>
     k' = k\<lparr>klists := klists k', uxTopReadyPriority := uxTopReadyPriority k', xNextTaskUnblockTime := xNextTaskUnblockTime k'\<rparr>"

lemma frameD:
  assumes "frame k k'"
  shows "lvalue (klists k') = lvalue (klists k)" "tcb k' = tcb k" "xTickCount k' = xTickCount k" "pxDelayedTaskList k' = pxDelayedTaskList k"
    "pxOverflowDelayedTaskList k' = pxOverflowDelayedTaskList k" "pxCurrentTCB k' = pxCurrentTCB k" "uxSchedulerSuspended k' = uxSchedulerSuspended k"
    "xYieldPending k' = xYieldPending k" "xPendedTicks k' = xPendedTicks k" "uxCurrentNumberOfTasks k' = uxCurrentNumberOfTasks k"
    "xNumOfOverflows k' = xNumOfOverflows k" "xSchedulerRunning k' = xSchedulerRunning k" "xPendSV k' = xPendSV k" "heap k' = heap k"
  using assms by (cases k; cases k'; simp add: frame_def)+

lemma frame_refl [simp]: "frame k k"
  by (simp add: frame_def)

lemma frame_trans [trans]: "frame k k1 \<Longrightarrow> frame k1 k2 \<Longrightarrow> frame k k2"
  by (cases k; cases k1; cases k2) (simp add: frame_def)

lemma frame_next [simp]: "frame k (k\<lparr>xNextTaskUnblockTime := v\<rparr>)"
  by (simp add: frame_def)

lemma frame_remove: "typed k \<Longrightarrow> remove_item i k = Inr k' \<Longrightarrow> frame k k'"
  using remove_item_fields(3) [of k i k'] by (auto simp: frame_def remove_item_def rbind_Inr_iff)

lemma frame_add_ready: "prvAddTaskToReadyList t k = Inr k' \<Longrightarrow> frame k k'"
  by (auto simp: frame_def prvAddTaskToReadyList_eq kernel_simps split: if_splits)

lemma optional_remove:
  assumes "base_inv k"
  shows "\<exists>k'. (if container i k \<noteq> None then remove_item i k else Inr k) = Inr k' \<and> base_inv k' \<and> (future k \<longrightarrow> future k') \<and>
    lcontainer (klists k') = (lcontainer (klists k))(i := None) \<and> frame k k'"
proof (cases "container i k = None")
  case True
  then show ?thesis using assms fun_upd_triv [of "lcontainer (klists k)" i] by (intro exI [of _ k]) simp
next
  case False
  then obtain k' where k': "remove_item i k = Inr k'" using remove_item_ok by blast
  show ?thesis using False k' remove_item_inv [OF k' assms] remove_item_fields [OF base_invD(1) [OF assms] k'] frame_remove [OF base_invD(1) [OF assms] k']
    by (intro exI [of _ k']) simp
qed

lemma live_frame:
  assumes "live k" and "frame k k'" and "\<And>t. container (StateItem t) k' \<noteq> None \<Longrightarrow> container (StateItem t) k \<noteq> None"
  shows "live k'"
  using assms(1,3) frameD [OF assms(2)] by (auto simp: live_def)

lemma unblock_task_step:
  assumes "base_inv k" and "live k" and "container (StateItem t) k \<noteq> None"
  shows "\<exists>k'. unblock_task t k = Inr k' \<and> base_inv k' \<and> live k' \<and> (future k \<longrightarrow> future k') \<and> frame k k' \<and>
    (\<forall>i. container i k' = (if i = StateItem t then Some (ReadyTasks (uxPriority (tcb k t))) else if i = EventItem t then None else container i k))"
proof -
  obtain k1 where k1: "remove_item (StateItem t) k = Inr k1" using remove_item_ok [OF assms(3)] by blast
  note F1 = remove_item_fields(2) [OF base_invD(1) [OF assms(1)] k1] and I1 = remove_item_inv [OF k1 assms(1)]
    and f1 = frame_remove [OF base_invD(1) [OF assms(1)] k1]
  obtain k2 where k2: "(if container (EventItem t) k1 \<noteq> None then remove_item (EventItem t) k1 else Inr k1) = Inr k2" "base_inv k2"
      "future k1 \<longrightarrow> future k2" "lcontainer (klists k2) = (lcontainer (klists k1))(EventItem t := None)" "frame k1 k2"
    using optional_remove [OF I1(1), of "EventItem t"] by (elim exE conjE)
  have tcb: "tcb k2 = tcb k" using frameD(2) [OF f1] frameD(2) [OF k2(5)] by simp
  have "uxPriority (tcb k t) < configMAX_PRIORITIES" using assms(2,3) by (simp add: live_def)
  then obtain k3 where k3: "prvAddTaskToReadyList t k2 = Inr k3" using add_ready_ok [of k2 t] tcb by auto
  note F3 = add_ready_fields [OF k3]
  have "container (StateItem t) k2 = None" using k2(4) F1 by simp
  note I3 = add_ready_inv [OF k3 k2(2) this]
  have c: "container i k3 = (if i = StateItem t then Some (ReadyTasks (uxPriority (tcb k t))) else if i = EventItem t then None else container i k)" for i
    using F3(1) F3(2) [of i] k2(4) tcb F1 by simp
  have f: "frame k k3" using f1 k2(5) frame_add_ready [OF k3] by (blast intro: frame_trans)
  have "live k3" by (rule live_frame [OF assms(2) f]) (use c assms(3) in \<open>simp split: if_splits\<close>)
  then show ?thesis using k1 k2 k3 I1(2) I3 c f by (simp add: unblock_task_def)
qed

text \<open>The tasks of the current delayed list whose time has come.\<close>

definition due :: "kernel \<Rightarrow> tid \<Rightarrow> bool" where
  "due k t \<longleftrightarrow> container (StateItem t) k = Some (pxDelayedTaskList k) \<and> item_value (StateItem t) k \<le> xTickCount k"

definition woken :: "kernel \<Rightarrow> kernel \<Rightarrow> bool" where
  "woken k k' \<longleftrightarrow> frame k k' \<and> (\<forall>i. container i k' = (case i of
       StateItem t \<Rightarrow> if due k t then Some (ReadyTasks (uxPriority (tcb k t))) else container i k
     | EventItem t \<Rightarrow> if due k t then None else container i k
     | TimerItem n \<Rightarrow> container i k))"

lemma head_due:
  assumes "base_inv k" and "items (pxDelayedTaskList k) k = StateItem t # is"
  shows "container (StateItem t) k = Some (pxDelayedTaskList k)"
    "\<And>i. i \<in> set (items (pxDelayedTaskList k) k) \<Longrightarrow> item_value (StateItem t) k \<le> item_value i k"
proof -
  show "container (StateItem t) k = Some (pxDelayedTaskList k)" using typedD(3) [OF base_invD(1) [OF assms(1)]] assms(2) by simp
  have "sorted (map (\<lambda>i. item_value i k) (items (pxDelayedTaskList k) k))"
    using base_invD(3) [OF assms(1)] lists_okD [OF base_invD(4) [OF assms(1)]] by (auto simp: delayed_ok_def)
  then show "item_value (StateItem t) k \<le> item_value i k" if "i \<in> set (items (pxDelayedTaskList k) k)" for i
    using that assms(2) by auto
qed

lemma set_next_inv:
  assumes "base_inv k" and "\<forall>i\<in>set (items (pxDelayedTaskList k) k). v \<le> item_value i k"
  shows "base_inv (k\<lparr>xNextTaskUnblockTime := v\<rparr>)"
  using assms by (simp add: base_inv_def typed_def ready_ok_def delayed_ok_def lists_ok_def)

lemma future_next [simp]: "future (k\<lparr>xNextTaskUnblockTime := v\<rparr>) = future k"
  by (simp add: future_def)

lemma woken_refl: "\<forall>t. \<not> due k t \<Longrightarrow> woken k (k\<lparr>xNextTaskUnblockTime := v\<rparr>)"
  by (simp add: woken_def split: item.splits)

lemma delayed_cases:
  assumes "base_inv k"
  obtains "items (pxDelayedTaskList k) k = []" | t "is" where "items (pxDelayedTaskList k) k = StateItem t # is"
proof (cases "items (pxDelayedTaskList k) k")
  case (Cons i "is")
  then have "fits (pxDelayedTaskList k) i" using typedD(2) [OF base_invD(1) [OF assms], of i "pxDelayedTaskList k"] by simp
  then obtain t where "i = StateItem t" using fits_state lists_okD [OF base_invD(4) [OF assms]] by blast
  with Cons that(2) show thesis by blast
qed (rule that(1))

lemma not_due:
  assumes "base_inv k" and "items (pxDelayedTaskList k) k = StateItem t # is" and "xTickCount k < item_value (StateItem t) k"
  shows "\<forall>u. \<not> due k u" "future k"
proof -
  have later: "xTickCount k < item_value i k" if "i \<in> set (items (pxDelayedTaskList k) k)" for i
    using head_due(2) [OF assms(1,2) that] assms(3) by simp
  then show "future k" by (simp add: future_def)
  show "\<forall>u. \<not> due k u" using later typedD(3) [OF base_invD(1) [OF assms(1)]] unfolding due_def by (auto simp: not_le)
qed

lemma unblock_step_due:
  assumes "base_inv k" and "due k t" and "base_inv k1" and "frame k k1"
    and "\<forall>i. container i k1 = (if i = StateItem t then Some (ReadyTasks (uxPriority (tcb k t))) else if i = EventItem t then None else container i k)"
  shows "due k1 u \<longleftrightarrow> due k u \<and> u \<noteq> t" "length (items (pxDelayedTaskList k1) k1) < length (items (pxDelayedTaskList k) k)"
    "woken k1 k2 \<Longrightarrow> woken k k2"
proof -
  let ?D = "pxDelayedTaskList k"
  have D: "?D \<in> {DelayedTaskList1, DelayedTaskList2}" using lists_okD [OF base_invD(4) [OF assms(1)]] by blast
  show du: "due k1 u \<longleftrightarrow> due k u \<and> u \<noteq> t" for u
    using assms(5) frameD(1,3,4) [OF assms(4)] D by (auto simp: due_def)
  have in_k: "container i k = Some ?D \<longleftrightarrow> i \<in> set (items ?D k)" and in_k1: "container i k1 = Some ?D \<longleftrightarrow> i \<in> set (items ?D k1)" for i
    using typedD(3) base_invD(1) assms(1,3) by auto
  have "EventItem t \<notin> set (items ?D k)" using typedD(2) [OF base_invD(1) [OF assms(1)], of "EventItem t" ?D] D by auto
  then have "set (items ?D k1) = set (items ?D k) - {StateItem t}"
    using assms(5) D unfolding set_eq_iff in_k [symmetric] in_k1 [symmetric] Diff_iff by auto
  moreover have "StateItem t \<in> set (items ?D k)" using assms(2) in_k by (simp add: due_def)
  ultimately have "card (set (items ?D k1)) < card (set (items ?D k))" by (simp add: card_Diff1_less del: card_Diff_insert)
  moreover have "distinct (items ?D k1)" "distinct (items ?D k)"
    by (intro lists_wf_D(1) typedD(1) base_invD(1) assms(1,3))+
  ultimately show "length (items (pxDelayedTaskList k1) k1) < length (items ?D k)"
    using frameD(4) [OF assms(4)] by (simp add: distinct_card)
  show "woken k k2" if w: "woken k1 k2"
  proof -
    have "frame k k2" using assms(4) w by (auto simp: woken_def intro: frame_trans)
    moreover have "due k t" by (rule assms(2))
    moreover have "container i k2 = (case i of StateItem t \<Rightarrow> if due k t then Some (ReadyTasks (uxPriority (tcb k t))) else container i k
        | EventItem t \<Rightarrow> if due k t then None else container i k | TimerItem n \<Rightarrow> container i k)" for i
      using w assms(2,5) du frameD(2) [OF assms(4)] by (cases i) (auto simp: woken_def)
    ultimately show ?thesis by (simp add: woken_def)
  qed
qed

lemma unblock_loop_step:
  assumes "base_inv k" and "live k" and "length (items (pxDelayedTaskList k) k) < n"
  shows "\<exists>sw' k'. unblock_loop n sw k = Inr (sw', k') \<and> base_inv k' \<and> future k' \<and> live k' \<and> woken k k' \<and>
    (sw' \<longleftrightarrow> sw \<or> (\<exists>t c. due k t \<and> pxCurrentTCB k = Some c \<and> uxPriority (tcb k c) < uxPriority (tcb k t)))"
  using assms
proof (induction n arbitrary: sw k)
  case (Suc n)
  from Suc.prems(1) show ?case
  proof (cases rule: delayed_cases)
    case 1
    then have "\<forall>t. \<not> due k t" using typedD(3) [OF base_invD(1) [OF Suc.prems(1)]] by (auto simp: due_def)
    moreover have "base_inv (k\<lparr>xNextTaskUnblockTime := portMAX_DELAY\<rparr>)" using 1 Suc.prems(1) by (intro set_next_inv) simp_all
    moreover have "future k" using 1 by (simp add: future_def)
    ultimately show ?thesis using 1 Suc.prems(2) woken_refl by simp
  next
    case (2 t "is")
    show ?thesis
    proof (cases "xTickCount k < item_value (StateItem t) k")
      case True
      have "base_inv (k\<lparr>xNextTaskUnblockTime := item_value (StateItem t) k\<rparr>)"
        using head_due(2) [OF Suc.prems(1) 2] Suc.prems(1) by (intro set_next_inv) simp_all
      then show ?thesis using 2 True not_due [OF Suc.prems(1) 2 True] Suc.prems(2) woken_refl [of k] by (simp add: list_head_def)
    next
      case False
      then have d: "due k t" using head_due(1) [OF Suc.prems(1) 2] by (simp add: due_def)
      obtain k1 where k1: "unblock_task t k = Inr k1" "base_inv k1" "live k1" "frame k k1"
          "\<forall>i. container i k1 = (if i = StateItem t then Some (ReadyTasks (uxPriority (tcb k t))) else if i = EventItem t then None else container i k)"
        using unblock_task_step [OF Suc.prems(1,2), of t] d by (auto simp: due_def)
      note S = unblock_step_due [OF Suc.prems(1) d k1(2,4,5)]
      obtain c where c: "pxCurrentTCB k = Some c" using Suc.prems(2) by (auto simp: live_def)
      have cur: "current k1 = Inr c" using c frameD(6) [OF k1(4)] by (simp add: current_def)
      have "length (items (pxDelayedTaskList k1) k1) < n" using S(2) Suc.prems(3) by simp
      from Suc.IH [OF k1(2,3) this, of "sw \<or> uxPriority (tcb k1 c) < uxPriority (tcb k1 t)"]
      obtain sw' k' where k': "unblock_loop n (sw \<or> uxPriority (tcb k1 c) < uxPriority (tcb k1 t)) k1 = Inr (sw', k')"
          "base_inv k'" "future k'" "live k'" "woken k1 k'"
          "sw' \<longleftrightarrow> (sw \<or> uxPriority (tcb k1 c) < uxPriority (tcb k1 t)) \<or>
             (\<exists>t c. due k1 t \<and> pxCurrentTCB k1 = Some c \<and> uxPriority (tcb k1 c) < uxPriority (tcb k1 t))"
        by (elim exE conjE)
      have "sw' \<longleftrightarrow> sw \<or> (\<exists>t c. due k t \<and> pxCurrentTCB k = Some c \<and> uxPriority (tcb k c) < uxPriority (tcb k t))"
        using k'(6) S(1) d c frameD(2,6) [OF k1(4)] by auto
      moreover have "unblock_loop (Suc n) sw k = Inr (sw', k')" using 2 False k1(1) cur k'(1) by (simp add: list_head_def)
      ultimately show ?thesis using k'(2-4) S(3) [OF k'(5)] by blast
    qed
  qed
qed simp

lemma u32_succ: "c + 1 \<noteq> 0 \<Longrightarrow> v \<le> c + 1 \<longleftrightarrow> v \<le> c \<or> v = c + 1" "c + 1 \<noteq> 0 \<Longrightarrow> c < c + 1" for c v :: u32
proof -
  assume a: "c + 1 \<noteq> 0"
  then have u: "unat (c + 1) = unat c + 1" by (metis add.commute unatSuc Suc_eq_plus1)
  then show "v \<le> c + 1 \<longleftrightarrow> v \<le> c \<or> v = c + 1" by (auto simp: word_le_nat_alt word_unat_eq_iff)
  show "c < c + 1" using u by (simp add: word_less_nat_alt)
qed

lemma u32_top: "c + 1 = 0 \<Longrightarrow> \<not> c < v" for c v :: u32
  by (metis add.commute eq_neg_iff_add_eq_0 word_order.extremum not_less)

lemma ticks_left_1: "ticks_left t k = 1 \<longleftrightarrow> item_value (StateItem t) k = xTickCount k + 1"
proof -
  have "ticks_left t k = 1 \<longleftrightarrow> item_value (StateItem t) k - xTickCount k = 1"
    unfolding ticks_left_def by (metis unat_1 word_unat_eq_iff)
  then show ?thesis by (simp add: diff_eq_eq add.commute)
qed

text \<open>Advancing the tick count, with the exchange of the delayed lists when it wraps.\<close>

definition tick_advance :: "kernel \<Rightarrow> kernel res" where
  "tick_advance k = (let k = k\<lparr>xTickCount := xTickCount k + 1\<rparr> in if xTickCount k = 0 then taskSWITCH_DELAYED_LISTS k else Inr k)"

lemma reset_next_inv:
  assumes "typed k" and "ready_ok k" and "lists_ok k"
    and "sorted (map (\<lambda>i. item_value i k) (items DelayedTaskList1 k))" and "sorted (map (\<lambda>i. item_value i k) (items DelayedTaskList2 k))"
    and "\<forall>i\<in>set (items (pxOverflowDelayedTaskList k) k). item_value i k < xTickCount k"
  shows "base_inv (prvResetNextTaskUnblockTime k)"
proof -
  have "sorted (map (\<lambda>i. item_value i k) (items (pxDelayedTaskList k) k))" using assms(4,5) lists_okD [OF assms(3)] by auto
  then have "\<forall>i\<in>set (items (pxDelayedTaskList k) k). (case items (pxDelayedTaskList k) k of [] \<Rightarrow> portMAX_DELAY | i # _ \<Rightarrow> item_value i k) \<le> item_value i k"
    by (cases "items (pxDelayedTaskList k) k") auto
  with assms show ?thesis
    by (simp add: base_inv_def typed_def ready_ok_def delayed_ok_def lists_ok_def prvResetNextTaskUnblockTime_def)
qed

lemma tick_advance_step:
  assumes "sched_inv k" and "live k"
  shows "\<exists>k'. tick_advance k = Inr k' \<and> base_inv k' \<and> live k' \<and> xTickCount k' = xTickCount k + 1 \<and> klists k' = klists k \<and> tcb k' = tcb k \<and>
    pxCurrentTCB k' = pxCurrentTCB k \<and> uxSchedulerSuspended k' = uxSchedulerSuspended k \<and> xYieldPending k' = xYieldPending k \<and>
    xPendedTicks k' = xPendedTicks k \<and> (\<forall>t. due k' t \<longleftrightarrow> waiting t k \<and> ticks_left t k = 1)"
proof -
  have inv: "typed k" "ready_ok k" "delayed_ok k" "lists_ok k" "future k" using assms(1) base_invD by (auto simp: sched_inv_def)
  note L = lists_okD [OF inv(4)] and C = typedD(3) [OF inv(1)]
  show ?thesis
  proof (cases "xTickCount k + 1 = 0")
    case False
    let ?k = "k\<lparr>xTickCount := xTickCount k + 1\<rparr>"
    have "delayed_ok ?k" using inv(3) u32_succ(2) [OF False] by (auto simp: delayed_ok_def lists_ok_def intro: less_trans)
    then have "base_inv ?k" using inv(1,2) by (simp add: base_inv_def typed_def ready_ok_def)
    moreover have "due ?k t \<longleftrightarrow> waiting t k \<and> ticks_left t k = 1" for t
    proof -
      have "container (StateItem t) k = Some (pxDelayedTaskList k) \<Longrightarrow> xTickCount k < item_value (StateItem t) k"
        "container (StateItem t) k = Some (pxOverflowDelayedTaskList k) \<Longrightarrow> item_value (StateItem t) k < xTickCount k"
        using C inv(3,5) by (auto simp: future_def delayed_ok_def)
      moreover have "waiting t k \<longleftrightarrow> container (StateItem t) k \<in> {Some (pxDelayedTaskList k), Some (pxOverflowDelayedTaskList k)}"
        using inv(4) by (auto simp: waiting_def lists_ok_def)
      ultimately show ?thesis using u32_succ [OF False] unfolding ticks_left_1 due_def by auto
    qed
    ultimately show ?thesis using False assms(2) by (simp add: tick_advance_def Let_def)
  next
    case True
    have e: "items (pxDelayedTaskList k) k = []"
      using inv(5) u32_top [OF True] by (cases "items (pxDelayedTaskList k) k") (auto simp: future_def)
    let ?k = "k\<lparr>xTickCount := 0, pxDelayedTaskList := pxOverflowDelayedTaskList k, pxOverflowDelayedTaskList := pxDelayedTaskList k,
        xNumOfOverflows := xNumOfOverflows k + 1\<rparr>"
    have "base_inv (prvResetNextTaskUnblockTime ?k)"
      by (rule reset_next_inv) (use inv e in \<open>auto simp: typed_def ready_ok_def delayed_ok_def lists_ok_def\<close>)
    moreover have "live (prvResetNextTaskUnblockTime ?k)" using assms(2) by (simp add: live_def prvResetNextTaskUnblockTime_def)
    moreover have "due (prvResetNextTaskUnblockTime ?k) t \<longleftrightarrow> waiting t k \<and> ticks_left t k = 1" for t
    proof -
      have "container (StateItem t) k \<noteq> Some (pxDelayedTaskList k)" using C e by auto
      then have "waiting t k \<longleftrightarrow> container (StateItem t) k = Some (pxOverflowDelayedTaskList k)"
        using inv(4) by (auto simp: waiting_def lists_ok_def)
      then show ?thesis using True unfolding ticks_left_1 due_def by (simp add: prvResetNextTaskUnblockTime_def)
    qed
    ultimately show ?thesis using True e
      by (simp add: tick_advance_def Let_def taskSWITCH_DELAYED_LISTS_def) (simp add: prvResetNextTaskUnblockTime_def)
  qed
qed

text \<open>
  One tick while the scheduler runs: every waiting task is one tick closer to its time, those whose
  last tick this was are ready, and the result says whether a context switch is due.
\<close>

definition ticked :: "kernel \<Rightarrow> kernel \<Rightarrow> bool" where
  "ticked k k' \<longleftrightarrow> xTickCount k' = xTickCount k + 1 \<and> tcb k' = tcb k \<and> pxCurrentTCB k' = pxCurrentTCB k \<and>
     uxSchedulerSuspended k' = uxSchedulerSuspended k \<and> xYieldPending k' = xYieldPending k \<and> xPendedTicks k' = xPendedTicks k \<and>
     lvalue (klists k') = lvalue (klists k) \<and>
     (\<forall>t. container (StateItem t) k' =
        (if waiting t k \<and> ticks_left t k = 1 then Some (ReadyTasks (uxPriority (tcb k t))) else container (StateItem t) k)) \<and>
     (\<forall>t. container (EventItem t) k' = (if waiting t k \<and> ticks_left t k = 1 then None else container (EventItem t) k))"

definition switch_due :: "kernel \<Rightarrow> kernel \<Rightarrow> bool" where
  "switch_due k k' \<longleftrightarrow> (\<exists>c. pxCurrentTCB k = Some c \<and>
     ((\<exists>t. waiting t k \<and> ticks_left t k = 1 \<and> uxPriority (tcb k c) < uxPriority (tcb k t)) \<or>
      1 < length (items (ReadyTasks (uxPriority (tcb k c))) k') \<or> xYieldPending k))"

lemma xTaskIncrementTick_advance:
  "uxSchedulerSuspended k = 0 \<Longrightarrow> xTaskIncrementTick k =
     rbind (tick_advance k) (\<lambda>k.
     rbind (if xTickCount k \<ge> xNextTaskUnblockTime k
            then unblock_loop (Suc (length (items (pxDelayedTaskList k) k))) False k
            else Inr (False, k)) (\<lambda>(xSwitchRequired, k).
     rbind (current k) (\<lambda>t.
     rbind (pxReadyTasksLists (uxPriority (tcb k t))) (\<lambda>l.
     Inr (xSwitchRequired \<or> length (items l k) > 1 \<or> xYieldPending k, k)))))"
  by (simp add: xTaskIncrementTick_def tick_advance_def Let_def)

lemma wake_step:
  assumes "base_inv k" and "live k"
  shows "\<exists>sw k'. (if xTickCount k \<ge> xNextTaskUnblockTime k then unblock_loop (Suc (length (items (pxDelayedTaskList k) k))) False k
      else Inr (False, k)) = Inr (sw, k') \<and> base_inv k' \<and> future k' \<and> live k' \<and> woken k k' \<and>
    (sw \<longleftrightarrow> (\<exists>t c. due k t \<and> pxCurrentTCB k = Some c \<and> uxPriority (tcb k c) < uxPriority (tcb k t)))"
proof (cases "xTickCount k \<ge> xNextTaskUnblockTime k")
  case True
  then show ?thesis using unblock_loop_step [OF assms, of "Suc (length (items (pxDelayedTaskList k) k))" False] by simp
next
  case False
  have later: "\<forall>i\<in>set (items (pxDelayedTaskList k) k). xTickCount k < item_value i k"
    using False base_invD(3) [OF assms(1)] unfolding delayed_ok_def by (metis not_less less_le_trans not_le)
  then have nd: "\<forall>t. \<not> due k t" using typedD(3) [OF base_invD(1) [OF assms(1)]] by (auto simp: due_def not_le)
  then have "woken k k" using woken_refl [OF nd, of "xNextTaskUnblockTime k"] by simp
  with False later nd assms show ?thesis by (intro exI [of _ False] exI [of _ k]) (simp add: future_def)
qed

lemma tick_step:
  assumes "sched_inv k" and "live k" and "uxSchedulerSuspended k = 0"
  shows "\<exists>sw k'. xTaskIncrementTick k = Inr (sw, k') \<and> sched_inv k' \<and> live k' \<and> ticked k k' \<and> (sw \<longleftrightarrow> switch_due k k')"
proof -
  obtain k1 where k1: "tick_advance k = Inr k1" "base_inv k1" "live k1" "xTickCount k1 = xTickCount k + 1" "klists k1 = klists k" "tcb k1 = tcb k"
      "pxCurrentTCB k1 = pxCurrentTCB k" "uxSchedulerSuspended k1 = uxSchedulerSuspended k" "xYieldPending k1 = xYieldPending k"
      "xPendedTicks k1 = xPendedTicks k" "\<forall>t. due k1 t \<longleftrightarrow> waiting t k \<and> ticks_left t k = 1"
    using tick_advance_step [OF assms(1,2)] by (elim exE conjE)
  obtain sw k2 where k2: "(if xTickCount k1 \<ge> xNextTaskUnblockTime k1 then unblock_loop (Suc (length (items (pxDelayedTaskList k1) k1))) False k1
      else Inr (False, k1)) = Inr (sw, k2)" "base_inv k2" "future k2" "live k2" "woken k1 k2"
      "sw \<longleftrightarrow> (\<exists>t c. due k1 t \<and> pxCurrentTCB k1 = Some c \<and> uxPriority (tcb k1 c) < uxPriority (tcb k1 t))"
    using wake_step [OF k1(2,3)] by (elim exE conjE)
  have f: "frame k1 k2" using k2(5) by (simp add: woken_def)
  note F = frameD [OF f]
  have tick: "ticked k k2"
    using k2(5) k1 F unfolding ticked_def woken_def by simp
  obtain c where c: "pxCurrentTCB k = Some c" "uxPriority (tcb k c) < configMAX_PRIORITIES" using assms(2) by (auto simp: live_def)
  have "current k2 = Inr c" using c(1) k1(7) F(6) by (simp add: current_def)
  then have "xTaskIncrementTick k = Inr (sw \<or> 1 < length (items (ReadyTasks (uxPriority (tcb k c))) k2) \<or> xYieldPending k, k2)"
    unfolding xTaskIncrementTick_advance [OF assms(3)] k1(1) rbind.simps k2(1) prod.case
    using c(2) k1(6,9) F(2,8) by (simp add: pxReadyTasksLists_def)
  moreover have "sw \<or> 1 < length (items (ReadyTasks (uxPriority (tcb k c))) k2) \<or> xYieldPending k \<longleftrightarrow> switch_due k k2"
    using k2(6) k1(6,7,11) c(1) unfolding switch_due_def by auto
  ultimately show ?thesis using k2(2-4) tick by (simp add: sched_inv_def)
qed

section \<open>The context switch\<close>

lemma select_priority_spec:
  assumes "p < configMAX_PRIORITIES" and "q \<le> p" and "items (ReadyTasks q) k \<noteq> []" and "\<forall>r. q < r \<and> r \<le> p \<longrightarrow> items (ReadyTasks r) k = []"
  shows "select_priority p k = Inr q"
  using assms
proof (induction p)
  case 0
  then show ?case by (subst select_priority.simps) (simp add: pxReadyTasksLists_def)
next
  case (Suc p)
  show ?case
  proof (cases "q = Suc p")
    case True
    with Suc.prems show ?thesis by (subst select_priority.simps) (simp add: pxReadyTasksLists_def)
  next
    case False
    with Suc.prems have "items (ReadyTasks (Suc p)) k = []" "q \<le> p" by auto
    with Suc show ?thesis by (subst select_priority.simps) (simp add: pxReadyTasksLists_def)
  qed
qed

text \<open>The highest priority at which a task is ready.\<close>

definition top_priority :: "nat \<Rightarrow> kernel \<Rightarrow> bool" where
  "top_priority p k \<longleftrightarrow> items (ReadyTasks p) k \<noteq> [] \<and> (\<forall>q>p. items (ReadyTasks q) k = [])"

lemma ready_fits: "typed k \<Longrightarrow> i \<in> set (items (ReadyTasks p) k) \<Longrightarrow> \<exists>t. i = StateItem t"
  using typedD(2) fits_state by blast

lemma top_priority_exists:
  assumes "typed k" and "ready_ok k" and "items (ReadyTasks p) k \<noteq> []"
  shows "\<exists>q. top_priority q k \<and> q \<le> uxTopReadyPriority k \<and> p \<le> q"
proof -
  define R where "R = {q. items (ReadyTasks q) k \<noteq> []}"
  have bound: "q \<le> uxTopReadyPriority k" if "q \<in> R" for q
  proof -
    have "items (ReadyTasks q) k \<noteq> []" using that by (simp add: R_def)
    then obtain i where i: "i \<in> set (items (ReadyTasks q) k)" by (metis list.set_intros(1) neq_Nil_conv)
    then obtain t where "i = StateItem t" using ready_fits [OF assms(1)] by blast
    with i assms(2) show ?thesis by (auto simp: ready_ok_def)
  qed
  then have "R \<subseteq> {..uxTopReadyPriority k}" by auto
  then have fin: "finite R" by (rule finite_subset) simp
  have p: "p \<in> R" using assms(3) by (simp add: R_def)
  have m: "Max R \<in> R" using Max_in [OF fin] p by blast
  have "q \<notin> R" if "q > Max R" for q using Max_ge [OF fin, of q] that by linarith
  moreover have "q \<in> R \<longleftrightarrow> items (ReadyTasks q) k \<noteq> []" for q by (simp add: R_def)
  ultimately have "top_priority (Max R) k" using m unfolding top_priority_def by blast
  with bound [OF m] Max_ge [OF fin p] show ?thesis by blast
qed

lemma lists_next_inv:
  assumes "base_inv k" and "list_next l (klists k) = Inr (i, A)"
  shows "base_inv (k\<lparr>klists := A\<rparr>)" "future (k\<lparr>klists := A\<rparr>) = future k" "litems A = litems (klists k)" "lcontainer A = lcontainer (klists k)"
    "lvalue A = lvalue (klists k)" "i \<in> set (items l k)" "lindex A = (lindex (klists k))(l := Some i)"
proof -
  obtain w: "walk (items l k) (lindex (klists k) l) = Some i" and A: "A = klists k\<lparr>lindex := (lindex (klists k))(l := Some i)\<rparr>"
    using assms(2) by (auto simp: list_next_def split: option.splits)
  show "i \<in> set (items l k)" using walk_mem [OF w] .
  show "litems A = litems (klists k)" "lcontainer A = lcontainer (klists k)" "lvalue A = lvalue (klists k)" "lindex A = (lindex (klists k))(l := Some i)" using A by simp_all
  have "lists_wf A" using lists_wf_next [OF typedD(1) [OF base_invD(1) [OF assms(1)]] assms(2)] .
  then show "base_inv (k\<lparr>klists := A\<rparr>)" using assms(1) A by (simp add: base_inv_def typed_def ready_ok_def delayed_ok_def lists_ok_def)
  show "future (k\<lparr>klists := A\<rparr>) = future k" using A by (simp add: future_def)
qed

text \<open>A state with the same lists (up to the walking indices), control blocks and times.\<close>

definition switched :: "kernel \<Rightarrow> kernel \<Rightarrow> bool" where
  "switched k k' \<longleftrightarrow> litems (klists k') = litems (klists k) \<and> lcontainer (klists k') = lcontainer (klists k) \<and> lvalue (klists k') = lvalue (klists k) \<and>
     tcb k' = tcb k \<and> xTickCount k' = xTickCount k \<and> uxSchedulerSuspended k' = uxSchedulerSuspended k \<and> xPendedTicks k' = xPendedTicks k"

lemma switch_step:
  assumes "sched_inv k" and "uxSchedulerSuspended k = 0" and "items (ReadyTasks p) k \<noteq> []"
  shows "\<exists>k' t q. vTaskSwitchContext k = Inr k' \<and> sched_inv k' \<and> switched k k' \<and> top_priority q k \<and> pxCurrentTCB k' = Some t \<and>
    StateItem t \<in> set (items (ReadyTasks q) k) \<and> uxPriority (tcb k t) = q \<and> q < configMAX_PRIORITIES \<and>
    walk (items (ReadyTasks q) k) (lindex (klists k) (ReadyTasks q)) = Some (StateItem t) \<and> lindex (klists k') (ReadyTasks q) = Some (StateItem t)"
proof -
  have inv: "typed k" "ready_ok k" "base_inv k" using assms(1) base_invD by (auto simp: sched_inv_def)
  obtain q where q: "top_priority q k" "q \<le> uxTopReadyPriority k" using top_priority_exists [OF inv(1,2) assms(3)] by blast
  have top: "uxTopReadyPriority k < configMAX_PRIORITIES" using inv(2) by (simp add: ready_ok_def)
  let ?k = "k\<lparr>xYieldPending := False\<rparr>"
  have sel: "select_priority (uxTopReadyPriority ?k) ?k = Inr q"
    using q top by (intro select_priority_spec) (auto simp: top_priority_def)
  have "walk (items (ReadyTasks q) k) (lindex (klists k) (ReadyTasks q)) \<noteq> None"
    using q(1) by (auto simp: walk_def Let_def top_priority_def split: list.splits option.splits)
  then obtain i A where n: "list_next (ReadyTasks q) (klists k) = Inr (i, A)" "walk (items (ReadyTasks q) k) (lindex (klists k) (ReadyTasks q)) = Some i"
    by (auto simp: list_next_def)
  note N = lists_next_inv [OF inv(3) n(1)]
  obtain t where t: "i = StateItem t" using ready_fits [OF inv(1) N(6)] by blast
  let ?k' = "?k\<lparr>klists := A, pxCurrentTCB := Some t, uxTopReadyPriority := q\<rparr>"
  have k': "vTaskSwitchContext k = Inr ?k'"
    using sel n(1) t assms(2) by (simp add: vTaskSwitchContext_def taskSELECT_HIGHEST_PRIORITY_TASK_def)
  have "ready_ok ?k'"
  proof -
    have "p \<le> q" if "StateItem u \<in> set (items (ReadyTasks p) k)" for p u
      using q(1) that by (cases "p \<le> q") (auto simp: top_priority_def)
    then show ?thesis using inv(2) q(2) top N(3) by (simp add: ready_ok_def)
  qed
  then have "base_inv ?k'" using N(1) by (simp add: base_inv_def typed_def delayed_ok_def lists_ok_def)
  moreover have "future ?k'" using N(2) assms(1) by (simp add: sched_inv_def future_def)
  moreover have "uxPriority (tcb k t) = q" using inv(2) N(6) t by (simp add: ready_ok_def)
  ultimately show ?thesis using k' q top N t n(2) by (auto simp: sched_inv_def switched_def)
qed

text \<open>A small running system for the examples: the idle task 0 and the tasks 1 and 2 of priority 3.\<close>

definition example_tcb :: "nat \<Rightarrow> TCB_t" where
  "example_tcb p = \<lparr>uxPriority = p, pxStack = 0, pcTaskName = [], uxTCBNumber = 0, uxBasePriority = p, uxMutexesHeld = 0,
     ulNotifiedValue = 0, ucNotifyState = taskNOT_WAITING_NOTIFICATION, ucDelayAborted = False\<rparr>"

definition example_kernel :: "u32 \<Rightarrow> kernel" where
  "example_kernel tick = \<lparr>pxCurrentTCB = Some 1,
     klists = \<lparr>litems = (\<lambda>l. if l = ReadyTasks 0 then [StateItem 0] else if l = ReadyTasks 3 then [StateItem 1, StateItem 2] else []),
               lindex = (\<lambda>l. None), lvalue = (\<lambda>i. 0),
               lcontainer = (\<lambda>i. if i = StateItem 0 then Some (ReadyTasks 0) else if i = StateItem 1 \<or> i = StateItem 2 then Some (ReadyTasks 3) else None)\<rparr>,
     tcb = (\<lambda>t. example_tcb (if t = 0 then 0 else 3)), pxDelayedTaskList = DelayedTaskList1, pxOverflowDelayedTaskList = DelayedTaskList2,
     uxDeletedTasksWaitingCleanUp = 0, uxCurrentNumberOfTasks = 3, xTickCount = tick, uxTopReadyPriority = 3, xSchedulerRunning = True,
     xPendedTicks = 0, xYieldPending = False, xNumOfOverflows = 0, uxTaskNumber = 3, xNextTaskUnblockTime = portMAX_DELAY,
     xIdleTaskHandle = Some 0, uxSchedulerSuspended = 0, xPendSV = False, heap = heap1_new\<rparr>"

lemma example_fields [simp]:
  "items (ReadyTasks 3) (example_kernel c) = [StateItem 1, StateItem 2]" "items (ReadyTasks 0) (example_kernel c) = [StateItem 0]"
  "tcb (example_kernel c) t = example_tcb (if t = 0 then 0 else 3)" "pxCurrentTCB (example_kernel c) = Some 1"
  "uxSchedulerSuspended (example_kernel c) = 0" "xTickCount (example_kernel c) = c" "items PendingReadyList (example_kernel c) = []"
  "xPendedTicks (example_kernel c) = 0" "uxCurrentNumberOfTasks (example_kernel c) = 3" "container (StateItem 1) (example_kernel c) = Some (ReadyTasks 3)"
  "container (EventItem t) (example_kernel c) = None" "uxPriority (example_tcb p) = p" "xYieldPending (example_kernel c) = False"
  by (simp_all add: example_kernel_def example_tcb_def)

lemma example_inv [simp]: "sched_inv (example_kernel c)" "live (example_kernel c)"
  by (auto simp: sched_inv_def base_inv_def typed_def lists_wf_def ready_ok_def delayed_ok_def lists_ok_def future_def live_def example_kernel_def
      example_tcb_def configMAX_PRIORITIES_def split: if_splits)

text \<open>
  C14. The running task is always one of the highest ready priority: whenever some task is ready and
  the scheduler is not suspended, a context switch succeeds, chooses a ready task, and no ready task
  has a higher priority than the chosen one. The switch leaves every task where it was.
\<close>

theorem switch_picks_highest:
  assumes "sched_inv k" and "uxSchedulerSuspended k = 0" and "items (ReadyTasks p) k \<noteq> []"
  shows "\<exists>k' t. vTaskSwitchContext k = Inr k' \<and> pxCurrentTCB k' = Some t \<and>
    container (StateItem t) k' = Some (ReadyTasks (uxPriority (tcb k t))) \<and>
    (\<forall>u q. container (StateItem u) k = Some (ReadyTasks q) \<longrightarrow> q \<le> uxPriority (tcb k t)) \<and>
    lcontainer (klists k') = lcontainer (klists k) \<and> sched_inv k'"
proof -
  have C: "container i k = Some l \<longleftrightarrow> i \<in> set (items l k)" for i l
    using assms(1) typedD(3) base_invD(1) by (auto simp: sched_inv_def)
  obtain k' t q where s: "vTaskSwitchContext k = Inr k'" "sched_inv k'" "switched k k'" "top_priority q k" "pxCurrentTCB k' = Some t"
      "StateItem t \<in> set (items (ReadyTasks q) k)" "uxPriority (tcb k t) = q"
    using switch_step [OF assms] by (elim exE conjE)
  have "r \<le> q" if "container (StateItem u) k = Some (ReadyTasks r)" for u r
    using that s(4) C [of "StateItem u" "ReadyTasks r"] by (cases "r \<le> q") (auto simp: top_priority_def)
  with s C [of "StateItem t" "ReadyTasks q"] show ?thesis by (auto simp: switched_def)
qed

theorem switch_picks_highest_witness:
  "\<exists>k' t. vTaskSwitchContext (example_kernel 0) = Inr k' \<and> pxCurrentTCB k' = Some t \<and> 3 \<le> uxPriority (tcb (example_kernel 0) t)"
proof -
  obtain k' t where "vTaskSwitchContext (example_kernel 0) = Inr k'" "pxCurrentTCB k' = Some t"
      "\<forall>u q. container (StateItem u) (example_kernel 0) = Some (ReadyTasks q) \<longrightarrow> q \<le> uxPriority (tcb (example_kernel 0) t)"
    using switch_picks_highest [OF example_inv(1) [of 0], of 3] by (simp del: example_fields(3)) blast
  then show ?thesis using example_fields(10) [of 0] by blast
qed

text \<open>The tasks that successive context switches choose.\<close>

fun switches :: "nat \<Rightarrow> kernel \<Rightarrow> (tid list \<times> kernel) res" where
  "switches 0 k = Inr ([], k)"
| "switches (Suc n) k =
     rbind (vTaskSwitchContext k) (\<lambda>k.
     rbind (current k) (\<lambda>t.
     rbind (switches n k) (\<lambda>(ts, k). Inr (t # ts, k))))"

lemma top_priority_unique: "top_priority p k \<Longrightarrow> top_priority q k \<Longrightarrow> p = q"
  by (cases p q rule: linorder_cases) (auto simp: top_priority_def)

lemma switches_walks:
  assumes "sched_inv k" and "uxSchedulerSuspended k = 0" and "top_priority p k"
  shows "\<exists>k'. switches n k = Inr (map item_owner (walks n (items (ReadyTasks p) k) (lindex (klists k) (ReadyTasks p))), k') \<and>
    sched_inv k' \<and> switched k k'"
  using assms
proof (induction n arbitrary: k)
  case 0
  then show ?case by (simp add: switched_def)
next
  case (Suc n)
  have ne: "items (ReadyTasks p) k \<noteq> []" using Suc.prems(3) by (simp add: top_priority_def)
  obtain k1 t q where s: "vTaskSwitchContext k = Inr k1" "sched_inv k1" "switched k k1" "top_priority q k" "pxCurrentTCB k1 = Some t"
      "walk (items (ReadyTasks q) k) (lindex (klists k) (ReadyTasks q)) = Some (StateItem t)" "lindex (klists k1) (ReadyTasks q) = Some (StateItem t)"
    using switch_step [OF Suc.prems(1,2) ne] by (elim exE conjE)
  have q: "q = p" using top_priority_unique [OF s(4) Suc.prems(3)] .
  have "uxSchedulerSuspended k1 = 0" "top_priority p k1" using s(3) Suc.prems(2,3) by (simp_all add: switched_def top_priority_def)
  from Suc.IH [OF s(2) this] obtain k' where
    k': "switches n k1 = Inr (map item_owner (walks n (items (ReadyTasks p) k1) (lindex (klists k1) (ReadyTasks p))), k')" "sched_inv k'" "switched k1 k'"
    by blast
  have "current k1 = Inr t" using s(5) by (simp add: current_def)
  moreover have "items (ReadyTasks p) k1 = items (ReadyTasks p) k" "switched k k'" using s(3) k'(3) by (simp_all add: switched_def)
  ultimately show ?case using s(1,6,7) k' q by simp
qed

lemma state_owners:
  assumes "\<forall>i\<in>S. \<exists>t. i = StateItem t"
  shows "inj_on item_owner S" "item_owner ` S = {t. StateItem t \<in> S}"
proof -
  show "inj_on item_owner S"
  proof (rule inj_onI)
    fix i j assume "i \<in> S" "j \<in> S" "item_owner i = item_owner j"
    moreover from this obtain t u where "i = StateItem t" "j = StateItem u" using assms by blast
    ultimately show "i = j" by simp
  qed
  show "item_owner ` S = {t. StateItem t \<in> S}"
  proof (intro equalityI subsetI)
    fix t assume "t \<in> item_owner ` S"
    then obtain i where i: "i \<in> S" "t = item_owner i" by blast
    moreover from i(1) obtain u where "i = StateItem u" using assms by blast
    ultimately show "t \<in> {t. StateItem t \<in> S}" by simp
  next
    fix t assume "t \<in> {t. StateItem t \<in> S}"
    then show "t \<in> item_owner ` S" by (metis image_eqI item_owner.simps(1) mem_Collect_eq)
  qed
qed

text \<open>
  C27. No ready task of the highest priority starves: if \<open>n\<close> tasks are ready at the highest priority,
  the next \<open>n\<close> context switches run each of them exactly once.
\<close>

theorem switch_round_robin:
  assumes "sched_inv k" and "uxSchedulerSuspended k = 0" and "top_priority p k"
  shows "\<exists>ts k'. switches (length (items (ReadyTasks p) k)) k = Inr (ts, k') \<and> distinct ts \<and>
    set ts = {t. container (StateItem t) k = Some (ReadyTasks p)} \<and> lcontainer (klists k') = lcontainer (klists k)"
proof -
  let ?xs = "items (ReadyTasks p) k" and ?idx = "lindex (klists k) (ReadyTasks p)"
  have ty: "typed k" using assms(1) base_invD(1) by (simp add: sched_inv_def)
  note W = lists_wf_D [OF typedD(1) [OF ty], where l = "ReadyTasks p"]
  have ne: "?xs \<noteq> []" using assms(3) by (simp add: top_priority_def)
  have "\<exists>j. case ?idx of None \<Rightarrow> j = length ?xs - 1 | Some i \<Rightarrow> j < length ?xs \<and> i = ?xs ! j"
    using W(3) by (cases ?idx) (auto simp: in_set_conv_nth)
  then obtain j where j: "walks (length ?xs) ?xs ?idx = rotate (j + 1) ?xs" using walks_rotate [OF W(1) ne] by blast
  obtain k' where k': "switches (length ?xs) k = Inr (map item_owner (rotate (j + 1) ?xs), k')" "switched k k'"
    using switches_walks [OF assms, of "length ?xs"] unfolding j by blast
  have state: "\<forall>i\<in>set ?xs. \<exists>t. i = StateItem t" using ready_fits [OF ty] by blast
  note O = state_owners [OF state]
  have "distinct (map item_owner (rotate (j + 1) ?xs))" using W(1) O(1) by (simp add: distinct_map del: rotate_Suc)
  moreover have "set (map item_owner (rotate (j + 1) ?xs)) = {t. StateItem t \<in> set ?xs}"
    using O(2) by (simp del: rotate_Suc)
  moreover have "{t. StateItem t \<in> set ?xs} = {t. container (StateItem t) k = Some (ReadyTasks p)}" using typedD(3) [OF ty] by simp
  ultimately show ?thesis using k' by (auto simp: switched_def simp del: rotate_Suc)
qed

theorem switch_round_robin_witness:
  "\<exists>ts k'. switches 2 (example_kernel 0) = Inr (ts, k') \<and> distinct ts \<and> length ts = 2"
proof -
  have "top_priority 3 (example_kernel 0)" by (simp add: top_priority_def example_kernel_def)
  then obtain ts k' where t: "switches 2 (example_kernel 0) = Inr (ts, k')" "distinct ts"
      "set ts = {t. container (StateItem t) (example_kernel 0) = Some (ReadyTasks 3)}"
    using switch_round_robin [of "example_kernel 0" 3, unfolded example_fields] by (auto simp: numeral_2_eq_2 simp del: switches.simps)
  moreover have "{t. container (StateItem t) (example_kernel 0) = Some (ReadyTasks 3)} = {1, 2}" by (auto simp: example_kernel_def)
  ultimately show ?thesis using distinct_card [OF t(2)] by auto
qed

end
