(* ===== verification/FreeRTOS_Tasks_Properties.thy ===== *)
theory FreeRTOS_Tasks_Properties
  imports FreeRTOS_Tasks_Correct
begin

text \<open>
  What the scheduler promises to the tasks while interrupts drive it: the ready task of the highest
  priority gets the processor, delays have exact length, no time is lost while the scheduler is
  suspended, and time-outs expire on time.
\<close>

section \<open>Delays\<close>

text \<open>The interrupts that drive the scheduler: the timer's tick, and the switch requested through PendSV.\<close>

datatype interrupt = SysTick | PendSV

fun interrupts :: "interrupt list \<Rightarrow> kernel \<Rightarrow> kernel res" where
  "interrupts [] k = Inr k"
| "interrupts (SysTick # is) k = rbind (xPortSysTickHandler k) (interrupts is)"
| "interrupts (PendSV # is) k = rbind (xPortPendSVHandler k) (interrupts is)"

lemma sched_inv_updates [simp]:
  "sched_inv (k\<lparr>xPendSV := b\<rparr>) = sched_inv k" "sched_inv (k\<lparr>xYieldPending := b\<rparr>) = sched_inv k"
  "sched_inv (k\<lparr>uxSchedulerSuspended := n\<rparr>) = sched_inv k" "sched_inv (k\<lparr>xPendedTicks := w\<rparr>) = sched_inv k"
  by (simp_all add: sched_inv_def)

lemma waiting_updates [simp]:
  "waiting t (k\<lparr>xPendSV := b\<rparr>) = waiting t k" "ticks_left t (k\<lparr>xPendSV := b\<rparr>) = ticks_left t k"
  by (simp_all add: waiting_def ticks_left_def)

text \<open>Every interrupt can be served while some task, such as the idle task, is ready.\<close>

definition serviceable :: "tid \<Rightarrow> kernel \<Rightarrow> bool" where
  "serviceable u k \<longleftrightarrow> sched_inv k \<and> live k \<and> uxSchedulerSuspended k = 0 \<and> container (StateItem u) k = Some (ReadyTasks (uxPriority (tcb k u)))"

lemma serviceable_updates [simp]: "serviceable u (k\<lparr>xPendSV := b\<rparr>) = serviceable u k"
  by (simp add: serviceable_def)

lemma systick_step:
  assumes "serviceable u k"
  shows "\<exists>k'. xPortSysTickHandler k = Inr k' \<and> serviceable u k' \<and> ticked k k'"
proof -
  obtain sw k1 where k1: "xTaskIncrementTick k = Inr (sw, k1)" "sched_inv k1" "live k1" "ticked k k1"
    using tick_step [of k] assms unfolding serviceable_def by (elim exE conjE) blast
  have "container (StateItem u) k1 = Some (ReadyTasks (uxPriority (tcb k1 u)))"
    using k1(4) assms unfolding ticked_def serviceable_def by (simp add: waiting_def)
  moreover have "uxSchedulerSuspended k1 = 0" using k1(4) assms by (simp add: ticked_def serviceable_def)
  ultimately have s: "serviceable u k1" using k1(2,3) by (simp add: serviceable_def)
  have "ticked k (k1\<lparr>xPendSV := True\<rparr>)" using k1(4) by (simp add: ticked_def)
  then show ?thesis using k1(1,4) s by (cases sw) (simp_all add: xPortSysTickHandler_def)
qed

lemma live_switched:
  assumes "live k" and "switched k k'" and "pxCurrentTCB k' = Some t" and "uxPriority (tcb k t) < configMAX_PRIORITIES"
  shows "live k'"
  using assms by (auto simp: live_def switched_def)

lemma pendsv_step:
  assumes "serviceable u k"
  shows "\<exists>k' t. xPortPendSVHandler k = Inr k' \<and> serviceable u k' \<and> switched k k' \<and> pxCurrentTCB k' = Some t \<and>
    container (StateItem t) k = Some (ReadyTasks (uxPriority (tcb k t))) \<and> uxPriority (tcb k u) \<le> uxPriority (tcb k t)"
proof -
  let ?k = "k\<lparr>xPendSV := False\<rparr>"
  have inv: "sched_inv ?k" "uxSchedulerSuspended ?k = 0" "typed ?k" "live ?k" using assms base_invD(1) by (auto simp: serviceable_def sched_inv_def)
  have "StateItem u \<in> set (items (ReadyTasks (uxPriority (tcb k u))) ?k)"
    using assms typedD(3) [OF inv(3), of "StateItem u" "ReadyTasks (uxPriority (tcb k u))"] by (simp add: serviceable_def)
  then have ne: "items (ReadyTasks (uxPriority (tcb k u))) ?k \<noteq> []" by auto
  obtain k' t q where s: "vTaskSwitchContext ?k = Inr k'" "sched_inv k'" "switched ?k k'" "pxCurrentTCB k' = Some t"
      "StateItem t \<in> set (items (ReadyTasks q) ?k)" "uxPriority (tcb ?k t) = q" "q < configMAX_PRIORITIES" "top_priority q ?k"
    using switch_step [OF inv(1,2) ne] by (elim exE conjE)
  have le: "uxPriority (tcb k u) \<le> uxPriority (tcb k t)" using s(6,8) ne by (auto simp: top_priority_def not_le [symmetric])
  have sw: "switched k k'" using s(3) by (simp add: switched_def)
  have "live k'" using live_switched [OF inv(4) s(3,4)] s(6,7) by simp
  moreover have "container (StateItem t) k = Some (ReadyTasks (uxPriority (tcb k t)))"
    using typedD(3) [OF inv(3), of "StateItem t"] s(5,6) by simp
  ultimately show ?thesis using s(1,2,4) sw le assms by (simp add: xPortPendSVHandler_def serviceable_def switched_def)
qed

text \<open>
  Ticks and switches never take the processor from a ready task in favour of a less urgent one: after
  any of them, from the first switch on, the running task is at least as urgent as any task that was ready.
\<close>

definition runs_above :: "nat \<Rightarrow> kernel \<Rightarrow> bool" where
  "runs_above p k \<longleftrightarrow> (\<exists>r. pxCurrentTCB k = Some r \<and> uxPriority (tcb k r) \<ge> p)"

lemma interrupts_run_above:
  assumes "serviceable u k"
  shows "\<exists>k'. interrupts is k = Inr k' \<and> serviceable u k' \<and> tcb k' = tcb k \<and>
    (runs_above (uxPriority (tcb k u)) k \<or> PendSV \<in> set is \<longrightarrow> runs_above (uxPriority (tcb k u)) k')"
  using assms
proof (induction "is" arbitrary: k)
  case (Cons i "is")
  show ?case
  proof (cases i)
    case SysTick
    obtain k1 where k1: "xPortSysTickHandler k = Inr k1" "serviceable u k1" "ticked k k1"
      using systick_step [OF Cons.prems] by blast
    then show ?thesis using Cons.IH [OF k1(2)] SysTick by (auto simp: ticked_def runs_above_def)
  next
    case PendSV
    obtain k1 t where k1: "xPortPendSVHandler k = Inr k1" "serviceable u k1" "switched k k1" "pxCurrentTCB k1 = Some t"
        "uxPriority (tcb k u) \<le> uxPriority (tcb k t)"
      using pendsv_step [OF Cons.prems] by blast
    then have "tcb k1 = tcb k" "runs_above (uxPriority (tcb k u)) k1" by (simp_all add: switched_def runs_above_def)
    then show ?thesis using Cons.IH [OF k1(2)] PendSV k1(1) by auto
  qed
qed simp

text \<open>A delayed task: \<open>r\<close> ticks before its time it waits, from its time on it is ready.\<close>

definition delayed_by :: "nat \<Rightarrow> tid \<Rightarrow> kernel \<Rightarrow> bool" where
  "delayed_by r t k \<longleftrightarrow> (if r > 0 then waiting t k \<and> ticks_left t k = r
     else container (StateItem t) k = Some (ReadyTasks (uxPriority (tcb k t))))"

lemma ticks_left_ticked: "ticked k k' \<Longrightarrow> ticks_left t k > 0 \<Longrightarrow> ticks_left t k' = ticks_left t k - 1"
proof -
  assume t: "ticked k k'" "ticks_left t k > 0"
  let ?d = "item_value (StateItem t) k - xTickCount k"
  have "item_value (StateItem t) k' - xTickCount k' = ?d - 1" using t(1) by (simp add: ticked_def)
  moreover have "?d \<noteq> 0" using t(2) by (auto simp: ticks_left_def)
  then have "unat (?d - 1) = unat ?d - 1" by (metis unat_minus_one)
  ultimately show ?thesis by (simp add: ticks_left_def)
qed

lemma delayed_by_ticked: "ticked k k' \<Longrightarrow> delayed_by r t k \<Longrightarrow> delayed_by (r - 1) t k'"
proof -
  assume a: "ticked k k'" "delayed_by r t k"
  have c: "container (StateItem t) k' = (if waiting t k \<and> ticks_left t k = 1 then Some (ReadyTasks (uxPriority (tcb k t))) else container (StateItem t) k)"
    and p: "tcb k' = tcb k" using a(1) by (auto simp: ticked_def)
  consider "r = 0" | "r = 1" | "r > 1" by linarith
  then show ?thesis
  proof cases
    case 1
    then show ?thesis using a(2) c p by (simp add: delayed_by_def waiting_def)
  next
    case 2
    then show ?thesis using a(2) c p by (simp add: delayed_by_def)
  next
    case 3
    then have "waiting t k" "ticks_left t k = r" using a(2) by (auto simp: delayed_by_def)
    then show ?thesis using 3 c ticks_left_ticked [OF a(1), of t] by (simp add: delayed_by_def waiting_def)
  qed
qed

lemma delayed_by_switched: "switched k k' \<Longrightarrow> delayed_by r t k' = delayed_by r t k"
  by (simp add: switched_def delayed_by_def waiting_def ticks_left_def)

lemma delayed_by_interrupts:
  assumes "serviceable u k" and "delayed_by r t k" and "t \<noteq> u"
  shows "\<exists>k'. interrupts is k = Inr k' \<and> serviceable u k' \<and> delayed_by (r - count_list is SysTick) t k' \<and>
    (r > count_list is SysTick \<and> (pxCurrentTCB k \<noteq> Some t \<or> PendSV \<in> set is) \<longrightarrow> pxCurrentTCB k' \<noteq> Some t)"
  using assms
proof (induction "is" arbitrary: k r)
  case (Cons i "is")
  show ?case
  proof (cases i)
    case SysTick
    obtain k1 where k1: "xPortSysTickHandler k = Inr k1" "serviceable u k1" "ticked k k1"
      using systick_step [OF Cons.prems(1)] by blast
    from Cons.IH [OF k1(2) delayed_by_ticked [OF k1(3) Cons.prems(2)] Cons.prems(3)] obtain k'
      where k': "interrupts is k1 = Inr k'" "serviceable u k'" "delayed_by (r - 1 - count_list is SysTick) t k'"
        "r - 1 > count_list is SysTick \<and> (pxCurrentTCB k1 \<noteq> Some t \<or> PendSV \<in> set is) \<longrightarrow> pxCurrentTCB k' \<noteq> Some t"
      by (elim exE conjE)
    have "pxCurrentTCB k1 = pxCurrentTCB k" using k1(3) by (simp add: ticked_def)
    then show ?thesis using SysTick k1(1) k' by auto
  next
    case PendSV
    obtain k1 t1 where k1: "xPortPendSVHandler k = Inr k1" "serviceable u k1" "switched k k1" "pxCurrentTCB k1 = Some t1"
        "container (StateItem t1) k = Some (ReadyTasks (uxPriority (tcb k t1)))"
      using pendsv_step [OF Cons.prems(1)] by blast
    have d: "delayed_by r t k1" using Cons.prems(2) delayed_by_switched [OF k1(3)] by simp
    from Cons.IH [OF k1(2) d Cons.prems(3)] obtain k'
      where k': "interrupts is k1 = Inr k'" "serviceable u k'" "delayed_by (r - count_list is SysTick) t k'"
        "r > count_list is SysTick \<and> (pxCurrentTCB k1 \<noteq> Some t \<or> PendSV \<in> set is) \<longrightarrow> pxCurrentTCB k' \<noteq> Some t"
      by (elim exE conjE)
    have "t1 \<noteq> t" if "r > 0" using that Cons.prems(2) k1(5) by (auto simp: delayed_by_def waiting_def)
    then show ?thesis using PendSV k1(1,4) k' by auto
  qed
qed simp


lemma add_delayed_ok:
  assumes "sched_inv k" and "pxCurrentTCB k = Some t" and "container (StateItem t) k \<noteq> None"
  shows "\<exists>k'. prvAddCurrentTaskToDelayedList w b k = Inr k'"
proof -
  obtain k1 where "remove_item (StateItem t) (set_tcb t (ucDelayAborted_update (\<lambda>_. False)) k) = Inr k1"
    using remove_item_ok [where i = "StateItem t" and k = "set_tcb t (ucDelayAborted_update (\<lambda>_. False)) k"] assms(3) by auto
  then show ?thesis using assms(2) by (simp add: prvAddCurrentTaskToDelayedList_def current_def Let_def)
qed

text \<open>The state in which tasks run: nothing is left over from a suspension of the scheduler.\<close>

definition settled :: "kernel \<Rightarrow> bool" where
  "settled k \<longleftrightarrow> items PendingReadyList k = [] \<and> xPendedTicks k = 0 \<and> uxCurrentNumberOfTasks k > 0"

lemma resume_settled:
  assumes "settled k" and "uxSchedulerSuspended k = 1"
  shows "xTaskResumeAll k = Inr (xYieldPending k, k\<lparr>uxSchedulerSuspended := 0, xPendSV := xPendSV k \<or> xYieldPending k\<rparr>)"
  using assms by (simp add: xTaskResumeAll_def settled_def c_assert_def portYIELD_WITHIN_API_def Let_def)

lemma add_delayed_settled:
  assumes "prvAddCurrentTaskToDelayedList w b k = Inr k'" and "sched_inv k" and "w > 0" and "settled k"
  shows "settled k'"
proof -
  obtain t where t: "pxCurrentTCB k = Some t"
    using assms(1) by (auto simp: prvAddCurrentTaskToDelayedList_def current_def split: option.splits)
  obtain k1 where k1: "remove_item (StateItem t) (set_tcb t (ucDelayAborted_update (\<lambda>_. False)) k) = Inr k1"
    "if w = portMAX_DELAY \<and> b then k' = insert_end_item SuspendedTaskList (StateItem t) k1
     else let k2 = set_item_value (StateItem t) (xTickCount k + w) k1 in
       if xTickCount k + w < xTickCount k then k' = insert_item (pxOverflowDelayedTaskList k) (StateItem t) k2
       else k' = (insert_item (pxDelayedTaskList k) (StateItem t) k2)\<lparr>xNextTaskUnblockTime := min (xTickCount k + w) (xNextTaskUnblockTime k)\<rparr>"
    by (rule add_delayed_cases [OF assms(1-3) t]) blast
  have ty: "typed (set_tcb t (ucDelayAborted_update (\<lambda>_. False)) k)" and L: "lists_ok k"
    using assms(2) base_invD(1,4) by (simp_all add: sched_inv_def set_tcb_inv(3))
  have "items PendingReadyList k1 = []" using remove_item_fields(1) [OF ty k1(1), of PendingReadyList] assms(4) by (simp add: settled_def)
  moreover have "xPendedTicks k1 = xPendedTicks k" "uxCurrentNumberOfTasks k1 = uxCurrentNumberOfTasks k"
    using frameD(9,10) [OF frame_remove [OF ty k1(1)]] by simp_all
  ultimately show ?thesis using k1(2) assms(4) lists_okD [OF L]
    by (auto simp: settled_def Let_def insert_item_def insert_end_item_def set_item_value_def kernel_simps split: if_splits)
qed

lemma delay_step:
  assumes "sched_inv k" and "live k" and "settled k" and "uxSchedulerSuspended k = 0" and "pxCurrentTCB k = Some t"
    and "container (StateItem t) k \<noteq> None" and "n > 0"
  shows "\<exists>k'. vTaskDelay n k = Inr k' \<and> sched_inv k' \<and> live k' \<and> uxSchedulerSuspended k' = 0 \<and> waiting t k' \<and> ticks_left t k' = unat n \<and>
    xPendSV k' \<and> (\<forall>u. uxPriority (tcb k' u) = uxPriority (tcb k u)) \<and> (\<forall>i. i \<noteq> StateItem t \<longrightarrow> container i k' = container i k)"
proof -
  let ?k = "vTaskSuspendAll k"
  have k: "sched_inv ?k" "pxCurrentTCB ?k = Some t" "container (StateItem t) ?k \<noteq> None" "settled ?k"
    using assms by (simp_all add: vTaskSuspendAll_def settled_def)
  obtain k1 where k1: "prvAddCurrentTaskToDelayedList n False ?k = Inr k1" using add_delayed_ok [OF k(1-3)] by blast
  note W = add_delayed_waits [OF k1 k(1) assms(7) k(2), simplified]
  have s: "settled k1" by (rule add_delayed_settled [OF k1 k(1) assms(7) k(4)])
  have inv: "sched_inv k1" by (rule add_delayed_inv [OF k1 k(1) assms(7)])
  have "uxSchedulerSuspended k1 = 1" using W(5) assms(4) by (simp add: vTaskSuspendAll_def)
  note R = resume_settled [OF s this]
  let ?k' = "k1\<lparr>uxSchedulerSuspended := 0, xPendSV := True\<rparr>"
  have "vTaskDelay n k = Inr ?k'"
    using assms(4,7) k1 R by (cases "xYieldPending k1") (simp_all add: vTaskDelay_def c_assert_def portYIELD_WITHIN_API_def)
  moreover have "container (StateItem u) k1 \<noteq> None \<Longrightarrow> uxPriority (tcb k1 u) < configMAX_PRIORITIES" for u
    using W(6) [of u] W(7) [of "StateItem u"] assms(2,5) by (cases "u = t") (auto simp: live_def vTaskSuspendAll_def)
  then have "live k1" using W(4,6) assms(2,5) by (auto simp: live_def vTaskSuspendAll_def)
  ultimately show ?thesis using inv W by (simp add: waiting_def ticks_left_def vTaskSuspendAll_def)
qed

text \<open>
  C11. A delay lasts exactly as long as asked: the calling task leaves the ready list and, under any
  sequence of timer ticks and context switches and wherever the 32-bit tick counter wraps, it is
  blocked until \<open>n\<close> ticks have passed, does not run from the next context switch until then, and is
  ready from the \<open>n\<close>th tick on. Every interrupt of the sequence is served. Calls by which another task
  ends, suspends or postpones the delay on purpose (\<open>xTaskAbortDelay\<close>, \<open>vTaskSuspend\<close>, \<open>vTaskSuspendAll\<close>)
  are not part of the sequence.
\<close>

theorem delay_exact:
  assumes "sched_inv k" and "live k" and "settled k" and "uxSchedulerSuspended k = 0"
    and "pxCurrentTCB k = Some t" and "container (StateItem t) k \<noteq> None" and "n > 0"
    and "u \<noteq> t" and "container (StateItem u) k = Some (ReadyTasks (uxPriority (tcb k u)))"
  shows "\<exists>k1 k2. vTaskDelay n k = Inr k1 \<and> interrupts is k1 = Inr k2 \<and>
    (if count_list is SysTick < unat n
     then waiting t k2 \<and> ticks_left t k2 = unat n - count_list is SysTick \<and> (PendSV \<in> set is \<longrightarrow> pxCurrentTCB k2 \<noteq> Some t)
     else container (StateItem t) k2 = Some (ReadyTasks (uxPriority (tcb k2 t))))"
proof -
  obtain k1 where k1: "vTaskDelay n k = Inr k1" "sched_inv k1" "live k1" "uxSchedulerSuspended k1 = 0" "waiting t k1" "ticks_left t k1 = unat n"
      "\<forall>u. uxPriority (tcb k1 u) = uxPriority (tcb k u)" "\<forall>i. i \<noteq> StateItem t \<longrightarrow> container i k1 = container i k"
    using delay_step [OF assms(1-7)] by (elim exE conjE)
  have s: "serviceable u k1" using k1 assms(8,9) by (simp add: serviceable_def)
  have "unat n > 0" using assms(7) by (simp add: word_less_nat_alt)
  then have d: "delayed_by (unat n) t k1" using k1(5,6) by (simp add: delayed_by_def)
  obtain k2 where k2: "interrupts is k1 = Inr k2" "delayed_by (unat n - count_list is SysTick) t k2"
      "unat n > count_list is SysTick \<and> (pxCurrentTCB k1 \<noteq> Some t \<or> PendSV \<in> set is) \<longrightarrow> pxCurrentTCB k2 \<noteq> Some t"
    using delayed_by_interrupts [OF s d, of "is"] assms(8) by blast
  show ?thesis using k1(1) k2 by (auto simp: delayed_by_def split: if_splits)
qed

lemma example_settled [simp]: "settled (example_kernel c)"
  by (simp add: settled_def)

theorem delay_exact_witness:
  "\<exists>k1 k2. vTaskDelay 2 (example_kernel 0xFFFFFFFF) = Inr k1 \<and>
     interrupts [PendSV, SysTick, PendSV, SysTick] k1 = Inr k2 \<and> container (StateItem 1) k2 = Some (ReadyTasks (uxPriority (tcb k2 1)))"
proof -
  let ?k = "example_kernel 0xFFFFFFFF" and ?is = "[PendSV, SysTick, PendSV, SysTick]"
  have c: "container (StateItem 0) ?k = Some (ReadyTasks (uxPriority (tcb ?k 0)))" by (simp add: example_kernel_def example_tcb_def)
  have n: "\<not> count_list ?is SysTick < unat (2 :: u32)" by simp
  have "container (StateItem 1) ?k \<noteq> None" "(2 :: u32) > 0" "(0 :: nat) \<noteq> 1" by (simp_all del: One_nat_def)
  from delay_exact [OF example_inv example_settled example_fields(5,4) this c, of ?is] n show ?thesis by (simp only: if_False)
qed

section \<open>Suspending the scheduler\<close>

text \<open>The three fields in which a state that catches up on ticks differs from one that took them at once.\<close>

definition side :: "bool \<Rightarrow> bool \<Rightarrow> u32 \<Rightarrow> kernel \<Rightarrow> kernel" where
  "side y p w k = k\<lparr>xYieldPending := y, xPendSV := p, xPendedTicks := w\<rparr>"

lemma side_fields [simp]:
  "klists (side y p w k) = klists k" "tcb (side y p w k) = tcb k" "pxCurrentTCB (side y p w k) = pxCurrentTCB k"
  "xTickCount (side y p w k) = xTickCount k" "pxDelayedTaskList (side y p w k) = pxDelayedTaskList k"
  "pxOverflowDelayedTaskList (side y p w k) = pxOverflowDelayedTaskList k" "xNextTaskUnblockTime (side y p w k) = xNextTaskUnblockTime k"
  "uxTopReadyPriority (side y p w k) = uxTopReadyPriority k" "uxSchedulerSuspended (side y p w k) = uxSchedulerSuspended k"
  "xYieldPending (side y p w k) = y" "xPendSV (side y p w k) = p" "xPendedTicks (side y p w k) = w" "xNumOfOverflows (side y p w k) = xNumOfOverflows k"
  "uxCurrentNumberOfTasks (side y p w k) = uxCurrentNumberOfTasks k"
  by (simp_all add: side_def)

lemma side_update:
  "side y p w (k\<lparr>klists := A\<rparr>) = (side y p w k)\<lparr>klists := A\<rparr>"
  "side y p w (k\<lparr>uxTopReadyPriority := q\<rparr>) = (side y p w k)\<lparr>uxTopReadyPriority := q\<rparr>"
  "side y p w (k\<lparr>xNextTaskUnblockTime := v\<rparr>) = (side y p w k)\<lparr>xNextTaskUnblockTime := v\<rparr>"
  "side y p w (k\<lparr>xTickCount := v\<rparr>) = (side y p w k)\<lparr>xTickCount := v\<rparr>"
  "side y p w (k\<lparr>pxDelayedTaskList := l, pxOverflowDelayedTaskList := l', xNumOfOverflows := v\<rparr>) =
     (side y p w k)\<lparr>pxDelayedTaskList := l, pxOverflowDelayedTaskList := l', xNumOfOverflows := v\<rparr>"
  "side y p w (k\<lparr>xPendSV := b\<rparr>) = side y p w k"
  "(side y p w k)\<lparr>xYieldPending := y'\<rparr> = side y' p w k" "(side y p w k)\<lparr>xPendedTicks := w'\<rparr> = side y p w' k"
  by (simp_all add: side_def)

lemma side_remove: "remove_item i k = Inr k' \<Longrightarrow> remove_item i (side y p w k) = Inr (side y p w k')"
  by (auto simp: remove_item_def rbind_Inr_iff side_update)

lemma side_add_ready: "prvAddTaskToReadyList t k = Inr k' \<Longrightarrow> prvAddTaskToReadyList t (side y p w k) = Inr (side y p w k')"
  by (auto simp: prvAddTaskToReadyList_eq side_update split: if_splits)

lemma side_unblock_task: "unblock_task t k = Inr k' \<Longrightarrow> unblock_task t (side y p w k) = Inr (side y p w k')"
  by (auto simp: unblock_task_def rbind_Inr_iff side_remove side_add_ready split: if_splits)

lemma side_current: "current (side y p w k) = current k"
  by (simp add: current_def)

lemma side_unblock_loop: "unblock_loop n sw k = Inr (sw', k') \<Longrightarrow> unblock_loop n sw (side y p w k) = Inr (sw', side y p w k')"
proof (induction n arbitrary: sw k)
  case (Suc n)
  show ?case
  proof (cases "items (pxDelayedTaskList k) k = []")
    case True
    then show ?thesis using Suc.prems by (auto simp: side_update)
  next
    case False
    then obtain i where i: "list_head (pxDelayedTaskList k) (klists k) = Inr i" using Suc.prems by (auto simp: rbind_Inr_iff)
    let ?t = "item_owner i"
    show ?thesis
    proof (cases "xTickCount k < item_value (StateItem ?t) k")
      case True
      then show ?thesis using False i Suc.prems by (auto simp: side_update)
    next
      case le: False
      obtain k1 t where k1: "unblock_task ?t k = Inr k1" "current k1 = Inr t"
          "unblock_loop n (sw \<or> uxPriority (tcb k1 t) < uxPriority (tcb k1 ?t)) k1 = Inr (sw', k')"
        using Suc.prems False i le by (auto simp: rbind_Inr_iff Let_def)
      from Suc.IH [OF k1(3)] show ?thesis using False i le k1(2) side_unblock_task [OF k1(1)] by (simp add: side_current)
    qed
  qed
qed simp

lemma side_advance: "tick_advance k = Inr k' \<Longrightarrow> tick_advance (side y p w k) = Inr (side y p w k')"
  by (auto simp: tick_advance_def taskSWITCH_DELAYED_LISTS_def prvResetNextTaskUnblockTime_def rbind_Inr_iff side_update Let_def split: if_splits list.splits)

lemma tick_parts:
  assumes "xTaskIncrementTick k = Inr (sw, k')" and "uxSchedulerSuspended k = 0"
  obtains k1 sw1 t l where "tick_advance k = Inr k1"
    "(if xTickCount k1 \<ge> xNextTaskUnblockTime k1 then unblock_loop (Suc (length (items (pxDelayedTaskList k1) k1))) False k1 else Inr (False, k1)) = Inr (sw1, k')"
    "current k' = Inr t" "pxReadyTasksLists (uxPriority (tcb k' t)) = Inr l" "sw = (sw1 \<or> length (items l k') > 1 \<or> xYieldPending k')"
proof -
  obtain k1 where k1: "tick_advance k = Inr k1"
    using assms(1) unfolding xTaskIncrementTick_advance [OF assms(2)] rbind_Inr_iff by blast
  obtain sw1 k2 where k2: "(if xTickCount k1 \<ge> xNextTaskUnblockTime k1 then unblock_loop (Suc (length (items (pxDelayedTaskList k1) k1))) False k1
      else Inr (False, k1)) = Inr (sw1, k2)"
    using assms(1) unfolding xTaskIncrementTick_advance [OF assms(2)] k1 rbind.simps(2) rbind_Inr_iff by (auto simp del: unblock_loop.simps)
  have "rbind (current k2) (\<lambda>t. rbind (pxReadyTasksLists (uxPriority (tcb k2 t))) (\<lambda>l.
      Inr (sw1 \<or> length (items l k2) > 1 \<or> xYieldPending k2, k2))) = Inr (sw, k')"
    using assms(1) unfolding xTaskIncrementTick_advance [OF assms(2)] k1 rbind.simps(2) k2 by simp
  then show thesis using that [OF k1, of sw1] k2 by (auto simp: rbind_Inr_iff simp del: unblock_loop.simps)
qed

lemma side_tick:
  assumes "xTaskIncrementTick k = Inr (sw, k')" and "uxSchedulerSuspended k = 0" and "xYieldPending k \<longrightarrow> y" and "xYieldPending k' = xYieldPending k"
  shows "xTaskIncrementTick (side y p w k) = Inr (sw \<or> y, side y p w k')"
proof -
  obtain k1 sw1 t l where P: "tick_advance k = Inr k1"
    "(if xTickCount k1 \<ge> xNextTaskUnblockTime k1 then unblock_loop (Suc (length (items (pxDelayedTaskList k1) k1))) False k1 else Inr (False, k1)) = Inr (sw1, k')"
    "current k' = Inr t" "pxReadyTasksLists (uxPriority (tcb k' t)) = Inr l" "sw = (sw1 \<or> length (items l k') > 1 \<or> xYieldPending k')"
    by (rule tick_parts [OF assms(1,2)])
  from P(2) have l: "(if xTickCount k1 \<ge> xNextTaskUnblockTime k1 then unblock_loop (Suc (length (items (pxDelayedTaskList k1) k1))) False (side y p w k1)
      else Inr (False, side y p w k1)) = Inr (sw1, side y p w k')"
    by (auto simp: side_unblock_loop simp del: unblock_loop.simps split: if_splits)
  show ?thesis
    unfolding xTaskIncrementTick_advance [of "side y p w k", unfolded side_fields, OF assms(2)] side_advance [OF P(1)] rbind.simps(2) side_fields l
    using P(3-5) assms(3,4) by (auto simp: side_current)
qed

text \<open>Ticks served at once and ticks served in the catch-up loop.\<close>

abbreviation ticks :: "nat \<Rightarrow> kernel \<Rightarrow> kernel res" where
  "ticks n \<equiv> interrupts (replicate n SysTick)"

lemma tick_catches_up:
  assumes "serviceable u k" and "xYieldPending k \<longrightarrow> y"
  shows "\<exists>sw k'. xPortSysTickHandler k = Inr k' \<and> serviceable u k' \<and> xYieldPending k' = xYieldPending k \<and> xPendedTicks k' = xPendedTicks k \<and>
    xPendSV k' = (xPendSV k \<or> sw) \<and> (xYieldPending k \<longrightarrow> sw) \<and> xTaskIncrementTick (side y p w k) = Inr (sw \<or> y, side y p w k')"
proof -
  obtain sw k1 where k1: "xTaskIncrementTick k = Inr (sw, k1)" "ticked k k1" "sw \<longleftrightarrow> switch_due k k1"
    using tick_step [of k] assms(1) unfolding serviceable_def by (elim exE conjE) blast
  have y: "xYieldPending k1 = xYieldPending k" "xPendedTicks k1 = xPendedTicks k" using k1(2) by (simp_all add: ticked_def)
  have s: "uxSchedulerSuspended k = 0" using assms(1) by (simp add: serviceable_def)
  obtain k' where k': "xPortSysTickHandler k = Inr k'" "serviceable u k'" using systick_step [OF assms(1)] by blast
  then have eq: "k' = (if sw then k1\<lparr>xPendSV := True\<rparr> else k1)" using k1(1) by (simp add: xPortSysTickHandler_def)
  have "xPendSV k1 = xPendSV k"
  proof -
    obtain k2 sw2 where a: "tick_advance k = Inr k2"
      "(if xTickCount k2 \<ge> xNextTaskUnblockTime k2 then unblock_loop (Suc (length (items (pxDelayedTaskList k2) k2))) False k2 else Inr (False, k2)) = Inr (sw2, k1)"
      by (rule tick_parts [OF k1(1) s]) blast
    obtain k3 where "tick_advance k = Inr k3" "base_inv k3" "live k3"
      using tick_advance_step [of k] assms(1) unfolding serviceable_def by blast
    with a have "woken k2 k1" using wake_step [of k2] by (auto simp del: unblock_loop.simps)
    then have "xPendSV k1 = xPendSV k2" using frameD(13) by (auto simp: woken_def)
    moreover have "xPendSV k2 = xPendSV k" using a(1)
      by (auto simp: tick_advance_def taskSWITCH_DELAYED_LISTS_def prvResetNextTaskUnblockTime_def rbind_Inr_iff Let_def split: if_splits)
    ultimately show ?thesis by simp
  qed
  moreover have "xYieldPending k \<longrightarrow> sw" using k1(3) assms(1) by (auto simp: switch_due_def serviceable_def live_def)
  ultimately show ?thesis using k' eq y side_tick [OF k1(1) s assms(2) y(1), of p w]
    by (intro exI [of _ sw] exI [of _ k']) (auto simp: side_update)
qed

lemma ticks_catch_up:
  assumes "serviceable u k" and "xYieldPending k \<longrightarrow> xPendSV k"
  shows "\<exists>k'. ticks n k = Inr k' \<and> xPendedTicks k' = xPendedTicks k \<and> pended_ticks_loop n (side (xPendSV k) p w k) = Inr (side (xPendSV k') p w k')"
  using assms
proof (induction n arbitrary: k)
  case (Suc n)
  obtain sw k1 where k1: "xPortSysTickHandler k = Inr k1" "serviceable u k1" "xYieldPending k1 = xYieldPending k" "xPendedTicks k1 = xPendedTicks k"
      "xPendSV k1 = (xPendSV k \<or> sw)" "xTaskIncrementTick (side (xPendSV k) p w k) = Inr (sw \<or> xPendSV k, side (xPendSV k) p w k1)"
    using tick_catches_up [OF Suc.prems, of p w] by (elim exE conjE)
  have "xYieldPending k1 \<longrightarrow> xPendSV k1" using k1(3,5) Suc.prems(2) by blast
  from Suc.IH [OF k1(2) this] obtain k' where "ticks n k1 = Inr k'" "xPendedTicks k' = xPendedTicks k1"
      "pended_ticks_loop n (side (xPendSV k1) p w k1) = Inr (side (xPendSV k') p w k')" by blast
  moreover have "(if sw \<or> xPendSV k then (side (xPendSV k) p w k1)\<lparr>xYieldPending := True\<rparr> else side (xPendSV k) p w k1) = side (xPendSV k1) p w k1"
    using k1(5) by (auto simp: side_update)
  ultimately show ?case using k1(1,4,6) by simp
qed simp

lemma pend_ticks: "uxSchedulerSuspended k \<noteq> 0 \<Longrightarrow> ticks n k = Inr (k\<lparr>xPendedTicks := xPendedTicks k + of_nat n\<rparr>)"
  by (induction n arbitrary: k) (simp_all add: xPortSysTickHandler_def xTaskIncrementTick_def add.assoc)

text \<open>
  C20. Suspending the scheduler loses no time: ticks that arrive between \<^verbatim>\<open>vTaskSuspendAll\<close> and
  \<^verbatim>\<open>xTaskResumeAll\<close> leave the kernel in the state they would have left it in had they been served at
  once, the tick count, the lists and the request for a context switch included; only the note that
  a yield is pending remains set with that request.
\<close>

theorem suspend_all_equiv:
  assumes "serviceable u k" and "settled k" and "\<not> xPendSV k" and "0 < n" and "n < 2 ^ 32"
  shows "\<exists>k'. ticks n k = Inr k' \<and>
    rbind (ticks n (vTaskSuspendAll k)) xTaskResumeAll = Inr (xPendSV k', k'\<lparr>xYieldPending := xPendSV k'\<rparr>)"
proof -
  let ?w = "of_nat n :: u32"
  obtain m where n: "n = Suc m" using assms(4) by (cases n) auto
  obtain sw k1 where k1: "xPortSysTickHandler k = Inr k1" "serviceable u k1" "xYieldPending k1 = xYieldPending k" "xPendedTicks k1 = xPendedTicks k"
      "xPendSV k1 = (xPendSV k \<or> sw)" "xYieldPending k \<longrightarrow> sw"
      "xTaskIncrementTick (side (xYieldPending k) False ?w k) = Inr (sw \<or> xYieldPending k, side (xYieldPending k) False ?w k1)"
    using tick_catches_up [OF assms(1), of "xYieldPending k" False ?w] by blast
  have "xYieldPending k1 \<longrightarrow> xPendSV k1" using k1(3,5,6) by blast
  then obtain k' where k': "ticks m k1 = Inr k'" "xPendedTicks k' = xPendedTicks k1"
      "pended_ticks_loop m (side (xPendSV k1) False ?w k1) = Inr (side (xPendSV k') False ?w k')"
    using ticks_catch_up [OF k1(2)] by blast
  have next1: "(if sw \<or> xYieldPending k then (side (xYieldPending k) False ?w k1)\<lparr>xYieldPending := True\<rparr> else side (xYieldPending k) False ?w k1) =
      side (xPendSV k1) False ?w k1" using k1(5,6) assms(3) by (auto simp: side_update)
  then have loop: "pended_ticks_loop n (side (xYieldPending k) False ?w k) = Inr (side (xPendSV k') False ?w k')"
    unfolding n pended_ticks_loop.simps using k1(7) [unfolded n] k'(3) [unfolded n] next1 [unfolded n] by (simp del: of_nat_Suc)
  have s: "uxSchedulerSuspended k = 0" using assms(1) by (simp add: serviceable_def)
  have start: "k\<lparr>xPendedTicks := ?w, uxSchedulerSuspended := 0\<rparr> = side (xYieldPending k) False ?w k"
    using s assms(3) by (cases k) (simp add: side_def)
  have u: "unat ?w = n" using assms(5) by (intro unat_of_nat_small) simp
  have pos: "?w > 0" using u assms(4) by (auto simp: word_gt_0)
  let ?s = "side (xPendSV k') False 0 k'"
  have "xTaskResumeAll (k\<lparr>uxSchedulerSuspended := 1, xPendedTicks := ?w\<rparr>) =
      rbind (rbind (pended_ticks_loop n (side (xYieldPending k) False ?w k)) (\<lambda>k. Inr (k\<lparr>xPendedTicks := 0\<rparr>)))
        (\<lambda>k. Inr (if xYieldPending k then (True, portYIELD_WITHIN_API k) else (False, k)))"
    using assms(2) s pos u start by (simp add: xTaskResumeAll_def c_assert_def settled_def Let_def)
  also have "\<dots> = Inr (if xPendSV k' then (True, portYIELD_WITHIN_API ?s) else (False, ?s))"
    unfolding loop rbind.simps(2) side_update side_fields ..
  also have "\<dots> = Inr (xPendSV k', k'\<lparr>xYieldPending := xPendSV k'\<rparr>)"
    using k'(2) k1(4) assms(2) by (cases k') (simp add: settled_def side_def portYIELD_WITHIN_API_def)
  finally have "xTaskResumeAll (k\<lparr>uxSchedulerSuspended := 1, xPendedTicks := ?w\<rparr>) = Inr (xPendSV k', k'\<lparr>xYieldPending := xPendSV k'\<rparr>)" .
  moreover have "ticks n (vTaskSuspendAll k) = Inr (k\<lparr>uxSchedulerSuspended := 1, xPendedTicks := ?w\<rparr>)"
    using s assms(2) by (simp add: vTaskSuspendAll_def pend_ticks settled_def)
  ultimately show ?thesis using k1(1) k'(1) n by simp
qed

theorem suspend_all_equiv_witness:
  "\<exists>k'. ticks 3 (example_kernel 0) = Inr k' \<and>
     rbind (ticks 3 (vTaskSuspendAll (example_kernel 0))) xTaskResumeAll = Inr (xPendSV k', k'\<lparr>xYieldPending := xPendSV k'\<rparr>)"
proof -
  have "serviceable 0 (example_kernel 0)" by (simp add: serviceable_def) (simp add: example_kernel_def)
  moreover have "\<not> xPendSV (example_kernel 0)" by (simp add: example_kernel_def)
  ultimately show ?thesis using example_settled by (intro suspend_all_equiv [of 0]) simp_all
qed

section \<open>Time-outs\<close>

lemma tick_overflows:
  assumes "serviceable u k"
  shows "\<exists>k'. xPortSysTickHandler k = Inr k' \<and> serviceable u k' \<and> ticked k k' \<and>
    xNumOfOverflows k' = xNumOfOverflows k + (if xTickCount k + 1 = 0 then 1 else 0)"
proof -
  obtain k' where k': "xPortSysTickHandler k = Inr k'" "serviceable u k'" "ticked k k'" using systick_step [OF assms] by blast
  have inv: "sched_inv k" "live k" "uxSchedulerSuspended k = 0" using assms by (simp_all add: serviceable_def)
  obtain sw k2 where k2: "xTaskIncrementTick k = Inr (sw, k2)" "xNumOfOverflows k' = xNumOfOverflows k2"
    using k'(1) by (auto simp: xPortSysTickHandler_def rbind_Inr_iff)
  obtain k1 sw1 where k1: "tick_advance k = Inr k1"
    "(if xTickCount k1 \<ge> xNextTaskUnblockTime k1 then unblock_loop (Suc (length (items (pxDelayedTaskList k1) k1))) False k1 else Inr (False, k1)) = Inr (sw1, k2)"
    by (rule tick_parts [OF k2(1) inv(3)]) blast
  have "base_inv k1" "live k1" using tick_advance_step [OF inv(1,2)] k1(1) by auto
  then have "woken k1 k2" using wake_step [of k1] k1(2) by (auto simp del: unblock_loop.simps)
  then have "xNumOfOverflows k2 = xNumOfOverflows k1" using frameD(11) by (auto simp: woken_def)
  moreover have "xNumOfOverflows k1 = xNumOfOverflows k + (if xTickCount k + 1 = 0 then 1 else 0)" using k1(1)
    by (auto simp: tick_advance_def taskSWITCH_DELAYED_LISTS_def prvResetNextTaskUnblockTime_def rbind_Inr_iff Let_def split: if_splits)
  ultimately show ?thesis using k' k2(2) by simp
qed

lemma pendsv_overflows: "xPortPendSVHandler k = Inr k' \<Longrightarrow> xNumOfOverflows k' = xNumOfOverflows k"
  unfolding xPortPendSVHandler_def vTaskSwitchContext_def taskSELECT_HIGHEST_PRIORITY_TASK_def
  by (cases "uxSchedulerSuspended k = 0") (auto simp: rbind_Inr_iff)

text \<open>The tick count and the overflow count together count all ticks since a given time.\<close>

definition elapsed :: "nat \<Rightarrow> kernel \<Rightarrow> kernel \<Rightarrow> bool" where
  "elapsed n k k' \<longleftrightarrow> xTickCount k' = xTickCount k + of_nat n \<and>
     xNumOfOverflows k' = xNumOfOverflows k + of_nat ((unat (xTickCount k) + n) div 2 ^ 32)"

lemma div_succ: "(a + 1) div N = (a div N) + (if (a + 1) mod N = 0 then 1 else 0)" for a N :: nat
  by (simp add: div_Suc)

lemma elapsed_tick:
  assumes "elapsed n k k1" and "xTickCount k' = xTickCount k1 + 1"
    and "xNumOfOverflows k' = xNumOfOverflows k1 + (if xTickCount k1 + 1 = 0 then 1 else 0)"
  shows "elapsed (n + 1) k k'"
proof -
  let ?s = "unat (xTickCount k) + n"
  have t: "xTickCount k1 + 1 = of_nat (?s + 1)" using assms(1) by (simp add: elapsed_def add.assoc)
  have "xTickCount k1 + 1 = 0 \<longleftrightarrow> (?s + 1) mod 2 ^ 32 = 0" unfolding t word_of_nat_eq_0_iff by (simp add: dvd_eq_mod_eq_0)
  then have "xNumOfOverflows k' = xNumOfOverflows k + of_nat ((?s + 1) div 2 ^ 32)"
    using assms(1,3) div_succ [of ?s "2 ^ 32"] by (simp add: elapsed_def)
  then show ?thesis using assms(1,2) by (simp add: elapsed_def ac_simps)
qed

lemma interrupts_elapsed:
  assumes "serviceable u k" and "elapsed n k0 k"
  shows "\<exists>k'. interrupts is k = Inr k' \<and> serviceable u k' \<and> tcb k' = tcb k \<and> elapsed (n + count_list is SysTick) k0 k'"
  using assms
proof (induction "is" arbitrary: k n)
  case (Cons i "is")
  show ?case
  proof (cases i)
    case SysTick
    obtain k1 where k1: "xPortSysTickHandler k = Inr k1" "serviceable u k1" "ticked k k1"
        "xNumOfOverflows k1 = xNumOfOverflows k + (if xTickCount k + 1 = 0 then 1 else 0)"
      using tick_overflows [OF Cons.prems(1)] by blast
    have t: "xTickCount k1 = xTickCount k + 1" "tcb k1 = tcb k" using k1(3) by (simp_all add: ticked_def)
    have "elapsed (n + 1) k0 k1" by (rule elapsed_tick [OF Cons.prems(2) t(1) k1(4)])
    from Cons.IH [OF k1(2) this] show ?thesis using SysTick k1(1) t(2) by auto
  next
    case PendSV
    obtain k1 where k1: "xPortPendSVHandler k = Inr k1" "serviceable u k1" "switched k k1"
      using pendsv_step [OF Cons.prems(1)] by blast
    have t: "elapsed n k0 k1" "tcb k1 = tcb k" using k1(3) Cons.prems(2) pendsv_overflows [OF k1(1)] by (simp_all add: switched_def elapsed_def)
    from Cons.IH [OF k1(2) t(1)] show ?thesis using PendSV k1(1) t(2) by auto
  qed
qed simp

lemma timeout_value:
  assumes "elapsed m k k'" and "pxCurrentTCB k' = Some t" and "\<not> ucDelayAborted (tcb k' t)" and "n \<noteq> portMAX_DELAY"
    and "unat (xTickCount k) + m < 2 ^ 33"
  shows "xTaskCheckForTimeOut (vTaskInternalSetTimeOutState k) n k' =
    (if m < unat n then Inr (False, vTaskInternalSetTimeOutState k', n - of_nat m, k') else Inr (True, vTaskInternalSetTimeOutState k, 0, k'))"
proof -
  let ?e = "unat (xTickCount k)" and ?d = "xTickCount k' - xTickCount k"
  have d: "?d = of_nat m" using assms(1) by (simp add: elapsed_def)
  have ov: "xNumOfOverflows k' \<noteq> xNumOfOverflows k \<longleftrightarrow> 2 ^ 32 \<le> ?e + m"
  proof (cases "2 ^ 32 \<le> ?e + m")
    case True
    then have "(?e + m) div 2 ^ 32 = 1" using assms(5) by (intro div_nat_eqI) simp_all
    then show ?thesis using True assms(1) by (simp add: elapsed_def)
  qed (use assms(1) in \<open>simp add: elapsed_def\<close>)
  have e: "?e < 2 ^ 32" using unat_lt by simp
  have nlt: "unat n < 2 ^ 32" using unat_lt by simp
  have t': "unat (xTickCount k') = (?e + m) mod 2 ^ 32" using assms(1) by (simp add: elapsed_def unat_word_ariths unat_of_nat mod_add_right_eq)
  have late: "xTickCount k' \<ge> xTickCount k \<longleftrightarrow> 2 ^ 32 \<le> m" if "2 ^ 32 \<le> ?e + m"
  proof -
    have "(?e + m) mod 2 ^ 32 = ?e + m - 2 ^ 32" using that assms(5) by (simp add: le_mod_geq)
    then show ?thesis using that by (auto simp: word_le_nat_alt t')
  qed
  show ?thesis
  proof (cases "2 ^ 32 \<le> m")
    case True
    then have "\<not> m < unat n" "2 ^ 32 \<le> ?e + m" using nlt by linarith+
    then show ?thesis using True ov late assms(2-4) by (simp add: xTaskCheckForTimeOut_def current_def vTaskInternalSetTimeOutState_def)
  next
    case False
    then have "unat (of_nat m :: u32) = m" by (intro unat_of_nat_small) simp
    then have "?d < n \<longleftrightarrow> m < unat n" unfolding d by (simp add: word_less_nat_alt)
    moreover have "\<not> (xNumOfOverflows k' \<noteq> xNumOfOverflows k \<and> xTickCount k' \<ge> xTickCount k)" using False ov late by blast
    ultimately show ?thesis using assms(2-4) d
      by (auto simp: xTaskCheckForTimeOut_def current_def vTaskInternalSetTimeOutState_def Let_def)
  qed
qed

text \<open>
  C21. Time-outs are exact across the wrap of the tick counter: a time-out set now, checked after any
  ticks and context switches, is reported as over exactly when at least \<open>n\<close> ticks have passed, and
  otherwise the ticks still to wait are what remains and the time-out restarts from the present. The
  property holds until the tick counter wraps for the second time.
\<close>

theorem timeout_exact:
  assumes "serviceable u k" and "\<forall>t. \<not> ucDelayAborted (tcb k t)" and "n \<noteq> portMAX_DELAY"
    and "unat (xTickCount k) + count_list is SysTick < 2 ^ 33"
  shows "\<exists>k'. interrupts is k = Inr k' \<and>
    xTaskCheckForTimeOut (vTaskInternalSetTimeOutState k) n k' =
      (if count_list is SysTick < unat n
       then Inr (False, vTaskInternalSetTimeOutState k', n - of_nat (count_list is SysTick), k')
       else Inr (True, vTaskInternalSetTimeOutState k, 0, k'))"
proof -
  have "elapsed 0 k k"
    using unat_lt [of "xTickCount k"] by (simp add: elapsed_def)
  then obtain k' where k': "interrupts is k = Inr k'" "serviceable u k'" "tcb k' = tcb k" "elapsed (count_list is SysTick) k k'"
    using interrupts_elapsed [OF assms(1), of 0 k "is"] by auto
  obtain t where "pxCurrentTCB k' = Some t" using k'(2) by (auto simp: serviceable_def live_def)
  then show ?thesis using timeout_value [OF k'(4) _ _ assms(3,4)] k'(1,3) assms(2) by simp
qed

lemma example_serviceable [simp]: "serviceable 0 (example_kernel c)"
  by (simp add: serviceable_def) (simp add: example_kernel_def)

theorem timeout_exact_witness:
  "\<exists>k'. interrupts [SysTick, PendSV, SysTick] (example_kernel 0xFFFFFFFF) = Inr k' \<and>
     xTaskCheckForTimeOut (vTaskInternalSetTimeOutState (example_kernel 0xFFFFFFFF)) 3 k' = Inr (False, vTaskInternalSetTimeOutState k', 1, k')"
proof -
  let ?k = "example_kernel 0xFFFFFFFF" and ?is = "[SysTick, PendSV, SysTick]"
  have "\<forall>t. \<not> ucDelayAborted (tcb ?k t)" "(3 :: u32) \<noteq> portMAX_DELAY" "unat (xTickCount ?k) + count_list ?is SysTick < 2 ^ 33"
    "count_list ?is SysTick < unat (3 :: u32)" "(3 :: u32) - of_nat (count_list ?is SysTick) = 1"
    by (simp_all add: example_tcb_def portMAX_DELAY_def)
  with timeout_exact [OF example_serviceable this(1-3)] show ?thesis by (simp only: if_True)
qed

end
