(* ===== verification/FreeRTOS_Tasks_Invariant.thy ===== *)
theory FreeRTOS_Tasks_Invariant
  imports FreeRTOS_Tasks_Properties
begin

text \<open>
  The invariant of the scheduler over all its calls: from power-on, through the creation of tasks,
  ticks, context switches and every call a task or an interrupt can make, the lists, priorities and
  wake times stay consistent.
\<close>

section \<open>The invariant over all calls\<close>

text \<open>The tasks that the kernel refers to, and valid priorities.\<close>

definition listed :: "kernel \<Rightarrow> tid set" where
  "listed k = {t. container (StateItem t) k \<noteq> None \<or> container (EventItem t) k \<noteq> None \<or> pxCurrentTCB k = Some t}"

definition prios_ok :: "kernel \<Rightarrow> bool" where
  "prios_ok k \<longleftrightarrow> (\<forall>t. uxPriority (tcb k t) < configMAX_PRIORITIES \<and> uxBasePriority (tcb k t) < configMAX_PRIORITIES)"

text \<open>
  The invariant: on top of the invariant of the lists, priorities are in range, a task is running,
  and the kernel refers only to the tasks \<open>T\<close> that were created; calls other than creation leave the
  heap \<open>h\<close> alone.
\<close>

definition kinv :: "heap1 \<Rightarrow> tid set \<Rightarrow> kernel \<Rightarrow> bool" where
  "kinv h T k \<longleftrightarrow> sched_inv k \<and> prios_ok k \<and> pxCurrentTCB k \<noteq> None \<and> listed k \<subseteq> T \<and> heap k = h"

lemma kinvD:
  assumes "kinv h T k"
  shows "sched_inv k" "base_inv k" "typed k" "future k" "prios_ok k" "pxCurrentTCB k \<noteq> None" "listed k \<subseteq> T" "heap k = h" "live k"
  using assms base_invD by (auto simp: kinv_def sched_inv_def prios_ok_def live_def)

lemma kinv_listed:
  assumes "kinv h T k"
  shows "container (StateItem t) k = Some l \<Longrightarrow> t \<in> T" "container (EventItem t) k = Some l \<Longrightarrow> t \<in> T" "pxCurrentTCB k = Some t \<Longrightarrow> t \<in> T"
  using kinvD(7) [OF assms] by (auto simp: listed_def)

lemma kinv_outside:
  assumes "kinv h T k" and "t \<notin> T"
  shows "container (StateItem t) k = None" "container (EventItem t) k = None" "pxCurrentTCB k \<noteq> Some t"
  using kinvD(7) [OF assms(1)] assms(2) by (auto simp: listed_def)

lemma kinv_updates [simp]:
  "kinv h T (k\<lparr>xPendSV := b\<rparr>) = kinv h T k" "kinv h T (k\<lparr>xYieldPending := b\<rparr>) = kinv h T k"
  "kinv h T (k\<lparr>uxSchedulerSuspended := n\<rparr>) = kinv h T k" "kinv h T (k\<lparr>xPendedTicks := w\<rparr>) = kinv h T k"
  "kinv h T (k\<lparr>uxTaskNumber := n\<rparr>) = kinv h T k" "kinv h T (k\<lparr>uxCurrentNumberOfTasks := n\<rparr>) = kinv h T k"
  "kinv h T (k\<lparr>uxDeletedTasksWaitingCleanUp := n\<rparr>) = kinv h T k" "kinv h T (k\<lparr>xSchedulerRunning := b\<rparr>) = kinv h T k"
  by (simp_all add: kinv_def sched_inv_def prios_ok_def listed_def)

lemma kinv_portYIELD [simp]: "kinv h T (portYIELD_WITHIN_API k) = kinv h T k" "kinv h T (vTaskSuspendAll k) = kinv h T k"
  by (simp_all add: portYIELD_WITHIN_API_def vTaskSuspendAll_def)

lemma listed_frame:
  assumes "frame k k'" and "\<And>t. container (StateItem t) k' \<noteq> None \<or> container (EventItem t) k' \<noteq> None \<Longrightarrow> t \<in> T" and "listed k \<subseteq> T"
  shows "listed k' \<subseteq> T"
  using assms(2,3) frameD(6) [OF assms(1)] by (auto simp: listed_def)

lemma kinv_frame:
  assumes "kinv h T k" and "frame k k'" and "base_inv k'" and "future k'"
    and "\<And>t. container (StateItem t) k' \<noteq> None \<or> container (EventItem t) k' \<noteq> None \<Longrightarrow> t \<in> T"
  shows "kinv h T k'"
proof -
  note F = frameD [OF assms(2)]
  have "listed k' \<subseteq> T" by (rule listed_frame [OF assms(2,5) kinvD(7) [OF assms(1)]])
  then show ?thesis using kinvD [OF assms(1)] assms(3,4) F(2,6,14) by (simp add: kinv_def sched_inv_def prios_ok_def)
qed

lemma kinv_remove:
  assumes "kinv h T k" and "remove_item i k = Inr k'"
  shows "kinv h T k'" "frame k k'" "lcontainer (klists k') = (lcontainer (klists k))(i := None)" "item_owner i \<in> T \<or> (\<exists>n. i = TimerItem n)"
proof -
  note I = kinvD [OF assms(1)]
  show f: "frame k k'" and c: "lcontainer (klists k') = (lcontainer (klists k))(i := None)"
    using frame_remove [OF I(3) assms(2)] remove_item_fields(2) [OF I(3) assms(2)] by simp_all
  show "kinv h T k'"
    using remove_item_inv [OF assms(2) I(2)] I(4) c kinv_listed(1,2) [OF assms(1)]
    by (intro kinv_frame [OF assms(1) f]) (auto split: if_splits)
  show "item_owner i \<in> T \<or> (\<exists>n. i = TimerItem n)"
    using remove_item_container [OF assms(2)] kinv_listed(1,2) [OF assms(1)] by (cases i) auto
qed

lemma kinv_add_ready:
  assumes "kinv h T k" and "prvAddTaskToReadyList t k = Inr k'" and "container (StateItem t) k = None" and "t \<in> T"
  shows "kinv h T k'" "frame k k'" "container (StateItem t) k' = Some (ReadyTasks (uxPriority (tcb k t)))"
    "i \<noteq> StateItem t \<Longrightarrow> container i k' = container i k"
proof -
  note I = kinvD [OF assms(1)] and F = add_ready_fields [OF assms(2)]
  show f: "frame k k'" by (rule frame_add_ready [OF assms(2)])
  have "u \<in> T" if "container (StateItem u) k' \<noteq> None \<or> container (EventItem u) k' \<noteq> None" for u
    using that F(1) F(2) [of "StateItem u"] F(2) [of "EventItem u"] kinv_listed(1,2) [OF assms(1)] assms(4) by (cases "u = t") auto
  then show "kinv h T k'" using add_ready_inv [OF assms(2) I(2) assms(3)] I(4) by (intro kinv_frame [OF assms(1) f]) auto
  show "container (StateItem t) k' = Some (ReadyTasks (uxPriority (tcb k t)))" "i \<noteq> StateItem t \<Longrightarrow> container i k' = container i k"
    by (rule F(1), rule F(2))
qed

lemma kinv_insert_end:
  assumes "kinv h T k" and "side_list l" and "fits l i" and "container i k = None" and "item_owner i \<in> T"
  shows "kinv h T (insert_end_item l i k)"
proof -
  let ?k = "insert_end_item l i k"
  have f: "frame k ?k" by (simp add: frame_def insert_end_item_def kernel_simps)
  have "u \<in> T" if "container (StateItem u) ?k \<noteq> None \<or> container (EventItem u) ?k \<noteq> None" for u
    using that kinv_listed(1,2) [OF assms(1)] assms(5) by (cases i) (auto split: if_splits)
  then show ?thesis using insert_end_side_inv [OF kinvD(2) [OF assms(1)] assms(2-4)] kinvD(4) [OF assms(1)]
    by (intro kinv_frame [OF assms(1) f]) auto
qed

lemma kinv_insert:
  assumes "kinv h T k" and "side_list l" and "fits l i" and "container i k = None" and "item_owner i \<in> T"
  shows "kinv h T (insert_item l i k)"
proof -
  let ?k = "insert_item l i k"
  have f: "frame k ?k" by (simp add: frame_def insert_item_def kernel_simps)
  have "u \<in> T" if "container (StateItem u) ?k \<noteq> None \<or> container (EventItem u) ?k \<noteq> None" for u
    using that kinv_listed(1,2) [OF assms(1)] assms(5) by (cases i) (auto split: if_splits)
  then show ?thesis using insert_side_inv [OF kinvD(2) [OF assms(1)] assms(2-4)] kinvD(4) [OF assms(1)]
    by (intro kinv_frame [OF assms(1) f]) auto
qed

lemma kinv_set_tcb:
  assumes "kinv h T k" and "uxPriority (f (tcb k t)) = uxPriority (tcb k t) \<or> (\<forall>p. container (StateItem t) k \<noteq> Some (ReadyTasks p))"
    and "uxPriority (f (tcb k t)) < configMAX_PRIORITIES" and "uxBasePriority (f (tcb k t)) < configMAX_PRIORITIES"
  shows "kinv h T (set_tcb t f k)"
  using kinvD [OF assms(1)] set_tcb_inv [of f k t] assms(2-4)
  by (auto simp: kinv_def sched_inv_def prios_ok_def listed_def set_tcb_def)

lemma kinv_set_tcb_other:
  assumes "kinv h T k" and "uxPriority (f (tcb k t)) = uxPriority (tcb k t)" and "uxBasePriority (f (tcb k t)) = uxBasePriority (tcb k t)"
  shows "kinv h T (set_tcb t f k)"
  using kinvD(5) [OF assms(1)] assms(2,3) by (intro kinv_set_tcb [OF assms(1)]) (auto simp: prios_ok_def)

lemma kinv_set_event_value: "kinv h T k \<Longrightarrow> kinv h T (set_item_value (EventItem t) v k)"
proof -
  assume a: "kinv h T k"
  have "container (EventItem t) k \<noteq> Some DelayedTaskList1" "container (EventItem t) k \<noteq> Some DelayedTaskList2"
    using typedD(2,3) [OF kinvD(3) [OF a]] fits_event by (metis list_id.distinct)+
  then show ?thesis using set_item_value_inv [OF kinvD(2) [OF a], of "EventItem t" v] kinvD [OF a]
    by (auto simp: kinv_def sched_inv_def prios_ok_def listed_def set_item_value_def kernel_simps)
qed

lemma kinv_set_event_priority: "kinv h T k \<Longrightarrow> kinv h T (set_event_priority t p k)"
  by (simp add: set_event_priority_def kinv_set_event_value)

lemma kinv_reset_next: "kinv h T k \<Longrightarrow> kinv h T (prvResetNextTaskUnblockTime k)"
proof -
  assume a: "kinv h T k"
  have "base_inv (prvResetNextTaskUnblockTime k)"
    using kinvD(2) [OF a] base_invD [of k] by (intro reset_next_inv) (auto simp: delayed_ok_def)
  then show ?thesis using kinvD [OF a] by (simp add: kinv_def sched_inv_def prios_ok_def listed_def prvResetNextTaskUnblockTime_def)
qed


text \<open>Changing the priority of a task moves it to the ready list of the new priority.\<close>

lemma remove_set_tcb: "remove_item i (set_tcb t f k) = rbind (remove_item i k) (\<lambda>k. Inr (set_tcb t f k))"
  by (cases "list_remove i (klists k)") (simp_all add: remove_item_def set_tcb_def)

lemma requeue_frame:
  assumes "requeue_if_ready p t k = Inr k'" and "typed k"
  shows "frame k k'"
  using assms by (auto simp: requeue_if_ready_def rbind_Inr_iff split: if_splits elim!: frame_trans [OF frame_remove [OF assms(2)] frame_add_ready])

lemma kinv_requeue:
  assumes "kinv h T k" and "requeue_if_ready (uxPriority (tcb k t)) t (set_tcb t f k) = Inr k'"
    and "uxPriority (f (tcb k t)) < configMAX_PRIORITIES" and "uxBasePriority (f (tcb k t)) < configMAX_PRIORITIES"
  shows "kinv h T k'" "frame (set_tcb t f k) k'"
    "lcontainer (klists k') = (if container (StateItem t) k = Some (ReadyTasks (uxPriority (tcb k t)))
       then (lcontainer (klists k))(StateItem t := Some (ReadyTasks (uxPriority (f (tcb k t))))) else lcontainer (klists k))"
proof -
  let ?p = "uxPriority (tcb k t)"
  have p: "?p < configMAX_PRIORITIES" using kinvD(5) [OF assms(1)] by (simp add: prios_ok_def)
  have "typed (set_tcb t f k)" using kinvD(3) [OF assms(1)] by (simp add: typed_def set_tcb_def)
  then show "frame (set_tcb t f k) k'" using requeue_frame [OF assms(2)] by simp
  have "kinv h T k' \<and> lcontainer (klists k') = (if container (StateItem t) k = Some (ReadyTasks ?p)
       then (lcontainer (klists k))(StateItem t := Some (ReadyTasks (uxPriority (f (tcb k t))))) else lcontainer (klists k))"
  proof (cases "container (StateItem t) k = Some (ReadyTasks ?p)")
    case True
    then obtain k1 where k1: "remove_item (StateItem t) k = Inr k1" "prvAddTaskToReadyList t (set_tcb t f k1) = Inr k'"
      using assms(2) p by (auto simp: requeue_if_ready_def pxReadyTasksLists_def remove_set_tcb rbind_assoc rbind_Inr_iff)
    note R = kinv_remove [OF assms(1) k1(1)]
    have tcb: "tcb k1 = tcb k" by (rule frameD(2) [OF R(2)])
    have i1: "kinv h T (set_tcb t f k1)" using R(3) assms(3,4) tcb by (intro kinv_set_tcb [OF R(1)]) simp_all
    have c1: "container (StateItem t) (set_tcb t f k1) = None" "t \<in> T" using R(3,4) by simp_all
    note A = kinv_add_ready [OF i1 k1(2) c1]
    have "container i k' = ((lcontainer (klists k))(StateItem t := Some (ReadyTasks (uxPriority (f (tcb k t)))))) i" for i
      using A(3) A(4) [of i] R(3) tcb by simp
    then show ?thesis using A(1) True by auto
  next
    case False
    then have "k' = set_tcb t f k" using assms(2) p by (simp add: requeue_if_ready_def pxReadyTasksLists_def)
    moreover have "container (StateItem t) k \<noteq> Some (ReadyTasks q)" for q
      using False typedD(3) [OF kinvD(3) [OF assms(1)], of "StateItem t"] base_invD(2) [OF kinvD(2) [OF assms(1)]] by (auto simp: ready_ok_def)
    ultimately show ?thesis using False kinv_set_tcb [OF assms(1)] assms(3,4) by simp
  qed
  then show "kinv h T k'" "lcontainer (klists k') = (if container (StateItem t) k = Some (ReadyTasks ?p)
       then (lcontainer (klists k))(StateItem t := Some (ReadyTasks (uxPriority (f (tcb k t))))) else lcontainer (klists k))"
    by simp_all
qed

section \<open>Every call keeps the invariant\<close>

subsection \<open>Ticks, switches and suspension of the scheduler\<close>

lemma select_priority_nonempty: "select_priority p k = Inr q \<Longrightarrow> items (ReadyTasks q) k \<noteq> []"
proof (induction p)
  case 0
  then show ?case by (subst (asm) select_priority.simps) (auto simp: pxReadyTasksLists_def split: if_splits)
next
  case (Suc p)
  then show ?case by (subst (asm) (2) select_priority.simps) (auto simp: pxReadyTasksLists_def split: if_splits)
qed

lemma kinv_vTaskSwitchContext:
  assumes "kinv h T k" and "vTaskSwitchContext k = Inr k'"
  shows "kinv h T k'"
proof (cases "uxSchedulerSuspended k = 0")
  case False
  then show ?thesis using assms by (auto simp: vTaskSwitchContext_def)
next
  case True
  note I = kinvD [OF assms(1)]
  obtain q where "select_priority (uxTopReadyPriority k) (k\<lparr>xYieldPending := False\<rparr>) = Inr q"
    using assms(2) True by (auto simp: vTaskSwitchContext_def taskSELECT_HIGHEST_PRIORITY_TASK_def rbind_Inr_iff)
  then have "items (ReadyTasks q) k \<noteq> []" using select_priority_nonempty by fastforce
  from switch_step [OF I(1) True this] obtain k1 t r where s: "vTaskSwitchContext k = Inr k1" "sched_inv k1" "switched k k1" "pxCurrentTCB k1 = Some t"
    "StateItem t \<in> set (items (ReadyTasks r) k)" by (elim exE conjE)
  have k': "k' = k1" using s(1) assms(2) by simp
  have "t \<in> T" using s(5) typedD(3) [OF I(3)] kinv_listed(1) [OF assms(1)] by metis
  then have "listed k1 \<subseteq> T" using s(3,4) kinv_listed [OF assms(1)] by (auto simp: listed_def switched_def)
  moreover have "heap k1 = heap k" using assms(2) True k'
    by (auto simp: vTaskSwitchContext_def taskSELECT_HIGHEST_PRIORITY_TASK_def rbind_Inr_iff)
  ultimately show ?thesis using s(2-4) I(5,8) k' by (simp add: kinv_def prios_ok_def switched_def)
qed

lemma kinv_xPortPendSVHandler: "kinv h T k \<Longrightarrow> xPortPendSVHandler k = Inr k' \<Longrightarrow> kinv h T k'"
  using kinv_vTaskSwitchContext [of h T "k\<lparr>xPendSV := False\<rparr>" k'] by (simp add: xPortPendSVHandler_def)

lemma tick_heap:
  assumes "xTaskIncrementTick k = Inr (sw, k')" and "uxSchedulerSuspended k = 0" and "sched_inv k" and "live k"
  shows "heap k' = heap k"
proof -
  obtain k1 sw1 where k1: "tick_advance k = Inr k1"
    "(if xTickCount k1 \<ge> xNextTaskUnblockTime k1 then unblock_loop (Suc (length (items (pxDelayedTaskList k1) k1))) False k1 else Inr (False, k1)) = Inr (sw1, k')"
    by (rule tick_parts [OF assms(1,2)]) blast
  have "base_inv k1" "live k1" using tick_advance_step [OF assms(3,4)] k1(1) by auto
  then have "woken k1 k'" using wake_step [of k1] k1(2) by (auto simp del: unblock_loop.simps)
  then have "heap k' = heap k1" using frameD(14) by (auto simp: woken_def)
  moreover have "heap k1 = heap k" using k1(1)
    by (auto simp: tick_advance_def taskSWITCH_DELAYED_LISTS_def prvResetNextTaskUnblockTime_def rbind_Inr_iff Let_def split: if_splits)
  ultimately show ?thesis by simp
qed

lemma kinv_xTaskIncrementTick:
  assumes "kinv h T k"
  shows "\<exists>sw k'. xTaskIncrementTick k = Inr (sw, k') \<and> kinv h T k'"
proof (cases "uxSchedulerSuspended k = 0")
  case False
  then show ?thesis using assms by (intro exI [of _ False]) (simp add: xTaskIncrementTick_def)
next
  case True
  note I = kinvD [OF assms]
  obtain sw k' where k': "xTaskIncrementTick k = Inr (sw, k')" "sched_inv k'" "ticked k k'" using tick_step [OF I(1,9) True] by blast
  have "container (StateItem t) k' = None" "container (EventItem t) k' = None" "pxCurrentTCB k' \<noteq> Some t" if "t \<notin> T" for t
    using k'(3) kinv_outside [OF assms that] by (simp_all add: ticked_def waiting_def)
  then have "t \<notin> T \<Longrightarrow> t \<notin> listed k'" for t by (simp add: listed_def)
  then have "listed k' \<subseteq> T" by blast
  then show ?thesis using k' I tick_heap [OF k'(1) True I(1,9)] by (auto simp: kinv_def prios_ok_def ticked_def)
qed

lemma kinv_xPortSysTickHandler: "kinv h T k \<Longrightarrow> \<exists>k'. xPortSysTickHandler k = Inr k' \<and> kinv h T k'"
  using kinv_xTaskIncrementTick [of h T k] by (auto simp: xPortSysTickHandler_def)

lemma pending_head:
  assumes "typed k" and "list_head l (klists k) = Inr i"
  shows "i \<in> set (items l k)" "container i k = Some l" "fits l i"
  using assms typedD(2,3) [OF assms(1)] by (auto simp: list_head_def split: list.splits)

lemma kinv_ready_again:
  assumes "kinv h T k" and "remove_item (StateItem t) k = Inr k1" and "prvAddTaskToReadyList t k1 = Inr k2"
  shows "kinv h T k2" "frame k k2" "lcontainer (klists k2) = (lcontainer (klists k))(StateItem t := Some (ReadyTasks (uxPriority (tcb k t))))"
proof -
  note R = kinv_remove [OF assms(1,2)]
  have c: "container (StateItem t) k1 = None" "t \<in> T" using R(3,4) by simp_all
  note A = kinv_add_ready [OF R(1) assms(3) c]
  show "kinv h T k2" "frame k k2" using A(1,2) R(2) frame_trans by blast+
  show "lcontainer (klists k2) = (lcontainer (klists k))(StateItem t := Some (ReadyTasks (uxPriority (tcb k t))))"
    using A(3,4) R(3) frameD(2) [OF R(2)] by auto
qed

lemma kinv_pending_ready_loop: "kinv h T k \<Longrightarrow> pending_ready_loop n b k = Inr (b', k') \<Longrightarrow> kinv h T k'"
proof (induction n arbitrary: b k)
  case (Suc n)
  show ?case
  proof (cases "items PendingReadyList k = []")
    case True
    then show ?thesis using Suc.prems by simp
  next
    case False
    obtain i k1 k2 k3 c where s: "list_head PendingReadyList (klists k) = Inr i" "remove_item (EventItem (item_owner i)) k = Inr k1"
        "remove_item (StateItem (item_owner i)) k1 = Inr k2" "prvAddTaskToReadyList (item_owner i) k2 = Inr k3" "current k3 = Inr c"
        "pending_ready_loop n True (if uxPriority (tcb k3 (item_owner i)) \<ge> uxPriority (tcb k3 c) then k3\<lparr>xYieldPending := True\<rparr> else k3) = Inr (b', k')"
      using Suc.prems(2) False by (auto simp: rbind_Inr_iff Let_def)
    have "kinv h T k3" by (rule kinv_ready_again(1) [OF kinv_remove(1) [OF Suc.prems(1) s(2)] s(3,4)])
    then show ?thesis using Suc.IH [OF _ s(6)] by simp
  qed
qed simp

lemma kinv_pended_ticks_loop: "kinv h T k \<Longrightarrow> \<exists>k'. pended_ticks_loop n k = Inr k' \<and> kinv h T k'"
proof (induction n arbitrary: k)
  case (Suc n)
  obtain sw k1 where "xTaskIncrementTick k = Inr (sw, k1)" "kinv h T k1" using kinv_xTaskIncrementTick [OF Suc.prems] by blast
  then show ?case using Suc.IH [of "if sw then k1\<lparr>xYieldPending := True\<rparr> else k1"] by simp
qed simp

lemma kinv_xTaskResumeAll:
  assumes "kinv h T k" and "xTaskResumeAll k = Inr (b, k')"
  shows "kinv h T k'"
proof -
  let ?k = "k\<lparr>uxSchedulerSuspended := uxSchedulerSuspended k - 1\<rparr>"
  have i: "kinv h T ?k" using assms(1) by simp
  show ?thesis
  proof (cases "uxSchedulerSuspended ?k = 0 \<and> uxCurrentNumberOfTasks ?k > 0")
    case False
    then show ?thesis using assms i by (auto simp: xTaskResumeAll_def rbind_Inr_iff Let_def)
  next
    case True
    obtain f k1 where k1: "pending_ready_loop (Suc (length (items PendingReadyList ?k))) False ?k = Inr (f, k1)"
      using assms(2) True by (auto simp: xTaskResumeAll_def rbind_Inr_iff Let_def simp del: pending_ready_loop.simps)
    let ?k1 = "if f then prvResetNextTaskUnblockTime k1 else k1"
    have i1: "kinv h T ?k1" using kinv_pending_ready_loop [OF i k1] kinv_reset_next by simp
    obtain k2 where k2: "(if xPendedTicks ?k1 > 0 then rbind (pended_ticks_loop (unat (xPendedTicks ?k1)) ?k1) (\<lambda>k. Inr (k\<lparr>xPendedTicks := 0\<rparr>)) else Inr ?k1) = Inr k2"
      and i2: "kinv h T k2"
      using kinv_pended_ticks_loop [OF i1, of "unat (xPendedTicks ?k1)"] i1 by (cases "xPendedTicks ?k1 > 0") auto
    have "xTaskResumeAll k = Inr (if xYieldPending k2 then (True, portYIELD_WITHIN_API k2) else (False, k2))"
    proof -
      have "uxSchedulerSuspended k \<noteq> 0" using assms(2) by (cases "uxSchedulerSuspended k") (simp_all add: xTaskResumeAll_def c_assert_def)
      then show ?thesis using True unfolding xTaskResumeAll_def c_assert_def Let_def k1 by (simp only: rbind.simps k1 k2 prod.case if_True refl simp_thms)
    qed
    then show ?thesis using assms(2) i2 by (auto split: if_splits)
  qed
qed

subsection \<open>Blocking\<close>

lemma add_delayed_fields:
  assumes "prvAddCurrentTaskToDelayedList w b k = Inr k'" and "typed k" and "pxCurrentTCB k = Some t"
  shows "pxCurrentTCB k' = Some t" "heap k' = heap k" "i \<noteq> StateItem t \<Longrightarrow> container i k' = container i k"
    "uxPriority (tcb k' u) = uxPriority (tcb k u)" "uxBasePriority (tcb k' u) = uxBasePriority (tcb k u)" "container (StateItem t) k \<noteq> None"
    "uxSchedulerSuspended k' = uxSchedulerSuspended k" "xSchedulerRunning k' = xSchedulerRunning k"
proof -
  let ?k = "set_tcb t (ucDelayAborted_update (\<lambda>_. False)) k"
  obtain k1 where k1: "remove_item (StateItem t) ?k = Inr k1"
    using assms(1,3) by (auto simp: prvAddCurrentTaskToDelayedList_def current_def rbind_Inr_iff)
  have ty: "typed ?k" using assms(2) by (simp add: typed_def)
  note F = frameD [OF frame_remove [OF ty k1]] and C = remove_item_fields(2) [OF ty k1]
  have h: "heap k1 = heap k" using F(14) by (simp add: set_tcb_def)
  show "container (StateItem t) k \<noteq> None" using remove_item_container [OF k1] by simp
  have k': "k' = (if w = portMAX_DELAY \<and> b then insert_end_item SuspendedTaskList (StateItem t) k1
     else let k2 = set_item_value (StateItem t) (xTickCount k1 + w) k1 in
       if xTickCount k1 + w < xTickCount k1 then insert_item (pxOverflowDelayedTaskList k1) (StateItem t) k2
       else let k3 = insert_item (pxDelayedTaskList k1) (StateItem t) k2
         in if xTickCount k1 + w < xNextTaskUnblockTime k1 then k3\<lparr>xNextTaskUnblockTime := xTickCount k1 + w\<rparr> else k3)"
    using assms(1,3) k1 by (auto simp: prvAddCurrentTaskToDelayedList_def current_def Let_def split: if_splits)
  have "pxCurrentTCB k' = pxCurrentTCB k1" "heap k' = heap k1" "tcb k' = tcb k1" "uxSchedulerSuspended k' = uxSchedulerSuspended k1"
    "xSchedulerRunning k' = xSchedulerRunning k1" "i \<noteq> StateItem t \<Longrightarrow> container i k' = container i k1"
    unfolding k' by (simp_all add: Let_def insert_end_item_def insert_item_def set_item_value_def kernel_simps)
  then show "pxCurrentTCB k' = Some t" "heap k' = heap k" "i \<noteq> StateItem t \<Longrightarrow> container i k' = container i k"
    "uxPriority (tcb k' u) = uxPriority (tcb k u)" "uxBasePriority (tcb k' u) = uxBasePriority (tcb k u)"
    "uxSchedulerSuspended k' = uxSchedulerSuspended k" "xSchedulerRunning k' = xSchedulerRunning k"
    using F(2,6,7,12) C h assms(3) by simp_all
qed

lemma kinv_add_delayed:
  assumes "kinv h T k" and "prvAddCurrentTaskToDelayedList w b k = Inr k'" and "w > 0"
  shows "kinv h T k'"
proof -
  note I = kinvD [OF assms(1)]
  obtain t where t: "pxCurrentTCB k = Some t" using I(6) by blast
  note F = add_delayed_fields [OF assms(2) I(3) t]
  have "u \<notin> listed k'" if "u \<notin> T" for u
  proof -
    have "u \<noteq> t" using that kinv_listed(3) [OF assms(1) t] by blast
    then show ?thesis using kinv_outside [OF assms(1) that] F(1) F(3) [of "StateItem u"] F(3) [of "EventItem u"] by (simp add: listed_def)
  qed
  then have "listed k' \<subseteq> T" by blast
  then show ?thesis using add_delayed_inv [OF assms(2) I(1) assms(3)] F I(5,8) by (simp add: kinv_def prios_ok_def)
qed

lemma kinv_vTaskDelay:
  assumes "kinv h T k" and "vTaskDelay n k = Inr k'"
  shows "kinv h T k'"
proof (cases "n > 0")
  case False
  then show ?thesis using assms by (auto simp: vTaskDelay_def)
next
  case True
  then obtain k1 y k2 where s: "prvAddCurrentTaskToDelayedList n False (vTaskSuspendAll k) = Inr k1" "xTaskResumeAll k1 = Inr (y, k2)"
      "k' = (if \<not> y then portYIELD_WITHIN_API k2 else k2)"
    using assms(2) by (auto simp: vTaskDelay_def rbind_Inr_iff)
  have "kinv h T k1" using assms(1) by (intro kinv_add_delayed [OF _ s(1) True]) simp
  then have "kinv h T k2" by (rule kinv_xTaskResumeAll [OF _ s(2)])
  then show ?thesis using s(3) by simp
qed

lemma should_delay_pos: "should_delay c p w \<Longrightarrow> w - c > 0" for c p w :: u32
  by (auto simp: should_delay_def word_gt_0 split: if_splits)

lemma kinv_xTaskDelayUntil:
  assumes "kinv h T k" and "xTaskDelayUntil p w k = Inr (b, p', k')"
  shows "kinv h T k'"
proof -
  let ?d = "should_delay (xTickCount k) p (p + w)"
  obtain k1 y k2 where s: "(if ?d then prvAddCurrentTaskToDelayedList (p + w - xTickCount k) False (vTaskSuspendAll k) else Inr (vTaskSuspendAll k)) = Inr k1"
      "xTaskResumeAll k1 = Inr (y, k2)" "k' = (if \<not> y then portYIELD_WITHIN_API k2 else k2)"
    using assms(2) by (auto simp: xTaskDelayUntil_def rbind_Inr_iff Let_def vTaskSuspendAll_def)
  have "kinv h T k1"
  proof (cases ?d)
    case True
    then show ?thesis using s(1) assms(1) kinv_add_delayed [of h T "vTaskSuspendAll k"] should_delay_pos by simp
  qed (use s(1) assms(1) in auto)
  then have "kinv h T k2" by (rule kinv_xTaskResumeAll [OF _ s(2)])
  then show ?thesis using s(3) by simp
qed

lemma kinv_xTaskCatchUpTicks: "kinv h T k \<Longrightarrow> xTaskCatchUpTicks w k = Inr (b, k') \<Longrightarrow> kinv h T k'"
  by (auto simp: xTaskCatchUpTicks_def rbind_Inr_iff Let_def elim!: kinv_xTaskResumeAll [rotated])

text \<open>The lists on which tasks wait for queues; the running task waits on none of them.\<close>

definition event_list :: "list_id \<Rightarrow> bool" where
  "event_list l \<longleftrightarrow> (\<exists>q. l = TasksWaitingToSend q \<or> l = TasksWaitingToReceive q)"

lemma event_list_fits: "event_list l \<Longrightarrow> fits l (EventItem t)" "event_list l \<Longrightarrow> side_list l" "event_list l \<Longrightarrow> fits l i \<Longrightarrow> \<exists>t. i = EventItem t"
  by (cases i; auto simp: event_list_def)+

definition running_free :: "kernel \<Rightarrow> bool" where
  "running_free k \<longleftrightarrow> (\<forall>t. pxCurrentTCB k = Some t \<longrightarrow> container (EventItem t) k = None)"

lemma kinv_vTaskPlaceOnEventList:
  assumes "kinv h T k" and "vTaskPlaceOnEventList l w k = Inr k'" and "event_list l" and "running_free k" and "w > 0"
  shows "kinv h T k'"
proof -
  obtain t where t: "pxCurrentTCB k = Some t" "prvAddCurrentTaskToDelayedList w True (insert_item l (EventItem t) k) = Inr k'"
    using assms(2) by (auto simp: vTaskPlaceOnEventList_def current_def rbind_Inr_iff split: option.splits)
  have "kinv h T (insert_item l (EventItem t) k)"
    using assms(4) t(1) event_list_fits [OF assms(3)] kinv_listed(3) [OF assms(1) t(1)] by (intro kinv_insert [OF assms(1)]) (auto simp: running_free_def)
  then show ?thesis by (rule kinv_add_delayed [OF _ t(2) assms(5)])
qed

lemma kinv_vTaskPlaceOnUnorderedEventList:
  assumes "kinv h T k" and "vTaskPlaceOnUnorderedEventList l v w k = Inr k'" and "event_list l" and "running_free k" and "w > 0"
  shows "kinv h T k'"
proof -
  obtain t where t: "pxCurrentTCB k = Some t" "prvAddCurrentTaskToDelayedList w True (insert_end_item l (EventItem t)
      (set_item_value (EventItem t) (v OR taskEVENT_LIST_ITEM_VALUE_IN_USE) k)) = Inr k'"
    using assms(2) by (auto simp: vTaskPlaceOnUnorderedEventList_def current_def rbind_Inr_iff split: option.splits)
  have "kinv h T (insert_end_item l (EventItem t) (set_item_value (EventItem t) (v OR taskEVENT_LIST_ITEM_VALUE_IN_USE) k))"
    using assms(4) t(1) event_list_fits [OF assms(3)] kinv_listed(3) [OF assms(1) t(1)]
    by (intro kinv_insert_end [OF kinv_set_event_value [OF assms(1)]]) (auto simp: running_free_def)
  then show ?thesis by (rule kinv_add_delayed [OF _ t(2) assms(5)])
qed

lemma kinv_vTaskPlaceOnEventListRestricted:
  assumes "kinv h T k" and "vTaskPlaceOnEventListRestricted l w b k = Inr k'" and "event_list l" and "running_free k" and "w > 0 \<or> b"
  shows "kinv h T k'"
proof -
  obtain t where t: "pxCurrentTCB k = Some t"
      "prvAddCurrentTaskToDelayedList (if b then portMAX_DELAY else w) b (insert_end_item l (EventItem t) k) = Inr k'"
    using assms(2) by (auto simp: vTaskPlaceOnEventListRestricted_def current_def rbind_Inr_iff split: option.splits)
  have "kinv h T (insert_end_item l (EventItem t) k)"
    using assms(4) t(1) event_list_fits [OF assms(3)] kinv_listed(3) [OF assms(1) t(1)] by (intro kinv_insert_end [OF assms(1)]) (auto simp: running_free_def)
  then show ?thesis using assms(5) by (intro kinv_add_delayed [OF _ t(2)]) (auto simp: portMAX_DELAY_def)
qed

subsection \<open>Waking\<close>

lemma kinv_xTaskRemoveFromEventList:
  assumes "kinv h T k" and "xTaskRemoveFromEventList l k = Inr (b, k')" and "event_list l"
  shows "kinv h T k'"
proof -
  obtain i where i: "list_head l (klists k) = Inr i" using assms(2) by (auto simp: xTaskRemoveFromEventList_def rbind_Inr_iff)
  let ?t = "item_owner i"
  obtain k1 where k1: "remove_item (EventItem ?t) k = Inr k1" using assms(2) i by (auto simp: xTaskRemoveFromEventList_def rbind_Inr_iff Let_def)
  obtain k2 c where k2: "(if uxSchedulerSuspended k1 = 0 then rbind (remove_item (StateItem ?t) k1) (prvAddTaskToReadyList ?t)
      else Inr (insert_end_item PendingReadyList (EventItem ?t) k1)) = Inr k2" "current k2 = Inr c"
    using assms(2) i k1 by (auto simp: xTaskRemoveFromEventList_def rbind_Inr_iff Let_def)
  have k': "k' = k2 \<or> k' = k2\<lparr>xYieldPending := True\<rparr>"
    using assms(2) i k1 k2 by (auto simp: xTaskRemoveFromEventList_def Let_def split: if_splits)
  note R = kinv_remove [OF assms(1) k1]
  have "kinv h T k2"
  proof (cases "uxSchedulerSuspended k1 = 0")
    case True
    then obtain k3 where "remove_item (StateItem ?t) k1 = Inr k3" "prvAddTaskToReadyList ?t k3 = Inr k2" using k2(1) by (auto simp: rbind_Inr_iff)
    then show ?thesis by (rule kinv_ready_again(1) [OF R(1)])
  next
    case False
    then show ?thesis using k2(1) R(3,4) kinv_insert_end [OF R(1), of PendingReadyList "EventItem ?t"] by simp
  qed
  then show ?thesis using k' by auto
qed

lemma kinv_vTaskRemoveFromUnorderedEventList:
  assumes "kinv h T k" and "vTaskRemoveFromUnorderedEventList (EventItem t) v k = Inr k'"
  shows "kinv h T k'"
proof -
  obtain k1 k2 k3 c where s: "remove_item (EventItem t) (set_item_value (EventItem t) (v OR taskEVENT_LIST_ITEM_VALUE_IN_USE) k) = Inr k1"
      "remove_item (StateItem t) k1 = Inr k2" "prvAddTaskToReadyList t k2 = Inr k3" "current k3 = Inr c"
      "k' = (if uxPriority (tcb k3 t) > uxPriority (tcb k3 c) then k3\<lparr>xYieldPending := True\<rparr> else k3)"
    using assms(2) by (auto simp: vTaskRemoveFromUnorderedEventList_def rbind_Inr_iff Let_def)
  have "kinv h T k1" by (rule kinv_remove(1) [OF kinv_set_event_value [OF assms(1)] s(1)])
  then have "kinv h T k3" by (rule kinv_ready_again(1) [OF _ s(2,3)])
  then show ?thesis using s(5) by simp
qed

lemma kinv_vTaskResume:
  assumes "kinv h T k" and "vTaskResume t k = Inr k'"
  shows "kinv h T k'"
proof (cases "Some t \<noteq> pxCurrentTCB k \<and> prvTaskIsTaskSuspended t k")
  case True
  then obtain k1 k2 c where s: "remove_item (StateItem t) k = Inr k1" "prvAddTaskToReadyList t k1 = Inr k2"
      "k' = (if uxPriority (tcb k2 t) \<ge> uxPriority (tcb k2 c) then portYIELD_WITHIN_API k2 else k2)"
    using assms(2) by (auto simp: vTaskResume_def rbind_Inr_iff)
  then show ?thesis using kinv_ready_again(1) [OF assms(1) s(1,2)] by simp
next
  case False
  then have "k' = k" using assms(2) by (simp add: vTaskResume_def split: if_splits)
  then show ?thesis using assms(1) by simp
qed

lemma kinv_xTaskResumeFromISR:
  assumes "kinv h T k" and "xTaskResumeFromISR t k = Inr (b, k')"
  shows "kinv h T k'"
proof (cases "prvTaskIsTaskSuspended t k")
  case True
  show ?thesis
  proof (cases "uxSchedulerSuspended k = 0")
    case 0: True
    then obtain c k0 k1 where s: "k0 = k \<or> k0 = k\<lparr>xYieldPending := True\<rparr>" "remove_item (StateItem t) k0 = Inr k1" "prvAddTaskToReadyList t k1 = Inr k'"
      using assms(2) True by (auto simp: xTaskResumeFromISR_def rbind_Inr_iff Let_def split: if_splits)
    have "kinv h T k0" using s(1) assms(1) by auto
    then show ?thesis by (rule kinv_ready_again(1) [OF _ s(2,3)])
  next
    case False
    have c: "container (EventItem t) k = None" "container (StateItem t) k = Some SuspendedTaskList" using True by (simp_all add: prvTaskIsTaskSuspended_def)
    then show ?thesis using False True assms(2) kinv_insert_end [OF assms(1), of PendingReadyList "EventItem t"] kinv_listed(1) [OF assms(1) c(2)]
      by (simp add: xTaskResumeFromISR_def)
  qed
next
  case False
  then show ?thesis using assms by (simp add: xTaskResumeFromISR_def)
qed

lemma optional_event_kinv:
  assumes "kinv h T k" and "(if container (EventItem t) k \<noteq> None then remove_item (EventItem t) k else Inr k) = Inr k'"
  shows "kinv h T k'" "lcontainer (klists k') = (lcontainer (klists k))(EventItem t := None)" "frame k k'"
  using assms kinv_remove [OF assms(1)] by (auto split: if_splits)

lemma kinv_xTaskAbortDelay:
  assumes "kinv h T k" and "xTaskAbortDelay t k = Inr (b, k')"
  shows "kinv h T k'"
proof -
  let ?k = "vTaskSuspendAll k"
  have i: "kinv h T ?k" using assms(1) by simp
  show ?thesis
  proof (cases "eTaskGetState t ?k = eBlocked")
    case False
    then show ?thesis using assms(2) kinv_xTaskResumeAll [OF i] by (auto simp: xTaskAbortDelay_def rbind_Inr_iff Let_def)
  next
    case True
    then obtain k1 k2 k3 c y where s: "remove_item (StateItem t) ?k = Inr k1"
        "(if container (EventItem t) k1 \<noteq> None then rbind (remove_item (EventItem t) k1) (\<lambda>k. Inr (set_tcb t (ucDelayAborted_update (\<lambda>_. True)) k)) else Inr k1) = Inr k2"
        "prvAddTaskToReadyList t k2 = Inr k3"
        "xTaskResumeAll (if uxPriority (tcb k3 t) > uxPriority (tcb k3 c) then k3\<lparr>xYieldPending := True\<rparr> else k3) = Inr (y, k')"
      using assms(2) by (auto simp: xTaskAbortDelay_def rbind_Inr_iff Let_def)
    note R = kinv_remove [OF i s(1)]
    have "kinv h T k2 \<and> container (StateItem t) k2 = None"
    proof (cases "container (EventItem t) k1 = None")
      case True
      then show ?thesis using s(2) R by simp
    next
      case False
      then obtain k0 where k0: "remove_item (EventItem t) k1 = Inr k0" "k2 = set_tcb t (ucDelayAborted_update (\<lambda>_. True)) k0"
        using s(2) by (auto simp: rbind_Inr_iff)
      note R0 = kinv_remove [OF R(1) k0(1)]
      show ?thesis using k0(2) R(3) R0(3) kinv_set_tcb_other [OF R0(1)] by simp
    qed
    then have "kinv h T k3" using kinv_add_ready(1) [OF _ s(3)] R(4) by auto
    then show ?thesis using kinv_xTaskResumeAll [OF _ s(4)] by simp
  qed
qed

subsection \<open>Suspension, deletion and priorities\<close>

lemma kinv_handle: "prvGetTCBFromHandle x k = Inr t \<Longrightarrow> x = None \<and> pxCurrentTCB k = Some t \<or> x = Some t"
  by (auto simp: prvGetTCBFromHandle_def current_def split: option.splits)

lemma kinv_leave:
  assumes "kinv h T k" and "remove_item (StateItem t) k = Inr k1"
    and "(if container (EventItem t) k1 \<noteq> None then remove_item (EventItem t) k1 else Inr k1) = Inr k2"
  shows "kinv h T k2" "frame k k2" "container (StateItem t) k2 = None" "t \<in> T"
proof -
  note R = kinv_remove [OF assms(1,2)]
  note O = optional_event_kinv [OF R(1) assms(3)]
  show "kinv h T k2" "frame k k2" "container (StateItem t) k2 = None" "t \<in> T"
    using O R(2-4) frame_trans [OF R(2) O(3)] by simp_all
qed

lemma kinv_vTaskSuspend:
  assumes "kinv h T k" and "vTaskSuspend x k = Inr k'" and "xSchedulerRunning k"
  shows "kinv h T k'"
proof -
  obtain t k1 k2 where s: "remove_item (StateItem t) k = Inr k1"
      "(if container (EventItem t) k1 \<noteq> None then remove_item (EventItem t) k1 else Inr k1) = Inr k2"
      and t: "prvGetTCBFromHandle x k = Inr t"
    using assms(2) by (auto simp: vTaskSuspend_def rbind_Inr_iff)
  note L = kinv_leave [OF assms(1) s]
  define k3 where "k3 = insert_end_item SuspendedTaskList (StateItem t) k2"
  define k4 where "k4 = (if ucNotifyState (tcb k3 t) = taskWAITING_NOTIFICATION
      then set_tcb t (ucNotifyState_update (\<lambda>_. taskNOT_WAITING_NOTIFICATION)) k3 else k3)"
  have i3: "kinv h T k3" unfolding k3_def using L by (intro kinv_insert_end) simp_all
  then have i4: "kinv h T k4" unfolding k4_def by (simp add: kinv_set_tcb_other)
  have r: "xSchedulerRunning k4" using frameD(12) [OF L(2)] assms(3) by (simp add: k3_def k4_def)
  have "k' = prvResetNextTaskUnblockTime k4 \<or> k' = portYIELD_WITHIN_API (prvResetNextTaskUnblockTime k4)"
  proof -
    have rr: "xSchedulerRunning (prvResetNextTaskUnblockTime k4)" using r by (simp add: prvResetNextTaskUnblockTime_def)
    from assms(2) s t r rr show ?thesis
      unfolding vTaskSuspend_def t rbind.simps(2) s(1) Let_def k3_def [symmetric] s(2) k4_def [symmetric]
      by (auto simp: c_assert_def split: if_splits)
  qed
  then show ?thesis using kinv_reset_next [OF i4] by auto
qed

lemma delete_traps: "prvDeleteTCB t k = Inl AssertFailed"
  by (simp add: prvDeleteTCB_def vPortFree_def c_assert_def)

lemma kinv_vTaskDelete:
  assumes "kinv h T k" and "vTaskDelete x k = Inr k'"
  shows "kinv h T k'"
proof -
  obtain t k1 k2 where s: "remove_item (StateItem t) k = Inr k1"
      "(if container (EventItem t) k1 \<noteq> None then remove_item (EventItem t) k1 else Inr k1) = Inr k2"
      and t: "prvGetTCBFromHandle x k = Inr t"
    using assms(2) by (auto simp: vTaskDelete_def rbind_Inr_iff)
  note L = kinv_leave [OF assms(1) s]
  let ?k = "insert_end_item TasksWaitingTermination (StateItem t) (k2\<lparr>uxTaskNumber := uxTaskNumber k2 + 1\<rparr>)"
  have i3: "kinv h T (?k\<lparr>uxDeletedTasksWaitingCleanUp := n\<rparr>)" for n
    using L by (simp, intro kinv_insert_end) simp_all
  have "\<exists>n. k' = ?k\<lparr>uxDeletedTasksWaitingCleanUp := n\<rparr> \<or> k' = portYIELD_WITHIN_API (?k\<lparr>uxDeletedTasksWaitingCleanUp := n\<rparr>)"
    using assms(2) unfolding vTaskDelete_def t rbind.simps(2) s(1) s(2) Let_def delete_traps
    by (auto simp: c_assert_def split: if_splits)
  then obtain n where "k' = ?k\<lparr>uxDeletedTasksWaitingCleanUp := n\<rparr> \<or> k' = portYIELD_WITHIN_API (?k\<lparr>uxDeletedTasksWaitingCleanUp := n\<rparr>)" by blast
  then show ?thesis using i3 [of n] by auto
qed

lemma kinv_prvIdleTask:
  assumes "kinv h T k" and "prvIdleTask k = Inr k'"
  shows "kinv h T k'"
proof -
  obtain k1 where k1: "termination_loop (uxDeletedTasksWaitingCleanUp k) k = Inr k1"
      "k' = (if length (items (ReadyTasks tskIDLE_PRIORITY) k1) > 1 then portYIELD_WITHIN_API k1 else k1)"
    using assms(2) by (auto simp: prvIdleTask_def prvCheckTasksWaitingTermination_def rbind_Inr_iff)
  have "k1 = k" using k1(1) by (cases "uxDeletedTasksWaitingCleanUp k") (auto simp: rbind_Inr_iff delete_traps)
  then show ?thesis using assms(1) k1(2) by simp
qed

lemma set_event_priority_tcb: "set_event_priority t p (set_tcb u f k) = set_tcb u f (set_event_priority t p k)"
  by (simp add: set_event_priority_def value_in_use_def set_item_value_def set_tcb_def)

lemma set_event_priority_fields [simp]:
  "tcb (set_event_priority t p k) = tcb k" "pxCurrentTCB (set_event_priority t p k) = pxCurrentTCB k"
  "lcontainer (klists (set_event_priority t p k)) = lcontainer (klists k)"
  by (simp_all add: set_event_priority_def)

lemma set_tcb_twice: "set_tcb t g (set_tcb t f k) = set_tcb t (\<lambda>x. g (f x)) k"
  by (simp add: set_tcb_def)

lemma kinv_vTaskPrioritySet:
  assumes "kinv h T k" and "vTaskPrioritySet x p k = Inr k'"
  shows "kinv h T k'"
proof -
  obtain t where t: "prvGetTCBFromHandle x k = Inr t" and p: "p < configMAX_PRIORITIES"
    using assms(2) by (auto simp: vTaskPrioritySet_def rbind_Inr_iff c_assert_def split: if_splits)
  show ?thesis
  proof (cases "uxBasePriority (tcb k t) = p")
    case True
    then show ?thesis using assms t p by (simp add: vTaskPrioritySet_def c_assert_def)
  next
    case False
    define f :: "TCB_t \<Rightarrow> TCB_t" where "f = (\<lambda>x. (if uxBasePriority (tcb k t) = uxPriority (tcb k t) then x\<lparr>uxPriority := p\<rparr> else x)\<lparr>uxBasePriority := p\<rparr>)"
    let ?k = "set_event_priority t p k"
    have eq: "set_event_priority t p (set_tcb t (uxBasePriority_update (\<lambda>_. p))
        (if uxBasePriority (tcb k t) = uxPriority (tcb k t) then set_tcb t (uxPriority_update (\<lambda>_. p)) k else k)) = set_tcb t f ?k"
      unfolding set_event_priority_tcb [symmetric] f_def by (simp add: set_tcb_twice)
    obtain y k1 where k1: "requeue_if_ready (uxPriority (tcb k t)) t (set_event_priority t p (set_tcb t (uxBasePriority_update (\<lambda>_. p))
        (if uxBasePriority (tcb k t) = uxPriority (tcb k t) then set_tcb t (uxPriority_update (\<lambda>_. p)) k else k))) = Inr k1"
        "k' = (if y then portYIELD_WITHIN_API k1 else k1)"
      using assms(2) t p False unfolding vTaskPrioritySet_def Let_def by (auto simp: rbind_Inr_iff)
    note k1 = k1(1) [unfolded eq] k1(2)
    have "uxPriority (tcb ?k t) < configMAX_PRIORITIES" using kinvD(5) [OF assms(1)] by (simp add: prios_ok_def)
    then have "kinv h T k1" using kinv_requeue(1) [OF kinv_set_event_priority [OF assms(1), of t p], of t f k1] k1(1) p by (simp add: f_def)
    then show ?thesis using k1(2) by simp
  qed
qed

lemma kinv_xTaskPriorityInherit:
  assumes "kinv h T k" and "xTaskPriorityInherit x k = Inr (b, k')"
  shows "kinv h T k'"
proof -
  consider "k' = k" | t c where "x = Some t" "pxCurrentTCB k = Some c"
    "requeue_if_ready (uxPriority (tcb k t)) t (set_tcb t (uxPriority_update (\<lambda>_. uxPriority (tcb k c))) (set_event_priority t (uxPriority (tcb k c)) k)) = Inr k'"
    using assms(2) by (auto simp: xTaskPriorityInherit_def current_Inr rbind_Inr_iff Let_def split: option.splits if_splits)
  then show ?thesis
  proof cases
    case 2
    have "uxPriority (tcb k c) < configMAX_PRIORITIES" "uxBasePriority (tcb k t) < configMAX_PRIORITIES"
      using kinvD(5) [OF assms(1)] by (simp_all add: prios_ok_def)
    then show ?thesis
      using kinv_requeue(1) [OF kinv_set_event_priority [OF assms(1), of t "uxPriority (tcb k c)"], of t "uxPriority_update (\<lambda>_. uxPriority (tcb k c))" k'] 2(3) by simp
  qed (use assms(1) in simp)
qed

lemma kinv_xTaskPriorityDisinherit:
  assumes "kinv h T k" and "xTaskPriorityDisinherit x k = Inr (b, k')"
  shows "kinv h T k'"
proof (cases x)
  case None
  then show ?thesis using assms by (simp add: xTaskPriorityDisinherit_def)
next
  case (Some t)
  let ?k = "set_tcb t (uxMutexesHeld_update (\<lambda>n. n - 1)) k"
  have i: "kinv h T ?k" by (rule kinv_set_tcb_other [OF assms(1)]) simp_all
  consider "k' = ?k" | k1 where "remove_item (StateItem t) ?k = Inr k1"
      "prvAddTaskToReadyList t (set_item_value (EventItem t) (priority_value (uxBasePriority (tcb k1 t)))
         (set_tcb t (uxPriority_update (\<lambda>_. uxBasePriority (tcb k1 t))) k1)) = Inr k'"
    using assms(2) Some by (auto simp: xTaskPriorityDisinherit_def rbind_Inr_iff Let_def split: if_splits)
  then show ?thesis
  proof cases
    case 2
    note R = kinv_remove [OF i 2(1)]
    let ?k1 = "set_tcb t (uxPriority_update (\<lambda>_. uxBasePriority (tcb k1 t))) k1"
    have "uxBasePriority (tcb k1 t) < configMAX_PRIORITIES" using kinvD(5) [OF R(1)] by (simp add: prios_ok_def)
    then have "kinv h T ?k1" using R(3) by (intro kinv_set_tcb [OF R(1)]) simp_all
    from kinv_add_ready(1) [OF kinv_set_event_value [OF this] 2(2)] show ?thesis using R(3,4) by simp
  qed (use i in simp)
qed

lemma kinv_vTaskPriorityDisinheritAfterTimeout:
  assumes "kinv h T k" and "vTaskPriorityDisinheritAfterTimeout x p k = Inr k'" and "p < configMAX_PRIORITIES"
  shows "kinv h T k'"
proof -
  consider "k' = k" | t q where "x = Some t" "q < configMAX_PRIORITIES"
    "requeue_if_ready (uxPriority (tcb k t)) t (set_tcb t (uxPriority_update (\<lambda>_. q)) (set_event_priority t q k)) = Inr k'"
  proof (cases x)
    case None
    then show thesis using that(1) assms(2) by (simp add: vTaskPriorityDisinheritAfterTimeout_def)
  next
    case (Some t)
    let ?q = "if uxBasePriority (tcb k t) < p then p else uxBasePriority (tcb k t)"
    have "?q < configMAX_PRIORITIES" using kinvD(5) [OF assms(1)] assms(3) by (simp add: prios_ok_def)
    moreover have "k' = k \<or> requeue_if_ready (uxPriority (tcb k t)) t (set_tcb t (uxPriority_update (\<lambda>_. ?q)) (set_event_priority t ?q k)) = Inr k'"
      using assms(2) Some unfolding vTaskPriorityDisinheritAfterTimeout_def Let_def set_event_priority_tcb by (auto simp: rbind_Inr_iff split: if_splits)
    ultimately show thesis using that Some by blast
  qed
  then show ?thesis
  proof cases
    case 2
    have "uxBasePriority (tcb k t) < configMAX_PRIORITIES" using kinvD(5) [OF assms(1)] by (simp add: prios_ok_def)
    then show ?thesis
      using kinv_requeue(1) [OF kinv_set_event_priority [OF assms(1), of t q], of t "uxPriority_update (\<lambda>_. q)" k'] 2(2,3) by simp
  qed (use assms(1) in simp)
qed

lemma kinv_pvTaskIncrementMutexHeldCount: "kinv h T k \<Longrightarrow> kinv h T (snd (pvTaskIncrementMutexHeldCount k))"
  by (auto simp: pvTaskIncrementMutexHeldCount_def kinv_set_tcb_other split: option.splits)

lemma kinv_xTaskCheckForTimeOut: "kinv h T k \<Longrightarrow> xTaskCheckForTimeOut to w k = Inr (b, to', w', k') \<Longrightarrow> kinv h T k'"
  by (auto simp: xTaskCheckForTimeOut_def rbind_Inr_iff Let_def kinv_set_tcb_other split: if_splits)

subsection \<open>Notifications\<close>

lemma kinv_notify_take_enter:
  assumes "kinv h T k" and "notify_take_enter n w k = Inr k'"
  shows "kinv h T k'"
proof -
  consider "k' = k" | t where "k' = set_tcb t (ucNotifyState_update (\<lambda>_. taskWAITING_NOTIFICATION)) k"
    | t k1 where "w > 0" "prvAddCurrentTaskToDelayedList w True (set_tcb t (ucNotifyState_update (\<lambda>_. taskWAITING_NOTIFICATION)) k) = Inr k1"
      "k' = portYIELD_WITHIN_API k1"
    using assms(2) by (auto simp: notify_take_enter_def rbind_Inr_iff Let_def split: if_splits)
  then show ?thesis
  proof cases
    case (3 t k1)
    have "kinv h T (set_tcb t (ucNotifyState_update (\<lambda>_. taskWAITING_NOTIFICATION)) k)" by (rule kinv_set_tcb_other [OF assms(1)]) simp_all
    from kinv_add_delayed [OF this 3(2,1)] show ?thesis using 3(3) by simp
  qed (use assms(1) in \<open>simp_all add: kinv_set_tcb_other\<close>)
qed

lemma kinv_notify_take_exit: "kinv h T k \<Longrightarrow> notify_take_exit b k = Inr (v, k') \<Longrightarrow> kinv h T k'"
  by (auto simp: notify_take_exit_def rbind_Inr_iff Let_def set_tcb_twice kinv_set_tcb_other split: if_splits)

lemma kinv_notify_wait_enter:
  assumes "kinv h T k" and "notify_wait_enter n v w k = Inr k'"
  shows "kinv h T k'"
proof -
  let ?f = "\<lambda>x. ucNotifyState_update (\<lambda>_. taskWAITING_NOTIFICATION) (ulNotifiedValue_update (\<lambda>x. x AND NOT v) x)"
  have i: "kinv h T (set_tcb t ?f k)" for t by (rule kinv_set_tcb_other [OF assms(1)]) simp_all
  have eq: "set_tcb t (ucNotifyState_update (\<lambda>_. taskWAITING_NOTIFICATION)) (set_tcb t (ulNotifiedValue_update (\<lambda>x. x AND NOT v)) k) = set_tcb t ?f k" for t
    by (rule set_tcb_twice)
  consider "k' = k" | t where "k' = set_tcb t ?f k"
    | t k1 where "w > 0" "prvAddCurrentTaskToDelayedList w True (set_tcb t ?f k) = Inr k1" "k' = portYIELD_WITHIN_API k1"
    using assms(2) by (auto simp: notify_wait_enter_def rbind_Inr_iff Let_def eq split: if_splits)
  then show ?thesis
  proof cases
    case (3 t k1)
    from kinv_add_delayed [OF i 3(2,1)] show ?thesis using 3(3) by simp
  qed (use assms(1) i in simp_all)
qed

lemma kinv_notify_wait_exit: "kinv h T k \<Longrightarrow> notify_wait_exit v k = Inr (b, w, k') \<Longrightarrow> kinv h T k'"
  by (auto simp: notify_wait_exit_def rbind_Inr_iff Let_def set_tcb_twice kinv_set_tcb_other split: if_splits)

lemma kinv_xTaskGenericNotify:
  assumes "kinv h T k" and "xTaskGenericNotify t n v a k = Inr (b, w, k')"
  shows "kinv h T k'"
proof -
  obtain r x where na: "notify_action a v (ucNotifyState (tcb k t)) (ulNotifiedValue (tcb k t)) = (r, x)" by fastforce
  define k1 where "k1 = set_tcb t (ulNotifiedValue_update (\<lambda>_. x)) (set_tcb t (ucNotifyState_update (\<lambda>_. taskNOTIFICATION_RECEIVED)) k)"
  have i: "kinv h T k1" unfolding k1_def set_tcb_twice by (rule kinv_set_tcb_other [OF assms(1)]) simp_all
  consider "k' = k1" | k2 k3 where "remove_item (StateItem t) k1 = Inr k2" "prvAddTaskToReadyList t k2 = Inr k3" "k' = k3 \<or> k' = portYIELD_WITHIN_API k3"
    using assms(2) unfolding xTaskGenericNotify_def Let_def na prod.case k1_def [symmetric]
    by (auto simp: rbind_Inr_iff split: if_splits)
  then show ?thesis
  proof cases
    case 2
    then show ?thesis using kinv_ready_again(1) [OF i 2(1,2)] by auto
  qed (use i in simp)
qed

lemma kinv_notify_wake:
  assumes "kinv h T k" and "notify_wake_from_isr t k = Inr (b, k')" and "t \<in> T"
  shows "kinv h T k'"
proof -
  obtain k1 where c: "container (EventItem t) k = None"
      and k1: "(if uxSchedulerSuspended k = 0 then rbind (remove_item (StateItem t) k) (prvAddTaskToReadyList t)
        else Inr (insert_end_item PendingReadyList (EventItem t) k)) = Inr k1" "k' = k1 \<or> k' = k1\<lparr>xYieldPending := True\<rparr>"
    using assms(2) by (auto simp: notify_wake_from_isr_def rbind_Inr_iff c_assert_def split: if_splits)
  have "kinv h T k1"
  proof (cases "uxSchedulerSuspended k = 0")
    case True
    then obtain k2 where "remove_item (StateItem t) k = Inr k2" "prvAddTaskToReadyList t k2 = Inr k1" using k1(1) by (auto simp: rbind_Inr_iff)
    then show ?thesis by (rule kinv_ready_again(1) [OF assms(1)])
  next
    case False
    then show ?thesis using k1(1) c assms(3) kinv_insert_end [OF assms(1), of PendingReadyList "EventItem t"] by simp
  qed
  then show ?thesis using k1(2) by auto
qed

lemma kinv_xTaskGenericNotifyFromISR:
  assumes "kinv h T k" and "xTaskGenericNotifyFromISR t n v a k = Inr (b, w, y, k')" and "t \<in> T"
  shows "kinv h T k'"
proof -
  obtain r x where na: "notify_action a v (ucNotifyState (tcb k t)) (ulNotifiedValue (tcb k t)) = (r, x)" by fastforce
  define k1 where "k1 = set_tcb t (ulNotifiedValue_update (\<lambda>_. x)) (set_tcb t (ucNotifyState_update (\<lambda>_. taskNOTIFICATION_RECEIVED)) k)"
  have i: "kinv h T k1" unfolding k1_def set_tcb_twice by (rule kinv_set_tcb_other [OF assms(1)]) simp_all
  have "k' = k1 \<or> (\<exists>z. notify_wake_from_isr t k1 = Inr (z, k'))"
    using assms(2) unfolding xTaskGenericNotifyFromISR_def Let_def na prod.case k1_def [symmetric]
    by (auto simp: rbind_Inr_iff split: if_splits)
  then show ?thesis using i kinv_notify_wake [OF i _ assms(3)] by blast
qed

lemma kinv_vTaskGenericNotifyGiveFromISR:
  assumes "kinv h T k" and "vTaskGenericNotifyGiveFromISR t n k = Inr (b, k')" and "t \<in> T"
  shows "kinv h T k'"
proof -
  define k1 where "k1 = set_tcb t (ulNotifiedValue_update (\<lambda>v. v + 1)) (set_tcb t (ucNotifyState_update (\<lambda>_. taskNOTIFICATION_RECEIVED)) k)"
  have i: "kinv h T k1" unfolding k1_def set_tcb_twice by (rule kinv_set_tcb_other [OF assms(1)]) simp_all
  have "k' = k1 \<or> (\<exists>z. notify_wake_from_isr t k1 = Inr (z, k'))"
    using assms(2) unfolding vTaskGenericNotifyGiveFromISR_def Let_def k1_def [symmetric] by (auto simp: rbind_Inr_iff split: if_splits)
  then show ?thesis using i kinv_notify_wake [OF i _ assms(3)] by blast
qed

lemma kinv_xTaskGenericNotifyStateClear: "kinv h T k \<Longrightarrow> xTaskGenericNotifyStateClear x n k = Inr (b, k') \<Longrightarrow> kinv h T k'"
  by (auto simp: xTaskGenericNotifyStateClear_def rbind_Inr_iff kinv_set_tcb_other split: if_splits)

lemma kinv_ulTaskGenericNotifyValueClear: "kinv h T k \<Longrightarrow> ulTaskGenericNotifyValueClear x n v k = Inr (w, k') \<Longrightarrow> kinv h T k'"
  by (auto simp: ulTaskGenericNotifyValueClear_def rbind_Inr_iff kinv_set_tcb_other split: if_splits)

subsection \<open>Creation and start\<close>

text \<open>Every task's control block lies below the heap's next free byte, so a new block is a new task.\<close>

definition alloc_ok :: "u32 \<Rightarrow> tid set \<Rightarrow> heap1 \<Rightarrow> bool" where
  "alloc_ok ucHeap T h \<longleftrightarrow> heap1_wf ucHeap h \<and> (\<forall>t\<in>T. t < heap1_base ucHeap + unat (xNextFreeByte h))"

lemma malloc_fresh:
  assumes "alloc_ok ucHeap T h" and "heap1_fits ucHeap" and "pvPortMalloc ucHeap n h = (Some a, h')"
  shows "alloc_ok ucHeap (insert (unat a) T) h'" "unat a \<notin> T"
proof -
  have wf: "heap1_wf ucHeap h" using assms(1) by (simp add: alloc_ok_def)
  note M = malloc_cases [OF wf assms(2,3)]
  have n: "0 < unat n \<and> unat (xNextFreeByte h) + round_up (unat n) < 8184" using M(3) by blast
  then have a: "unat a = heap1_base ucHeap + unat (xNextFreeByte h)" "unat (xNextFreeByte h') = unat (xNextFreeByte h) + round_up (unat n)"
    using M(2) by auto
  then show "unat a \<notin> T" using assms(1) by (auto simp: alloc_ok_def)
  have "0 < round_up (unat n)" using n round_up_bounds(1) [of "unat n"] by linarith
  then show "alloc_ok ucHeap (insert (unat a) T) h'" using a assms(1) M(1) by (fastforce simp: alloc_ok_def)
qed

lemma malloc_keeps:
  assumes "alloc_ok ucHeap T h" and "heap1_fits ucHeap" and "pvPortMalloc ucHeap n h = (r, h')"
  shows "alloc_ok ucHeap T h'"
proof -
  have wf: "heap1_wf ucHeap h" using assms(1) by (simp add: alloc_ok_def)
  note M = malloc_cases [OF wf assms(2,3)]
  have "unat (xNextFreeByte h) \<le> unat (xNextFreeByte h')"
    using M(2,3) by (cases "0 < unat n \<and> unat (xNextFreeByte h) + round_up (unat n) < 8184") auto
  then show ?thesis using assms(1) M(1) by (fastforce simp: alloc_ok_def)
qed

lemma kinv_heap: "kinv h T k \<Longrightarrow> kinv h' T (k\<lparr>heap := h'\<rparr>)"
  by (simp add: kinv_def sched_inv_def prios_ok_def listed_def)

lemma kinv_idle_handle: "kinv h T k \<Longrightarrow> kinv h T (k\<lparr>xIdleTaskHandle := t\<rparr>)"
  by (auto simp: kinv_def sched_inv_def base_inv_def typed_def ready_ok_def delayed_ok_def lists_ok_def future_def prios_ok_def listed_def)

lemma kinv_mono: "kinv h T k \<Longrightarrow> T \<subseteq> T' \<Longrightarrow> kinv h T' k"
  by (auto simp: kinv_def)

lemma kinv_set_current: "kinv h T k \<Longrightarrow> t \<in> T \<Longrightarrow> kinv h T (k\<lparr>pxCurrentTCB := Some t\<rparr>)"
  by (auto simp: kinv_def sched_inv_def prios_ok_def listed_def)

lemma init_item_same: "lcontainer A i = None \<Longrightarrow> list_initialise_item i A = A"
  by (simp add: list_initialise_item_def fun_upd_idem)

lemma kinv_prvInitialiseNewTask:
  assumes "kinv h T k" and "t \<notin> T" and "prvInitialiseNewTask nm st p t k = Inr k'"
  shows "kinv h (insert t T) k'" "container (StateItem t) k' = None" "pxCurrentTCB k' = pxCurrentTCB k" "uxPriority (tcb k' t) = p"
proof -
  note O = kinv_outside [OF assms(1,2)]
  have p: "p < configMAX_PRIORITIES" using assms(3) by (auto simp: prvInitialiseNewTask_def c_assert_def split: if_splits)
  define f :: "TCB_t \<Rightarrow> TCB_t" where "f = (\<lambda>_. \<lparr>uxPriority = p, pxStack = st,
               pcTaskName = take (configMAX_TASK_NAME_LEN - 1) nm, uxTCBNumber = 0, uxBasePriority = p,
               uxMutexesHeld = 0, ulNotifiedValue = 0, ucNotifyState = taskNOT_WAITING_NOTIFICATION, ucDelayAborted = False\<rparr>)"
  have sk: "(set_tcb t f k)\<lparr>klists := klists k\<rparr> = set_tcb t f k" by (simp add: set_tcb_def)
  have k': "k' = set_item_value (EventItem t) (priority_value p) (set_tcb t f k)"
    using assms(3) p O unfolding prvInitialiseNewTask_def Let_def f_def [symmetric] by (simp add: c_assert_def init_item_same sk)
  have "kinv h (insert t T) (set_tcb t f k)"
    using p O(1) kinv_mono [OF assms(1), of "insert t T"] by (intro kinv_set_tcb) (auto simp: f_def)
  then show "kinv h (insert t T) k'" unfolding k' by (rule kinv_set_event_value)
  show "container (StateItem t) k' = None" "pxCurrentTCB k' = pxCurrentTCB k" "uxPriority (tcb k' t) = p" using O(1) by (simp_all add: k' f_def)
qed

lemma kinv_prvAddNewTaskToReadyList:
  assumes "kinv h T k" and "t \<in> T" and "container (StateItem t) k = None" and "prvAddNewTaskToReadyList t k = Inr k'"
  shows "kinv h T k'"
proof -
  obtain c where c: "pxCurrentTCB k = Some c" using kinvD(6) [OF assms(1)] by blast
  define k1 where "k1 = (let k = k\<lparr>uxCurrentNumberOfTasks := uxCurrentNumberOfTasks k + 1\<rparr>
    in if \<not> xSchedulerRunning k \<and> uxPriority (tcb k c) \<le> uxPriority (tcb k t) then k\<lparr>pxCurrentTCB := Some t\<rparr> else k)"
  define k2 where "k2 = set_tcb t (uxTCBNumber_update (\<lambda>_. uxTaskNumber k1 + 1)) (k1\<lparr>uxTaskNumber := uxTaskNumber k1 + 1\<rparr>)"
  have "kinv h T k1" using assms(1,2) kinv_set_current [of h T "k\<lparr>uxCurrentNumberOfTasks := uxCurrentNumberOfTasks k + 1\<rparr>" t] by (simp add: k1_def Let_def)
  then have i2: "kinv h T k2" unfolding k2_def by (intro kinv_set_tcb_other) simp_all
  have c2: "container (StateItem t) k2 = None" using assms(3) by (simp add: k2_def k1_def Let_def)
  obtain k3 where k3: "prvAddTaskToReadyList t k2 = Inr k3" "k' = k3 \<or> k' = portYIELD_WITHIN_API k3"
    using assms(4) c by (auto simp: prvAddNewTaskToReadyList_def rbind_Inr_iff Let_def k2_def k1_def split: if_splits)
  then show ?thesis using kinv_add_ready(1) [OF i2 k3(1) c2 assms(2)] by auto
qed

lemma xTaskCreate_cases:
  assumes "xTaskCreate ucHeap nm d p k = Inr (r, k')"
  obtains h where "r = None" "k' = k\<lparr>heap := h\<rparr>" "pvPortMalloc ucHeap (ucast d * 4) (heap k) = (None, h)"
  | st a h1 h2 k1 where "r = Some (unat a)" "pvPortMalloc ucHeap (ucast d * 4) (heap k) = (Some st, h1)" "pvPortMalloc ucHeap sizeof_TCB_t h1 = (Some a, h2)"
    "prvInitialiseNewTask nm st p (unat a) (k\<lparr>heap := h2\<rparr>) = Inr k1" "prvAddNewTaskToReadyList (unat a) k1 = Inr k'"
  using assms by (auto simp: xTaskCreate_def vPortFree_def c_assert_def rbind_Inr_iff Let_def split: prod.splits option.splits)

lemma kinv_xTaskCreate:
  assumes "kinv (heap k) T k" and "alloc_ok ucHeap T (heap k)" and "heap1_fits ucHeap" and "xTaskCreate ucHeap nm d p k = Inr (r, k')"
  shows "kinv (heap k') (set_option r \<union> T) k' \<and> alloc_ok ucHeap (set_option r \<union> T) (heap k')"
  using assms(4)
proof (cases rule: xTaskCreate_cases)
  case (1 h)
  then show ?thesis using kinv_heap [OF assms(1)] malloc_keeps [OF assms(2,3) 1(3)] by simp
next
  case (2 st a h1 h2 k1)
  have a1: "alloc_ok ucHeap T h1" by (rule malloc_keeps [OF assms(2,3) 2(2)])
  note F = malloc_fresh [OF a1 assms(3) 2(3)]
  note N = kinv_prvInitialiseNewTask [OF kinv_heap [OF assms(1)] F(2) 2(4)]
  have "kinv h2 (insert (unat a) T) k'" using kinv_prvAddNewTaskToReadyList [OF N(1) _ N(2) 2(5)] by simp
  then show ?thesis using 2(1) F(1) kinvD(8) by auto
qed

lemma init_lists_fields:
  "litems (fold list_initialise ls A) l = (if l \<in> set ls then [] else litems A l)"
  "lindex (fold list_initialise ls A) l = (if l \<in> set ls then None else lindex A l)"
  "lcontainer (fold list_initialise ls A) = lcontainer A" "lvalue (fold list_initialise ls A) = lvalue A"
  by (induction ls arbitrary: A) (auto simp: list_initialise_def)

lemma init_task_lists_fields:
  "items l k = [] \<Longrightarrow> items l (prvInitialiseTaskLists k) = []" "lindex (klists k) l = None \<Longrightarrow> lindex (klists (prvInitialiseTaskLists k)) l = None"
  "lcontainer (klists (prvInitialiseTaskLists k)) = lcontainer (klists k)" "pxDelayedTaskList (prvInitialiseTaskLists k) = DelayedTaskList1"
  "pxOverflowDelayedTaskList (prvInitialiseTaskLists k) = DelayedTaskList2"
  "tcb (prvInitialiseTaskLists k) = tcb k" "pxCurrentTCB (prvInitialiseTaskLists k) = pxCurrentTCB k" "heap (prvInitialiseTaskLists k) = heap k"
  "uxTopReadyPriority (prvInitialiseTaskLists k) = uxTopReadyPriority k"
  by (auto simp: prvInitialiseTaskLists_def init_lists_fields list_initialise_def lists_ok_def split: if_splits)

lemma kinv_empty:
  assumes "\<And>l. items l k = []" and "\<And>l. lindex (klists k) l = None" and "\<And>i. container i k = None" and "prios_ok k"
    and "pxCurrentTCB k = Some t" and "lists_ok k" and "uxTopReadyPriority k < configMAX_PRIORITIES"
  shows "kinv (heap k) {t} k"
  using assms by (auto simp: kinv_def sched_inv_def base_inv_def typed_def lists_wf_def ready_ok_def delayed_ok_def future_def listed_def)

lemma kinv_first_task:
  assumes "heap1_fits ucHeap" and "xTaskCreate ucHeap nm d p (kernel_boot\<lparr>heap := h\<rparr>) = Inr (Some t, k)" and "heap1_wf ucHeap h"
  shows "kinv (heap k) {t} k \<and> alloc_ok ucHeap {t} (heap k)"
  using assms(2)
proof (cases rule: xTaskCreate_cases)
  case (2 st a h1 h2 k1)
  have t: "t = unat a" using 2(1) by simp
  have "alloc_ok ucHeap {} (heap (kernel_boot\<lparr>heap := h\<rparr>))" using assms(3) by (simp add: alloc_ok_def)
  then have "alloc_ok ucHeap {} h1" by (rule malloc_keeps [OF _ assms(1) 2(2)])
  note F = malloc_fresh [OF this assms(1) 2(3)]
  have p: "p < configMAX_PRIORITIES" using 2(4) by (auto simp: prvInitialiseNewTask_def c_assert_def split: if_splits)
  have k1: "items l k1 = []" "lindex (klists k1) l = None" "container i k1 = None" "prios_ok k1" "pxCurrentTCB k1 = None" "heap k1 = h2"
      "uxTopReadyPriority k1 = 0" "uxCurrentNumberOfTasks k1 = 0" for l i
    using 2(4) p by (auto simp: prvInitialiseNewTask_def c_assert_def Let_def kernel_boot_def list_initialise_item_def set_tcb_def set_item_value_def
      kernel_simps prios_ok_def configMAX_PRIORITIES_def tskIDLE_PRIORITY_def)
  define k2 where "k2 = prvInitialiseTaskLists (k1\<lparr>uxCurrentNumberOfTasks := 1, pxCurrentTCB := Some (unat a)\<rparr>)"
  define k3 where "k3 = set_tcb (unat a) (uxTCBNumber_update (\<lambda>_. uxTaskNumber k2 + 1)) (k2\<lparr>uxTaskNumber := uxTaskNumber k2 + 1\<rparr>)"
  obtain k4 where k4: "prvAddTaskToReadyList (unat a) k3 = Inr k4" "k = k4 \<or> k = portYIELD_WITHIN_API k4"
    using 2(5) k1(5,8) by (auto simp: prvAddNewTaskToReadyList_def rbind_Inr_iff Let_def k3_def k2_def split: if_splits)
  have "kinv (heap k3) {unat a} k3"
  proof (rule kinv_empty)
    show "items l k3 = []" for l using k1(1) by (simp add: k3_def k2_def init_task_lists_fields(1))
    show "lindex (klists k3) l = None" for l using k1(2) by (simp add: k3_def k2_def init_task_lists_fields(2))
  qed (use k1 in \<open>auto simp: k3_def k2_def init_task_lists_fields prios_ok_def lists_ok_def configMAX_PRIORITIES_def\<close>)
  then have "kinv (heap k3) {unat a} k4" using k1(3) by (intro kinv_add_ready(1) [OF _ k4(1)]) (auto simp: k3_def k2_def init_task_lists_fields)
  then have i: "kinv (heap k3) {unat a} k" using k4(2) by auto
  moreover have "heap k3 = h2" by (simp add: k3_def k2_def init_task_lists_fields k1(6) set_tcb_def)
  ultimately show ?thesis using t F(1) kinvD(8) [OF i] by simp
qed simp

lemma kinv_start_scheduler:
  assumes "kinv h T k" and "items DelayedTaskList1 k = []" and "items DelayedTaskList2 k = []"
  shows "kinv h T (start_scheduler k)"
proof -
  have "items (pxDelayedTaskList k) k = []" "items (pxOverflowDelayedTaskList k) k = []"
    using assms(2,3) lists_okD [OF base_invD(4) [OF kinvD(2) [OF assms(1)]]] by auto
  then show ?thesis using assms
    by (auto simp: start_scheduler_def kinv_def sched_inv_def base_inv_def typed_def ready_ok_def delayed_ok_def lists_ok_def future_def listed_def prios_ok_def)
qed

section \<open>The kernel as a state machine\<close>

text \<open>
  Every step the kernel can take: an interrupt, or a call that returns. The state carries the set of
  tasks created so far. The guards are what the code's callers respect: handles are those of created
  tasks, the functions that place the running task on an event list are given such a list and a time
  to wait while the task is on none, a task is suspended only while the scheduler runs, and no task is
  delayed before it starts.
\<close>

inductive kernel_call :: "tid set \<Rightarrow> kernel \<Rightarrow> kernel \<Rightarrow> bool" for T where
  tick: "xPortSysTickHandler k = Inr k' \<Longrightarrow> kernel_call T k k'"
| switch: "xPortPendSVHandler k = Inr k' \<Longrightarrow> kernel_call T k k'"
| suspend_all: "kernel_call T k (vTaskSuspendAll k)"
| resume_all: "xTaskResumeAll k = Inr (b, k') \<Longrightarrow> kernel_call T k k'"
| end_scheduler: "kernel_call T k (vTaskEndScheduler k)"
| missed_yield: "kernel_call T k (vTaskMissedYield k)"
| yield: "kernel_call T k (portYIELD_WITHIN_API k)"
| idle: "prvIdleTask k = Inr k' \<Longrightarrow> kernel_call T k k'"
| delete: "vTaskDelete x k = Inr k' \<Longrightarrow> kernel_call T k k'"
| delay: "vTaskDelay n k = Inr k' \<Longrightarrow> kernel_call T k k'"
| delay_until: "xTaskDelayUntil p n k = Inr (b, p', k') \<Longrightarrow> kernel_call T k k'"
| catch_up: "xTaskCatchUpTicks n k = Inr (b, k') \<Longrightarrow> kernel_call T k k'"
| priority_set: "vTaskPrioritySet x q k = Inr k' \<Longrightarrow> kernel_call T k k'"
| suspend: "vTaskSuspend x k = Inr k' \<Longrightarrow> xSchedulerRunning k \<Longrightarrow> kernel_call T k k'"
| resume: "vTaskResume t k = Inr k' \<Longrightarrow> kernel_call T k k'"
| resume_isr: "xTaskResumeFromISR t k = Inr (b, k') \<Longrightarrow> kernel_call T k k'"
| abort_delay: "xTaskAbortDelay t k = Inr (b, k') \<Longrightarrow> kernel_call T k k'"
| place: "vTaskPlaceOnEventList l w k = Inr k' \<Longrightarrow> event_list l \<Longrightarrow> running_free k \<Longrightarrow> w > 0 \<Longrightarrow> kernel_call T k k'"
| place_unordered: "vTaskPlaceOnUnorderedEventList l v w k = Inr k' \<Longrightarrow> event_list l \<Longrightarrow> running_free k \<Longrightarrow> w > 0 \<Longrightarrow> kernel_call T k k'"
| place_restricted: "vTaskPlaceOnEventListRestricted l w b k = Inr k' \<Longrightarrow> event_list l \<Longrightarrow> running_free k \<Longrightarrow> w > 0 \<or> b \<Longrightarrow> kernel_call T k k'"
| remove: "xTaskRemoveFromEventList l k = Inr (b, k') \<Longrightarrow> event_list l \<Longrightarrow> kernel_call T k k'"
| remove_unordered: "vTaskRemoveFromUnorderedEventList (EventItem t) v k = Inr k' \<Longrightarrow> kernel_call T k k'"
| check_timeout: "xTaskCheckForTimeOut to w k = Inr (b, to', w', k') \<Longrightarrow> kernel_call T k k'"
| inherit: "xTaskPriorityInherit x k = Inr (b, k') \<Longrightarrow> kernel_call T k k'"
| disinherit: "xTaskPriorityDisinherit x k = Inr (b, k') \<Longrightarrow> kernel_call T k k'"
| disinherit_timeout: "vTaskPriorityDisinheritAfterTimeout x q k = Inr k' \<Longrightarrow> q < configMAX_PRIORITIES \<Longrightarrow> kernel_call T k k'"
| mutex_held: "kernel_call T k (snd (pvTaskIncrementMutexHeldCount k))"
| reset_event_value: "uxTaskResetEventItemValue k = Inr (v, k') \<Longrightarrow> kernel_call T k k'"
| take_enter: "notify_take_enter n w k = Inr k' \<Longrightarrow> kernel_call T k k'"
| take_exit: "notify_take_exit b k = Inr (v, k') \<Longrightarrow> kernel_call T k k'"
| wait_enter: "notify_wait_enter n v w k = Inr k' \<Longrightarrow> kernel_call T k k'"
| wait_exit: "notify_wait_exit v k = Inr (b, w, k') \<Longrightarrow> kernel_call T k k'"
| notify: "xTaskGenericNotify t n v a k = Inr (b, w, k') \<Longrightarrow> kernel_call T k k'"
| notify_isr: "xTaskGenericNotifyFromISR t n v a k = Inr (b, w, y, k') \<Longrightarrow> t \<in> T \<Longrightarrow> kernel_call T k k'"
| give_isr: "vTaskGenericNotifyGiveFromISR t n k = Inr (b, k') \<Longrightarrow> t \<in> T \<Longrightarrow> kernel_call T k k'"
| state_clear: "xTaskGenericNotifyStateClear x n k = Inr (b, k') \<Longrightarrow> kernel_call T k k'"
| value_clear: "ulTaskGenericNotifyValueClear x n v k = Inr (w, k') \<Longrightarrow> kernel_call T k k'"

inductive kernel_step :: "u32 \<Rightarrow> tid set \<times> kernel \<Rightarrow> tid set \<times> kernel \<Rightarrow> bool" for ucHeap where
  create: "xTaskCreate ucHeap nm d p k = Inr (r, k') \<Longrightarrow> kernel_step ucHeap (T, k) (set_option r \<union> T, k')"
| start: "items DelayedTaskList1 k = [] \<Longrightarrow> items DelayedTaskList2 k = [] \<Longrightarrow> kernel_step ucHeap (T, k) (T, start_scheduler k)"
| idle_handle: "kernel_step ucHeap (T, k) (T, k\<lparr>xIdleTaskHandle := Some t\<rparr>)"
| malloc: "pvPortMalloc ucHeap n (heap k) = (r, h) \<Longrightarrow> kernel_step ucHeap (T, k) (T, k\<lparr>heap := h\<rparr>)"
| call: "kernel_call T k k' \<Longrightarrow> kernel_step ucHeap (T, k) (T, k')"

text \<open>
  The states the kernel can be in once the first task has been created after power-on. Queues and
  timers may take memory from the heap before that and at any time.
\<close>

inductive reachable :: "u32 \<Rightarrow> tid set \<times> kernel \<Rightarrow> bool" for ucHeap where
  first: "heap1_wf ucHeap h \<Longrightarrow> xTaskCreate ucHeap nm d p (kernel_boot\<lparr>heap := h\<rparr>) = Inr (Some t, k) \<Longrightarrow> reachable ucHeap ({t}, k)"
| later: "reachable ucHeap S \<Longrightarrow> kernel_step ucHeap S S' \<Longrightarrow> reachable ucHeap S'"

lemma kinv_uxTaskResetEventItemValue: "kinv h T k \<Longrightarrow> uxTaskResetEventItemValue k = Inr (v, k') \<Longrightarrow> kinv h T k'"
  by (auto simp: uxTaskResetEventItemValue_def rbind_Inr_iff kinv_set_event_value)

lemma kinv_tick: "kinv h T k \<Longrightarrow> xPortSysTickHandler k = Inr k' \<Longrightarrow> kinv h T k'"
  using kinv_xPortSysTickHandler [of h T k] by auto

lemma kinv_states: "kinv h T k \<Longrightarrow> kinv h T (vTaskSuspendAll k)" "kinv h T k \<Longrightarrow> kinv h T (vTaskEndScheduler k)"
  "kinv h T k \<Longrightarrow> kinv h T (vTaskMissedYield k)" "kinv h T k \<Longrightarrow> kinv h T (portYIELD_WITHIN_API k)"
  by (simp_all add: vTaskEndScheduler_def vTaskMissedYield_def)

lemmas kinv_calls = kinv_tick kinv_states kinv_pvTaskIncrementMutexHeldCount
  kinv_xPortPendSVHandler kinv_xTaskResumeAll kinv_prvIdleTask kinv_vTaskDelete kinv_vTaskDelay kinv_xTaskDelayUntil
  kinv_xTaskCatchUpTicks kinv_vTaskPrioritySet kinv_vTaskSuspend kinv_vTaskResume kinv_xTaskResumeFromISR kinv_xTaskAbortDelay
  kinv_vTaskPlaceOnEventList kinv_vTaskPlaceOnUnorderedEventList kinv_vTaskPlaceOnEventListRestricted
  kinv_xTaskRemoveFromEventList kinv_vTaskRemoveFromUnorderedEventList kinv_xTaskCheckForTimeOut kinv_xTaskPriorityInherit
  kinv_xTaskPriorityDisinherit kinv_vTaskPriorityDisinheritAfterTimeout kinv_uxTaskResetEventItemValue kinv_notify_take_enter
  kinv_notify_take_exit kinv_notify_wait_enter kinv_notify_wait_exit kinv_xTaskGenericNotify kinv_xTaskGenericNotifyFromISR
  kinv_vTaskGenericNotifyGiveFromISR kinv_xTaskGenericNotifyStateClear kinv_ulTaskGenericNotifyValueClear

lemma kernel_call_inv: "kernel_call T k k' \<Longrightarrow> kinv h T k \<Longrightarrow> kinv h T k'"
  by (erule kernel_call.cases; hypsubst) (rule kinv_calls; assumption)+

definition machine_inv :: "u32 \<Rightarrow> tid set \<times> kernel \<Rightarrow> bool" where
  "machine_inv ucHeap S \<longleftrightarrow> (case S of (T, k) \<Rightarrow> kinv (heap k) T k \<and> alloc_ok ucHeap T (heap k))"

lemma machine_inv_keep: "machine_inv ucHeap (T, k) \<Longrightarrow> kinv (heap k) T k' \<Longrightarrow> machine_inv ucHeap (T, k')"
  using kinvD(8) by (auto simp: machine_inv_def)

lemma kernel_step_inv:
  assumes "kernel_step ucHeap S S'" and "machine_inv ucHeap S" and "heap1_fits ucHeap"
  shows "machine_inv ucHeap S'"
  using assms(1)
proof cases
  case (create nm d p k r k' T)
  then show ?thesis using kinv_xTaskCreate [of k T ucHeap nm d p r k'] assms(2,3) by (simp add: machine_inv_def)
next
  case (start k T)
  have m: "machine_inv ucHeap (T, k)" using assms(2) start(1) by simp
  then have "kinv (heap k) T k" by (simp add: machine_inv_def)
  then show ?thesis unfolding start(2) by (intro machine_inv_keep [OF m] kinv_start_scheduler start(3,4))
next
  case (idle_handle T k t)
  then show ?thesis using assms(2) kinv_idle_handle by (simp add: machine_inv_def)
next
  case (malloc n k r h T)
  then show ?thesis using assms(2) kinv_heap [of "heap k" T k h] malloc_keeps [OF _ assms(3) malloc(3)] by (simp add: machine_inv_def)
next
  case (call T k k')
  have m: "machine_inv ucHeap (T, k)" using assms(2) call(1) by simp
  then have "kinv (heap k) T k" by (simp add: machine_inv_def)
  then show ?thesis unfolding call(2) by (intro machine_inv_keep [OF m] kernel_call_inv [OF call(3)])
qed

lemma reachable_inv: "reachable ucHeap S \<Longrightarrow> heap1_fits ucHeap \<Longrightarrow> machine_inv ucHeap S"
proof (induction rule: reachable.induct)
  case (first h nm d p t k)
  then show ?case using kinv_first_task by (simp add: machine_inv_def)
next
  case (later S S')
  then show ?case using kernel_step_inv by blast
qed


text \<open>
  C3. The kernel's data structures stay consistent: in every state it can reach from power-on, by
  allocating memory, by creating tasks, by interrupts and by any sequence of calls, the ready lists hold each ready task
  once and under its own priority, the delayed lists are sorted and hold only wake times that are
  still ahead, every item is in the list it says it is in, priorities are in range, some task is
  running, and the kernel refers only to tasks that were created. Moreover the timer interrupt is
  always served: no assertion fails and no loop runs on.
\<close>

theorem kernel_invariant:
  assumes "reachable ucHeap (T, k)" and "heap1_fits ucHeap"
  shows "kinv (heap k) T k \<and> (\<exists>k'. xPortSysTickHandler k = Inr k')"
  using reachable_inv [OF assms] kinv_xPortSysTickHandler [of "heap k" T k] by (auto simp: machine_inv_def)

text \<open>The firmware's first task: the heap is at the start of the board's memory.\<close>

lemma first_task_created:
  "\<exists>k. xTaskCreate 0x20400000 ''Demo'' 90 1 kernel_boot = Inr (Some 0x20400168, k) \<and> xSchedulerRunning k = False"
proof -
  have m: "pvPortMalloc 0x20400000 360 heap1_new = (Some 0x20400000, \<lparr>xNextFreeByte = 360, pucAlignedHeap = Some 0x20400000\<rparr>)"
    "pvPortMalloc 0x20400000 sizeof_TCB_t \<lparr>xNextFreeByte = 360, pucAlignedHeap = Some 0x20400000\<rparr> =
       (Some 0x20400168, \<lparr>xNextFreeByte = 448, pucAlignedHeap = Some 0x20400000\<rparr>)"
    by (simp_all add: pvPortMalloc_def heap1_new_def align_size_def reg_simps Let_def)
  show ?thesis
    by (simp add: xTaskCreate_def kernel_boot_def m prvInitialiseNewTask_def prvAddNewTaskToReadyList_def c_assert_def Let_def
      configMAX_PRIORITIES_def prvAddTaskToReadyList_eq current_def set_tcb_def prvInitialiseTaskLists_def set_item_value_def)
qed

lemma first_reachable:
  assumes "xTaskCreate 0x20400000 nm d p kernel_boot = Inr (Some t, k)"
  shows "reachable 0x20400000 ({t}, k)"
proof -
  have "kernel_boot\<lparr>heap := heap1_new\<rparr> = kernel_boot" by (simp add: kernel_boot_def)
  moreover have "heap1_wf 0x20400000 heap1_new" by (simp add: heap1_wf_def heap1_new_def)
  ultimately show ?thesis using assms by (metis reachable.first)
qed

theorem kernel_invariant_witness:
  "\<exists>k. xTaskCreate 0x20400000 ''Demo'' 90 1 kernel_boot = Inr (Some 0x20400168, k) \<and> reachable 0x20400000 ({0x20400168}, k) \<and>
     kinv (heap k) {0x20400168} k"
proof -
  obtain k where k: "xTaskCreate 0x20400000 ''Demo'' 90 1 kernel_boot = Inr (Some 0x20400168, k)" using first_task_created by blast
  then have "reachable 0x20400000 ({0x20400168}, k)" by (rule first_reachable)
  moreover have "heap1_fits 0x20400000" by (simp add: heap1_fits_def)
  ultimately show ?thesis using kernel_invariant k by blast
qed

section \<open>Where the calls do not do what they say\<close>

text \<open>
  C35. \<^verbatim>\<open>vTaskResume\<close> ends a wait it should not end: a task that waits without time limit for a
  notification is reported as blocked, not as suspended; resuming it nevertheless makes it ready,
  with no notification received and its notification state still that of a waiting task.
\<close>

theorem resume_ends_notification_wait:
  assumes "kinv h T k" and "pxCurrentTCB k \<noteq> Some t" and "eTaskGetState t k = eBlocked"
    and "container (StateItem t) k = Some SuspendedTaskList" and "container (EventItem t) k = None"
  shows "\<exists>k'. vTaskResume t k = Inr k' \<and> container (StateItem t) k' = Some (ReadyTasks (uxPriority (tcb k t))) \<and>
    eTaskGetState t k' = eReady \<and> ucNotifyState (tcb k' t) = taskWAITING_NOTIFICATION \<and> tcb k' = tcb k"
proof -
  note I = kinvD [OF assms(1)]
  have L: "pxDelayedTaskList k \<in> {DelayedTaskList1, DelayedTaskList2}" "pxOverflowDelayedTaskList k \<in> {DelayedTaskList1, DelayedTaskList2}"
    using lists_okD [OF base_invD(4) [OF I(2)]] by auto
  have w: "ucNotifyState (tcb k t) = taskWAITING_NOTIFICATION"
    using assms(2-5) L by (auto simp: eTaskGetState_def split: if_splits)
  obtain c where c: "pxCurrentTCB k = Some c" using I(6) by blast
  obtain k1 where k1: "remove_item (StateItem t) k = Inr k1" using remove_item_ok assms(4) by fastforce
  note R = kinv_remove [OF assms(1) k1]
  obtain k2 where k2: "prvAddTaskToReadyList t k1 = Inr k2" using add_ready_ok [of k1 t] kinvD(5) [OF R(1)] by (auto simp: prios_ok_def)
  note A = kinv_ready_again [OF assms(1) k1 k2]
  note F = frameD [OF A(2)]
  let ?k' = "if uxPriority (tcb k2 t) \<ge> uxPriority (tcb k2 c) then portYIELD_WITHIN_API k2 else k2"
  have "vTaskResume t k = Inr ?k'"
    using assms(2,4,5) c k1 k2 F(6) by (simp add: vTaskResume_def prvTaskIsTaskSuspended_def current_def)
  moreover have "container (StateItem t) ?k' = Some (ReadyTasks (uxPriority (tcb k t)))" "tcb ?k' = tcb k"
    using A(3) F(2) by (simp_all add: portYIELD_WITHIN_API_def)
  moreover have "eTaskGetState t ?k' = eReady" using A(3) F(4-6) L assms(2) by (auto simp: eTaskGetState_def portYIELD_WITHIN_API_def)
  ultimately show ?thesis using w by metis
qed

text \<open>Task 1 of the example system waits for a notification, and task 2 runs.\<close>

definition example_waiting :: kernel where
  "example_waiting = (example_kernel 0)\<lparr>pxCurrentTCB := Some 2,
     klists := \<lparr>litems = (\<lambda>l. if l = ReadyTasks 0 then [StateItem 0] else if l = ReadyTasks 3 then [StateItem 2] else
                          if l = SuspendedTaskList then [StateItem 1] else []),
               lindex = (\<lambda>l. None), lvalue = (\<lambda>i. 0),
               lcontainer = (\<lambda>i. if i = StateItem 0 then Some (ReadyTasks 0) else if i = StateItem 2 then Some (ReadyTasks 3) else
                              if i = StateItem 1 then Some SuspendedTaskList else None)\<rparr>,
     tcb := (tcb (example_kernel 0))(1 := (example_tcb 3)\<lparr>ucNotifyState := taskWAITING_NOTIFICATION\<rparr>)\<rparr>"

theorem resume_ends_notification_wait_witness:
  "\<exists>k'. eTaskGetState 1 example_waiting = eBlocked \<and> vTaskResume 1 example_waiting = Inr k' \<and> eTaskGetState 1 k' = eReady"
proof -
  have "kinv (heap example_waiting) {0, 1, 2} example_waiting"
    by (auto simp: kinv_def sched_inv_def base_inv_def typed_def lists_wf_def ready_ok_def delayed_ok_def lists_ok_def future_def prios_ok_def listed_def
      example_waiting_def example_kernel_def example_tcb_def configMAX_PRIORITIES_def split: if_splits)
  moreover have "eTaskGetState 1 example_waiting = eBlocked"
    by (simp add: eTaskGetState_def example_waiting_def example_kernel_def)
  moreover have "pxCurrentTCB example_waiting \<noteq> Some 1" "container (StateItem 1) example_waiting = Some SuspendedTaskList"
    "container (EventItem 1) example_waiting = None" by (simp_all add: example_waiting_def)
  ultimately show ?thesis using resume_ends_notification_wait [of _ "{0, 1, 2}" example_waiting 1] by blast
qed

text \<open>
  The allocator cannot give memory back: deleting a task other than the running one, and creating a
  task whose control block no longer fits, fail an assertion.
\<close>

lemma delete_other_asserts:
  assumes "kinv h T k" and "pxCurrentTCB k \<noteq> Some t" and "container (StateItem t) k \<noteq> None"
  shows "vTaskDelete (Some t) k = Inl AssertFailed"
proof -
  obtain k1 where k1: "remove_item (StateItem t) k = Inr k1" using remove_item_ok [OF assms(3)] by blast
  note R = kinv_remove [OF assms(1) k1]
  obtain k2 where k2: "(if container (EventItem t) k1 \<noteq> None then remove_item (EventItem t) k1 else Inr k1) = Inr k2" "frame k1 k2"
    using optional_remove [OF kinvD(2) [OF R(1)], of "EventItem t"] by (elim exE conjE)
  have "pxCurrentTCB k2 = pxCurrentTCB k" using frameD(6) [OF k2(2)] frameD(6) [OF R(2)] by simp
  then show ?thesis using assms(2) unfolding vTaskDelete_def prvGetTCBFromHandle_def option.case rbind.simps k1 k2(1) Let_def
    by (auto simp: delete_traps)
qed

lemma create_asserts:
  assumes "pvPortMalloc ucHeap (ucast d * 4) (heap k) = (Some st, h1)" and "pvPortMalloc ucHeap sizeof_TCB_t h1 = (None, h2)"
  shows "xTaskCreate ucHeap nm d p k = Inl AssertFailed"
  using assms by (simp add: xTaskCreate_def vPortFree_def c_assert_def)

end
