(* ===== verification/FreeRTOS_Queue_Correct.thy ===== *)
theory FreeRTOS_Queue_Correct
  imports FreeRTOS_Queue FreeRTOS_Tasks_Invariant
begin

text \<open>
  Correctness of queues, semaphores and mutexes: the ring buffer is a bounded double-ended queue of
  items, waiting tasks are woken in order of priority and none is forgotten while a queue is locked,
  and a task that holds a mutex inherits the priority of those it keeps waiting.
\<close>

section \<open>The ring buffer\<close>

text \<open>The item at a position of the storage, and what it means that a queue holds given items, oldest first.\<close>

definition slot :: "Queue_t \<Rightarrow> nat \<Rightarrow> u8 list" where
  "slot Q i = take (uxItemSize Q) (drop (i * uxItemSize Q) (storage Q))"

definition holds :: "Queue_t \<Rightarrow> u8 list list \<Rightarrow> bool" where
  "holds Q xs \<longleftrightarrow> 0 < uxItemSize Q \<and> length (storage Q) = uxLength Q * uxItemSize Q \<and> pcTail Q = uxLength Q * uxItemSize Q \<and>
     uxMessagesWaiting Q = length xs \<and> length xs \<le> uxLength Q \<and>
     (\<exists>r<uxLength Q. pcReadFrom Q = r * uxItemSize Q \<and> pcWriteTo Q = (r + 1 + length xs) mod uxLength Q * uxItemSize Q \<and>
        (\<forall>j<length xs. slot Q ((r + 1 + j) mod uxLength Q) = xs ! j))"

lemma mod_distinct: "j < n \<Longrightarrow> n < L \<Longrightarrow> (a + j) mod L \<noteq> (a + n) mod L" for a j n L :: nat
proof
  assume a: "j < n" "n < L" "(a + j) mod L = (a + n) mod L"
  then have "L dvd (a + n) - (a + j)" by (intro mod_eq_dvd_iff_nat [THEN iffD1]) simp_all
  then show False using a(1,2) by (auto dest: dvd_imp_le)
qed

lemma slot_bound: "i < L \<Longrightarrow> i * m + m \<le> L * m" for i L m :: nat
  using mult_le_mono1 [of "i + 1" L m] by (simp add: algebra_simps)

lemma slot_write:
  assumes "length (storage Q) = L * uxItemSize Q" and "i < L" and "length d = uxItemSize Q"
  shows "\<exists>m. mem_write (storage Q) (i * uxItemSize Q) d = Inr m \<and> length m = L * uxItemSize Q \<and>
    (\<forall>Q'. storage Q' = m \<and> uxItemSize Q' = uxItemSize Q \<longrightarrow> (\<forall>j<L. slot Q' j = (if j = i then d else slot Q j)))"
proof -
  let ?s = "uxItemSize Q"
  have "i * ?s + length d \<le> length (storage Q)" using slot_bound [OF assms(2)] assms(1,3) by simp
  then obtain m where m: "mem_write (storage Q) (i * ?s) d = Inr m" "length m = length (storage Q)"
      "\<And>k. k < length (storage Q) \<Longrightarrow> m ! k = (if i * ?s \<le> k \<and> k < i * ?s + length d then d ! (k - i * ?s) else storage Q ! k)"
    by (rule mem_write_Inr) blast
  have "slot Q' j = (if j = i then d else slot Q j)" if Q': "storage Q' = m" "uxItemSize Q' = ?s" and j: "j < L" for Q' j
  proof (rule nth_equalityI)
    have b: "j * ?s + ?s \<le> length (storage Q)" using slot_bound [OF j] assms(1) by simp
    then show "length (slot Q' j) = length (if j = i then d else slot Q j)" using Q' m(2) assms(3) by (simp add: slot_def)
    fix k assume "k < length (slot Q' j)"
    then have k: "k < ?s" using Q' by (simp add: slot_def)
    have "j = i" if "i * ?s \<le> j * ?s + k" "j * ?s + k < i * ?s + length d"
    proof -
      have "(j * ?s + k) div ?s = j" using k by simp
      moreover have "(j * ?s + k) div ?s = i" using that assms(3) by (intro div_nat_eqI) (simp_all add: mult.commute)
      ultimately show ?thesis by simp
    qed
    then show "slot Q' j ! k = (if j = i then d else slot Q j) ! k"
      using Q' b k m(2) m(3) [of "j * ?s + k"] assms(3) by (auto simp: slot_def)
  qed
  then show ?thesis using m(1,2) assms(1) by auto
qed

lemma holds_send_back:
  assumes "holds Q xs" and "length xs < uxLength Q" and "length d = uxItemSize Q"
  shows "\<exists>Q'. copy_to_storage (Some d) queueSEND_TO_BACK Q = Inr Q' \<and> holds (Q'\<lparr>uxMessagesWaiting := length xs + 1\<rparr>) (xs @ [d]) \<and>
    Q' = Q\<lparr>storage := storage Q', pcWriteTo := pcWriteTo Q'\<rparr>"
proof -
  let ?L = "uxLength Q" and ?m = "uxItemSize Q" and ?n = "length xs"
  obtain r where r: "r < ?L" "pcReadFrom Q = r * ?m" "pcWriteTo Q = (r + 1 + ?n) mod ?L * ?m" "\<forall>j<?n. slot Q ((r + 1 + j) mod ?L) = xs ! j"
    and q: "0 < ?m" "length (storage Q) = ?L * ?m" "pcTail Q = ?L * ?m" using assms(1) by (auto simp: holds_def)
  let ?w = "(r + 1 + ?n) mod ?L"
  have w: "?w < ?L" using r(1) by (intro mod_less_divisor) simp
  obtain m where m: "mem_write (storage Q) (?w * ?m) d = Inr m" "length m = ?L * ?m"
      "\<forall>Q'. storage Q' = m \<and> uxItemSize Q' = ?m \<longrightarrow> (\<forall>j<?L. slot Q' j = (if j = ?w then d else slot Q j))"
    using slot_write [OF q(2) w assms(3)] by blast
  have nw: "(if ?w * ?m + ?m \<ge> ?L * ?m then 0 else ?w * ?m + ?m) = (r + 1 + (?n + 1)) mod ?L * ?m"
  proof (cases "?w + 1 = ?L")
    case True
    then have "(r + 1 + (?n + 1)) mod ?L = 0" using mod_Suc [of "r + 1 + ?n" ?L] by simp
    moreover have "?w * ?m + ?m = ?L * ?m" using True by (metis mult_Suc add.commute Suc_eq_plus1)
    ultimately show ?thesis by simp
  next
    case False
    then have "(r + 1 + (?n + 1)) mod ?L = ?w + 1" using mod_Suc [of "r + 1 + ?n" ?L] by simp
    moreover have "?w * ?m + ?m < ?L * ?m" using False w q(1) slot_bound [of "?w + 1" ?L ?m] by simp
    ultimately show ?thesis by simp
  qed
  define Q' where "Q' = Q\<lparr>storage := m, pcWriteTo := (r + 1 + (?n + 1)) mod ?L * ?m\<rparr>"
  have "copy_to_storage (Some d) queueSEND_TO_BACK Q = Inr Q'"
    using m(1) r(3) q(3) assms(3) nw by (simp add: copy_to_storage_def Q'_def Let_def split: if_splits)
  moreover have "slot (Q'\<lparr>uxMessagesWaiting := v\<rparr>) ((r + 1 + j) mod ?L) = (xs @ [d]) ! j" if "j < ?n + 1" for j v
  proof -
    have s: "slot (Q'\<lparr>uxMessagesWaiting := v\<rparr>) i = (if i = ?w then d else slot Q i)" if "i < ?L" for i
      using m(3) that by (simp add: Q'_def)
    have b: "(r + 1 + j) mod ?L < ?L" using r(1) by (intro mod_less_divisor) simp
    show ?thesis
    proof (cases "j = ?n")
      case True
      then show ?thesis using s [OF b] by simp
    next
      case False
      then show ?thesis using s [OF b] that r(4) mod_distinct [of j ?n ?L "r + 1"] assms(2) by (simp add: nth_append)
    qed
  qed
  ultimately show ?thesis using r(1,2) q m(2) assms(2) unfolding holds_def by (auto simp: Q'_def)
qed

lemma holds_send_front:
  assumes "holds Q xs" and "length xs < uxLength Q" and "length d = uxItemSize Q" and "pos \<noteq> queueSEND_TO_BACK"
  shows "\<exists>Q'. copy_to_storage (Some d) pos Q = Inr Q' \<and> holds (Q'\<lparr>uxMessagesWaiting := length xs + 1\<rparr>) (d # xs) \<and>
    Q' = Q\<lparr>storage := storage Q', pcReadFrom := pcReadFrom Q'\<rparr>"
proof -
  let ?L = "uxLength Q" and ?m = "uxItemSize Q" and ?n = "length xs"
  obtain r where r: "r < ?L" "pcReadFrom Q = r * ?m" "pcWriteTo Q = (r + 1 + ?n) mod ?L * ?m" "\<forall>j<?n. slot Q ((r + 1 + j) mod ?L) = xs ! j"
    and q: "0 < ?m" "length (storage Q) = ?L * ?m" "pcTail Q = ?L * ?m" using assms(1) by (auto simp: holds_def)
  obtain m where m: "mem_write (storage Q) (r * ?m) d = Inr m" "length m = ?L * ?m"
      "\<forall>Q'. storage Q' = m \<and> uxItemSize Q' = ?m \<longrightarrow> (\<forall>j<?L. slot Q' j = (if j = r then d else slot Q j))"
    using slot_write [OF q(2) r(1) assms(3)] by blast
  let ?r = "if r = 0 then ?L - 1 else r - 1"
  have rr: "?r < ?L" "(?r + 1) mod ?L = r" "(?r + 1 + (j + 1)) mod ?L = (r + 1 + j) mod ?L" for j
    using r(1) mod_add_self1 [of ?L "j + 1"] by (auto simp: add.assoc)
  define Q' where "Q' = Q\<lparr>storage := m, pcReadFrom := ?r * ?m\<rparr>"
  have "r * ?m < ?m \<longleftrightarrow> r = 0" using q(1) by (cases r) auto
  then have "copy_to_storage (Some d) pos Q = Inr Q'"
    using m(1) r(2) q(3) assms(3,4) by (simp add: copy_to_storage_def Q'_def Let_def diff_mult_distrib)
  moreover have "slot (Q'\<lparr>uxMessagesWaiting := v\<rparr>) ((?r + 1 + j) mod ?L) = (d # xs) ! j" if "j < ?n + 1" for j v
  proof -
    have s: "slot (Q'\<lparr>uxMessagesWaiting := v\<rparr>) i = (if i = r then d else slot Q i)" if "i < ?L" for i
      using m(3) that by (simp add: Q'_def)
    show ?thesis
    proof (cases j)
      case 0
      then show ?thesis using s [OF r(1)] rr(2) by simp
    next
      case (Suc i)
      then have i: "i < ?n" using that by simp
      have b: "(r + 1 + i) mod ?L < ?L" using r(1) by (intro mod_less_divisor) simp
      have "(r + 1 + i) mod ?L \<noteq> r" using mod_distinct [of 0 "1 + i" ?L r] i assms(2) r(1) by (simp add: add.assoc)
      then show ?thesis using s [OF b] rr(3) [of i] r(4) i Suc by simp
    qed
  qed
  moreover have "(?r + 1 + (?n + 1)) mod ?L = (r + 1 + ?n) mod ?L" by (rule rr(3))
  ultimately show ?thesis using rr(1) r(3) q m(2) assms(2) unfolding holds_def by (auto simp: Q'_def)
qed

lemma copy_messages:
  "copy_to_storage d pos (Q\<lparr>uxMessagesWaiting := v\<rparr>) = rbind (copy_to_storage d pos Q) (\<lambda>Q. Inr (Q\<lparr>uxMessagesWaiting := v\<rparr>))"
proof (cases d)
  case (Some x)
  obtain m where "mem_read x 0 (uxItemSize Q) = m" by blast
  then show ?thesis using Some
    by (cases m; cases "mem_write (storage Q) (pcWriteTo Q) (projr m)"; cases "mem_write (storage Q) (pcReadFrom Q) (projr m)")
      (simp_all add: copy_to_storage_def Let_def)
qed (simp add: copy_to_storage_def)

lemma holds_overwrite:
  assumes "holds Q xs" and "uxLength Q = 1" and "length d = uxItemSize Q"
  shows "\<exists>Q'. copy_to_storage (Some d) queueOVERWRITE Q = Inr Q' \<and> holds (Q'\<lparr>uxMessagesWaiting := 1\<rparr>) [d] \<and>
    Q' = Q\<lparr>storage := storage Q', pcReadFrom := pcReadFrom Q'\<rparr>"
proof -
  let ?Q = "Q\<lparr>uxMessagesWaiting := 0\<rparr>"
  have "holds ?Q []" using assms(1,2) by (auto simp: holds_def)
  then obtain Q1 where Q1: "copy_to_storage (Some d) queueOVERWRITE ?Q = Inr Q1" "holds (Q1\<lparr>uxMessagesWaiting := 1\<rparr>) [d]"
      "Q1 = ?Q\<lparr>storage := storage Q1, pcReadFrom := pcReadFrom Q1\<rparr>"
    using holds_send_front [of ?Q "[]" d queueOVERWRITE] assms(2,3) by auto
  then obtain Q' where Q': "copy_to_storage (Some d) queueOVERWRITE Q = Inr Q'" "Q1 = Q'\<lparr>uxMessagesWaiting := 0\<rparr>"
    unfolding copy_messages by (auto simp: rbind_Inr_iff)
  have "Q' = Q\<lparr>storage := storage Q', pcReadFrom := pcReadFrom Q'\<rparr>"
    using Q'(1) assms(3) by (cases "mem_write (storage Q) (pcReadFrom Q) d") (auto simp: copy_to_storage_def Let_def)
  then show ?thesis using Q' Q1(2) by simp
qed

lemma holds_receive:
  assumes "holds Q (x # xs)"
  shows "\<exists>Q'. copy_from_storage Q = Inr (x, Q') \<and> holds (Q'\<lparr>uxMessagesWaiting := length xs\<rparr>) xs \<and> Q' = Q\<lparr>pcReadFrom := pcReadFrom Q'\<rparr>"
proof -
  let ?L = "uxLength Q" and ?m = "uxItemSize Q" and ?n = "length xs"
  obtain r where r: "r < ?L" "pcReadFrom Q = r * ?m" "pcWriteTo Q = (r + 1 + (?n + 1)) mod ?L * ?m"
      "\<forall>j<?n + 1. slot Q ((r + 1 + j) mod ?L) = (x # xs) ! j"
    and q: "0 < ?m" "length (storage Q) = ?L * ?m" "pcTail Q = ?L * ?m" "?n < ?L" using assms by (auto simp: holds_def)
  let ?r = "(r + 1) mod ?L"
  have rr: "?r < ?L" using r(1) by (intro mod_less_divisor) simp
  have nr: "(if r * ?m + ?m \<ge> ?L * ?m then 0 else r * ?m + ?m) = ?r * ?m"
  proof (cases "r + 1 = ?L")
    case True
    then have "r * ?m + ?m = ?L * ?m" by (metis mult_Suc add.commute Suc_eq_plus1)
    then show ?thesis using True by simp
  next
    case False
    moreover have "r * ?m + ?m < ?L * ?m" using False r(1) q(1) slot_bound [of "r + 1" ?L ?m] by simp
    ultimately show ?thesis using r(1) by simp
  qed
  have "slot Q ?r = x" using r(4) by force
  moreover have "?r * ?m + ?m \<le> length (storage Q)" using slot_bound [OF rr] q(2) by simp
  ultimately have "mem_read (storage Q) (?r * ?m) ?m = Inr x" by (simp add: slot_def)
  then have "copy_from_storage Q = Inr (x, Q\<lparr>pcReadFrom := ?r * ?m\<rparr>)"
    using r(2) q(3) nr by (simp add: copy_from_storage_def Let_def split: if_splits)
  moreover have "(?r + 1 + j) mod ?L = (r + 1 + (j + 1)) mod ?L" for j
    using mod_add_left_eq [of "r + 1" ?L "1 + j"] by (simp add: ac_simps)
  moreover have "slot (Q\<lparr>pcReadFrom := p, uxMessagesWaiting := v\<rparr>) i = slot Q i" for p v i by (simp add: slot_def)
  moreover have "slot Q ((r + 1 + (j + 1)) mod ?L) = xs ! j" if "j < ?n" for j using r(4) that by (auto dest: spec [of _ "j + 1"])
  ultimately show ?thesis using rr r(3) q
    by (intro exI [of _ "Q\<lparr>pcReadFrom := ?r * ?m\<rparr>"]) (auto simp: holds_def intro!: exI [of _ ?r])
qed

section \<open>Waking waiting tasks\<close>

text \<open>A task that waits for an event has its state item in a list, from where it can be made ready.\<close>

definition event_wait_ok :: "kernel \<Rightarrow> bool" where
  "event_wait_ok k \<longleftrightarrow> (\<forall>t. container (EventItem t) k \<noteq> None \<longrightarrow> container (StateItem t) k \<noteq> None)"

lemma remove_item_items:
  assumes "typed k" and "remove_item i k = Inr k'"
  shows "items l k' = remove1 i (items l k)"
proof -
  obtain l0 where l0: "container i k = Some l0" "k' = k\<lparr>klists := klists k\<lparr>litems := (litems (klists k))(l0 := remove1 i (items l0 k)),
      lindex := (lindex (klists k))(l0 := if lindex (klists k) l0 = Some i then pred_in (items l0 k) i else lindex (klists k) l0),
      lcontainer := (lcontainer (klists k))(i := None)\<rparr>\<rparr>"
    using assms(2) by (auto simp: remove_item_def rbind_Inr_iff list_remove_def split: option.splits)
  show ?thesis
  proof (cases "l = l0")
    case False
    then have "i \<notin> set (items l k)" using typedD(3) [OF assms(1), of i l] l0(1) by auto
    then show ?thesis using False l0(2) by (simp add: remove1_idem)
  qed (simp add: l0(2))
qed

lemma insert_end_items: "l' \<noteq> l \<Longrightarrow> items l' (insert_end_item l i k) = items l' k"
  by simp

lemma event_items_distinct: "event_list l \<Longrightarrow> l \<noteq> PendingReadyList" "event_list l \<Longrightarrow> l \<noteq> ReadyTasks p"
  by (auto simp: event_list_def)

definition woken_head :: "list_id \<Rightarrow> tid \<Rightarrow> kernel \<Rightarrow> kernel \<Rightarrow> bool" where
  "woken_head l t k k' \<longleftrightarrow> tcb k' = tcb k \<and> pxCurrentTCB k' = pxCurrentTCB k \<and> uxSchedulerSuspended k' = uxSchedulerSuspended k \<and>
     uxCurrentNumberOfTasks k' = uxCurrentNumberOfTasks k \<and> xSchedulerRunning k' = xSchedulerRunning k \<and>
     (\<forall>i. i \<noteq> StateItem t \<longrightarrow> i \<noteq> EventItem t \<longrightarrow> container i k' = container i k) \<and>
     (if uxSchedulerSuspended k = 0 then container (StateItem t) k' = Some (ReadyTasks (uxPriority (tcb k t))) \<and> container (EventItem t) k' = None
      else container (StateItem t) k' = container (StateItem t) k \<and> container (EventItem t) k' = Some PendingReadyList) \<and>
     (\<forall>l'. event_list l' \<longrightarrow> items l' k' = (if l' = l then tl (items l k) else items l' k))"

text \<open>An unblocked task becomes ready, or pending ready while the scheduler is suspended.\<close>

lemma unblocked_moves:
  assumes "kinv h T k" and "container (StateItem t) k \<noteq> None" and "container (EventItem t) k = None"
  shows "\<exists>k2. (if uxSchedulerSuspended k = 0 then rbind (remove_item (StateItem t) k) (prvAddTaskToReadyList t)
      else Inr (insert_end_item PendingReadyList (EventItem t) k)) = Inr k2 \<and> kinv h T k2 \<and> frame k k2 \<and>
      (\<forall>i. container i k2 = (if uxSchedulerSuspended k = 0 then (if i = StateItem t then Some (ReadyTasks (uxPriority (tcb k t))) else container i k)
         else (if i = EventItem t then Some PendingReadyList else container i k))) \<and> (\<forall>l'. event_list l' \<longrightarrow> items l' k2 = items l' k)"
proof (cases "uxSchedulerSuspended k = 0")
  case True
  obtain k3 where k3: "remove_item (StateItem t) k = Inr k3" using remove_item_ok [OF assms(2)] by blast
  note R3 = kinv_remove [OF assms(1) k3]
  obtain k2 where k2: "prvAddTaskToReadyList t k3 = Inr k2" using add_ready_ok [of k3 t] kinvD(5) [OF R3(1)] by (auto simp: prios_ok_def)
  note A = kinv_ready_again [OF assms(1) k3 k2]
  have "items l' k2 = items l' k" if "event_list l'" for l'
  proof -
    have "StateItem t \<notin> set (items l' k)" using typedD(2) [OF kinvD(3) [OF assms(1)], of "StateItem t" l'] event_list_fits(3) [OF that] by blast
    then have "items l' k3 = items l' k" using remove_item_items [OF kinvD(3) [OF assms(1)] k3, of l'] by (simp add: remove1_idem)
    then show ?thesis using add_ready_fields(11) [OF k2] event_items_distinct(2) [OF that] by simp
  qed
  then show ?thesis using True k2 k3 A by (intro exI [of _ k2]) simp
next
  case False
  have "t \<in> T" using assms(2) kinv_outside(1) [OF assms(1), of t] by (cases "t \<in> T") simp_all
  then have "kinv h T (insert_end_item PendingReadyList (EventItem t) k)"
    using assms(3) by (intro kinv_insert_end [OF assms(1)]) simp_all
  moreover have "frame k (insert_end_item PendingReadyList (EventItem t) k)" by (simp add: frame_def insert_end_item_def kernel_simps)
  ultimately show ?thesis using False event_items_distinct(1) by (intro exI [of _ "insert_end_item PendingReadyList (EventItem t) k"]) auto
qed

lemma remove_head_ok:
  assumes "kinv h T k" and "event_wait_ok k" and "event_list l" and "items l k = EventItem t # is"
  shows "\<exists>k'. xTaskRemoveFromEventList l k = Inr (uxPriority (tcb k t) > uxPriority (tcb k (the (pxCurrentTCB k))), k') \<and>
    kinv h T k' \<and> event_wait_ok k' \<and> woken_head l t k k'"
proof -
  note I = kinvD [OF assms(1)]
  obtain c where c: "pxCurrentTCB k = Some c" using I(6) by blast
  have head: "list_head l (klists k) = Inr (EventItem t)" using assms(4) by (simp add: list_head_def)
  have ct: "container (EventItem t) k = Some l" using pending_head(2) [OF I(3) head] .
  then obtain k1 where k1: "remove_item (EventItem t) k = Inr k1" using remove_item_ok by fastforce
  note R = kinv_remove [OF assms(1) k1]
  note F1 = frameD [OF R(2)]
  have it1: "items l' k1 = (if l' = l then is else items l' k)" if "event_list l'" for l'
  proof -
    have "EventItem t \<notin> set (items l' k)" if "l' \<noteq> l" using that ct typedD(3) [OF I(3), of "EventItem t" l'] by auto
    then show ?thesis using remove_item_items [OF I(3) k1, of l'] assms(4) by (simp add: remove1_idem)
  qed
  have c1: "container (StateItem t) k1 \<noteq> None" "container (EventItem t) k1 = None" using assms(2) ct R(3) by (auto simp: event_wait_ok_def)
  obtain k2 where k2: "(if uxSchedulerSuspended k1 = 0 then rbind (remove_item (StateItem t) k1) (prvAddTaskToReadyList t)
      else Inr (insert_end_item PendingReadyList (EventItem t) k1)) = Inr k2" "kinv h T k2" "frame k1 k2"
      "\<forall>i. container i k2 = (if uxSchedulerSuspended k1 = 0 then (if i = StateItem t then Some (ReadyTasks (uxPriority (tcb k1 t))) else container i k1)
         else (if i = EventItem t then Some PendingReadyList else container i k1))" "\<forall>l'. event_list l' \<longrightarrow> items l' k2 = items l' k1"
    using unblocked_moves [OF R(1) c1] by (elim exE conjE)
  note F2 = frameD [OF k2(3)]
  let ?b = "uxPriority (tcb k t) > uxPriority (tcb k c)"
  let ?k' = "if ?b then k2\<lparr>xYieldPending := True\<rparr> else k2"
  have "xTaskRemoveFromEventList l k = Inr (?b, ?k')"
    using head k1 k2(1) c F1(2,6) F2(2,6) by (simp add: xTaskRemoveFromEventList_def current_def)
  moreover have "woken_head l t k k2"
    using k2(4,5) it1 R(3) F1 F2 assms(4) by (auto simp: woken_head_def)
  then have "woken_head l t k ?k'" by (auto simp: woken_head_def)
  moreover have "event_wait_ok ?k'"
    using assms(2) ct k2(4) R(3) by (auto simp: event_wait_ok_def split: if_splits)
  ultimately show ?thesis using k2(2) c by auto
qed

definition qinv :: "heap1 \<Rightarrow> tid set \<Rightarrow> qstate \<Rightarrow> bool" where
  "qinv h T s \<longleftrightarrow> kinv h T (kern s) \<and> event_wait_ok (kern s)"

lemma event_wait_updates [simp]:
  "event_wait_ok (k\<lparr>xPendSV := b\<rparr>) = event_wait_ok k" "event_wait_ok (k\<lparr>xYieldPending := b\<rparr>) = event_wait_ok k"
  "event_wait_ok (k\<lparr>uxSchedulerSuspended := n\<rparr>) = event_wait_ok k" "event_wait_ok (k\<lparr>xPendedTicks := v\<rparr>) = event_wait_ok k"
  "event_wait_ok (portYIELD_WITHIN_API k) = event_wait_ok k" "event_wait_ok (vTaskMissedYield k) = event_wait_ok k"
  by (simp_all add: event_wait_ok_def portYIELD_WITHIN_API_def vTaskMissedYield_def)

lemma event_list_simps [simp]: "event_list (TasksWaitingToSend q)" "event_list (TasksWaitingToReceive q)"
  by (auto simp: event_list_def)

lemma event_head:
  assumes "kinv h T k" and "event_list l" and "items l k \<noteq> []"
  obtains t "is" where "items l k = EventItem t # is"
proof -
  obtain i "is" where i: "items l k = i # is" using assms(3) by (cases "items l k") auto
  then have "fits l i" using typedD(2) [OF kinvD(3) [OF assms(1)], of i l] by simp
  then show thesis using event_list_fits(3) [OF assms(2)] i that by blast
qed

lemma wake_from_isr_ok:
  assumes "kinv h T k" and "event_wait_ok k" and "event_list l"
  shows "\<exists>b k'. wake_from_isr l k = Inr (b, k') \<and> kinv h T k' \<and> event_wait_ok k'"
proof (cases "items l k = []")
  case True
  then show ?thesis using assms(1,2) by (intro exI [of _ False]) (simp add: wake_from_isr_def)
next
  case False
  obtain t "is" where t: "items l k = EventItem t # is" by (rule event_head [OF assms(1,3) False])
  from remove_head_ok [OF assms this] show ?thesis using False by (auto simp: wake_from_isr_def)
qed

lemma wake_waiting_ok:
  assumes "kinv h T k" and "event_wait_ok k" and "event_list l"
  shows "\<exists>k'. wake_waiting l y k = Inr k' \<and> kinv h T k' \<and> event_wait_ok k'"
proof -
  obtain b k1 where "wake_from_isr l k = Inr (b, k1)" "kinv h T k1" "event_wait_ok k1" using wake_from_isr_ok [OF assms] by blast
  then show ?thesis using assms(1,2) by (cases "items l k = []") (auto simp: wake_waiting_def wake_from_isr_def)
qed

lemma set_queue_fields [simp]:
  "kern (set_queue q f s) = kern s" "queue (set_queue q f s) q' = (if q' = q then f (queue s q) else queue s q')"
  by (simp_all add: set_queue_def)

lemma remove_event_suspended:
  assumes "xTaskRemoveFromEventList l k = Inr (b, k')"
  shows "uxSchedulerSuspended k' = uxSchedulerSuspended k"
proof -
  have r: "remove_item i a = Inr c \<Longrightarrow> uxSchedulerSuspended c = uxSchedulerSuspended a" for i a c by (auto simp: remove_item_def rbind_Inr_iff)
  have a: "prvAddTaskToReadyList t a = Inr c \<Longrightarrow> uxSchedulerSuspended c = uxSchedulerSuspended a" for t a c
    by (auto simp: prvAddTaskToReadyList_def Let_def rbind_Inr_iff taskRECORD_READY_PRIORITY_def insert_end_item_def)
  obtain i k1 k2 t where 1: "remove_item (EventItem (item_owner i)) k = Inr k1"
    "(if uxSchedulerSuspended k1 = 0 then rbind (remove_item (StateItem (item_owner i)) k1) (prvAddTaskToReadyList (item_owner i))
      else Inr (insert_end_item PendingReadyList (EventItem (item_owner i)) k1)) = Inr k2"
    "(if uxPriority (tcb k2 (item_owner i)) > uxPriority (tcb k2 t) then (True, k2\<lparr>xYieldPending := True\<rparr>) else (False, k2)) = (b, k')"
    using assms unfolding xTaskRemoveFromEventList_def Let_def rbind_Inr_iff by (elim exE conjE) simp
  have "uxSchedulerSuspended k2 = uxSchedulerSuspended k1"
    using 1(2) by (cases "uxSchedulerSuspended k1 = 0") (auto simp: rbind_Inr_iff insert_end_item_def dest!: r a)
  then show ?thesis using r [OF 1(1)] 1(3) by (auto split: if_splits)
qed

lemma wake_suspended:
  "wake_waiting l y k = Inr k' \<Longrightarrow> uxSchedulerSuspended k' = uxSchedulerSuspended k"
  "wake_from_isr l k = Inr (b, k') \<Longrightarrow> uxSchedulerSuspended k' = uxSchedulerSuspended k"
  by (auto simp: wake_waiting_def wake_from_isr_def rbind_Inr_iff portYIELD_WITHIN_API_def split: if_splits dest: remove_event_suspended)

section \<open>A queue is a bounded double-ended queue\<close>

text \<open>
  Calls from tasks, with the ticks they may wait, and from interrupts. The result \<^const>\<open>None\<close> of a
  task's call is that it has to wait: it has not returned, and goes on to block.
\<close>

datatype queue_op = Send u32 copy_position "u8 list" | Receive u32 | Peek u32
  | SendFromISR copy_position "u8 list" | ReceiveFromISR | PeekFromISR

datatype queue_result = Sent "bool option" | Received "u8 list option option"

fun run_queue_op :: "TimeOut_t \<Rightarrow> qid \<Rightarrow> queue_op \<Rightarrow> qstate \<Rightarrow> (queue_result \<times> qstate) res" where
  "run_queue_op to q (Send n pos d) s = rbind (xQueueGenericSend to q (Some d) n pos s) (\<lambda>(r, _, s). Inr (Sent r, s))"
| "run_queue_op to q (Receive n) s = rbind (xQueueReceive to q True n s) (\<lambda>(r, _, s). Inr (Received r, s))"
| "run_queue_op to q (Peek n) s = rbind (xQueuePeek to q True n s) (\<lambda>(r, _, s). Inr (Received r, s))"
| "run_queue_op to q (SendFromISR pos d) s =
     rbind (xQueueGenericSendFromISR q (Some d) pos s) (\<lambda>(b, _, s). Inr (Sent (Some b), s))"
| "run_queue_op to q ReceiveFromISR s = rbind (xQueueReceiveFromISR q True s) (\<lambda>(r, _, s). Inr (Received (Some r), s))"
| "run_queue_op to q PeekFromISR s = rbind (xQueuePeekFromISR q True s) (\<lambda>(r, s). Inr (Received (Some r), s))"

fun run_queue_ops :: "TimeOut_t \<Rightarrow> qid \<Rightarrow> queue_op list \<Rightarrow> qstate \<Rightarrow> (queue_result list \<times> qstate) res" where
  "run_queue_ops to q [] s = Inr ([], s)"
| "run_queue_ops to q (op # ops) s =
     rbind (run_queue_op to q op s) (\<lambda>(r, s). rbind (run_queue_ops to q ops s) (\<lambda>(rs, s). Inr (r # rs, s)))"

text \<open>The specification: a sequence of at most \<open>L\<close> items.\<close>

definition spec_send :: "nat \<Rightarrow> copy_position \<Rightarrow> 'a \<Rightarrow> 'a list \<Rightarrow> bool \<times> 'a list" where
  "spec_send L pos d xs =
     (if pos = queueOVERWRITE then (True, [d])
      else if length xs < L then (True, if pos = queueSEND_TO_BACK then xs @ [d] else d # xs)
      else (False, xs))"

text \<open>A call that cannot be served at once returns when it may not wait, and blocks otherwise.\<close>

definition spec_wait :: "u32 \<Rightarrow> 'a \<Rightarrow> 'a option" where
  "spec_wait n r = (if n = 0 then Some r else None)"

fun queue_spec :: "nat \<Rightarrow> queue_op \<Rightarrow> u8 list list \<Rightarrow> queue_result \<times> u8 list list" where
  "queue_spec L (Send n pos d) xs = (let (b, ys) = spec_send L pos d xs in (Sent (if b then Some True else spec_wait n False), ys))"
| "queue_spec L (SendFromISR pos d) xs = (let (b, ys) = spec_send L pos d xs in (Sent (Some b), ys))"
| "queue_spec L (Receive n) xs = (case xs of [] \<Rightarrow> (Received (spec_wait n None), []) | x # ys \<Rightarrow> (Received (Some (Some x)), ys))"
| "queue_spec L ReceiveFromISR xs = (case xs of [] \<Rightarrow> (Received (Some None), []) | x # ys \<Rightarrow> (Received (Some (Some x)), ys))"
| "queue_spec L (Peek n) xs = (case xs of [] \<Rightarrow> (Received (spec_wait n None), []) | x # ys \<Rightarrow> (Received (Some (Some x)), xs))"
| "queue_spec L PeekFromISR xs = (case xs of [] \<Rightarrow> (Received (Some None), []) | x # ys \<Rightarrow> (Received (Some (Some x)), xs))"

fun queue_specs :: "nat \<Rightarrow> queue_op list \<Rightarrow> u8 list list \<Rightarrow> queue_result list \<times> u8 list list" where
  "queue_specs L [] xs = ([], xs)"
| "queue_specs L (op # ops) xs = (let (r, ys) = queue_spec L op xs; (rs, zs) = queue_specs L ops ys in (r # rs, zs))"

text \<open>Acceptable calls: items of the right size, overwriting only in a queue of one, and waiting only while the scheduler is not suspended.\<close>

fun op_valid :: "bool \<Rightarrow> nat \<Rightarrow> nat \<Rightarrow> queue_op \<Rightarrow> bool" where
  "op_valid w L m (Send n pos d) \<longleftrightarrow> length d = m \<and> (pos = queueOVERWRITE \<longrightarrow> L = 1) \<and> (n = 0 \<or> w)"
| "op_valid w L m (SendFromISR pos d) \<longleftrightarrow> length d = m \<and> (pos = queueOVERWRITE \<longrightarrow> L = 1)"
| "op_valid w L m (Receive n) \<longleftrightarrow> n = 0 \<or> w"
| "op_valid w L m (Peek n) \<longleftrightarrow> n = 0 \<or> w"
| "op_valid w L m _ \<longleftrightarrow> True"

abbreviation unsuspended :: "qstate \<Rightarrow> bool" where
  "unsuspended s \<equiv> uxSchedulerSuspended (kern s) = 0"

lemma wait_allowed: "n = 0 \<or> unsuspended s \<Longrightarrow> scheduler_allows n (kern s)"
  by (auto simp: scheduler_allows_def xTaskGetSchedulerState_def)

text \<open>An unlocked queue of \<open>L\<close> places for items of size \<open>m\<close> that holds \<open>xs\<close>, in a consistent kernel.\<close>

definition queue_ok :: "heap1 \<Rightarrow> tid set \<Rightarrow> qid \<Rightarrow> nat \<Rightarrow> nat \<Rightarrow> u8 list list \<Rightarrow> qstate \<Rightarrow> bool" where
  "queue_ok h T q L m xs s \<longleftrightarrow> qinv h T s \<and> holds (queue s q) xs \<and> uxLength (queue s q) = L \<and> uxItemSize (queue s q) = m \<and>
     cRxLock (queue s q) = queueUNLOCKED \<and> cTxLock (queue s q) = queueUNLOCKED"

lemma queue_ok_kern: "queue_ok h T q L m xs s \<Longrightarrow> kinv h T k \<Longrightarrow> event_wait_ok k \<Longrightarrow> queue_ok h T q L m xs (s\<lparr>kern := k\<rparr>)"
  by (simp add: queue_ok_def qinv_def)

lemma holdsD: "holds Q xs \<Longrightarrow> uxMessagesWaiting Q = length xs" "holds Q xs \<Longrightarrow> length xs \<le> uxLength Q" "holds Q xs \<Longrightarrow> 0 < uxItemSize Q"
  by (simp_all add: holds_def)

lemma copy_to_ok:
  assumes "queue_ok h T q L m xs s" and "length d = m" and "length xs < L \<or> pos = queueOVERWRITE" and "pos = queueOVERWRITE \<longrightarrow> L = 1"
  shows "\<exists>s'. prvCopyDataToQueue q (Some d) pos s = Inr (False, s') \<and> queue_ok h T q L m (snd (spec_send L pos d xs)) s' \<and> kern s' = kern s"
proof -
  let ?Q = "queue s q"
  have h: "holds ?Q xs" and L: "uxLength ?Q = L" "uxItemSize ?Q = m" "cRxLock ?Q = queueUNLOCKED" "cTxLock ?Q = queueUNLOCKED" and i: "qinv h T s"
    using assms(1) by (simp_all add: queue_ok_def)
  have n: "uxMessagesWaiting ?Q = length xs" "0 < m" using holdsD [OF h] L by simp_all
  have "\<exists>Q'. copy_to_storage (Some d) pos ?Q = Inr Q' \<and> holds (Q'\<lparr>uxMessagesWaiting := messages_before pos ?Q + 1\<rparr>) (snd (spec_send L pos d xs)) \<and>
      uxLength Q' = L \<and> uxItemSize Q' = m \<and> cRxLock Q' = queueUNLOCKED \<and> cTxLock Q' = queueUNLOCKED"
  proof (cases "pos = queueOVERWRITE")
    case True
    obtain Q' where Q': "copy_to_storage (Some d) queueOVERWRITE ?Q = Inr Q'" "holds (Q'\<lparr>uxMessagesWaiting := 1\<rparr>) [d]"
        "Q' = ?Q\<lparr>storage := storage Q', pcReadFrom := pcReadFrom Q'\<rparr>"
      using holds_overwrite [OF h, of d] assms(2,4) L True by auto
    have "messages_before pos ?Q = 0" using n True assms(4) holdsD(2) [OF h] L by (auto simp: messages_before_def)
    moreover have "uxLength Q' = L" "uxItemSize Q' = m" "cRxLock Q' = queueUNLOCKED" "cTxLock Q' = queueUNLOCKED" by (subst Q'(3); simp add: L)+
    ultimately show ?thesis using Q'(1,2) True by (simp add: spec_send_def)
  next
    case False
    then have lt: "length xs < uxLength ?Q" using assms(3) L by simp
    have mb: "messages_before pos ?Q = length xs" using n False by (simp add: messages_before_def)
    show ?thesis
    proof (cases "pos = queueSEND_TO_BACK")
      case True
      obtain Q' where Q': "copy_to_storage (Some d) queueSEND_TO_BACK ?Q = Inr Q'" "holds (Q'\<lparr>uxMessagesWaiting := length xs + 1\<rparr>) (xs @ [d])"
          "Q' = ?Q\<lparr>storage := storage Q', pcWriteTo := pcWriteTo Q'\<rparr>"
        using holds_send_back [OF h lt, of d] assms(2) L by auto
      moreover have "uxLength Q' = L" "uxItemSize Q' = m" "cRxLock Q' = queueUNLOCKED" "cTxLock Q' = queueUNLOCKED" by (subst Q'(3); simp add: L)+
      ultimately show ?thesis using True lt L mb by (simp add: spec_send_def)
    next
      case b: False
      obtain Q' where Q': "copy_to_storage (Some d) pos ?Q = Inr Q'" "holds (Q'\<lparr>uxMessagesWaiting := length xs + 1\<rparr>) (d # xs)"
          "Q' = ?Q\<lparr>storage := storage Q', pcReadFrom := pcReadFrom Q'\<rparr>"
        using holds_send_front [OF h lt, of d pos] assms(2) L b by auto
      moreover have "uxLength Q' = L" "uxItemSize Q' = m" "cRxLock Q' = queueUNLOCKED" "cTxLock Q' = queueUNLOCKED" by (subst Q'(3); simp add: L)+
      ultimately show ?thesis using False b lt L mb by (simp add: spec_send_def)
    qed
  qed
  then show ?thesis using i n(2) L unfolding prvCopyDataToQueue_def by (auto simp: Let_def queue_ok_def qinv_def)
qed

lemma copy_from_ok:
  assumes "queue_ok h T q L m (x # xs) s"
  shows "\<exists>s'. prvCopyDataFromQueue q s = Inr (x, s') \<and> kern s' = kern s \<and>
    queue_ok h T q L m xs (set_queue q (uxMessagesWaiting_update (\<lambda>n. n - 1)) s') \<and>
    queue_ok h T q L m (x # xs) (set_queue q (pcReadFrom_update (\<lambda>_. pcReadFrom (queue s q))) s')"
proof -
  let ?Q = "queue s q"
  have h: "holds ?Q (x # xs)" and L: "uxLength ?Q = L" "uxItemSize ?Q = m" "cRxLock ?Q = queueUNLOCKED" "cTxLock ?Q = queueUNLOCKED" and i: "qinv h T s"
    using assms(1) by (simp_all add: queue_ok_def)
  obtain Q' where Q': "copy_from_storage ?Q = Inr (x, Q')" "holds (Q'\<lparr>uxMessagesWaiting := length xs\<rparr>) xs" "Q' = ?Q\<lparr>pcReadFrom := pcReadFrom Q'\<rparr>"
    using holds_receive [OF h] by blast
  have f: "uxLength Q' = L" "uxItemSize Q' = m" "cRxLock Q' = queueUNLOCKED" "cTxLock Q' = queueUNLOCKED" "uxMessagesWaiting Q' = length xs + 1"
    by (subst Q'(3); simp add: L holdsD(1) [OF h])+
  have u: "uxMessagesWaiting_update (\<lambda>n. n - Suc 0) Q' = Q'\<lparr>uxMessagesWaiting := length xs\<rparr>" using f(5) by (cases Q') simp
  have "pcReadFrom_update (\<lambda>_. pcReadFrom ?Q) Q' = ?Q" by (subst Q'(3)) simp
  then show ?thesis using Q'(1,2) i f h L holdsD(3) [OF h] by (simp add: prvCopyDataFromQueue_def queue_ok_def qinv_def u)
qed


lemma queue_okD:
  assumes "queue_ok h T q L m xs s"
  shows "kinv h T (kern s)" "event_wait_ok (kern s)" "uxMessagesWaiting (queue s q) = length xs" "uxLength (queue s q) = L" "uxItemSize (queue s q) = m"
    "length xs \<le> L" "0 < m" "cRxLock (queue s q) = queueUNLOCKED" "cTxLock (queue s q) = queueUNLOCKED"
  using assms holdsD [of "queue s q" xs] by (auto simp: queue_ok_def qinv_def)

lemma send_full: "\<not> (length xs < L \<or> pos = queueOVERWRITE) \<Longrightarrow> spec_send L pos d xs = (False, xs)"
  "length xs < L \<or> pos = queueOVERWRITE \<Longrightarrow> fst (spec_send L pos d xs) = True"
  by (auto simp: spec_send_def)

lemma send_op:
  assumes "queue_ok h T q L m xs s" and "op_valid (unsuspended s) L m (Send n pos d)"
  shows "\<exists>s'. run_queue_op to q (Send n pos d) s = Inr (fst (queue_spec L (Send n pos d) xs), s') \<and> queue_ok h T q L m (snd (spec_send L pos d xs)) s'"
proof -
  note D = queue_okD [OF assms(1)]
  let ?fits = "length xs < L \<or> pos = queueOVERWRITE"
  have checks: "send_checks q (Some d) pos s = Inr ()" "scheduler_allows n (kern s)"
    using assms(2) D(4) wait_allowed [of n s] by (auto simp: send_checks_def)
  show ?thesis
  proof (cases ?fits)
    case True
    then obtain s1 where s1: "prvCopyDataToQueue q (Some d) pos s = Inr (False, s1)" "queue_ok h T q L m (snd (spec_send L pos d xs)) s1"
      using copy_to_ok [OF assms(1)] assms(2) by auto
    note D1 = queue_okD [OF s1(2)]
    obtain k where "wake_waiting (TasksWaitingToReceive q) False (kern s1) = Inr k" "kinv h T k" "event_wait_ok k"
      using wake_waiting_ok [OF D1(1,2), of "TasksWaitingToReceive q" False] by auto
    then show ?thesis using True checks s1 D(3,4) queue_ok_kern [OF s1(2)]
      by (simp add: xQueueGenericSend_def send_try_def send_full(2) case_prod_beta Let_def)
  next
    case False
    then show ?thesis using checks assms(1) D(3,4) send_full(1) [OF False, of d]
      by (simp add: xQueueGenericSend_def send_try_def wait_start_def spec_wait_def)
  qed
qed

lemma send_isr_op:
  assumes "queue_ok h T q L m xs s" and "op_valid w L m (SendFromISR pos d)"
  shows "\<exists>s'. run_queue_op to q (SendFromISR pos d) s = Inr (Sent (Some (fst (spec_send L pos d xs))), s') \<and> queue_ok h T q L m (snd (spec_send L pos d xs)) s'"
proof -
  note D = queue_okD [OF assms(1)]
  let ?fits = "length xs < L \<or> pos = queueOVERWRITE"
  have checks: "send_checks q (Some d) pos s = Inr ()" using assms(2) D(4) by (auto simp: send_checks_def)
  show ?thesis
  proof (cases ?fits)
    case True
    then obtain s1 where s1: "prvCopyDataToQueue q (Some d) pos s = Inr (False, s1)" "queue_ok h T q L m (snd (spec_send L pos d xs)) s1"
      using copy_to_ok [OF assms(1)] assms(2) by auto
    note D1 = queue_okD [OF s1(2)]
    obtain b k where "wake_from_isr (TasksWaitingToReceive q) (kern s1) = Inr (b, k)" "kinv h T k" "event_wait_ok k"
      using wake_from_isr_ok [OF D1(1,2), of "TasksWaitingToReceive q"] by auto
    then show ?thesis using True checks s1 D(3,4,9) queue_ok_kern [OF s1(2)]
      by (simp add: xQueueGenericSendFromISR_def signal_sent_def send_full(2))
  next
    case False
    then show ?thesis using checks assms(1) D(3,4) send_full(1) [OF False, of d] by (simp add: xQueueGenericSendFromISR_def)
  qed
qed

text \<open>The four ways to read: with or without removing the item, from a task or from an interrupt.\<close>

lemma read_empty:
  assumes "queue_ok h T q L m [] s"
  shows "n = 0 \<or> unsuspended s \<Longrightarrow> \<exists>s'. run_queue_op to q (Receive n) s = Inr (Received (spec_wait n None), s') \<and> queue_ok h T q L m [] s'"
    "n = 0 \<or> unsuspended s \<Longrightarrow> \<exists>s'. run_queue_op to q (Peek n) s = Inr (Received (spec_wait n None), s') \<and> queue_ok h T q L m [] s'"
    "\<exists>s'. run_queue_op to q ReceiveFromISR s = Inr (Received (Some None), s') \<and> queue_ok h T q L m [] s'"
    "\<exists>s'. run_queue_op to q PeekFromISR s = Inr (Received (Some None), s') \<and> queue_ok h T q L m [] s'"
  using assms queue_okD(3,5,7) [OF assms] wait_allowed [of n s]
  by (simp_all add: xQueueReceive_def xQueuePeek_def xQueueReceiveFromISR_def xQueuePeekFromISR_def receive_checks_def receive_try_def peek_try_def
    spec_wait_def wait_start_def)

lemma receive_op:
  assumes "queue_ok h T q L m (x # xs) s"
  shows "n = 0 \<or> unsuspended s \<Longrightarrow> \<exists>s'. run_queue_op to q (Receive n) s = Inr (Received (Some (Some x)), s') \<and> queue_ok h T q L m xs s'"
    "\<exists>s'. run_queue_op to q ReceiveFromISR s = Inr (Received (Some (Some x)), s') \<and> queue_ok h T q L m xs s'"
proof -
  obtain s1 where s1: "prvCopyDataFromQueue q s = Inr (x, s1)" "queue_ok h T q L m xs (set_queue q (uxMessagesWaiting_update (\<lambda>n. n - 1)) s1)"
    using copy_from_ok [OF assms] by blast
  let ?s = "set_queue q (uxMessagesWaiting_update (\<lambda>n. n - 1)) s1"
  note D = queue_okD [OF assms] and D1 = queue_okD [OF s1(2)]
  obtain k where "wake_waiting (TasksWaitingToSend q) False (kern ?s) = Inr k" "kinv h T k" "event_wait_ok k"
    using wake_waiting_ok [OF D1(1,2), of "TasksWaitingToSend q" False] by auto
  then show "\<exists>s'. run_queue_op to q (Receive n) s = Inr (Received (Some (Some x)), s') \<and> queue_ok h T q L m xs s'" if "n = 0 \<or> unsuspended s"
    using wait_allowed [OF that] s1 D(3) queue_ok_kern [OF s1(2), of k] by (simp add: xQueueReceive_def receive_checks_def receive_try_def)
  obtain b k where "wake_from_isr (TasksWaitingToSend q) (kern ?s) = Inr (b, k)" "kinv h T k" "event_wait_ok k"
    using wake_from_isr_ok [OF D1(1,2), of "TasksWaitingToSend q"] by auto
  then show "\<exists>s'. run_queue_op to q ReceiveFromISR s = Inr (Received (Some (Some x)), s') \<and> queue_ok h T q L m xs s'"
    using s1 D(3,8) queue_ok_kern [OF s1(2), of k] by (simp add: xQueueReceiveFromISR_def)
qed

lemma peek_op:
  assumes "queue_ok h T q L m (x # xs) s"
  shows "n = 0 \<or> unsuspended s \<Longrightarrow> \<exists>s'. run_queue_op to q (Peek n) s = Inr (Received (Some (Some x)), s') \<and> queue_ok h T q L m (x # xs) s'"
    "\<exists>s'. run_queue_op to q PeekFromISR s = Inr (Received (Some (Some x)), s') \<and> queue_ok h T q L m (x # xs) s'"
proof -
  let ?unread = "\<lambda>s1. set_queue q (pcReadFrom_update (\<lambda>_. pcReadFrom (queue s q))) s1"
  obtain s1 where s1: "prvCopyDataFromQueue q s = Inr (x, s1)" "queue_ok h T q L m (x # xs) (?unread s1)"
    using copy_from_ok [OF assms] by blast
  note D = queue_okD [OF assms] and D1 = queue_okD [OF s1(2)]
  obtain k where "wake_waiting (TasksWaitingToReceive q) False (kern (?unread s1)) = Inr k" "kinv h T k" "event_wait_ok k"
    using wake_waiting_ok [OF D1(1,2), of "TasksWaitingToReceive q" False] by auto
  then show "\<exists>s'. run_queue_op to q (Peek n) s = Inr (Received (Some (Some x)), s') \<and> queue_ok h T q L m (x # xs) s'" if "n = 0 \<or> unsuspended s"
    using wait_allowed [OF that] s1 D(3) queue_ok_kern [OF s1(2), of k] by (simp add: xQueuePeek_def receive_checks_def peek_try_def)
  show "\<exists>s'. run_queue_op to q PeekFromISR s = Inr (Received (Some (Some x)), s') \<and> queue_ok h T q L m (x # xs) s'"
    using s1 D(3,5,7) by (simp add: xQueuePeekFromISR_def)
qed

lemma queue_op_refines:
  assumes "queue_ok h T q L m xs s" and "op_valid (unsuspended s) L m op"
  shows "\<exists>s'. run_queue_op to q op s = Inr (fst (queue_spec L op xs), s') \<and> queue_ok h T q L m (snd (queue_spec L op xs)) s'"
proof (cases op)
  case (Send n pos d)
  then show ?thesis using send_op [of h T q L m xs s n pos d to] assms by (simp add: case_prod_beta Let_def)
next
  case (SendFromISR pos d)
  then show ?thesis using send_isr_op [of h T q L m xs s "unsuspended s" pos d to] assms by (simp add: case_prod_beta)
qed (use assms read_empty receive_op peek_op in \<open>cases xs; simp\<close>)+

lemma queue_op_suspended:
  assumes "run_queue_op to q op s = Inr (r, s')" and "uxItemSize (queue s q) \<noteq> 0"
  shows "unsuspended s' \<longleftrightarrow> unsuspended s"
proof -
  have to_q: "prvCopyDataToQueue q d pos s = Inr (b, s1) \<Longrightarrow> kern s1 = kern s" for d pos b s1
    using assms(2) by (auto simp: prvCopyDataToQueue_def rbind_Inr_iff Let_def set_queue_def)
  have from_q: "prvCopyDataFromQueue q s = Inr (d, s1) \<Longrightarrow> kern s1 = kern s" for d s1
    by (auto simp: prvCopyDataFromQueue_def rbind_Inr_iff set_queue_def split: if_splits)
  note defs = rbind_Inr_iff Let_def xQueueGenericSend_def send_try_def xQueueReceive_def receive_try_def xQueuePeek_def peek_try_def xQueueGenericSendFromISR_def signal_sent_def
    xQueueReceiveFromISR_def xQueuePeekFromISR_def prvIncrementQueueTxLock_def prvIncrementQueueRxLock_def
  show ?thesis using assms(1) by (cases op) (auto simp: defs split: if_splits dest!: to_q from_q wake_suspended)
qed

text \<open>
  C5. A queue is a bounded double-ended queue of items: for every sequence of calls to send to the
  back or the front, to overwrite, to receive and to peek, from tasks with any number of ticks to wait
  and from interrupts, each call does what a sequence of at most \<open>L\<close> items does, and afterwards
  the ring buffer holds exactly that sequence. A call that can be served returns at once, whatever
  time it may wait; one that cannot be served returns with the failure when it may not wait, blocks
  when it may, and in both cases changes nothing.
\<close>

theorem queue_refines_deque:
  assumes "queue_ok h T q L m xs s" and "list_all (op_valid (unsuspended s) L m) ops"
  shows "\<exists>s'. run_queue_ops to q ops s = Inr (fst (queue_specs L ops xs), s') \<and> queue_ok h T q L m (snd (queue_specs L ops xs)) s'"
  using assms
proof (induction ops arbitrary: xs s)
  case (Cons op ops)
  obtain s1 where s1: "run_queue_op to q op s = Inr (fst (queue_spec L op xs), s1)" "queue_ok h T q L m (snd (queue_spec L op xs)) s1"
    using queue_op_refines [OF Cons.prems(1)] Cons.prems(2) by fastforce
  have "unsuspended s1 = unsuspended s" using queue_op_suspended [OF s1(1)] queue_okD(5,7) [OF Cons.prems(1)] by simp
  then obtain s2 where "run_queue_ops to q ops s1 = Inr (fst (queue_specs L ops (snd (queue_spec L op xs))), s2)"
      "queue_ok h T q L m (snd (queue_specs L ops (snd (queue_spec L op xs)))) s2"
    using Cons.IH [OF s1(2)] Cons.prems(2) by auto
  with s1(1) show ?case by (simp add: case_prod_beta Let_def del: run_queue_op.simps)
qed simp

text \<open>An empty queue of two one-byte items in the example system.\<close>

definition example_queue :: "nat \<Rightarrow> nat \<Rightarrow> Queue_t" where
  "example_queue L m = \<lparr>pcHead = Some 0, pcWriteTo = 0, pcTail = L * m, pcReadFrom = (L - 1) * m, xMutexHolder = None, uxRecursiveCallCount = 0,
     uxMessagesWaiting = 0, uxLength = L, uxItemSize = m, cRxLock = queueUNLOCKED, cTxLock = queueUNLOCKED, uxQueueNumber = 0, ucQueueType = queueQUEUE_TYPE_BASE,
     storage = replicate (L * m) 0\<rparr>"

definition example_qstate :: "kernel \<Rightarrow> Queue_t \<Rightarrow> qstate" where
  "example_qstate k Q = \<lparr>kern = k, queue = (\<lambda>_. Q), xQueueRegistry = []\<rparr>"

lemma example_kinv: "kinv heap1_new {0, 1, 2} (example_kernel c)"
  by (auto simp: kinv_def sched_inv_def base_inv_def typed_def lists_wf_def ready_ok_def delayed_ok_def lists_ok_def future_def prios_ok_def listed_def
      example_kernel_def example_tcb_def configMAX_PRIORITIES_def split: if_splits)

lemma example_queue_ok: "queue_ok heap1_new {0, 1, 2} 7 2 1 [] (example_qstate (example_kernel 0) (example_queue 2 1))"
  using example_kinv [of 0] by (auto simp: queue_ok_def qinv_def event_wait_ok_def example_qstate_def example_queue_def holds_def)

theorem queue_refines_deque_witness:
  "\<exists>s'. run_queue_ops \<lparr>xOverflowCount = 0, xTimeOnEntering = 0\<rparr> 7
       [Receive 5, Send 5 queueSEND_TO_BACK [1], SendFromISR queueSEND_TO_FRONT [2], Send 0 queueSEND_TO_BACK [3], Send 5 queueSEND_TO_BACK [4], Receive 0]
     (example_qstate (example_kernel 0) (example_queue 2 1)) =
       Inr ([Received None, Sent (Some True), Sent (Some True), Sent (Some False), Sent None, Received (Some (Some [2]))], s')"
proof -
  let ?ops = "[Receive 5, Send 5 queueSEND_TO_BACK [1], SendFromISR queueSEND_TO_FRONT [2], Send 0 queueSEND_TO_BACK [3], Send 5 queueSEND_TO_BACK [4], Receive 0] :: queue_op list"
  let ?s = "example_qstate (example_kernel 0) (example_queue 2 1)"
  have "list_all (op_valid (unsuspended ?s) 2 1) ?ops" by (simp add: example_qstate_def example_kernel_def)
  moreover have "fst (queue_specs 2 ?ops []) = [Received None, Sent (Some True), Sent (Some True), Sent (Some False), Sent None, Received (Some (Some [2]))]"
    by (simp add: spec_send_def spec_wait_def)
  ultimately show ?thesis using queue_refines_deque [OF example_queue_ok, of ?ops] by (simp only:) blast
qed

section \<open>Blocked tasks are woken\<close>

text \<open>
  C16. A send wakes the receiver that has waited first in line: the item is queued, the first task of
  the list of waiting receivers is taken off that list and made ready, the others keep their order,
  every other task stays in the lists it is in, no task changes its priority, and a context switch is
  requested when the woken task has a higher priority than the running one.
\<close>

theorem send_wakes_receiver:
  assumes "queue_ok h T q L m xs s" and "length xs < L" and "length d = m" and "uxSchedulerSuspended (kern s) = 0"
    and "items (TasksWaitingToReceive q) (kern s) = EventItem t # is"
  shows "\<exists>w s'. xQueueGenericSend to q (Some d) n queueSEND_TO_BACK s = Inr (Some True, w, s') \<and> queue_ok h T q L m (xs @ [d]) s' \<and>
    container (StateItem t) (kern s') = Some (ReadyTasks (uxPriority (tcb (kern s) t))) \<and> container (EventItem t) (kern s') = None \<and>
    items (TasksWaitingToReceive q) (kern s') = is \<and>
    (\<forall>i. i \<notin> {StateItem t, EventItem t} \<longrightarrow> container i (kern s') = container i (kern s)) \<and> tcb (kern s') = tcb (kern s) \<and> pxCurrentTCB (kern s') = pxCurrentTCB (kern s) \<and>
    (uxPriority (tcb (kern s) t) > uxPriority (tcb (kern s) (the (pxCurrentTCB (kern s)))) \<longrightarrow> xPendSV (kern s'))"
proof -
  note D = queue_okD [OF assms(1)]
  have checks: "send_checks q (Some d) queueSEND_TO_BACK s = Inr ()" "scheduler_allows n (kern s)"
    using wait_allowed [of n s] assms(4) by (simp_all add: send_checks_def)
  obtain s1 where s1: "prvCopyDataToQueue q (Some d) queueSEND_TO_BACK s = Inr (False, s1)" "queue_ok h T q L m (xs @ [d]) s1" "kern s1 = kern s"
    using copy_to_ok [OF assms(1,3), of queueSEND_TO_BACK] assms(2) by (auto simp: spec_send_def)
  let ?b = "uxPriority (tcb (kern s) t) > uxPriority (tcb (kern s) (the (pxCurrentTCB (kern s))))"
  obtain k where k: "xTaskRemoveFromEventList (TasksWaitingToReceive q) (kern s) = Inr (?b, k)" "kinv h T k" "event_wait_ok k"
      "woken_head (TasksWaitingToReceive q) t (kern s) k"
    using remove_head_ok [OF D(1,2) _ assms(5)] by auto
  let ?k = "if ?b then portYIELD_WITHIN_API k else k"
  have "wake_waiting (TasksWaitingToReceive q) False (kern s1) = Inr ?k" using k(1) assms(5) s1(3) by (simp add: wake_waiting_def)
  then have "xQueueGenericSend to q (Some d) n queueSEND_TO_BACK s = Inr (Some True, wait_start to n, s1\<lparr>kern := ?k\<rparr>)"
    using checks s1(1) D(3,4) assms(2) by (simp add: xQueueGenericSend_def send_try_def)
  moreover have "queue_ok h T q L m (xs @ [d]) (s1\<lparr>kern := ?k\<rparr>)" using k(2,3) by (intro queue_ok_kern [OF s1(2)]) simp_all
  ultimately show ?thesis using k(4) assms(4,5) by (auto simp: woken_head_def portYIELD_WITHIN_API_def)
qed

text \<open>Task 1 of the example system waits for an item, without time limit.\<close>

definition example_receiver :: kernel where
  "example_receiver = (example_kernel 0)\<lparr>pxCurrentTCB := Some 0,
     klists := \<lparr>litems = (\<lambda>l. if l = ReadyTasks 0 then [StateItem 0] else if l = ReadyTasks 3 then [StateItem 2] else
                          if l = SuspendedTaskList then [StateItem 1] else if l = TasksWaitingToReceive 7 then [EventItem 1] else []),
               lindex = (\<lambda>l. None), lvalue = (\<lambda>i. 0),
               lcontainer = (\<lambda>i. if i = StateItem 0 then Some (ReadyTasks 0) else if i = StateItem 2 then Some (ReadyTasks 3) else
                              if i = StateItem 1 then Some SuspendedTaskList else if i = EventItem 1 then Some (TasksWaitingToReceive 7) else None)\<rparr>\<rparr>"

lemma example_receiver_kinv: "kinv heap1_new {0, 1, 2} example_receiver" "event_wait_ok example_receiver"
  by (auto simp: kinv_def sched_inv_def base_inv_def typed_def lists_wf_def ready_ok_def delayed_ok_def lists_ok_def future_def prios_ok_def listed_def
      event_wait_ok_def example_receiver_def example_kernel_def example_tcb_def configMAX_PRIORITIES_def split: if_splits)

lemma example_receiver_ok: "queue_ok heap1_new {0, 1, 2} 7 2 1 [] (example_qstate example_receiver (example_queue 2 1))"
  using example_receiver_kinv by (auto simp: queue_ok_def qinv_def example_qstate_def example_queue_def holds_def)

theorem send_wakes_receiver_witness:
  "\<exists>w s'. xQueueGenericSend \<lparr>xOverflowCount = 0, xTimeOnEntering = 0\<rparr> 7 (Some [5]) 0 queueSEND_TO_BACK
      (example_qstate example_receiver (example_queue 2 1)) = Inr (Some True, w, s') \<and>
     container (StateItem 1) (kern s') = Some (ReadyTasks 3) \<and> xPendSV (kern s')"
proof -
  let ?s = "example_qstate example_receiver (example_queue 2 1)"
  have l: "items (TasksWaitingToReceive 7) (kern ?s) = EventItem 1 # []" by (simp add: example_qstate_def example_receiver_def)
  have p: "uxSchedulerSuspended (kern ?s) = 0" "uxPriority (tcb (kern ?s) 1) = 3" "uxPriority (tcb (kern ?s) (the (pxCurrentTCB (kern ?s)))) = 0"
    by (simp_all add: example_qstate_def example_receiver_def)
  have "length ([] :: u8 list list) < 2" "length [5 :: u8] = 1" by simp_all
  from send_wakes_receiver [where n = 0 and to = "\<lparr>xOverflowCount = 0, xTimeOnEntering = 0\<rparr>", OF example_receiver_ok this p(1) l]
  show ?thesis unfolding p(2,3) by (elim exE conjE) (intro exI conjI, assumption+, simp)
qed

section \<open>No wake-up is lost while a queue is locked\<close>

lemma unlock_loop_ok:
  assumes "kinv h T k" and "event_wait_ok k" and "event_list l"
  shows "\<exists>k'. unlock_loop n l k = Inr k' \<and> kinv h T k' \<and> event_wait_ok k' \<and> tcb k' = tcb k \<and> uxSchedulerSuspended k' = uxSchedulerSuspended k \<and>
    (\<forall>l'. event_list l' \<longrightarrow> items l' k' = (if l' = l then drop n (items l k) else items l' k)) \<and>
    (\<forall>t. if EventItem t \<in> set (take n (items l k))
         then (if uxSchedulerSuspended k = 0 then container (StateItem t) k' = Some (ReadyTasks (uxPriority (tcb k t)))
               else container (EventItem t) k' = Some PendingReadyList)
         else container (StateItem t) k' = container (StateItem t) k \<and> container (EventItem t) k' = container (EventItem t) k)"
  using assms
proof (induction n arbitrary: k)
  case (Suc n)
  show ?case
  proof (cases "items l k = []")
    case True
    then show ?thesis using Suc.prems by (intro exI [of _ k]) simp
  next
    case False
    obtain t "is" where t: "items l k = EventItem t # is" by (rule event_head [OF Suc.prems(1,3) False])
    obtain b k1 where k1: "xTaskRemoveFromEventList l k = Inr (b, k1)" "kinv h T k1" "event_wait_ok k1" "woken_head l t k k1"
      using remove_head_ok [OF Suc.prems t] by blast
    define k2 where "k2 = (if b then vTaskMissedYield k1 else k1)"
    have i: "kinv h T k2" "event_wait_ok k2" using k1(2,3) kinv_states(3) by (simp_all add: k2_def)
    have w: "woken_head l t k k2" using k1(4) by (simp add: woken_head_def vTaskMissedYield_def k2_def)
    have d: "EventItem t \<notin> set is" using lists_wf_D(1) [OF typedD(1) [OF kinvD(3) [OF Suc.prems(1)]], of l] t by simp
    have items1: "items l k2 = is" using w t Suc.prems(3) by (simp add: woken_head_def)
    from Suc.IH [OF i Suc.prems(3)] obtain k' where k': "unlock_loop n l k2 = Inr k'" "kinv h T k'" "event_wait_ok k'" "tcb k' = tcb k2"
        "uxSchedulerSuspended k' = uxSchedulerSuspended k2"
        "\<forall>l'. event_list l' \<longrightarrow> items l' k' = (if l' = l then drop n is else items l' k2)"
        "\<forall>u. if EventItem u \<in> set (take n is)
         then (if uxSchedulerSuspended k2 = 0 then container (StateItem u) k' = Some (ReadyTasks (uxPriority (tcb k2 u)))
               else container (EventItem u) k' = Some PendingReadyList)
         else container (StateItem u) k' = container (StateItem u) k2 \<and> container (EventItem u) k' = container (EventItem u) k2"
      unfolding items1 by (elim exE conjE)
    have f: "tcb k2 = tcb k" "uxSchedulerSuspended k2 = uxSchedulerSuspended k" using w by (auto simp: woken_head_def)
    have "if EventItem u \<in> set (take (Suc n) (items l k))
         then (if uxSchedulerSuspended k = 0 then container (StateItem u) k' = Some (ReadyTasks (uxPriority (tcb k u)))
               else container (EventItem u) k' = Some PendingReadyList)
         else container (StateItem u) k' = container (StateItem u) k \<and> container (EventItem u) k' = container (EventItem u) k" for u
    proof (cases "u = t")
      case True
      have "EventItem t \<notin> set (take n is)" using d by (meson in_set_takeD)
      then have "container (StateItem t) k' = container (StateItem t) k2" "container (EventItem t) k' = container (EventItem t) k2"
        using k'(7) by auto
      then show ?thesis using w t True unfolding woken_head_def by (simp split: if_splits)
    next
      case False
      then show ?thesis using k'(7) [rule_format, of u] w t f by (simp add: woken_head_def)
    qed
    moreover have "\<forall>l'. event_list l' \<longrightarrow> items l' k' = (if l' = l then drop (Suc n) (items l k) else items l' k)"
      using k'(6) w t by (simp add: woken_head_def)
    ultimately show ?thesis using k1(1) k'(1-5) f False by (intro exI [of _ k']) (simp add: k2_def [symmetric])
  qed
qed simp


text \<open>Items that interrupts send to a queue.\<close>

fun sends_from_isr :: "qid \<Rightarrow> u8 list list \<Rightarrow> qstate \<Rightarrow> qstate res" where
  "sends_from_isr q [] s = Inr s"
| "sends_from_isr q (d # ds) s =
     rbind (xQueueGenericSendFromISR q (Some d) queueSEND_TO_BACK s) (\<lambda>(_, _, s). sends_from_isr q ds s)"

lemma locked_send:
  assumes "holds (queue s q) xs" and "length xs < uxLength (queue s q)" and "length d = uxItemSize (queue s q)"
    and "0 \<le> cTxLock (queue s q)" and "cTxLock (queue s q) < 127"
  shows "\<exists>s'. xQueueGenericSendFromISR q (Some d) queueSEND_TO_BACK s = Inr (True, False, s') \<and> kern s' = kern s \<and> holds (queue s' q) (xs @ [d]) \<and>
    cTxLock (queue s' q) = (if nat (cTxLock (queue s q)) < uxCurrentNumberOfTasks (kern s) then cTxLock (queue s q) + 1 else cTxLock (queue s q)) \<and>
    cRxLock (queue s' q) = cRxLock (queue s q) \<and> uxLength (queue s' q) = uxLength (queue s q) \<and> uxItemSize (queue s' q) = uxItemSize (queue s q)"
proof -
  let ?Q = "queue s q"
  obtain Q' where Q': "copy_to_storage (Some d) queueSEND_TO_BACK ?Q = Inr Q'" "holds (Q'\<lparr>uxMessagesWaiting := length xs + 1\<rparr>) (xs @ [d])"
      "Q' = ?Q\<lparr>storage := storage Q', pcWriteTo := pcWriteTo Q'\<rparr>"
    using holds_send_back [OF assms(1-3)] by blast
  have f: "cTxLock Q' = cTxLock ?Q" "cRxLock Q' = cRxLock ?Q" "uxLength Q' = uxLength ?Q" "uxItemSize Q' = uxItemSize ?Q" by (subst Q'(3); simp)+
  have mb: "messages_before queueSEND_TO_BACK ?Q = length xs" using holdsD(1) [OF assms(1)] by (simp add: messages_before_def)
  let ?Q1 = "Q'\<lparr>uxMessagesWaiting := length xs + 1\<rparr>"
  have copy: "prvCopyDataToQueue q (Some d) queueSEND_TO_BACK s = Inr (False, set_queue q (\<lambda>_. ?Q1) s)"
    using Q'(1) mb holdsD(3) [OF assms(1)] by (simp add: prvCopyDataToQueue_def Let_def) (simp add: set_queue_def)
  have keep: "holds (Q\<lparr>cTxLock := v\<rparr>) ys = holds Q ys" for Q v ys by (simp add: holds_def slot_def)
  have inc: "increment_lock (cTxLock ?Q) (kern s) = Inr (if nat (cTxLock ?Q) < uxCurrentNumberOfTasks (kern s) then cTxLock ?Q + 1 else cTxLock ?Q)"
    using assms(5) by (simp add: increment_lock_def uxTaskGetNumberOfTasks_def queueINT8_MAX_def)
  show ?thesis
    using assms(2,4) copy inc f Q'(2) holdsD(1) [OF assms(1)]
    by (simp add: xQueueGenericSendFromISR_def send_checks_def signal_sent_def queueUNLOCKED_def prvIncrementQueueTxLock_def Let_def keep)
qed

lemma locked_sends:
  assumes "holds (queue s q) xs" and "length xs + length ds \<le> uxLength (queue s q)" and "\<forall>d\<in>set ds. length d = uxItemSize (queue s q)"
    and "cTxLock (queue s q) = int c" and "c \<le> N" and "uxCurrentNumberOfTasks (kern s) = N" and "N < 127"
  shows "\<exists>s'. sends_from_isr q ds s = Inr s' \<and> kern s' = kern s \<and> holds (queue s' q) (xs @ ds) \<and>
    cTxLock (queue s' q) = int (min N (c + length ds)) \<and> cRxLock (queue s' q) = cRxLock (queue s q)"
  using assms
proof (induction ds arbitrary: xs s c)
  case (Cons d ds)
  have "length xs < uxLength (queue s q)" "length d = uxItemSize (queue s q)" "0 \<le> cTxLock (queue s q)" "cTxLock (queue s q) < 127"
    using Cons.prems by auto
  from locked_send [OF Cons.prems(1) this] obtain s1 where s1: "xQueueGenericSendFromISR q (Some d) queueSEND_TO_BACK s = Inr (True, False, s1)"
      "kern s1 = kern s" "holds (queue s1 q) (xs @ [d])"
      "cTxLock (queue s1 q) = (if nat (cTxLock (queue s q)) < uxCurrentNumberOfTasks (kern s) then cTxLock (queue s q) + 1 else cTxLock (queue s q))"
      "cRxLock (queue s1 q) = cRxLock (queue s q)" "uxLength (queue s1 q) = uxLength (queue s q)" "uxItemSize (queue s1 q) = uxItemSize (queue s q)"
    by (elim exE conjE)
  let ?c = "if c < N then c + 1 else c"
  have "cTxLock (queue s1 q) = int ?c" using s1(4) Cons.prems(4,6) by auto
  moreover have "?c \<le> N" using Cons.prems(5) by auto
  ultimately obtain s2 where s2: "sends_from_isr q ds s1 = Inr s2" "kern s2 = kern s1" "holds (queue s2 q) ((xs @ [d]) @ ds)"
      "cTxLock (queue s2 q) = int (min N (?c + length ds))" "cRxLock (queue s2 q) = cRxLock (queue s1 q)"
    using Cons.IH [OF s1(3), of ?c] s1(2,6,7) Cons.prems by auto
  have "min N (?c + length ds) = min N (c + length (d # ds))" using Cons.prems(5) by auto
  then show ?case using s1(1,2,5) s2 by simp
qed simp

text \<open>
  C15. No wake-up is lost while a queue is locked: when interrupts send items to a queue that a task
  has locked, the waiting receivers stay where they are until the queue is unlocked; unlocking then
  wakes one waiting receiver for each item sent, in order, as long as receivers are waiting.
\<close>

theorem no_lost_wakeups:
  assumes "qinv h T s" and "holds (queue s q) xs" and "cTxLock (queue s q) = queueLOCKED_UNMODIFIED" and "cRxLock (queue s q) = queueLOCKED_UNMODIFIED"
    and "length xs + length ds \<le> uxLength (queue s q)" and "\<forall>d\<in>set ds. length d = uxItemSize (queue s q)"
    and "length (items (TasksWaitingToReceive q) (kern s)) \<le> uxCurrentNumberOfTasks (kern s)" and "uxCurrentNumberOfTasks (kern s) < 127"
  shows "\<exists>s1 s2. sends_from_isr q ds s = Inr s1 \<and> kern s1 = kern s \<and> prvUnlockQueue q s1 = Inr s2 \<and> qinv h T s2 \<and> holds (queue s2 q) (xs @ ds) \<and>
    items (TasksWaitingToReceive q) (kern s2) = drop (length ds) (items (TasksWaitingToReceive q) (kern s)) \<and>
    (\<forall>t. EventItem t \<in> set (take (length ds) (items (TasksWaitingToReceive q) (kern s))) \<longrightarrow>
       (if uxSchedulerSuspended (kern s) = 0 then container (StateItem t) (kern s2) = Some (ReadyTasks (uxPriority (tcb (kern s) t)))
        else container (EventItem t) (kern s2) = Some PendingReadyList))"
proof -
  let ?l = "TasksWaitingToReceive q" and ?N = "uxCurrentNumberOfTasks (kern s)"
  obtain s1 where s1: "sends_from_isr q ds s = Inr s1" "kern s1 = kern s" "holds (queue s1 q) (xs @ ds)"
      "cTxLock (queue s1 q) = int (min ?N (length ds))" "cRxLock (queue s1 q) = queueLOCKED_UNMODIFIED"
    using locked_sends [OF assms(2,5,6), of 0 ?N] assms(3,4,8) by (auto simp: queueLOCKED_UNMODIFIED_def)
  have i: "kinv h T (kern s)" "event_wait_ok (kern s)" using assms(1) by (simp_all add: qinv_def)
  obtain k where k: "unlock_loop (min ?N (length ds)) ?l (kern s) = Inr k" "kinv h T k" "event_wait_ok k"
      "\<forall>l'. event_list l' \<longrightarrow> items l' k = (if l' = ?l then drop (min ?N (length ds)) (items ?l (kern s)) else items l' (kern s))"
      "\<forall>t. if EventItem t \<in> set (take (min ?N (length ds)) (items ?l (kern s)))
         then (if uxSchedulerSuspended (kern s) = 0 then container (StateItem t) k = Some (ReadyTasks (uxPriority (tcb (kern s) t)))
               else container (EventItem t) k = Some PendingReadyList)
         else container (StateItem t) k = container (StateItem t) (kern s) \<and> container (EventItem t) k = container (EventItem t) (kern s)"
    using unlock_loop_ok [OF i, of ?l "min ?N (length ds)"] by auto
  have t: "take (min ?N (length ds)) (items ?l (kern s)) = take (length ds) (items ?l (kern s))"
    "drop (min ?N (length ds)) (items ?l (kern s)) = drop (length ds) (items ?l (kern s))" using assms(7) by (auto simp: min_def)
  define s2 where "s2 = set_queue q (cRxLock_update (\<lambda>_. queueUNLOCKED)) (set_queue q (cTxLock_update (\<lambda>_. queueUNLOCKED)) (s1\<lparr>kern := k\<rparr>))"
  have "prvUnlockQueue q s1 = Inr s2"
    using k(1) s1(2,4,5) by (simp add: prvUnlockQueue_def Let_def queueLOCKED_UNMODIFIED_def s2_def set_queue_def)
  moreover have "holds (Q\<lparr>cTxLock := v, cRxLock := w\<rparr>) ys = holds Q ys" for Q v w ys by (simp add: holds_def slot_def)
  then have "holds (queue s2 q) (xs @ ds)" using s1(3) by (simp add: s2_def)
  ultimately show ?thesis using s1(1,2) k(2-5) t by (auto simp: s2_def qinv_def)
qed

theorem no_lost_wakeups_witness:
  "\<exists>s1 s2. sends_from_isr 7 [[5]] (prvLockQueue 7 (example_qstate example_receiver (example_queue 2 1))) = Inr s1 \<and> prvUnlockQueue 7 s1 = Inr s2 \<and>
     items (TasksWaitingToReceive 7) (kern s2) = []"
proof -
  let ?s = "prvLockQueue 7 (example_qstate example_receiver (example_queue 2 1))"
  have "qinv heap1_new {0, 1, 2} ?s" using example_receiver_kinv by (simp add: qinv_def prvLockQueue_def example_qstate_def)
  moreover have "holds (queue ?s 7) []" "cTxLock (queue ?s 7) = queueLOCKED_UNMODIFIED" "cRxLock (queue ?s 7) = queueLOCKED_UNMODIFIED"
    "uxLength (queue ?s 7) = 2" "uxItemSize (queue ?s 7) = 1"
    by (simp_all add: prvLockQueue_def example_qstate_def example_queue_def Let_def holds_def)
  moreover have "items (TasksWaitingToReceive 7) (kern ?s) = [EventItem 1]" "uxCurrentNumberOfTasks (kern ?s) = 3"
    by (simp_all add: prvLockQueue_def example_qstate_def example_receiver_def)
  ultimately show ?thesis using no_lost_wakeups [of heap1_new "{0, 1, 2}" ?s 7 "[]" "[[5]]"] by auto
qed

end
