(* ===== verification/FreeRTOS_Mutex_Correct.thy ===== *)
theory FreeRTOS_Mutex_Correct
  imports FreeRTOS_Queue_Correct
begin

text \<open>
  Mutexes: a task that waits for a mutex lends its priority to the task that holds it, and giving the
  mutex back ends the loan and hands the mutex to the first task in line.
\<close>

section \<open>Waiting for a mutex\<close>

lemma settled_frame:
  assumes "frame k k'" and "typed k" and "typed k'" and "settled k" and "\<And>i. container i k' = Some PendingReadyList \<Longrightarrow> container i k = Some PendingReadyList"
  shows "settled k'"
proof -
  have "i \<notin> set (items PendingReadyList k')" for i
    using assms(5) [of i] typedD(3) [OF assms(2), of i PendingReadyList] typedD(3) [OF assms(3), of i PendingReadyList] assms(4) by (auto simp: settled_def)
  then have "items PendingReadyList k' = []" using last_in_set by blast
  then show ?thesis using assms(4) frameD(9,10) [OF assms(1)] by (simp add: settled_def)
qed

lemma settled_updates [simp]:
  "settled (k\<lparr>uxSchedulerSuspended := n\<rparr>) = settled k" "settled (k\<lparr>xPendSV := b\<rparr>) = settled k" "settled (vTaskSuspendAll k) = settled k"
  "settled (set_tcb t f k) = settled k"
  by (simp_all add: settled_def vTaskSuspendAll_def set_tcb_def)

text \<open>
  Inheritance: a ready holder moves to the ready list of the higher of its own priority and that of
  the running task, and nothing else changes.
\<close>

definition inherited :: "tid \<Rightarrow> nat \<Rightarrow> kernel \<Rightarrow> kernel \<Rightarrow> bool" where
  "inherited t p k k' \<longleftrightarrow> pxCurrentTCB k' = pxCurrentTCB k \<and> uxSchedulerSuspended k' = uxSchedulerSuspended k \<and> xTickCount k' = xTickCount k \<and>
     (\<forall>u. uxPriority (tcb k' u) = (if u = t then max (uxPriority (tcb k t)) p else uxPriority (tcb k u)) \<and>
          uxBasePriority (tcb k' u) = uxBasePriority (tcb k u)) \<and>
     (\<forall>i. container i k' = (if i = StateItem t then Some (ReadyTasks (max (uxPriority (tcb k t)) p)) else container i k))"

lemma inherit_ok:
  assumes "kinv h T k" and "pxCurrentTCB k = Some c" and "container (StateItem t) k = Some (ReadyTasks (uxPriority (tcb k t)))" and "settled k"
  shows "\<exists>b k'. xTaskPriorityInherit (Some t) k = Inr (b, k') \<and> kinv h T k' \<and> settled k' \<and> inherited t (uxPriority (tcb k c)) k k'"
proof (cases "uxPriority (tcb k t) < uxPriority (tcb k c)")
  case False
  then show ?thesis using assms by (auto simp: xTaskPriorityInherit_def current_def inherited_def max_def)
next
  case True
  let ?p = "uxPriority (tcb k c)" and ?f = "uxPriority_update (\<lambda>_. uxPriority (tcb k c))"
  let ?k = "set_event_priority t ?p k"
  have i: "kinv h T ?k" by (rule kinv_set_event_priority [OF assms(1)])
  have p: "?p < configMAX_PRIORITIES" "uxPriority (tcb k t) < configMAX_PRIORITIES" "uxBasePriority (tcb k t) < configMAX_PRIORITIES"
    using kinvD(5) [OF assms(1)] by (simp_all add: prios_ok_def)
  have fields: "settled ?k" "uxSchedulerSuspended ?k = uxSchedulerSuspended k" "xTickCount ?k = xTickCount k"
    using assms(4) by (simp_all add: set_event_priority_def set_item_value_def settled_def kernel_simps)
  obtain k1 where k1: "remove_item (StateItem t) (set_tcb t ?f ?k) = Inr k1" using remove_item_ok [of "set_tcb t ?f ?k" "StateItem t"] assms(3) by auto
  have "uxPriority (tcb k1 t) = ?p"
    using frameD(2) [OF frame_remove [OF _ k1]] kinvD(3) [OF i] by (simp add: typed_def)
  then obtain k2 where k2: "prvAddTaskToReadyList t k1 = Inr k2" using add_ready_ok [of k1 t] p(1) by auto
  have rq: "requeue_if_ready (uxPriority (tcb ?k t)) t (set_tcb t ?f ?k) = Inr k2"
    using k1 k2 assms(3) p(2) by (simp add: requeue_if_ready_def pxReadyTasksLists_def)
  note R = kinv_requeue [OF i rq]
  have R: "kinv h T k2" "frame (set_tcb t ?f ?k) k2" "lcontainer (klists k2) = (lcontainer (klists k))(StateItem t := Some (ReadyTasks ?p))"
    using R p assms(3) by simp_all
  have "typed (set_tcb t ?f ?k)" using kinvD(3) [OF i] by (simp add: typed_def)
  then have "settled k2" using R(3) fields(1) by (intro settled_frame [OF R(2) _ kinvD(3) [OF R(1)]]) (auto split: if_splits)
  moreover have "inherited t ?p k k2" using True frameD [OF R(2)] R(3) fields by (simp add: inherited_def)
  moreover have "xTaskPriorityInherit (Some t) k = Inr (True, k2)"
    using True assms(2) rq by (simp add: xTaskPriorityInherit_def current_def Let_def)
  ultimately show ?thesis using R(1) by blast
qed

text \<open>Where a task that starts to wait stands.\<close>

lemma add_delayed_container:
  assumes "prvAddCurrentTaskToDelayedList w b k = Inr k'" and "sched_inv k" and "w > 0" and "pxCurrentTCB k = Some t"
  shows "container (StateItem t) k' \<noteq> None \<and> (\<forall>p. container (StateItem t) k' \<noteq> Some (ReadyTasks p))"
proof -
  obtain k1 where k1: "remove_item (StateItem t) (set_tcb t (ucDelayAborted_update (\<lambda>_. False)) k) = Inr k1"
    "if w = portMAX_DELAY \<and> b then k' = insert_end_item SuspendedTaskList (StateItem t) k1
     else let k2 = set_item_value (StateItem t) (xTickCount k + w) k1 in
       if xTickCount k + w < xTickCount k then k' = insert_item (pxOverflowDelayedTaskList k) (StateItem t) k2
       else k' = (insert_item (pxDelayedTaskList k) (StateItem t) k2)\<lparr>xNextTaskUnblockTime := min (xTickCount k + w) (xNextTaskUnblockTime k)\<rparr>"
    by (rule add_delayed_cases [OF assms(1-4)]) blast
  have "pxDelayedTaskList k \<in> {DelayedTaskList1, DelayedTaskList2}" "pxOverflowDelayedTaskList k \<in> {DelayedTaskList1, DelayedTaskList2}"
    using assms(2) base_invD(4) lists_okD by (auto simp: sched_inv_def)
  then show ?thesis using k1(2) by (auto simp: Let_def split: if_splits)
qed

text \<open>The running task joins an event list.\<close>

lemma place_ok:
  assumes "kinv h T k" and "settled k" and "pxCurrentTCB k = Some c" and "container (StateItem c) k \<noteq> None" and "container (EventItem c) k = None"
    and "event_list l" and "w > 0" and "event_wait_ok k"
  shows "\<exists>k'. vTaskPlaceOnEventList l w k = Inr k' \<and> kinv h T k' \<and> settled k' \<and> event_wait_ok k' \<and> pxCurrentTCB k' = Some c \<and>
    uxSchedulerSuspended k' = uxSchedulerSuspended k \<and> container (EventItem c) k' = Some l \<and> (\<forall>p. container (StateItem c) k' \<noteq> Some (ReadyTasks p)) \<and>
    (\<forall>u. uxPriority (tcb k' u) = uxPriority (tcb k u) \<and> uxBasePriority (tcb k' u) = uxBasePriority (tcb k u)) \<and>
    (\<forall>i. i \<noteq> StateItem c \<longrightarrow> i \<noteq> EventItem c \<longrightarrow> container i k' = container i k)"
proof -
  let ?k = "insert_item l (EventItem c) k"
  have i: "kinv h T ?k" using assms(5) event_list_fits [OF assms(6)] kinv_listed(3) [OF assms(1,3)] by (intro kinv_insert [OF assms(1)]) auto
  have s: "settled ?k" using assms(2,6) by (auto simp: settled_def insert_item_def list_insert_def Let_def event_list_def)
  obtain k' where k': "prvAddCurrentTaskToDelayedList w True ?k = Inr k'"
    using add_delayed_ok [OF kinvD(1) [OF i], of c] assms(3,4) by auto
  have c: "pxCurrentTCB ?k = Some c" using assms(3) by simp
  note F = add_delayed_fields [OF k' kinvD(3) [OF i] c]
  have "vTaskPlaceOnEventList l w k = Inr k'" using k' assms(3) by (simp add: vTaskPlaceOnEventList_def current_def)
  moreover have "kinv h T k'" by (rule kinv_add_delayed [OF i k' assms(7)])
  moreover have "settled k'" by (rule add_delayed_settled [OF k' kinvD(1) [OF i] assms(7) s])
  moreover have st: "container (StateItem c) k' \<noteq> None \<and> (\<forall>p. container (StateItem c) k' \<noteq> Some (ReadyTasks p))"
    by (rule add_delayed_container [OF k' kinvD(1) [OF i] assms(7) c])
  moreover have "event_wait_ok k'"
    unfolding event_wait_ok_def
  proof (intro allI impI)
    fix u assume "container (EventItem u) k' \<noteq> None"
    then show "container (StateItem u) k' \<noteq> None"
      using st F(3) [of "EventItem u"] F(3) [of "StateItem u"] assms(8) by (cases "u = c") (auto simp: event_wait_ok_def)
  qed
  ultimately show ?thesis using F assms(3) by auto
qed


text \<open>A task that locked a queue and saw no interrupt unlocks it and resumes the scheduler.\<close>

lemma leave_block_ok:
  assumes "settled (kern s)" and "uxSchedulerSuspended (kern s) = 1" and "cTxLock (queue s q) = queueLOCKED_UNMODIFIED" and "cRxLock (queue s q) = queueLOCKED_UNMODIFIED"
  shows "\<exists>s'. leave_block q b s = Inr s' \<and> kern s' = (kern s)\<lparr>uxSchedulerSuspended := 0, xPendSV := xPendSV (kern s) \<or> xYieldPending (kern s) \<or> b\<rparr> \<and>
    queue s' q = (queue s q)\<lparr>cTxLock := queueUNLOCKED, cRxLock := queueUNLOCKED\<rparr>"
proof -
  define s1 where "s1 = set_queue q (cRxLock_update (\<lambda>_. queueUNLOCKED)) (set_queue q (cTxLock_update (\<lambda>_. queueUNLOCKED)) s)"
  have "prvUnlockQueue q s = Inr s1" using assms(3,4) by (simp add: prvUnlockQueue_def queueLOCKED_UNMODIFIED_def Let_def s1_def set_queue_def)
  moreover have "kern s1 = kern s" "queue s1 q = (queue s q)\<lparr>cTxLock := queueUNLOCKED, cRxLock := queueUNLOCKED\<rparr>" by (simp_all add: s1_def)
  ultimately show ?thesis using resume_settled [OF assms(1,2)] by (auto simp: leave_block_def portYIELD_WITHIN_API_def)
qed

text \<open>A mutex that a ready task holds, in a system in which nothing is pending.\<close>

definition held_by :: "tid \<Rightarrow> qid \<Rightarrow> qstate \<Rightarrow> bool" where
  "held_by t q s \<longleftrightarrow> is_mutex (queue s q) \<and> uxItemSize (queue s q) = 0 \<and> uxMessagesWaiting (queue s q) = 0 \<and> xMutexHolder (queue s q) = Some t \<and>
     cTxLock (queue s q) = queueUNLOCKED \<and> cRxLock (queue s q) = queueUNLOCKED \<and> settled (kern s) \<and> uxSchedulerSuspended (kern s) = 0 \<and>
     container (StateItem t) (kern s) = Some (ReadyTasks (uxPriority (tcb (kern s) t)))"

lemma take_held:
  assumes "qinv h T s" and "held_by t q s" and "pxCurrentTCB (kern s) = Some c" and "c \<noteq> t" and "container (StateItem c) (kern s) \<noteq> None"
    and "container (EventItem c) (kern s) = None" and "\<not> ucDelayAborted (tcb (kern s) c)" and "n > 0"
  shows "\<exists>w w' s'. xQueueSemaphoreTake to q n s = Inr (None, w, s) \<and> take_block q w s = Inr (None, w', s') \<and> qinv h T s' \<and> held_by t q s' \<and> xPendSV (kern s') \<and>
    uxPriority (tcb (kern s') t) = max (uxPriority (tcb (kern s) t)) (uxPriority (tcb (kern s) c)) \<and> uxBasePriority (tcb (kern s') t) = uxBasePriority (tcb (kern s) t) \<and>
    container (EventItem c) (kern s') = Some (TasksWaitingToReceive q) \<and> (\<forall>p. container (StateItem c) (kern s') \<noteq> Some (ReadyTasks p))"
proof -
  let ?k = "vTaskSuspendAll (kern s)"
  define w where "w = (wait_start to n)\<lparr>xTimeOut := vTaskInternalSetTimeOutState (kern s), xEntryTimeSet := True\<rparr>"
  note H = assms(2) [unfolded held_by_def]
  have "xTaskGetSchedulerState (kern s) \<noteq> taskSCHEDULER_SUSPENDED" using H by (simp add: xTaskGetSchedulerState_def)
  then have first: "xQueueSemaphoreTake to q n s = Inr (None, w, s)"
    using H assms(8) by (simp add: xQueueSemaphoreTake_def take_try_def scheduler_allows_def enter_wait_def wait_start_def w_def c_assert_def)
  define s1 where "s1 = prvLockQueue q (s\<lparr>kern := ?k\<rparr>)"
  have s1: "kern s1 = ?k" "queue s1 q = (queue s q)\<lparr>cRxLock := queueLOCKED_UNMODIFIED, cTxLock := queueLOCKED_UNMODIFIED\<rparr>"
    using H by (simp_all add: s1_def prvLockQueue_def Let_def)
  have i: "kinv h T ?k" "event_wait_ok ?k" using assms(1) by (simp_all add: qinv_def vTaskSuspendAll_def)
  have time: "\<exists>to'. xTaskCheckForTimeOut (xTimeOut w) (xTicksToWait w) ?k = Inr (False, to', n, ?k)"
    using assms(3,7,8) by (auto simp: xTaskCheckForTimeOut_def current_def vTaskSuspendAll_def w_def wait_start_def vTaskInternalSetTimeOutState_def Let_def)
  then obtain to' where time: "xTaskCheckForTimeOut (xTimeOut w) (xTicksToWait w) ?k = Inr (False, to', n, ?k)" by blast
  have f: "pxCurrentTCB ?k = Some c" "container (StateItem t) ?k = Some (ReadyTasks (uxPriority (tcb ?k t)))" "settled ?k"
    "uxSchedulerSuspended ?k = 1" "tcb ?k = tcb (kern s)"
    using H assms(3) by (simp_all add: vTaskSuspendAll_def)
  obtain b k1 where k1: "xTaskPriorityInherit (Some t) ?k = Inr (b, k1)" "kinv h T k1" "settled k1" "inherited t (uxPriority (tcb ?k c)) ?k k1"
    using inherit_ok [OF i(1) f(1,2,3)] by blast
  have e1: "pxCurrentTCB k1 = Some c" "container (StateItem c) k1 \<noteq> None" "container (EventItem c) k1 = None" "event_wait_ok k1" "uxSchedulerSuspended k1 = 1"
    "uxPriority (tcb k1 t) = max (uxPriority (tcb (kern s) t)) (uxPriority (tcb (kern s) c))" "uxBasePriority (tcb k1 t) = uxBasePriority (tcb (kern s) t)"
    "container (StateItem t) k1 = Some (ReadyTasks (uxPriority (tcb k1 t)))"
    using k1(4) f assms(4-6) i(2) by (auto simp: inherited_def event_wait_ok_def vTaskSuspendAll_def)
  obtain k2 where k2: "vTaskPlaceOnEventList (TasksWaitingToReceive q) n k1 = Inr k2" "kinv h T k2" "settled k2" "event_wait_ok k2"
      "uxSchedulerSuspended k2 = uxSchedulerSuspended k1" "container (EventItem c) k2 = Some (TasksWaitingToReceive q)" "\<forall>p. container (StateItem c) k2 \<noteq> Some (ReadyTasks p)"
      "\<forall>u. uxPriority (tcb k2 u) = uxPriority (tcb k1 u) \<and> uxBasePriority (tcb k2 u) = uxBasePriority (tcb k1 u)"
      "\<forall>i. i \<noteq> StateItem c \<longrightarrow> i \<noteq> EventItem c \<longrightarrow> container i k2 = container i k1"
    using place_ok [OF k1(2,3) e1(1-3) event_list_simps(2) assms(8) e1(4), of q] by (elim exE conjE)
  obtain s2 where s2: "leave_block q True (s1\<lparr>kern := k2\<rparr>) = Inr s2"
      "kern s2 = k2\<lparr>uxSchedulerSuspended := 0, xPendSV := True\<rparr>" "queue s2 q = (queue s1 q)\<lparr>cTxLock := queueUNLOCKED, cRxLock := queueUNLOCKED\<rparr>"
    using leave_block_ok [of "s1\<lparr>kern := k2\<rparr>" q True] k2(3,5) e1(5) s1(2) by auto
  have "take_block q w s = Inr (None, w\<lparr>xTimeOut := to', xTicksToWait := n, xInheritanceOccurred := b\<rparr>, s2)"
    using time k1(1) k2(1) s2(1) H s1 by (simp add: take_block_def Let_def s1_def [symmetric] prvIsQueueEmpty_def is_mutex_def)
  moreover have "qinv h T s2" using k2(2,4) s2(2) by (simp add: qinv_def)
  moreover have "held_by t q s2" using H s1(2) s2(2,3) k2(3,8,9) e1(8) assms(4) by (simp add: held_by_def is_mutex_def)
  ultimately show ?thesis using first s2(2) k2(6,7,8) e1(6,7) by auto
qed


text \<open>
  C7. Priority inheritance: a task that has to wait for a mutex held by a ready task of lower priority
  raises the holder to its own priority before it leaves the processor. The switch then takes place to
  another task of at least the waiting task's priority; and under any sequence of ticks and context
  switches that follows, the holder stays ready at the priority it inherited, and from the first switch
  on no task less urgent than the waiting one runs. The waiting task stands in the mutex's wait list
  and the holder keeps its base priority for later. Nothing is said of what follows a call that changes
  a priority: \<open>vTaskPrioritySet\<close> on the waiting task does not raise the holder again.
\<close>

theorem mutex_no_priority_inversion:
  assumes "qinv h T s" and "held_by t q s" and "pxCurrentTCB (kern s) = Some c" and "c \<noteq> t" and "container (StateItem c) (kern s) \<noteq> None"
    and "container (EventItem c) (kern s) = None" and "\<not> ucDelayAborted (tcb (kern s) c)" and "n > 0"
  shows "\<exists>w w' s' k r. xQueueSemaphoreTake to q n s = Inr (None, w, s) \<and> take_block q w s = Inr (None, w', s') \<and> qinv h T s' \<and> held_by t q s' \<and>
    uxPriority (tcb (kern s') t) = max (uxPriority (tcb (kern s) t)) (uxPriority (tcb (kern s) c)) \<and>
    uxBasePriority (tcb (kern s') t) = uxBasePriority (tcb (kern s) t) \<and> container (EventItem c) (kern s') = Some (TasksWaitingToReceive q) \<and> xPendSV (kern s') \<and>
    xPortPendSVHandler (kern s') = Inr k \<and> pxCurrentTCB k = Some r \<and> r \<noteq> c \<and> uxPriority (tcb k r) \<ge> uxPriority (tcb (kern s) c) \<and>
    (\<forall>is. \<exists>k. interrupts is (kern s') = Inr k \<and> tcb k = tcb (kern s') \<and> container (StateItem t) k = Some (ReadyTasks (uxPriority (tcb (kern s') t))) \<and>
      (PendSV \<in> set is \<longrightarrow> runs_above (uxPriority (tcb (kern s) c)) k))"
proof -
  obtain w w' s' where s': "xQueueSemaphoreTake to q n s = Inr (None, w, s)" "take_block q w s = Inr (None, w', s')" "qinv h T s'" "held_by t q s'" "xPendSV (kern s')"
      "uxPriority (tcb (kern s') t) = max (uxPriority (tcb (kern s) t)) (uxPriority (tcb (kern s) c))" "uxBasePriority (tcb (kern s') t) = uxBasePriority (tcb (kern s) t)"
      "container (EventItem c) (kern s') = Some (TasksWaitingToReceive q)" "\<forall>p. container (StateItem c) (kern s') \<noteq> Some (ReadyTasks p)"
    using take_held [OF assms, of to] by (elim exE conjE)
  let ?k = "(kern s')\<lparr>xPendSV := False\<rparr>" and ?p = "uxPriority (tcb (kern s') t)"
  have i: "sched_inv ?k" "typed (kern s')" "uxSchedulerSuspended ?k = 0" using s'(3,4) kinvD(1,3) by (auto simp: qinv_def held_by_def)
  have "StateItem t \<in> set (items (ReadyTasks ?p) (kern s'))" using s'(4) typedD(3) [OF i(2), of "StateItem t"] by (simp add: held_by_def)
  then have ne: "items (ReadyTasks ?p) ?k \<noteq> []" by auto
  obtain k r p where k: "vTaskSwitchContext ?k = Inr k" "switched ?k k" "top_priority p ?k" "pxCurrentTCB k = Some r"
      "StateItem r \<in> set (items (ReadyTasks p) ?k)" "uxPriority (tcb ?k r) = p"
    using switch_step [OF i(1,3) ne] by (elim exE conjE)
  have "r \<noteq> c" using k(5) s'(9) typedD(3) [OF i(2), of "StateItem r" "ReadyTasks p"] by auto
  moreover have "p \<ge> ?p" using k(3) ne by (auto simp: top_priority_def not_le [symmetric])
  moreover have "xPortPendSVHandler (kern s') = Inr k" using k(1) s'(5) by (simp add: xPortPendSVHandler_def)
  moreover have "serviceable t (kern s')"
    using s'(3,4) kinvD(1,9) by (auto simp: qinv_def held_by_def serviceable_def)
  then have "\<exists>k. interrupts is (kern s') = Inr k \<and> tcb k = tcb (kern s') \<and> container (StateItem t) k = Some (ReadyTasks ?p) \<and>
      (PendSV \<in> set is \<longrightarrow> runs_above (uxPriority (tcb (kern s) c)) k)" for "is"
    using interrupts_run_above [of t "kern s'" "is"] s'(6) by (fastforce simp: serviceable_def runs_above_def)
  ultimately show ?thesis using s' k(2,4,6) by (auto simp: switched_def)
qed

definition example_mutex :: Queue_t where
  "example_mutex = (example_queue 1 0)\<lparr>pcHead := None, xMutexHolder := Some 0\<rparr>"

lemma example_held: "qinv heap1_new {0, 1, 2} (example_qstate (example_kernel 0) example_mutex)" "held_by 0 7 (example_qstate (example_kernel 0) example_mutex)"
  using example_kinv [of 0] by (auto simp: qinv_def event_wait_ok_def held_by_def example_qstate_def example_mutex_def example_queue_def is_mutex_def
      example_kernel_def example_tcb_def settled_def)

theorem mutex_no_priority_inversion_witness:
  "\<exists>w w' s' k r. xQueueSemaphoreTake \<lparr>xOverflowCount = 0, xTimeOnEntering = 0\<rparr> 7 5 (example_qstate (example_kernel 0) example_mutex) =
      Inr (None, w, example_qstate (example_kernel 0) example_mutex) \<and>
    take_block 7 w (example_qstate (example_kernel 0) example_mutex) = Inr (None, w', s') \<and> uxPriority (tcb (kern s') 0) = 3 \<and>
    xPortPendSVHandler (kern s') = Inr k \<and> pxCurrentTCB k = Some r \<and> uxPriority (tcb k r) \<ge> 3"
proof -
  let ?s = "example_qstate (example_kernel 0) example_mutex"
  have "pxCurrentTCB (kern ?s) = Some 1" "container (StateItem 1) (kern ?s) \<noteq> None" "container (EventItem 1) (kern ?s) = None" "\<not> ucDelayAborted (tcb (kern ?s) 1)"
    "uxPriority (tcb (kern ?s) 1) = 3" "uxPriority (tcb (kern ?s) 0) = 0"
    by (simp_all add: example_qstate_def example_kernel_def example_tcb_def)
  then show ?thesis
    using mutex_no_priority_inversion [OF example_held, of 1 5 "\<lparr>xOverflowCount = 0, xTimeOnEntering = 0\<rparr>"] by fastforce
qed

section \<open>Giving a mutex back\<close>

lemma state_item_not_event: "typed k \<Longrightarrow> event_list l \<Longrightarrow> StateItem t \<notin> set (items l k)"
  using typedD(2) event_list_fits(3) by blast

text \<open>The holder falls back to its base priority when it gives back the last mutex it holds.\<close>

lemma disinherit_ok:
  assumes "kinv h T k" and "event_wait_ok k" and "pxCurrentTCB k = Some t" and "uxMutexesHeld (tcb k t) = 1"
    and "container (StateItem t) k = Some (ReadyTasks (uxPriority (tcb k t)))"
  shows "\<exists>b k'. xTaskPriorityDisinherit (Some t) k = Inr (b, k') \<and> kinv h T k' \<and> event_wait_ok k' \<and>
    uxPriority (tcb k' t) = uxBasePriority (tcb k t) \<and> uxMutexesHeld (tcb k' t) = 0 \<and> (\<forall>u. u \<noteq> t \<longrightarrow> tcb k' u = tcb k u) \<and>
    uxSchedulerSuspended k' = uxSchedulerSuspended k \<and> pxCurrentTCB k' = Some t \<and>
    (\<forall>i. container i k' = (if i = StateItem t then Some (ReadyTasks (uxBasePriority (tcb k t))) else container i k)) \<and>
    (\<forall>l. event_list l \<longrightarrow> items l k' = items l k)"
proof -
  let ?k = "set_tcb t (uxMutexesHeld_update (\<lambda>n. n - 1)) k"
  have i: "kinv h T ?k" by (rule kinv_set_tcb_other [OF assms(1)]) simp_all
  show ?thesis
  proof (cases "uxPriority (tcb k t) = uxBasePriority (tcb k t)")
    case True
    moreover have "event_wait_ok ?k" using assms(2) by (simp add: event_wait_ok_def)
    ultimately show ?thesis using i assms(3-5) by (intro exI [of _ False]) (simp add: xTaskPriorityDisinherit_def Let_def set_tcb_def c_assert_def)
  next
    case False
    obtain k1 where k1: "remove_item (StateItem t) ?k = Inr k1" using remove_item_ok [of ?k "StateItem t"] assms(5) by auto
    note R = kinv_remove [OF i k1]
    note F1 = frameD [OF R(2)]
    let ?k2 = "set_item_value (EventItem t) (priority_value (uxBasePriority (tcb k1 t))) (set_tcb t (uxPriority_update (\<lambda>_. uxBasePriority (tcb k1 t))) k1)"
    have base: "uxBasePriority (tcb k1 t) = uxBasePriority (tcb k t)" using F1(2) by simp
    have "uxBasePriority (tcb k t) < configMAX_PRIORITIES" using kinvD(5) [OF assms(1)] by (simp add: prios_ok_def)
    then obtain k3 where k3: "prvAddTaskToReadyList t ?k2 = Inr k3" using add_ready_ok [of ?k2 t] base by auto
    have eq: "xTaskPriorityDisinherit (Some t) k = Inr (True, k3)"
      using assms(3,4) False k1 k3 by (simp add: xTaskPriorityDisinherit_def Let_def c_assert_def)
    note A = add_ready_fields [OF k3]
    have "items l k3 = items l k" if "event_list l" for l
      using A(11) [of l] event_items_distinct(2) [OF that] remove_item_items [OF kinvD(3) [OF i] k1, of l] state_item_not_event [OF kinvD(3) [OF i] that, of t]
      by (simp add: remove1_idem)
    moreover have c: "container j k3 = (if j = StateItem t then Some (ReadyTasks (uxBasePriority (tcb k t))) else container j k)" for j
      using A(1) A(2) [of j] R(3) base by simp
    moreover have "event_wait_ok k3" using assms(2) c by (simp add: event_wait_ok_def)
    moreover have "kinv h T k3" by (rule kinv_xTaskPriorityDisinherit [OF assms(1) eq])
    ultimately show ?thesis using eq A(4,9,10) F1(2,6,7) assms(3,4) by (intro exI [of _ True] exI [of _ k3]) simp
  qed
qed

text \<open>
  C17. Giving back a mutex ends the inheritance and hands the mutex on: the task that holds it, and no
  other mutex, falls back to its base priority; the mutex is free, and the first task of its wait
  list becomes ready and leaves the list, so that its renewed attempt takes the mutex.
\<close>

theorem mutex_give_hands_over:
  assumes "qinv h T s" and "held_by t q s" and "pxCurrentTCB (kern s) = Some t" and "uxMutexesHeld (tcb (kern s) t) = 1" and "uxLength (queue s q) = 1"
    and "items (TasksWaitingToReceive q) (kern s) = EventItem c # is" and "c \<noteq> t"
  shows "\<exists>w s'. xSemaphoreGive to q s = Inr (Some True, w, s') \<and> qinv h T s' \<and> uxPriority (tcb (kern s') t) = uxBasePriority (tcb (kern s) t) \<and>
    xMutexHolder (queue s' q) = None \<and> uxMessagesWaiting (queue s' q) = 1 \<and> items (TasksWaitingToReceive q) (kern s') = is \<and>
    container (StateItem c) (kern s') = Some (ReadyTasks (uxPriority (tcb (kern s) c))) \<and>
    (\<exists>s''. take_try q w' (s'\<lparr>kern := (kern s')\<lparr>pxCurrentTCB := Some c\<rparr>\<rparr>) = Inr (Some True, w', s'') \<and> xMutexHolder (queue s'' q) = Some c)"
proof -
  note H = assms(2) [unfolded held_by_def]
  have i: "kinv h T (kern s)" "event_wait_ok (kern s)" "container (StateItem t) (kern s) = Some (ReadyTasks (uxPriority (tcb (kern s) t)))"
    using assms(1) H by (simp_all add: qinv_def)
  obtain b k where k: "xTaskPriorityDisinherit (Some t) (kern s) = Inr (b, k)" "kinv h T k" "event_wait_ok k" "uxPriority (tcb k t) = uxBasePriority (tcb (kern s) t)"
      "\<forall>u. u \<noteq> t \<longrightarrow> tcb k u = tcb (kern s) u" "uxSchedulerSuspended k = uxSchedulerSuspended (kern s)" "\<forall>l. event_list l \<longrightarrow> items l k = items l (kern s)"
    using disinherit_ok [OF i(1,2) assms(3,4) i(3)] by (elim exE conjE)
  have l: "items (TasksWaitingToReceive q) k = EventItem c # is" using k(7) assms(6) by simp
  obtain y k1 where k1: "xTaskRemoveFromEventList (TasksWaitingToReceive q) k = Inr (y, k1)" "kinv h T k1" "event_wait_ok k1" "woken_head (TasksWaitingToReceive q) c k k1"
    using remove_head_ok [OF k(2,3) event_list_simps(2) l] by blast
  let ?k = "if y then portYIELD_WITHIN_API k1 else k1"
  let ?Q = "(queue s q)\<lparr>xMutexHolder := None, uxMessagesWaiting := 1\<rparr>"
  define s' where "s' = set_queue q (\<lambda>_. ?Q) (s\<lparr>kern := ?k\<rparr>)"
  have copy: "prvCopyDataToQueue q None queueSEND_TO_BACK s = Inr (b, set_queue q (\<lambda>_. ?Q) (s\<lparr>kern := k\<rparr>))"
    using H k(1) by (simp add: prvCopyDataToQueue_def messages_before_def Let_def set_queue_def)
  have "wake_waiting (TasksWaitingToReceive q) b k = Inr ?k" using l k1(1) by (simp add: wake_waiting_def)
  then have give: "xSemaphoreGive to q s = Inr (Some True, wait_start to 0, s')"
    using copy H assms(5) by (simp add: xSemaphoreGive_def xQueueGenericSend_def send_checks_def scheduler_allows_def send_try_def s'_def set_queue_def)
  have s': "kern s' = ?k" "queue s' q = ?Q" by (simp_all add: s'_def)
  have q: "kinv h T ?k" "event_wait_ok ?k" using k1(2,3) by simp_all
  have "c \<in> T" using l typedD(3) [OF kinvD(3) [OF k(2)], of "EventItem c" "TasksWaitingToReceive q"] kinv_outside(2) [OF k(2), of c] by (cases "c \<in> T") auto
  then have "kinv h T (?k\<lparr>pxCurrentTCB := Some c\<rparr>)" using q(1) by (intro kinv_set_current) simp_all
  then have "kinv h T (snd (pvTaskIncrementMutexHeldCount (?k\<lparr>pxCurrentTCB := Some c\<rparr>)))" "event_wait_ok (snd (pvTaskIncrementMutexHeldCount (?k\<lparr>pxCurrentTCB := Some c\<rparr>)))"
    using q(2) kinv_pvTaskIncrementMutexHeldCount [of h T "?k\<lparr>pxCurrentTCB := Some c\<rparr>"]
    by (simp_all add: pvTaskIncrementMutexHeldCount_def event_wait_ok_def)
  from wake_waiting_ok [OF this event_list_simps(1) [of q], where y = False] have
    "\<exists>s''. take_try q w' (s'\<lparr>kern := (kern s')\<lparr>pxCurrentTCB := Some c\<rparr>\<rparr>) = Inr (Some True, w', s'') \<and> xMutexHolder (queue s'' q) = Some c"
    using H s' by (auto simp: take_try_def is_mutex_def Let_def pvTaskIncrementMutexHeldCount_def)
  moreover have "uxSchedulerSuspended k = 0" using k(6) H by simp
  then have "container (StateItem c) ?k = Some (ReadyTasks (uxPriority (tcb (kern s) c)))" "tcb ?k = tcb k" "items (TasksWaitingToReceive q) ?k = is"
    using k1(4) l k(5) assms(7) by (auto simp: woken_head_def portYIELD_WITHIN_API_def)
  moreover have "qinv h T s'" using q s'(1) by (simp add: qinv_def)
  ultimately show ?thesis using give s' k(4) by auto
qed

text \<open>Task 0 holds the mutex of the example and has inherited the priority of task 1, which waits for it.\<close>

definition example_holder :: qstate where
  "example_holder = example_qstate (example_receiver\<lparr>tcb := (\<lambda>t. if t = 0 then (example_tcb 3)\<lparr>uxBasePriority := 0, uxMutexesHeld := 1\<rparr> else example_tcb 3),
     klists := (klists example_receiver)\<lparr>litems := (\<lambda>l. if l = ReadyTasks 3 then [StateItem 0, StateItem 2] else if l = SuspendedTaskList then [StateItem 1] else
                  if l = TasksWaitingToReceive 7 then [EventItem 1] else []),
       lcontainer := (\<lambda>i. if i = StateItem 0 \<or> i = StateItem 2 then Some (ReadyTasks 3) else
                  if i = StateItem 1 then Some SuspendedTaskList else if i = EventItem 1 then Some (TasksWaitingToReceive 7) else None)\<rparr>\<rparr>) example_mutex"

lemma example_holder_ok: "qinv heap1_new {0, 1, 2} example_holder" "held_by 0 7 example_holder"
  by (auto simp: qinv_def held_by_def settled_def is_mutex_def kinv_def sched_inv_def base_inv_def typed_def lists_wf_def ready_ok_def delayed_ok_def lists_ok_def future_def
      prios_ok_def listed_def event_wait_ok_def example_holder_def example_receiver_def example_kernel_def example_tcb_def example_qstate_def example_mutex_def example_queue_def
      configMAX_PRIORITIES_def split: if_splits)

theorem mutex_give_hands_over_witness:
  "\<exists>w s'. xSemaphoreGive \<lparr>xOverflowCount = 0, xTimeOnEntering = 0\<rparr> 7 example_holder = Inr (Some True, w, s') \<and> uxPriority (tcb (kern s') 0) = 0 \<and>
    xMutexHolder (queue s' 7) = None \<and> container (StateItem 1) (kern s') = Some (ReadyTasks 3)"
proof -
  have "pxCurrentTCB (kern example_holder) = Some 0" "uxMutexesHeld (tcb (kern example_holder) 0) = 1" "uxLength (queue example_holder 7) = 1"
    "items (TasksWaitingToReceive 7) (kern example_holder) = EventItem 1 # []" "(1::nat) \<noteq> 0"
    "uxBasePriority (tcb (kern example_holder) 0) = 0" "uxPriority (tcb (kern example_holder) 1) = 3"
    by (simp_all add: example_holder_def example_qstate_def example_receiver_def example_mutex_def example_queue_def example_tcb_def)
  then show ?thesis using mutex_give_hands_over [OF example_holder_ok, of 1 "[]" "\<lparr>xOverflowCount = 0, xTimeOnEntering = 0\<rparr>"] by (simp del: One_nat_def) blast
qed

end
