(* ===== verification/FreeRTOS_Timers.thy ===== *)
theory FreeRTOS_Timers
  imports FreeRTOS_Queue
begin

text \<open>
  Software timers: \<^verbatim>\<open>timers.c\<close>. Active timers stand in two lists ordered by expiry time, one for
  the current run of the tick counter and one for the time after its next overflow. The timer task
  waits for the next expiry or a command, which other tasks send through a queue as a structure of
  sixteen bytes. What the application's callbacks do is a parameter; they may change the whole state,
  including the application's own memory.
\<close>

unbundle bit_operations_syntax

section \<open>Data\<close>

definition configTIMER_TASK_PRIORITY :: nat where "configTIMER_TASK_PRIORITY = 2"

definition configTIMER_QUEUE_LENGTH :: u32 where "configTIMER_QUEUE_LENGTH = 10"

definition configTIMER_TASK_STACK_DEPTH :: u16 where "configTIMER_TASK_STACK_DEPTH = 180"

definition tmrMAX_TIME_BEFORE_OVERFLOW :: u32 where "tmrMAX_TIME_BEFORE_OVERFLOW = - 1"

definition tmrSTATUS_IS_ACTIVE :: u8 where "tmrSTATUS_IS_ACTIVE = 0x01"

definition tmrSTATUS_IS_STATICALLY_ALLOCATED :: u8 where "tmrSTATUS_IS_STATICALLY_ALLOCATED = 0x02"

definition tmrSTATUS_IS_AUTORELOAD :: u8 where "tmrSTATUS_IS_AUTORELOAD = 0x04"

definition tmrCOMMAND_EXECUTE_CALLBACK_FROM_ISR :: int where "tmrCOMMAND_EXECUTE_CALLBACK_FROM_ISR = - 2"

definition tmrCOMMAND_EXECUTE_CALLBACK :: int where "tmrCOMMAND_EXECUTE_CALLBACK = - 1"

definition tmrCOMMAND_START :: int where "tmrCOMMAND_START = 1"

definition tmrCOMMAND_RESET :: int where "tmrCOMMAND_RESET = 2"

definition tmrCOMMAND_STOP :: int where "tmrCOMMAND_STOP = 3"

definition tmrCOMMAND_CHANGE_PERIOD :: int where "tmrCOMMAND_CHANGE_PERIOD = 4"

definition tmrCOMMAND_DELETE :: int where "tmrCOMMAND_DELETE = 5"

definition tmrFIRST_FROM_ISR_COMMAND :: int where "tmrFIRST_FROM_ISR_COMMAND = 6"

definition tmrCOMMAND_START_FROM_ISR :: int where "tmrCOMMAND_START_FROM_ISR = 6"

definition tmrCOMMAND_RESET_FROM_ISR :: int where "tmrCOMMAND_RESET_FROM_ISR = 7"

definition tmrCOMMAND_STOP_FROM_ISR :: int where "tmrCOMMAND_STOP_FROM_ISR = 8"

definition tmrCOMMAND_CHANGE_PERIOD_FROM_ISR :: int where "tmrCOMMAND_CHANGE_PERIOD_FROM_ISR = 9"

lemmas timer_commands = tmrCOMMAND_EXECUTE_CALLBACK_FROM_ISR_def tmrCOMMAND_EXECUTE_CALLBACK_def tmrCOMMAND_START_def tmrCOMMAND_RESET_def
  tmrCOMMAND_STOP_def tmrCOMMAND_CHANGE_PERIOD_def tmrCOMMAND_DELETE_def tmrFIRST_FROM_ISR_COMMAND_def tmrCOMMAND_START_FROM_ISR_def
  tmrCOMMAND_RESET_FROM_ISR_def tmrCOMMAND_STOP_FROM_ISR_def tmrCOMMAND_CHANGE_PERIOD_FROM_ISR_def

lemmas timer_status = tmrSTATUS_IS_ACTIVE_def tmrSTATUS_IS_STATICALLY_ALLOCATED_def tmrSTATUS_IS_AUTORELOAD_def

datatype timer_list = xActiveTimerList1 | xActiveTimerList2

text \<open>The list item of a timer is the timer's identity in the lists; its value is the expiry time.\<close>

record Timer_t =
  pcTimerName :: string
  xTimerPeriodInTicks :: u32
  pvTimerID :: u32
  pxCallbackFunction :: u32
  uxTimerNumber :: u32
  ucStatus :: u8

text \<open>A timer is known by its address. The application's memory is of an arbitrary type.\<close>

type_synonym timer_id = nat

record 'x timers =
  qs :: qstate
  timer :: "timer_id \<Rightarrow> Timer_t"
  tlists :: "(timer_list, timer_id) lists"
  pxCurrentTimerList :: timer_list
  pxOverflowTimerList :: timer_list
  xTimerQueue :: "qid option"
  xTimerTaskHandle :: "tid option"
  xLastTime :: u32
  app :: 'x

definition sizeof_Timer_t :: u32 where "sizeof_Timer_t = 44"

definition sizeof_DaemonTaskMessage_t :: u32 where "sizeof_DaemonTaskMessage_t = 16"

text \<open>The application's callbacks, called with a timer or with two parameters.\<close>

record 'x callbacks =
  timer_callback :: "u32 \<Rightarrow> timer_id \<Rightarrow> 'x timers \<Rightarrow> 'x timers res"
  pended_function :: "u32 \<Rightarrow> u32 \<Rightarrow> u32 \<Rightarrow> 'x timers \<Rightarrow> 'x timers res"

definition set_timer :: "timer_id \<Rightarrow> (Timer_t \<Rightarrow> Timer_t) \<Rightarrow> 'x timers \<Rightarrow> 'x timers" where
  "set_timer t f s = s\<lparr>timer := (timer s)(t := f (timer s t))\<rparr>"

definition autoreload :: "timer_id \<Rightarrow> 'x timers \<Rightarrow> bool" where
  "autoreload t s \<longleftrightarrow> ucStatus (timer s t) AND tmrSTATUS_IS_AUTORELOAD \<noteq> 0"

definition mark_active :: "timer_id \<Rightarrow> 'x timers \<Rightarrow> 'x timers" where
  "mark_active t = set_timer t (ucStatus_update (\<lambda>b. b OR tmrSTATUS_IS_ACTIVE))"

definition mark_inactive :: "timer_id \<Rightarrow> 'x timers \<Rightarrow> 'x timers" where
  "mark_inactive t = set_timer t (ucStatus_update (\<lambda>b. b AND NOT tmrSTATUS_IS_ACTIVE))"

definition call_timer :: "'x callbacks \<Rightarrow> timer_id \<Rightarrow> 'x timers \<Rightarrow> 'x timers res" where
  "call_timer C t s = timer_callback C (pxCallbackFunction (timer s t)) t s"

section \<open>Messages\<close>

text \<open>
  The structure \<^verbatim>\<open>DaemonTaskMessage_t\<close> in memory: the command, and a union of a value and a timer or
  of a function and its two parameters. The last four bytes of a timer command are not written.
\<close>

definition word_bytes :: "u32 \<Rightarrow> u8 list" where
  "word_bytes w = map (\<lambda>i. ucast (drop_bit (8 * i) w)) [0..<4]"

definition bytes_word :: "u8 list \<Rightarrow> u32" where
  "bytes_word bs = foldr (\<lambda>b w. push_bit 8 w OR ucast b) bs 0"

definition timer_message :: "int \<Rightarrow> u32 \<Rightarrow> timer_id \<Rightarrow> u8 list \<Rightarrow> u8 list" where
  "timer_message xMessageID xMessageValue pxTimer rest =
     word_bytes (word_of_int xMessageID) @ word_bytes xMessageValue @ word_bytes (of_nat pxTimer) @ rest"

definition callback_message :: "int \<Rightarrow> u32 \<Rightarrow> u32 \<Rightarrow> u32 \<Rightarrow> u8 list" where
  "callback_message xMessageID fn pvParameter1 ulParameter2 =
     word_bytes (word_of_int xMessageID) @ word_bytes fn @ word_bytes pvParameter1 @ word_bytes ulParameter2"

definition word_at :: "u8 list \<Rightarrow> nat \<Rightarrow> u32" where
  "word_at bs n = bytes_word (take 4 (drop n bs))"

definition message_id :: "u8 list \<Rightarrow> int" where "message_id bs = sint (word_at bs 0)"

section \<open>Creation\<close>

definition prvCheckForValidListAndQueue :: "u32 \<Rightarrow> (nat \<Rightarrow> u8) \<Rightarrow> 'x timers \<Rightarrow> 'x timers res" where
  "prvCheckForValidListAndQueue ucHeap mem s =
     (if xTimerQueue s = None then
        let s = s\<lparr>tlists := list_initialise xActiveTimerList2 (list_initialise xActiveTimerList1 (tlists s)),
                  pxCurrentTimerList := xActiveTimerList1, pxOverflowTimerList := xActiveTimerList2\<rparr>
        in rbind (xQueueGenericCreate ucHeap mem configTIMER_QUEUE_LENGTH sizeof_DaemonTaskMessage_t queueQUEUE_TYPE_BASE (qs s)) (\<lambda>(q, qs').
           Inr (s\<lparr>xTimerQueue := q, qs := (case q of None \<Rightarrow> qs' | Some q \<Rightarrow> vQueueAddToRegistry q (Some ''TmrQ'') qs')\<rparr>))
      else Inr s)"

definition xTimerCreateTimerTask :: "u32 \<Rightarrow> (nat \<Rightarrow> u8) \<Rightarrow> 'x timers \<Rightarrow> (bool \<times> 'x timers) res" where
  "xTimerCreateTimerTask ucHeap mem s =
     rbind (prvCheckForValidListAndQueue ucHeap mem s) (\<lambda>s.
     rbind (if xTimerQueue s \<noteq> None
            then rbind (xTaskCreate ucHeap ''Tmr Svc'' configTIMER_TASK_STACK_DEPTH configTIMER_TASK_PRIORITY (kern (qs s))) (\<lambda>(t, k).
                 let s = s\<lparr>qs := (qs s)\<lparr>kern := k\<rparr>\<rparr>
                 in Inr (t \<noteq> None, case t of None \<Rightarrow> s | Some t \<Rightarrow> s\<lparr>xTimerTaskHandle := Some t\<rparr>))
            else Inr (False, s)) (\<lambda>(xReturn, s).
     rbind (c_assert xReturn) (\<lambda>_. Inr (xReturn, s))))"

definition prvInitialiseNewTimer ::
    "u32 \<Rightarrow> (nat \<Rightarrow> u8) \<Rightarrow> string \<Rightarrow> u32 \<Rightarrow> bool \<Rightarrow> u32 \<Rightarrow> u32 \<Rightarrow> timer_id \<Rightarrow> 'x timers \<Rightarrow> 'x timers res" where
  "prvInitialiseNewTimer ucHeap mem name period xAutoReload ID fn t s =
     rbind (c_assert (period > 0)) (\<lambda>_.
     rbind (prvCheckForValidListAndQueue ucHeap mem s) (\<lambda>s.
     let s = set_timer t (\<lambda>T. T\<lparr>pcTimerName := name, xTimerPeriodInTicks := period, pvTimerID := ID, pxCallbackFunction := fn\<rparr>) s;
         s = s\<lparr>tlists := list_initialise_item t (tlists s)\<rparr>
     in Inr (if xAutoReload then set_timer t (ucStatus_update (\<lambda>b. b OR tmrSTATUS_IS_AUTORELOAD)) s else s)))"

definition xTimerCreate :: "u32 \<Rightarrow> (nat \<Rightarrow> u8) \<Rightarrow> string \<Rightarrow> u32 \<Rightarrow> bool \<Rightarrow> u32 \<Rightarrow> u32 \<Rightarrow> 'x timers \<Rightarrow> (timer_id option \<times> 'x timers) res" where
  "xTimerCreate ucHeap mem name period xAutoReload ID fn s =
     (case pvPortMalloc ucHeap sizeof_Timer_t (heap (kern (qs s))) of
        (None, h) \<Rightarrow> Inr (None, s\<lparr>qs := (qs s)\<lparr>kern := (kern (qs s))\<lparr>heap := h\<rparr>\<rparr>\<rparr>)
      | (Some a, h) \<Rightarrow>
          let s = s\<lparr>qs := (qs s)\<lparr>kern := (kern (qs s))\<lparr>heap := h\<rparr>\<rparr>\<rparr>; t = unat a
          in rbind (prvInitialiseNewTimer ucHeap mem name period xAutoReload ID fn t (set_timer t (ucStatus_update (\<lambda>_. 0)) s)) (\<lambda>s.
             Inr (Some t, s)))"

section \<open>Commands\<close>

text \<open>
  The result of a send that has to wait is \<^const>\<open>None\<close>, as for the queue; an interrupt also learns
  whether it has to yield.
\<close>

definition xTimerGenericCommand ::
    "u8 list \<Rightarrow> TimeOut_t \<Rightarrow> timer_id option \<Rightarrow> int \<Rightarrow> u32 \<Rightarrow> u32 \<Rightarrow> 'x timers \<Rightarrow> (bool option \<times> bool \<times> 'x timers) res" where
  "xTimerGenericCommand rest to xTimer xCommandID xOptionalValue xTicks s =
     (case xTimer of
        None \<Rightarrow> Inl AssertFailed
      | Some t \<Rightarrow>
          (case xTimerQueue s of
             None \<Rightarrow> Inr (Some False, False, s)
           | Some q \<Rightarrow>
               let xMessage = timer_message xCommandID xOptionalValue t rest
               in if xCommandID < tmrFIRST_FROM_ISR_COMMAND
                  then rbind (xQueueGenericSend to q (Some xMessage)
                               (if xTaskGetSchedulerState (kern (qs s)) = taskSCHEDULER_RUNNING then xTicks else 0) queueSEND_TO_BACK (qs s)) (\<lambda>(r, _, qs').
                       Inr (r, False, s\<lparr>qs := qs'\<rparr>))
                  else rbind (xQueueGenericSendFromISR q (Some xMessage) queueSEND_TO_BACK (qs s)) (\<lambda>(r, woken, qs').
                       Inr (Some r, woken, s\<lparr>qs := qs'\<rparr>))))"

definition xTimerStart :: "u8 list \<Rightarrow> TimeOut_t \<Rightarrow> timer_id option \<Rightarrow> u32 \<Rightarrow> 'x timers \<Rightarrow> (bool option \<times> bool \<times> 'x timers) res" where
  "xTimerStart rest to t xTicks s = xTimerGenericCommand rest to t tmrCOMMAND_START (xTaskGetTickCount (kern (qs s))) xTicks s"

definition xTimerStop :: "u8 list \<Rightarrow> TimeOut_t \<Rightarrow> timer_id option \<Rightarrow> u32 \<Rightarrow> 'x timers \<Rightarrow> (bool option \<times> bool \<times> 'x timers) res" where
  "xTimerStop rest to t xTicks s = xTimerGenericCommand rest to t tmrCOMMAND_STOP 0 xTicks s"

definition xTimerChangePeriod :: "u8 list \<Rightarrow> TimeOut_t \<Rightarrow> timer_id option \<Rightarrow> u32 \<Rightarrow> u32 \<Rightarrow> 'x timers \<Rightarrow> (bool option \<times> bool \<times> 'x timers) res" where
  "xTimerChangePeriod rest to t period xTicks s = xTimerGenericCommand rest to t tmrCOMMAND_CHANGE_PERIOD period xTicks s"

definition xTimerDelete :: "u8 list \<Rightarrow> TimeOut_t \<Rightarrow> timer_id option \<Rightarrow> u32 \<Rightarrow> 'x timers \<Rightarrow> (bool option \<times> bool \<times> 'x timers) res" where
  "xTimerDelete rest to t xTicks s = xTimerGenericCommand rest to t tmrCOMMAND_DELETE 0 xTicks s"

definition xTimerReset :: "u8 list \<Rightarrow> TimeOut_t \<Rightarrow> timer_id option \<Rightarrow> u32 \<Rightarrow> 'x timers \<Rightarrow> (bool option \<times> bool \<times> 'x timers) res" where
  "xTimerReset rest to t xTicks s = xTimerGenericCommand rest to t tmrCOMMAND_RESET (xTaskGetTickCount (kern (qs s))) xTicks s"

definition xTimerPendFunctionCallFromISR :: "u32 \<Rightarrow> u32 \<Rightarrow> u32 \<Rightarrow> 'x timers \<Rightarrow> (bool \<times> bool \<times> 'x timers) res" where
  "xTimerPendFunctionCallFromISR fn p1 p2 s =
     (case xTimerQueue s of
        None \<Rightarrow> Inl NullPointer
      | Some q \<Rightarrow> rbind (xQueueGenericSendFromISR q (Some (callback_message tmrCOMMAND_EXECUTE_CALLBACK_FROM_ISR fn p1 p2)) queueSEND_TO_BACK (qs s))
          (\<lambda>(r, woken, qs'). Inr (r, woken, s\<lparr>qs := qs'\<rparr>)))"

definition xTimerPendFunctionCall :: "TimeOut_t \<Rightarrow> u32 \<Rightarrow> u32 \<Rightarrow> u32 \<Rightarrow> u32 \<Rightarrow> 'x timers \<Rightarrow> (bool option \<times> 'x timers) res" where
  "xTimerPendFunctionCall to fn p1 p2 xTicks s =
     (case xTimerQueue s of
        None \<Rightarrow> Inl AssertFailed
      | Some q \<Rightarrow> rbind (xQueueGenericSend to q (Some (callback_message tmrCOMMAND_EXECUTE_CALLBACK fn p1 p2)) xTicks queueSEND_TO_BACK (qs s))
          (\<lambda>(r, _, qs'). Inr (r, s\<lparr>qs := qs'\<rparr>)))"

section \<open>Queries and settings\<close>

definition xTimerGetTimerDaemonTaskHandle :: "'x timers \<Rightarrow> tid res" where
  "xTimerGetTimerDaemonTaskHandle s = (case xTimerTaskHandle s of None \<Rightarrow> Inl AssertFailed | Some t \<Rightarrow> Inr t)"

definition with_timer :: "timer_id option \<Rightarrow> (timer_id \<Rightarrow> 'a) \<Rightarrow> 'a res" where
  "with_timer xTimer f = (case xTimer of None \<Rightarrow> Inl AssertFailed | Some t \<Rightarrow> Inr (f t))"

definition xTimerGetPeriod :: "timer_id option \<Rightarrow> 'x timers \<Rightarrow> u32 res" where
  "xTimerGetPeriod xTimer s = with_timer xTimer (\<lambda>t. xTimerPeriodInTicks (timer s t))"

definition vTimerSetReloadMode :: "timer_id option \<Rightarrow> bool \<Rightarrow> 'x timers \<Rightarrow> 'x timers res" where
  "vTimerSetReloadMode xTimer xAutoReload s = with_timer xTimer (\<lambda>t. set_timer t (ucStatus_update (\<lambda>b.
     if xAutoReload then b OR tmrSTATUS_IS_AUTORELOAD else b AND NOT tmrSTATUS_IS_AUTORELOAD)) s)"

definition xTimerGetReloadMode :: "timer_id option \<Rightarrow> 'x timers \<Rightarrow> bool res" where
  "xTimerGetReloadMode xTimer s = with_timer xTimer (\<lambda>t. ucStatus (timer s t) AND tmrSTATUS_IS_AUTORELOAD \<noteq> 0)"

definition xTimerGetExpiryTime :: "timer_id option \<Rightarrow> 'x timers \<Rightarrow> u32 res" where
  "xTimerGetExpiryTime xTimer s = with_timer xTimer (\<lambda>t. lvalue (tlists s) t)"

definition pcTimerGetName :: "timer_id option \<Rightarrow> 'x timers \<Rightarrow> string res" where
  "pcTimerGetName xTimer s = with_timer xTimer (\<lambda>t. pcTimerName (timer s t))"

definition xTimerIsTimerActive :: "timer_id option \<Rightarrow> 'x timers \<Rightarrow> bool res" where
  "xTimerIsTimerActive xTimer s = with_timer xTimer (\<lambda>t. ucStatus (timer s t) AND tmrSTATUS_IS_ACTIVE \<noteq> 0)"

definition pvTimerGetTimerID :: "timer_id option \<Rightarrow> 'x timers \<Rightarrow> u32 res" where
  "pvTimerGetTimerID xTimer s = with_timer xTimer (\<lambda>t. pvTimerID (timer s t))"

definition vTimerSetTimerID :: "timer_id option \<Rightarrow> u32 \<Rightarrow> 'x timers \<Rightarrow> 'x timers res" where
  "vTimerSetTimerID xTimer ID s = with_timer xTimer (\<lambda>t. set_timer t (pvTimerID_update (\<lambda>_. ID)) s)"

definition uxTimerGetTimerNumber :: "timer_id \<Rightarrow> 'x timers \<Rightarrow> u32" where
  "uxTimerGetTimerNumber t s = uxTimerNumber (timer s t)"

definition vTimerSetTimerNumber :: "timer_id \<Rightarrow> u32 \<Rightarrow> 'x timers \<Rightarrow> 'x timers" where
  "vTimerSetTimerNumber t n s = set_timer t (uxTimerNumber_update (\<lambda>_. n)) s"

section \<open>The timer task\<close>

definition prvInsertTimerInActiveList :: "timer_id \<Rightarrow> u32 \<Rightarrow> u32 \<Rightarrow> u32 \<Rightarrow> 'x timers \<Rightarrow> bool \<times> 'x timers" where
  "prvInsertTimerInActiveList t xNextExpiryTime xTimeNow xCommandTime s =
     (let s = s\<lparr>tlists := list_set_value t xNextExpiryTime (tlists s)\<rparr>
      in if xNextExpiryTime \<le> xTimeNow then
           if xTimeNow - xCommandTime \<ge> xTimerPeriodInTicks (timer s t) then (True, s)
           else (False, s\<lparr>tlists := list_insert (pxOverflowTimerList s) t (tlists s)\<rparr>)
         else
           if xTimeNow < xCommandTime \<and> xNextExpiryTime \<ge> xCommandTime then (True, s)
           else (False, s\<lparr>tlists := list_insert (pxCurrentTimerList s) t (tlists s)\<rparr>))"

text \<open>
  The loops of the timer task go round until a timer's expiry lies ahead, until a list is empty, or
  until the queue is empty. Callbacks can make them go on; the first argument bounds their passes.
\<close>

fun reload_loop :: "'x callbacks \<Rightarrow> nat \<Rightarrow> timer_id \<Rightarrow> u32 \<Rightarrow> u32 \<Rightarrow> 'x timers \<Rightarrow> 'x timers res" where
  "reload_loop C 0 t xExpiredTime xTimeNow s = Inl Diverges"
| "reload_loop C (Suc n) t xExpiredTime xTimeNow s =
     (let (now, s) = prvInsertTimerInActiveList t (xExpiredTime + xTimerPeriodInTicks (timer s t)) xTimeNow xExpiredTime s
      in if now
         then let xExpiredTime = xExpiredTime + xTimerPeriodInTicks (timer s t)
              in rbind (call_timer C t s) (reload_loop C n t xExpiredTime xTimeNow)
         else Inr s)"

definition prvReloadTimer :: "'x callbacks \<Rightarrow> nat \<Rightarrow> timer_id \<Rightarrow> u32 \<Rightarrow> u32 \<Rightarrow> 'x timers \<Rightarrow> 'x timers res" where
  "prvReloadTimer C fuel t xExpiredTime xTimeNow s = reload_loop C fuel t xExpiredTime xTimeNow s"

definition prvProcessExpiredTimer :: "'x callbacks \<Rightarrow> nat \<Rightarrow> u32 \<Rightarrow> u32 \<Rightarrow> 'x timers \<Rightarrow> 'x timers res" where
  "prvProcessExpiredTimer C fuel xNextExpireTime xTimeNow s =
     rbind (list_head (pxCurrentTimerList s) (tlists s)) (\<lambda>t.
     rbind (list_remove t (tlists s)) (\<lambda>L.
     let s = s\<lparr>tlists := L\<rparr>
     in rbind (if autoreload t s then prvReloadTimer C fuel t xNextExpireTime xTimeNow s else Inr (mark_inactive t s)) (call_timer C t)))"

fun switch_loop :: "'x callbacks \<Rightarrow> nat \<Rightarrow> nat \<Rightarrow> 'x timers \<Rightarrow> 'x timers res" where
  "switch_loop C fuel 0 s = Inl Diverges"
| "switch_loop C fuel (Suc n) s =
     (case litems (tlists s) (pxCurrentTimerList s) of
        [] \<Rightarrow> Inr s
      | t # _ \<Rightarrow> rbind (prvProcessExpiredTimer C fuel (lvalue (tlists s) t) tmrMAX_TIME_BEFORE_OVERFLOW s) (switch_loop C fuel n))"

definition prvSwitchTimerLists :: "'x callbacks \<Rightarrow> nat \<Rightarrow> 'x timers \<Rightarrow> 'x timers res" where
  "prvSwitchTimerLists C fuel s =
     rbind (switch_loop C fuel fuel s) (\<lambda>s.
     Inr (s\<lparr>pxCurrentTimerList := pxOverflowTimerList s, pxOverflowTimerList := pxCurrentTimerList s\<rparr>))"

definition prvSampleTimeNow :: "'x callbacks \<Rightarrow> nat \<Rightarrow> 'x timers \<Rightarrow> (u32 \<times> bool \<times> 'x timers) res" where
  "prvSampleTimeNow C fuel s =
     (let xTimeNow = xTaskGetTickCount (kern (qs s)); switched = (xTimeNow < xLastTime s)
      in rbind (if switched then prvSwitchTimerLists C fuel s else Inr s) (\<lambda>s.
         Inr (xTimeNow, switched, s\<lparr>xLastTime := xTimeNow\<rparr>)))"

definition prvGetNextExpireTime :: "'x timers \<Rightarrow> u32 \<times> bool" where
  "prvGetNextExpireTime s =
     (case litems (tlists s) (pxCurrentTimerList s) of [] \<Rightarrow> (0, True) | t # _ \<Rightarrow> (lvalue (tlists s) t, False))"

definition resume_all :: "'x timers \<Rightarrow> (bool \<times> 'x timers) res" where
  "resume_all s = rbind (xTaskResumeAll (kern (qs s))) (\<lambda>(b, k). Inr (b, s\<lparr>qs := (qs s)\<lparr>kern := k\<rparr>\<rparr>))"

definition prvProcessTimerOrBlockTask :: "'x callbacks \<Rightarrow> nat \<Rightarrow> u32 \<Rightarrow> bool \<Rightarrow> 'x timers \<Rightarrow> 'x timers res" where
  "prvProcessTimerOrBlockTask C fuel xNextExpireTime xListWasEmpty s =
     rbind (prvSampleTimeNow C fuel (s\<lparr>qs := (qs s)\<lparr>kern := vTaskSuspendAll (kern (qs s))\<rparr>\<rparr>)) (\<lambda>(xTimeNow, switched, s).
     if \<not> switched then
       if \<not> xListWasEmpty \<and> xNextExpireTime \<le> xTimeNow
       then rbind (resume_all s) (\<lambda>(_, s). prvProcessExpiredTimer C fuel xNextExpireTime xTimeNow s)
       else
         let xListWasEmpty = (if xListWasEmpty then litems (tlists s) (pxOverflowTimerList s) = [] else xListWasEmpty)
         in (case xTimerQueue s of
               None \<Rightarrow> Inl NullPointer
             | Some q \<Rightarrow>
                 rbind (vQueueWaitForMessageRestricted q (xNextExpireTime - xTimeNow) xListWasEmpty (qs s)) (\<lambda>qs'.
                 rbind (resume_all (s\<lparr>qs := qs'\<rparr>)) (\<lambda>(yielded, s).
                 Inr (if \<not> yielded then s\<lparr>qs := (qs s)\<lparr>kern := portYIELD_WITHIN_API (kern (qs s))\<rparr>\<rparr> else s))))
     else rbind (resume_all s) (\<lambda>(_, s). Inr s))"

definition start_timer :: "'x callbacks \<Rightarrow> nat \<Rightarrow> timer_id \<Rightarrow> u32 \<Rightarrow> u32 \<Rightarrow> 'x timers \<Rightarrow> 'x timers res" where
  "start_timer C fuel t xMessageValue xTimeNow s =
     (let s = mark_active t s; next = xMessageValue + xTimerPeriodInTicks (timer s t);
          (now, s) = prvInsertTimerInActiveList t next xTimeNow xMessageValue s
      in if now
         then rbind (if autoreload t s then prvReloadTimer C fuel t next xTimeNow s else Inr (mark_inactive t s)) (call_timer C t)
         else Inr s)"

definition process_command :: "'x callbacks \<Rightarrow> nat \<Rightarrow> int \<Rightarrow> u32 \<Rightarrow> timer_id \<Rightarrow> u32 \<Rightarrow> 'x timers \<Rightarrow> 'x timers res" where
  "process_command C fuel xMessageID xMessageValue t xTimeNow s =
     (if xMessageID \<in> {tmrCOMMAND_START, tmrCOMMAND_START_FROM_ISR, tmrCOMMAND_RESET, tmrCOMMAND_RESET_FROM_ISR}
      then start_timer C fuel t xMessageValue xTimeNow s
      else if xMessageID \<in> {tmrCOMMAND_STOP, tmrCOMMAND_STOP_FROM_ISR} then Inr (mark_inactive t s)
      else if xMessageID \<in> {tmrCOMMAND_CHANGE_PERIOD, tmrCOMMAND_CHANGE_PERIOD_FROM_ISR} then
        let s = set_timer t (xTimerPeriodInTicks_update (\<lambda>_. xMessageValue)) (mark_active t s)
        in rbind (c_assert (xTimerPeriodInTicks (timer s t) > 0)) (\<lambda>_.
           Inr (snd (prvInsertTimerInActiveList t (xTimeNow + xTimerPeriodInTicks (timer s t)) xTimeNow xTimeNow s)))
      else if xMessageID = tmrCOMMAND_DELETE then
        if ucStatus (timer s t) AND tmrSTATUS_IS_STATICALLY_ALLOCATED = 0
        then rbind (vPortFree (Some (of_nat t)) (heap (kern (qs s)))) (\<lambda>h.
             Inr (s\<lparr>qs := (qs s)\<lparr>kern := (kern (qs s))\<lparr>heap := h\<rparr>\<rparr>\<rparr>))
        else Inr (mark_inactive t s)
      else Inr s)"

definition process_message :: "'x callbacks \<Rightarrow> nat \<Rightarrow> u8 list \<Rightarrow> 'x timers \<Rightarrow> 'x timers res" where
  "process_message C fuel msg s =
     rbind (if message_id msg < 0 then pended_function C (word_at msg 4) (word_at msg 8) (word_at msg 12) s else Inr s) (\<lambda>s.
     if message_id msg \<ge> 0 then
       let t = unat (word_at msg 8)
       in rbind (if lcontainer (tlists s) t \<noteq> None
                 then rbind (list_remove t (tlists s)) (\<lambda>L. Inr (s\<lparr>tlists := L\<rparr>)) else Inr s) (\<lambda>s.
          rbind (prvSampleTimeNow C fuel s) (\<lambda>(xTimeNow, _, s).
          process_command C fuel (message_id msg) (word_at msg 4) t xTimeNow s))
     else Inr s)"

fun commands_loop :: "'x callbacks \<Rightarrow> nat \<Rightarrow> nat \<Rightarrow> TimeOut_t \<Rightarrow> 'x timers \<Rightarrow> 'x timers res" where
  "commands_loop C fuel 0 to s = Inl Diverges"
| "commands_loop C fuel (Suc n) to s =
     (case xTimerQueue s of
        None \<Rightarrow> Inl NullPointer
      | Some q \<Rightarrow>
          rbind (xQueueReceive to q True 0 (qs s)) (\<lambda>(r, _, qs').
          let s = s\<lparr>qs := qs'\<rparr>
          in case r of
               Some (Some msg) \<Rightarrow> rbind (process_message C fuel msg s) (commands_loop C fuel n to)
             | _ \<Rightarrow> Inr s))"

definition prvProcessReceivedCommands :: "'x callbacks \<Rightarrow> nat \<Rightarrow> TimeOut_t \<Rightarrow> 'x timers \<Rightarrow> 'x timers res" where
  "prvProcessReceivedCommands C fuel to s = commands_loop C fuel fuel to s"

text \<open>One round of the timer task's endless loop.\<close>

definition prvTimerTask :: "'x callbacks \<Rightarrow> nat \<Rightarrow> TimeOut_t \<Rightarrow> 'x timers \<Rightarrow> 'x timers res" where
  "prvTimerTask C fuel to s =
     (let (xNextExpireTime, xListWasEmpty) = prvGetNextExpireTime s
      in rbind (prvProcessTimerOrBlockTask C fuel xNextExpireTime xListWasEmpty s) (prvProcessReceivedCommands C fuel to))"

section \<open>Starting the scheduler\<close>

text \<open>
  \<^verbatim>\<open>vTaskStartScheduler\<close> of \<^verbatim>\<open>tasks.c\<close> creates the idle task and the timer task. The port then
  starts the first task.
\<close>

definition vTaskStartScheduler :: "u32 \<Rightarrow> (nat \<Rightarrow> u8) \<Rightarrow> 'x timers \<Rightarrow> 'x timers res" where
  "vTaskStartScheduler ucHeap mem s =
     rbind (xTaskCreate ucHeap ''IDLE'' (of_nat configMINIMAL_STACK_SIZE) tskIDLE_PRIORITY (kern (qs s))) (\<lambda>(t, k).
     let s = s\<lparr>qs := (qs s)\<lparr>kern := k\<rparr>\<rparr>
     in case t of
          None \<Rightarrow> Inl AssertFailed
        | Some t \<Rightarrow>
            let s = s\<lparr>qs := (qs s)\<lparr>kern := (kern (qs s))\<lparr>xIdleTaskHandle := Some t\<rparr>\<rparr>\<rparr>
            in rbind (xTimerCreateTimerTask ucHeap mem s) (\<lambda>(xReturn, s).
               Inr (if xReturn then s\<lparr>qs := (qs s)\<lparr>kern := start_scheduler (kern (qs s))\<rparr>\<rparr> else s)))"

end
