(* ===== verification/Motor_Demo.thy ===== *)
theory Motor_Demo
  imports FreeRTOS_Timers
begin

text \<open>
  The application, \<^verbatim>\<open>Demo_FreeRTOS/src/main.c\<close>. First \<^verbatim>\<open>main\<close> on the model of the kernel: it
  creates a mutex, three semaphores, three tasks and a timer and starts the scheduler. Then the tasks
  themselves as a transition system in which every statement, every kernel call and every byte sent
  is a step of its own, so that all interleavings of the tasks are considered.

  The initialisation of the drivers at the start of \<^verbatim>\<open>main\<close> acts on the hardware only and is not
  part of this model; \<^verbatim>\<open>Lpspi_Ip_Init\<close> is modelled with the SPI driver. The serial line is
  represented by the bytes the program hands to \<^verbatim>\<open>Lpuart_Uart_Ip_SyncSend\<close>.
\<close>

section \<open>Constants and texts\<close>

definition HIGH_SPEED_THRESHOLD :: u8 where "HIGH_SPEED_THRESHOLD = 200"

definition pdMS_TO_TICKS :: "u32 \<Rightarrow> u32" where
  "pdMS_TO_TICKS xTimeInMs = xTimeInMs * 1000 div 1000"

definition crlf :: string where "crlf = [CHR 0x0D, CHR 0x0A]"

text \<open>\<^verbatim>\<open>sprintf\<close> with \<^verbatim>\<open>%u\<close>: decimal digits without leading zeros.\<close>

fun decimal :: "nat \<Rightarrow> string" where
  "decimal n = (if n < 10 then [] else decimal (n div 10)) @ [char_of (48 + n mod 10)]"

declare decimal.simps [simp del]

definition uint8_to_str :: "u8 \<Rightarrow> string" where
  "uint8_to_str v = decimal (unat v)"

section \<open>main\<close>

record demo =
  xSemaphore :: "qid option"
  ySemaphore :: "qid option"
  zSemaphore :: "qid option"
  xMutex :: "qid option"
  xTimers :: "timer_id option"
  uart :: string

type_synonym machine = "demo timers"

text \<open>The state before \<^verbatim>\<open>main\<close>: the kernel and the timer module as the C run-time starts them.\<close>

definition machine_boot :: "(nat \<Rightarrow> Queue_t) \<Rightarrow> (timer_id \<Rightarrow> Timer_t) \<Rightarrow> machine" where
  "machine_boot q t = \<lparr>qs = \<lparr>kern = kernel_boot, queue = q, xQueueRegistry = replicate configQUEUE_REGISTRY_SIZE (None, None)\<rparr>, timer = t,
     tlists = \<lparr>litems = (\<lambda>_. []), lindex = (\<lambda>_. None), lvalue = (\<lambda>_. 0), lcontainer = (\<lambda>_. None)\<rparr>,
     pxCurrentTimerList = xActiveTimerList1, pxOverflowTimerList = xActiveTimerList2, xTimerQueue = None, xTimerTaskHandle = None, xLastTime = 0,
     app = \<lparr>xSemaphore = None, ySemaphore = None, zSemaphore = None, xMutex = None, xTimers = None, uart = []\<rparr>\<rparr>"

text \<open>
  \<^verbatim>\<open>print\<close> as \<^verbatim>\<open>main\<close> calls it, while no task runs yet: a mutex that is not free would be waited
  for without end.
\<close>

definition print_boot :: "TimeOut_t \<Rightarrow> string \<Rightarrow> machine \<Rightarrow> machine res" where
  "print_boot to str s =
     (case xMutex (app s) of
        None \<Rightarrow> Inl AssertFailed
      | Some q \<Rightarrow>
          rbind (xQueueSemaphoreTake to q portMAX_DELAY (qs s)) (\<lambda>(r, _, Q).
          if r = None then Inl Diverges
          else let s = s\<lparr>qs := Q, app := (app s)\<lparr>uart := uart (app s) @ str\<rparr>\<rparr>
               in rbind (xSemaphoreGive to q (qs s)) (\<lambda>(_, _, Q). Inr (s\<lparr>qs := Q\<rparr>))))"

definition check_created :: "TimeOut_t \<Rightarrow> bool \<Rightarrow> string \<Rightarrow> machine \<Rightarrow> machine res" where
  "check_created to created str s = (if \<not> created then print_boot to (str @ crlf) s else Inr s)"

definition create_semaphores :: "u32 \<Rightarrow> (nat \<Rightarrow> u8) \<Rightarrow> TimeOut_t \<Rightarrow> machine \<Rightarrow> machine res" where
  "create_semaphores ucHeap mem to s =
     rbind (xQueueCreateMutex ucHeap mem to queueQUEUE_TYPE_MUTEX (qs s)) (\<lambda>(q, Q).
     rbind (check_created to (q \<noteq> None) ''Mutex init failed'' (s\<lparr>qs := Q, app := (app s)\<lparr>xMutex := q\<rparr>\<rparr>)) (\<lambda>s.
     rbind (xQueueCreateCountingSemaphore ucHeap mem 1 1 (qs s)) (\<lambda>(q, Q).
     rbind (check_created to (q \<noteq> None) ''xSemaphore init failed'' (s\<lparr>qs := Q, app := (app s)\<lparr>xSemaphore := q\<rparr>\<rparr>)) (\<lambda>s.
     rbind (xQueueCreateCountingSemaphore ucHeap mem 1 0 (qs s)) (\<lambda>(q, Q).
     rbind (check_created to (q \<noteq> None) ''ySemaphore init failed'' (s\<lparr>qs := Q, app := (app s)\<lparr>ySemaphore := q\<rparr>\<rparr>)) (\<lambda>s.
     rbind (xQueueCreateCountingSemaphore ucHeap mem 1 0 (qs s)) (\<lambda>(q, Q).
     check_created to (q \<noteq> None) ''zSemaphore init failed'' (s\<lparr>qs := Q, app := (app s)\<lparr>zSemaphore := q\<rparr>\<rparr>))))))))"

definition create_task :: "u32 \<Rightarrow> TimeOut_t \<Rightarrow> string \<Rightarrow> u16 \<Rightarrow> nat \<Rightarrow> string \<Rightarrow> machine \<Rightarrow> machine res" where
  "create_task ucHeap to name depth p failed s =
     rbind (xTaskCreate ucHeap name depth p (kern (qs s))) (\<lambda>(t, k).
     check_created to (t \<noteq> None) failed (s\<lparr>qs := (qs s)\<lparr>kern := k\<rparr>\<rparr>))"

definition create_tasks :: "u32 \<Rightarrow> TimeOut_t \<Rightarrow> machine \<Rightarrow> machine res" where
  "create_tasks ucHeap to s =
     rbind (create_task ucHeap to ''ReadSpeedTask'' (of_nat (configMINIMAL_STACK_SIZE * 4)) (configMAX_PRIORITIES - 2) ''Task A init failed'' s) (\<lambda>s.
     rbind (create_task ucHeap to ''CheckSpeedTask'' (of_nat (configMINIMAL_STACK_SIZE * 4)) (configMAX_PRIORITIES - 2) ''Task B init failed'' s) (\<lambda>s.
     create_task ucHeap to ''StartupC'' (of_nat (configMINIMAL_STACK_SIZE * 2)) (configMAX_PRIORITIES - 1) ''Task C init failed'' s))"

definition main :: "u32 \<Rightarrow> (nat \<Rightarrow> u8) \<Rightarrow> TimeOut_t \<Rightarrow> u8 list \<Rightarrow> u32 \<Rightarrow> machine \<Rightarrow> machine res" where
  "main ucHeap mem to rest vTimerCallback s =
     rbind (create_semaphores ucHeap mem to s) (\<lambda>s.
     rbind (create_tasks ucHeap to s) (\<lambda>s.
     rbind (xTimerCreate ucHeap mem ''Timer'' (pdMS_TO_TICKS 10000) True 0 vTimerCallback s) (\<lambda>(t, s).
     rbind (xTimerStart rest to t 0 (s\<lparr>app := (app s)\<lparr>xTimers := t\<rparr>\<rparr>)) (\<lambda>(_, _, s).
     vTaskStartScheduler ucHeap mem s))))"

text \<open>
  The callback of the timer on the model of the kernel, for every function address and timer: the
  program has one callback. It pends no function calls; what those would do is left open.
\<close>

definition vTimerCallback_main :: "TimeOut_t \<Rightarrow> machine \<Rightarrow> machine res" where
  "vTimerCallback_main to s =
     (case zSemaphore (app s) of
        None \<Rightarrow> Inl AssertFailed
      | Some q \<Rightarrow> rbind (xSemaphoreGive to q (qs s)) (\<lambda>(_, _, Q). Inr (s\<lparr>qs := Q\<rparr>)))"

definition demo_callbacks :: "TimeOut_t \<Rightarrow> (u32 \<Rightarrow> u32 \<Rightarrow> u32 \<Rightarrow> machine \<Rightarrow> machine res) \<Rightarrow> demo callbacks" where
  "demo_callbacks to F = \<lparr>timer_callback = (\<lambda>_ _. vTimerCallback_main to), pended_function = F\<rparr>"

section \<open>The tasks\<close>

datatype task = TaskA | TaskB | TaskC

text \<open>A counting semaphore with limit 1, as the tasks see it; taking an empty one blocks.\<close>

definition sem_take :: "nat \<Rightarrow> nat option" where
  "sem_take n = (if n > 0 then Some (n - 1) else None)"

definition sem_give :: "nat \<Rightarrow> nat \<Rightarrow> nat" where
  "sem_give limit n = (if n < limit then n + 1 else n)"

text \<open>
  The position inside a call of \<^verbatim>\<open>print\<close>, with the text and the number of characters already
  sent, which is how far the pointer has advanced; and the position of a task, which is at one of its
  statements or inside a call of \<^verbatim>\<open>print\<close> that returns to one.
\<close>

datatype print_pc = P_Take string | P_Send string nat | P_Give string

datatype 'l position = At 'l | In print_pc 'l

datatype lineA = A_Delay | A_Take | A_Banner | A_Read | A_Store | A_Label | A_Convert | A_Number | A_Unit | A_Give

datatype lineB = B_Delay | B_Take | B_Banner | B_Check | B_Give

datatype lineC = C_Take | C_Woke

record firmware =
  semx :: nat
  semy :: nat
  semz :: nat
  mutex :: "task option"
  g_last_speed :: u8
  received_value :: u8
  buf_A :: string
  posA :: "lineA position"
  posB :: "lineB position"
  posC :: "lineC position"
  console :: string

definition firmware_start :: "u8 \<Rightarrow> string \<Rightarrow> firmware" where
  "firmware_start v b = \<lparr>semx = 1, semy = 0, semz = 0, mutex = None, g_last_speed = 0, received_value = v, buf_A = b,
     posA = At A_Delay, posB = At B_Delay, posC = At C_Take, console = []\<rparr>"

text \<open>A step of \<^verbatim>\<open>print\<close> called by task \<open>t\<close>: the new position, or \<^const>\<open>None\<close> after the return. The step is not possible while another task has the mutex.\<close>

fun print_step :: "task \<Rightarrow> print_pc \<Rightarrow> firmware \<Rightarrow> (print_pc option \<times> firmware) option" where
  "print_step t (P_Take str) s = (if mutex s = None then Some (Some (P_Send str 0), s\<lparr>mutex := Some t\<rparr>) else None)"
| "print_step t (P_Send str i) s =
     (if i < length str then Some (Some (P_Send str (i + 1)), s\<lparr>console := console s @ [str ! i]\<rparr>)
      else Some (Some (P_Give str), s))"
| "print_step t (P_Give str) s = Some (None, s\<lparr>mutex := None\<rparr>)"

definition print_at :: "print_pc option \<Rightarrow> 'l \<Rightarrow> 'l position" where
  "print_at p l = (case p of None \<Rightarrow> At l | Some p \<Rightarrow> In p l)"

definition banner_A :: string where "banner_A = ''=== Task A: Reading Speed ==='' @ crlf"

definition label_A :: string where "label_A = ''Motor Speed: ''"

definition unit_A :: string where "unit_A = '' RPM'' @ crlf @ crlf"

definition banner_B :: string where "banner_B = ''=== Task B: Checking Speed ==='' @ crlf"

definition status_B :: "u8 \<Rightarrow> string" where
  "status_B v = (if v > HIGH_SPEED_THRESHOLD then ''Status: ATTENZIONE, alta velocita'' @ [CHR 0x27] @ ''!'' @ crlf @ crlf
                 else ''Status: Velocita'' @ [CHR 0x27] @ '' normale.'' @ crlf @ crlf)"

definition woke_C :: string where "woke_C = ''=== Task C woke via Timer ==='' @ crlf"

text \<open>
  One step of each task. The argument \<open>v\<close> of the first is what \<^verbatim>\<open>Motor_Sensor_ReadValue\<close> delivers
  at that moment. \<^verbatim>\<open>vTaskDelayUntil\<close> returns after some time.
\<close>

definition ReadSpeedTask :: "u8 \<Rightarrow> firmware \<Rightarrow> firmware option" where
  "ReadSpeedTask v s =
     (case posA s of
        In p l \<Rightarrow> map_option (\<lambda>(p, s). s\<lparr>posA := print_at p l\<rparr>) (print_step TaskA p s)
      | At A_Delay \<Rightarrow> Some (s\<lparr>posA := At A_Take\<rparr>)
      | At A_Take \<Rightarrow> map_option (\<lambda>n. s\<lparr>semx := n, posA := At A_Banner\<rparr>) (sem_take (semx s))
      | At A_Banner \<Rightarrow> Some (s\<lparr>posA := In (P_Take banner_A) A_Read\<rparr>)
      | At A_Read \<Rightarrow> Some (s\<lparr>received_value := v, posA := At A_Store\<rparr>)
      | At A_Store \<Rightarrow> Some (s\<lparr>g_last_speed := received_value s, posA := At A_Label\<rparr>)
      | At A_Label \<Rightarrow> Some (s\<lparr>posA := In (P_Take label_A) A_Convert\<rparr>)
      | At A_Convert \<Rightarrow> Some (s\<lparr>buf_A := uint8_to_str (g_last_speed s), posA := At A_Number\<rparr>)
      | At A_Number \<Rightarrow> Some (s\<lparr>posA := In (P_Take (buf_A s)) A_Unit\<rparr>)
      | At A_Unit \<Rightarrow> Some (s\<lparr>posA := In (P_Take unit_A) A_Give\<rparr>)
      | At A_Give \<Rightarrow> Some (s\<lparr>semy := sem_give 1 (semy s), posA := At A_Delay\<rparr>))"

definition CheckSpeedTask :: "firmware \<Rightarrow> firmware option" where
  "CheckSpeedTask s =
     (case posB s of
        In p l \<Rightarrow> map_option (\<lambda>(p, s). s\<lparr>posB := print_at p l\<rparr>) (print_step TaskB p s)
      | At B_Delay \<Rightarrow> Some (s\<lparr>posB := At B_Take\<rparr>)
      | At B_Take \<Rightarrow> map_option (\<lambda>n. s\<lparr>semy := n, posB := At B_Banner\<rparr>) (sem_take (semy s))
      | At B_Banner \<Rightarrow> Some (s\<lparr>posB := In (P_Take banner_B) B_Check\<rparr>)
      | At B_Check \<Rightarrow> Some (s\<lparr>posB := In (P_Take (status_B (g_last_speed s))) B_Give\<rparr>)
      | At B_Give \<Rightarrow> Some (s\<lparr>semx := sem_give 1 (semx s), posB := At B_Delay\<rparr>))"

definition TaskCodeC :: "firmware \<Rightarrow> firmware option" where
  "TaskCodeC s =
     (case posC s of
        In p l \<Rightarrow> map_option (\<lambda>(p, s). s\<lparr>posC := print_at p l\<rparr>) (print_step TaskC p s)
      | At C_Take \<Rightarrow> map_option (\<lambda>n. s\<lparr>semz := n, posC := At C_Woke\<rparr>) (sem_take (semz s))
      | At C_Woke \<Rightarrow> Some (s\<lparr>posC := In (P_Take woke_C) C_Take\<rparr>))"

definition vTimerCallback :: "firmware \<Rightarrow> firmware" where
  "vTimerCallback s = s\<lparr>semz := sem_give 1 (semz s)\<rparr>"

text \<open>
  Runs, with what has been printed completely, by whom, the answers the sensor has given, and how
  often the timer has expired.
\<close>

definition printed :: "task \<Rightarrow> 'l position \<Rightarrow> (task \<times> string) list" where
  "printed t p = (case p of In (P_Give str) _ \<Rightarrow> [(t, str)] | _ \<Rightarrow> [])"

inductive run :: "firmware \<Rightarrow> (task \<times> string) list \<Rightarrow> u8 list \<Rightarrow> nat \<Rightarrow> bool" where
  start: "run (firmware_start v b) [] [] 0"
| task_A: "run s ms vs n \<Longrightarrow> ReadSpeedTask v s = Some s' \<Longrightarrow>
    run s' (ms @ printed TaskA (posA s)) (vs @ (if posA s = At A_Read then [v] else [])) n"
| task_B: "run s ms vs n \<Longrightarrow> CheckSpeedTask s = Some s' \<Longrightarrow> run s' (ms @ printed TaskB (posB s)) vs n"
| task_C: "run s ms vs n \<Longrightarrow> TaskCodeC s = Some s' \<Longrightarrow> run s' (ms @ printed TaskC (posC s)) vs n"
| timer: "run s ms vs n \<Longrightarrow> run (vTimerCallback s) ms vs (n + 1)"

end
