(* ===== verification/Motor_Demo_Correct.thy ===== *)
theory Motor_Demo_Correct
  imports Motor_Demo "HOL-Library.Sublist"
begin

text \<open>
  Correctness of the application: \<^verbatim>\<open>main\<close> starts everything it means to start within the heap it
  has, and whatever order the tasks run in, the texts on the serial line are whole, every reading of
  the sensor is reported and judged before the next one is taken, and the tasks never block each other
  for ever.
\<close>

section \<open>The texts on the serial line\<close>

definition sending :: "'l position \<Rightarrow> string" where
  "sending p = (case p of In (P_Send str i) _ \<Rightarrow> take i str | In (P_Give str) _ \<Rightarrow> str | _ \<Rightarrow> [])"

definition inside :: "'l position \<Rightarrow> bool" where
  "inside p = (case p of In (P_Send str i) _ \<Rightarrow> True | In (P_Give str) _ \<Rightarrow> True | _ \<Rightarrow> False)"

definition inside_all :: "firmware \<Rightarrow> task \<Rightarrow> bool" where
  "inside_all s t = (case t of TaskA \<Rightarrow> inside (posA s) | TaskB \<Rightarrow> inside (posB s) | TaskC \<Rightarrow> inside (posC s))"

definition in_range :: "'l position \<Rightarrow> bool" where
  "in_range p = (case p of In (P_Send str i) _ \<Rightarrow> i \<le> length str | _ \<Rightarrow> True)"

definition console_ok :: "firmware \<Rightarrow> (task \<times> string) list \<Rightarrow> bool" where
  "console_ok s ms \<longleftrightarrow> (\<forall>t. inside_all s t \<longleftrightarrow> mutex s = Some t) \<and> in_range (posA s) \<and> in_range (posB s) \<and> in_range (posC s) \<and>
     console s = concat (map snd ms) @ sending (posA s) @ sending (posB s) @ sending (posC s)"

lemmas position_defs = sending_def inside_def in_range_def print_at_def printed_def

lemma outside_sends_nothing: "\<not> inside p \<Longrightarrow> sending p = []"
  by (auto simp: sending_def inside_def split: position.splits print_pc.splits)

lemma all_tasks: "(\<forall>t. P t) \<longleftrightarrow> P TaskA \<and> P TaskB \<and> P TaskC"
  by (metis task.exhaust)

lemma task_at_simps [simp]: "sending (At l) = []" "inside (At l) = False" "in_range (At l)" "printed t (At l) = []"
  by (simp_all add: position_defs)


lemma print_step_ok:
  assumes "print_step t p s = Some (p', s')" and "inside (In p l) \<longleftrightarrow> mutex s = Some t" and "in_range (In p l)"
  shows "(mutex s = None \<or> mutex s = Some t) \<and> (mutex s' = None \<or> mutex s' = Some t) \<and> (inside (print_at p' l) \<longleftrightarrow> mutex s' = Some t) \<and> in_range (print_at p' l)"
    "posA s' = posA s \<and> posB s' = posB s \<and> posC s' = posC s"
    "\<exists>new. console s' = console s @ new \<and> concat (map snd (printed t (In p l))) @ sending (print_at p' l) = sending (In p l) @ new"
proof -
  show "(mutex s = None \<or> mutex s = Some t) \<and> (mutex s' = None \<or> mutex s' = Some t) \<and> (inside (print_at p' l) \<longleftrightarrow> mutex s' = Some t) \<and> in_range (print_at p' l)"
    using assms by (cases p) (auto simp: position_defs split: if_splits)
  show "posA s' = posA s \<and> posB s' = posB s \<and> posC s' = posC s"
    using assms(1) by (cases p) (auto split: if_splits)
  show "\<exists>new. console s' = console s @ new \<and> concat (map snd (printed t (In p l))) @ sending (print_at p' l) = sending (In p l) @ new"
    using assms(1,3) by (cases p) (auto simp: position_defs take_Suc_conv_app_nth split: if_splits)
qed

definition keeps_console :: "firmware \<Rightarrow> firmware \<Rightarrow> bool" where
  "keeps_console s s' \<longleftrightarrow> console s' = console s \<and> mutex s' = mutex s"

lemma call_simps [simp]: "sending (In (P_Take str) l) = []" "inside (In (P_Take str) l) = False" "in_range (In (P_Take str) l)"
  by (simp_all add: position_defs)

lemma at_step_A:
  assumes "posA s = At l" and "ReadSpeedTask v s = Some s'"
  shows "keeps_console s s' \<and> posB s' = posB s \<and> posC s' = posC s \<and> sending (posA s') = [] \<and> \<not> inside (posA s') \<and> in_range (posA s')"
  using assms by (cases l) (auto simp: ReadSpeedTask_def keeps_console_def)

lemma at_step_B:
  assumes "posB s = At l" and "CheckSpeedTask s = Some s'"
  shows "keeps_console s s' \<and> posA s' = posA s \<and> posC s' = posC s \<and> sending (posB s') = [] \<and> \<not> inside (posB s') \<and> in_range (posB s')"
  using assms by (cases l) (auto simp: CheckSpeedTask_def keeps_console_def)

lemma at_step_C:
  assumes "posC s = At l" and "TaskCodeC s = Some s'"
  shows "keeps_console s s' \<and> posA s' = posA s \<and> posB s' = posB s \<and> sending (posC s') = [] \<and> \<not> inside (posC s') \<and> in_range (posC s')"
  using assms by (cases l) (auto simp: TaskCodeC_def keeps_console_def)

lemmas console_defs = console_ok_def all_tasks inside_all_def

lemma console_task_A:
  assumes "console_ok s ms" and "ReadSpeedTask v s = Some s'"
  shows "console_ok s' (ms @ printed TaskA (posA s))"
proof (cases "posA s")
  case (At l)
  then show ?thesis using assms(1) at_step_A [OF At assms(2)] by (simp add: console_defs keeps_console_def)
next
  case (In p l)
  then obtain p' s1 where 1: "print_step TaskA p s = Some (p', s1)" "s' = s1\<lparr>posA := print_at p' l\<rparr>"
    using assms(2) by (auto simp: ReadSpeedTask_def)
  have 2: "inside (In p l) \<longleftrightarrow> mutex s = Some TaskA" "in_range (In p l)" using assms(1) In by (auto simp: console_defs)
  note P = print_step_ok [OF 1(1) 2]
  have "sending (posB s) = []" "sending (posC s) = []" "\<not> inside (posB s)" "\<not> inside (posC s)"
    using assms(1) P(1) outside_sends_nothing by (auto simp: console_defs)
  then show ?thesis using assms(1) P 1(2) In by (auto simp: console_defs)
qed

lemma console_task_B:
  assumes "console_ok s ms" and "CheckSpeedTask s = Some s'"
  shows "console_ok s' (ms @ printed TaskB (posB s))"
proof (cases "posB s")
  case (At l)
  then show ?thesis using assms(1) at_step_B [OF At assms(2)] by (simp add: console_defs keeps_console_def)
next
  case (In p l)
  then obtain p' s1 where 1: "print_step TaskB p s = Some (p', s1)" "s' = s1\<lparr>posB := print_at p' l\<rparr>"
    using assms(2) by (auto simp: CheckSpeedTask_def)
  have 2: "inside (In p l) \<longleftrightarrow> mutex s = Some TaskB" "in_range (In p l)" using assms(1) In by (auto simp: console_defs)
  note P = print_step_ok [OF 1(1) 2]
  have "sending (posA s) = []" "sending (posC s) = []" "\<not> inside (posA s)" "\<not> inside (posC s)"
    using assms(1) P(1) outside_sends_nothing by (auto simp: console_defs)
  then show ?thesis using assms(1) P 1(2) In by (auto simp: console_defs)
qed

lemma console_task_C:
  assumes "console_ok s ms" and "TaskCodeC s = Some s'"
  shows "console_ok s' (ms @ printed TaskC (posC s))"
proof (cases "posC s")
  case (At l)
  then show ?thesis using assms(1) at_step_C [OF At assms(2)] by (simp add: console_defs keeps_console_def)
next
  case (In p l)
  then obtain p' s1 where 1: "print_step TaskC p s = Some (p', s1)" "s' = s1\<lparr>posC := print_at p' l\<rparr>"
    using assms(2) by (auto simp: TaskCodeC_def)
  have 2: "inside (In p l) \<longleftrightarrow> mutex s = Some TaskC" "in_range (In p l)" using assms(1) In by (auto simp: console_defs)
  note P = print_step_ok [OF 1(1) 2]
  have "sending (posA s) = []" "sending (posB s) = []" "\<not> inside (posA s)" "\<not> inside (posB s)"
    using assms(1) P(1) outside_sends_nothing by (auto simp: console_defs)
  then show ?thesis using assms(1) P 1(2) In by (auto simp: console_defs)
qed

lemma run_console: "run s ms vs n \<Longrightarrow> console_ok s ms"
proof (induction rule: run.induct)
  case (start v b)
  show ?case by (simp add: console_defs firmware_start_def)
next
  case (timer s ms vs n)
  then show ?case by (simp add: console_defs vTimerCallback_def)
qed (blast intro: console_task_A console_task_B console_task_C)+

section \<open>The two tasks take turns\<close>

text \<open>The report on a reading; the first four texts come from task A, the others from task B.\<close>

definition report :: "u8 \<Rightarrow> string list" where
  "report v = [banner_A, label_A, uint8_to_str v, unit_A, banner_B, status_B v]"

fun text_of :: "print_pc \<Rightarrow> string" where
  "text_of (P_Take str) = str"
| "text_of (P_Send str i) = str"
| "text_of (P_Give str) = str"

text \<open>How many texts of a report are out when a task is at a line.\<close>

definition outA :: "lineA \<Rightarrow> nat" where
  "outA l = (case l of A_Read \<Rightarrow> 1 | A_Store \<Rightarrow> 1 | A_Label \<Rightarrow> 1 | A_Convert \<Rightarrow> 2 | A_Number \<Rightarrow> 2 | A_Unit \<Rightarrow> 3 | A_Give \<Rightarrow> 4 | _ \<Rightarrow> 0)"

definition outB :: "lineB \<Rightarrow> nat" where
  "outB l = (case l of B_Check \<Rightarrow> 5 | B_Give \<Rightarrow> 6 | _ \<Rightarrow> 4)"

fun texts_out :: "('l \<Rightarrow> nat) \<Rightarrow> 'l position \<Rightarrow> nat" where
  "texts_out f (At l) = f l"
| "texts_out f (In p l) = f l - 1"

definition idleA :: "lineA position \<Rightarrow> bool" where "idleA p \<longleftrightarrow> p \<in> {At A_Delay, At A_Take}"

definition idleB :: "lineB position \<Rightarrow> bool" where "idleB p \<longleftrightarrow> p \<in> {At B_Delay, At B_Take}"

definition fresh :: "lineA position \<Rightarrow> bool" where
  "fresh p = (case p of At l \<Rightarrow> l \<in> {A_Banner, A_Read} | In p l \<Rightarrow> l = A_Read \<and> text_of p = banner_A)"

definition reporting :: "u8 \<Rightarrow> firmware \<Rightarrow> bool" where
  "reporting v s \<longleftrightarrow>
     (case posA s of
        At l \<Rightarrow> l \<in> {A_Store, A_Label, A_Convert, A_Number, A_Unit, A_Give} \<and> (l = A_Store \<or> g_last_speed s = v) \<and> (l = A_Number \<longrightarrow> buf_A s = uint8_to_str v)
      | In p l \<Rightarrow> g_last_speed s = v \<and> (l, text_of p) \<in> {(A_Convert, label_A), (A_Unit, uint8_to_str v), (A_Give, unit_A)})"

definition judging :: "u8 \<Rightarrow> firmware \<Rightarrow> bool" where
  "judging v s \<longleftrightarrow>
     (case posB s of At l \<Rightarrow> l \<in> {B_Banner, B_Check, B_Give}
      | In p l \<Rightarrow> (l, text_of p) \<in> {(B_Check, banner_B), (B_Give, status_B v)})"

text \<open>The five phases of a round, with the texts \<open>ab\<close> printed so far and the readings \<open>vs\<close>.\<close>

definition before_reading :: "firmware \<Rightarrow> string list \<Rightarrow> u8 list \<Rightarrow> bool" where
  "before_reading s ab vs \<longleftrightarrow> idleA (posA s) \<and> idleB (posB s) \<and> semx s = 1 \<and> semy s = 0 \<and> ab = concat (map report vs)"

definition about_to_read :: "firmware \<Rightarrow> string list \<Rightarrow> u8 list \<Rightarrow> bool" where
  "about_to_read s ab vs \<longleftrightarrow> fresh (posA s) \<and> idleB (posB s) \<and> semx s = 0 \<and> semy s = 0 \<and> ab = concat (map report vs) @ take (texts_out outA (posA s)) [banner_A]"

definition in_report :: "firmware \<Rightarrow> string list \<Rightarrow> u8 list \<Rightarrow> bool" where
  "in_report s ab vs \<longleftrightarrow> idleB (posB s) \<and> semx s = 0 \<and> semy s = 0 \<and>
     (\<exists>us v. vs = us @ [v] \<and> received_value s = v \<and> reporting v s \<and> ab = concat (map report us) @ take (texts_out outA (posA s)) (report v))"

definition before_check :: "firmware \<Rightarrow> string list \<Rightarrow> u8 list \<Rightarrow> bool" where
  "before_check s ab vs \<longleftrightarrow> idleA (posA s) \<and> idleB (posB s) \<and> semx s = 0 \<and> semy s = 1 \<and>
     (\<exists>us v. vs = us @ [v] \<and> g_last_speed s = v \<and> ab = concat (map report us) @ take 4 (report v))"

definition in_check :: "firmware \<Rightarrow> string list \<Rightarrow> u8 list \<Rightarrow> bool" where
  "in_check s ab vs \<longleftrightarrow> idleA (posA s) \<and> semx s = 0 \<and> semy s = 0 \<and>
     (\<exists>us v. vs = us @ [v] \<and> g_last_speed s = v \<and> judging v s \<and> ab = concat (map report us) @ take (texts_out outB (posB s)) (report v))"

definition protocol :: "firmware \<Rightarrow> string list \<Rightarrow> u8 list \<Rightarrow> bool" where
  "protocol s ab vs \<longleftrightarrow> before_reading s ab vs \<or> about_to_read s ab vs \<or> in_report s ab vs \<or> before_check s ab vs \<or> in_check s ab vs"

lemmas phase_defs = before_reading_def about_to_read_def in_report_def before_check_def in_check_def
lemmas line_defs = outA_def outB_def idleA_def idleB_def fresh_def reporting_def judging_def report_def printed_def print_at_def sem_take_def sem_give_def

lemma phase_updates [simp]: "reporting v (s\<lparr>posB := q\<rparr>) = reporting v s" "judging v (s\<lparr>posA := p\<rparr>) = judging v s"
  by (auto simp: reporting_def judging_def split: position.splits)

lemma print_step_cases:
  assumes "print_step t p s = Some (p', s')"
  shows "(\<exists>q. p' = Some q \<and> text_of q = text_of p \<and> printed t (In p l) = []) \<or> p' = None \<and> printed t (In p l) = [(t, text_of p)]"
    "semx s' = semx s" "semy s' = semy s" "g_last_speed s' = g_last_speed s" "received_value s' = received_value s" "buf_A s' = buf_A s"
    "posA s' = posA s" "posB s' = posB s" "posC s' = posC s" "semz s' = semz s"
  using assms by (cases p; auto simp: printed_def split: if_splits)+

lemma idle_cases: "idleA p \<longleftrightarrow> p = At A_Delay \<or> p = At A_Take" "idleB q \<longleftrightarrow> q = At B_Delay \<or> q = At B_Take"
  by (auto simp: idleA_def idleB_def)

text \<open>The texts and readings after a step of task A.\<close>

abbreviation out_A :: "firmware \<Rightarrow> string list" where "out_A s \<equiv> map snd (printed TaskA (posA s))"

abbreviation read_A :: "u8 \<Rightarrow> firmware \<Rightarrow> u8 list" where "read_A v s \<equiv> (if posA s = At A_Read then [v] else [])"

lemma A_before_reading:
  assumes "before_reading s ab vs" and "ReadSpeedTask v s = Some s'"
  shows "before_reading s' (ab @ out_A s) (vs @ read_A v s) \<or> about_to_read s' (ab @ out_A s) (vs @ read_A v s)"
proof -
  have "posA s = At A_Delay \<or> posA s = At A_Take" using assms(1) by (simp add: before_reading_def idle_cases)
  then show ?thesis
  proof
    assume "posA s = At A_Delay"
    then have "before_reading s' (ab @ out_A s) (vs @ read_A v s)" using assms by (auto simp: before_reading_def ReadSpeedTask_def idle_cases)
    then show ?thesis ..
  next
    assume "posA s = At A_Take"
    then have "about_to_read s' (ab @ out_A s) (vs @ read_A v s)"
      using assms by (auto simp: before_reading_def about_to_read_def ReadSpeedTask_def idle_cases sem_take_def fresh_def outA_def)
    then show ?thesis ..
  qed
qed

lemma A_about_to_read:
  assumes "about_to_read s ab vs" and "ReadSpeedTask v s = Some s'"
  shows "about_to_read s' (ab @ out_A s) (vs @ read_A v s) \<or> in_report s' (ab @ out_A s) (vs @ read_A v s)"
proof (cases "posA s")
  case (At l)
  then consider "l = A_Banner" | "l = A_Read" using assms(1) by (auto simp: about_to_read_def fresh_def)
  then show ?thesis
  proof cases
    case 1
    then have "about_to_read s' (ab @ out_A s) (vs @ read_A v s)" using assms At by (auto simp: about_to_read_def ReadSpeedTask_def fresh_def outA_def)
    then show ?thesis ..
  next
    case 2
    then have "in_report s' (ab @ out_A s) (vs @ read_A v s)"
      using assms At by (auto simp: about_to_read_def in_report_def ReadSpeedTask_def reporting_def outA_def report_def)
    then show ?thesis ..
  qed
next
  case (In p l)
  then obtain p' s1 where 1: "print_step TaskA p s = Some (p', s1)" "s' = s1\<lparr>posA := print_at p' l\<rparr>"
    using assms(2) by (auto simp: ReadSpeedTask_def)
  have "l = A_Read" using assms(1) In by (simp add: about_to_read_def fresh_def)
  then have "about_to_read s' (ab @ out_A s) (vs @ read_A v s)"
    using assms(1) In print_step_cases(1) [OF 1(1), of l] print_step_cases(2-) [OF 1(1)] 1(2) by (auto simp: about_to_read_def fresh_def print_at_def outA_def)
  then show ?thesis ..
qed

lemma A_in_report:
  assumes "in_report s ab vs" and "ReadSpeedTask v s = Some s'"
  shows "in_report s' (ab @ out_A s) (vs @ read_A v s) \<or> before_check s' (ab @ out_A s) (vs @ read_A v s)"
proof (cases "posA s")
  case (At l)
  then consider "l = A_Give" | "l \<in> {A_Store, A_Label, A_Convert, A_Number, A_Unit}" using assms(1) by (auto simp: in_report_def reporting_def)
  then show ?thesis
  proof cases
    case 1
    then have "before_check s' (ab @ out_A s) (vs @ read_A v s)"
      using assms At by (auto simp: in_report_def before_check_def ReadSpeedTask_def reporting_def idle_cases sem_give_def outA_def)
    then show ?thesis ..
  next
    case 2
    then have "in_report s' (ab @ out_A s) (vs @ read_A v s)"
      using assms At by (elim insertE) (auto simp: in_report_def ReadSpeedTask_def reporting_def outA_def)
    then show ?thesis ..
  qed
next
  case (In p l)
  then obtain p' s1 where 1: "print_step TaskA p s = Some (p', s1)" "s' = s1\<lparr>posA := print_at p' l\<rparr>"
    using assms(2) by (auto simp: ReadSpeedTask_def)
  have "(l, text_of p) \<in> {(A_Convert, label_A), (A_Unit, uint8_to_str (g_last_speed s)), (A_Give, unit_A)}"
    using assms(1) In by (auto simp: in_report_def reporting_def)
  then have "in_report s' (ab @ out_A s) (vs @ read_A v s)"
    using assms(1) In print_step_cases(1) [OF 1(1), of l] print_step_cases(2-) [OF 1(1)] 1(2)
    by (elim insertE) (auto simp: in_report_def reporting_def print_at_def outA_def report_def)
  then show ?thesis ..
qed

text \<open>Outside its own phases a task only reaches the semaphore, which is not available.\<close>

lemma A_waits:
  assumes "idleA (posA s)" and "semx s = 0" and "ReadSpeedTask v s = Some s'"
  shows "s' = s\<lparr>posA := At A_Take\<rparr>" "out_A s = []" "posA s \<noteq> At A_Read"
  using assms by (auto simp: idle_cases ReadSpeedTask_def sem_take_def)

lemma A_protocol:
  assumes "protocol s ab vs" and "ReadSpeedTask v s = Some s'"
  shows "protocol s' (ab @ out_A s) (vs @ read_A v s)"
proof -
  have "before_check s' (ab @ out_A s) (vs @ read_A v s)" if "before_check s ab vs"
    using that A_waits [OF _ _ assms(2)] by (auto simp: before_check_def idle_cases)
  moreover have "in_check s' (ab @ out_A s) (vs @ read_A v s)" if "in_check s ab vs"
    using that A_waits [OF _ _ assms(2)] by (auto simp: in_check_def idle_cases)
  ultimately show ?thesis using assms A_before_reading A_about_to_read A_in_report unfolding protocol_def by blast
qed

abbreviation out_B :: "firmware \<Rightarrow> string list" where "out_B s \<equiv> map snd (printed TaskB (posB s))"

lemma B_before_check:
  assumes "before_check s ab vs" and "CheckSpeedTask s = Some s'"
  shows "before_check s' (ab @ out_B s) vs \<or> in_check s' (ab @ out_B s) vs"
proof -
  have "posB s = At B_Delay \<or> posB s = At B_Take" using assms(1) by (simp add: before_check_def idle_cases)
  then show ?thesis
  proof
    assume "posB s = At B_Delay"
    then have "before_check s' (ab @ out_B s) vs" using assms by (auto simp: before_check_def CheckSpeedTask_def idle_cases)
    then show ?thesis ..
  next
    assume "posB s = At B_Take"
    then have "in_check s' (ab @ out_B s) vs"
      using assms by (auto simp: before_check_def in_check_def CheckSpeedTask_def idle_cases sem_take_def judging_def outB_def)
    then show ?thesis ..
  qed
qed

lemma B_in_check:
  assumes "in_check s ab vs" and "CheckSpeedTask s = Some s'"
  shows "in_check s' (ab @ out_B s) vs \<or> before_reading s' (ab @ out_B s) vs"
proof (cases "posB s")
  case (At l)
  then consider "l = B_Give" | "l \<in> {B_Banner, B_Check}" using assms(1) by (auto simp: in_check_def judging_def)
  then show ?thesis
  proof cases
    case 1
    then have "before_reading s' (ab @ out_B s) vs"
      using assms At by (auto simp: in_check_def before_reading_def CheckSpeedTask_def judging_def idle_cases sem_give_def outB_def report_def)
    then show ?thesis ..
  next
    case 2
    then have "in_check s' (ab @ out_B s) vs"
      using assms At by (elim insertE) (auto simp: in_check_def CheckSpeedTask_def judging_def outB_def)
    then show ?thesis ..
  qed
next
  case (In p l)
  then obtain p' s1 where 1: "print_step TaskB p s = Some (p', s1)" "s' = s1\<lparr>posB := print_at p' l\<rparr>"
    using assms(2) by (auto simp: CheckSpeedTask_def)
  have "(l, text_of p) \<in> {(B_Check, banner_B), (B_Give, status_B (g_last_speed s))}"
    using assms(1) In by (auto simp: in_check_def judging_def)
  then have "in_check s' (ab @ out_B s) vs"
    using assms(1) In print_step_cases(1) [OF 1(1), of l] print_step_cases(2-) [OF 1(1)] 1(2)
    by (elim insertE) (auto simp: in_check_def judging_def print_at_def outB_def report_def)
  then show ?thesis ..
qed

lemma B_waits:
  assumes "idleB (posB s)" and "semy s = 0" and "CheckSpeedTask s = Some s'"
  shows "s' = s\<lparr>posB := At B_Take\<rparr>" "out_B s = []"
  using assms by (auto simp: idle_cases CheckSpeedTask_def sem_take_def)

lemma B_protocol:
  assumes "protocol s ab vs" and "CheckSpeedTask s = Some s'"
  shows "protocol s' (ab @ out_B s) vs"
proof -
  have "before_reading s' (ab @ out_B s) vs" if "before_reading s ab vs"
    using that B_waits [OF _ _ assms(2)] by (auto simp: before_reading_def idle_cases)
  moreover have "about_to_read s' (ab @ out_B s) vs" if "about_to_read s ab vs"
    using that B_waits [OF _ _ assms(2)] by (auto simp: about_to_read_def idle_cases)
  moreover have "in_report s' (ab @ out_B s) vs" if "in_report s ab vs"
    using that B_waits [OF _ _ assms(2)] by (auto simp: in_report_def idle_cases)
  ultimately show ?thesis using assms B_before_check B_in_check unfolding protocol_def by blast
qed

text \<open>Task C and the timer do not take part.\<close>

lemma protocol_cong:
  assumes "posA s' = posA s" "posB s' = posB s" "semx s' = semx s" "semy s' = semy s"
    "g_last_speed s' = g_last_speed s" "received_value s' = received_value s" "buf_A s' = buf_A s"
  shows "protocol s' ab vs = protocol s ab vs"
proof -
  have "reporting v s' = reporting v s" "judging v s' = judging v s" for v
    using assms by (auto simp: reporting_def judging_def split: position.splits)
  then show ?thesis using assms by (simp add: protocol_def phase_defs)
qed

lemma C_unrelated:
  assumes "TaskCodeC s = Some s'"
  shows "posA s' = posA s" "posB s' = posB s" "semx s' = semx s" "semy s' = semy s"
    "g_last_speed s' = g_last_speed s" "received_value s' = received_value s" "buf_A s' = buf_A s"
  using assms by (auto simp: TaskCodeC_def split: position.splits lineC.splits dest: print_step_cases(2-))

definition texts_AB :: "(task \<times> string) list \<Rightarrow> string list" where
  "texts_AB ms = map snd (filter (\<lambda>(t, _). t \<noteq> TaskC) ms)"

lemma texts_AB_append [simp]: "texts_AB (ms @ ns) = texts_AB ms @ texts_AB ns"
  by (simp add: texts_AB_def)

lemma texts_AB_printed [simp]: "t \<noteq> TaskC \<Longrightarrow> texts_AB (printed t p) = map snd (printed t p)" "texts_AB (printed TaskC q) = []"
  by (auto simp: texts_AB_def printed_def split: position.splits print_pc.splits)

lemma run_protocol: "run s ms vs n \<Longrightarrow> protocol s (texts_AB ms) vs"
proof (induction rule: run.induct)
  case (start v b)
  show ?case by (simp add: protocol_def before_reading_def firmware_start_def idle_cases texts_AB_def)
next
  case (task_A s ms vs n v s')
  then show ?case using A_protocol by simp
next
  case (task_B s ms vs n s')
  then show ?case using B_protocol by simp
next
  case (task_C s ms vs n s')
  then show ?case using protocol_cong [OF C_unrelated] by simp
next
  case (timer s ms vs n)
  then show ?case using protocol_cong [of "vTimerCallback s" s] by (simp add: vTimerCallback_def)
qed

text \<open>What task C prints, and how often.\<close>

definition texts_C :: "(task \<times> string) list \<Rightarrow> string list" where
  "texts_C ms = map snd (filter (\<lambda>(t, _). t = TaskC) ms)"

definition owed_C :: "firmware \<Rightarrow> nat" where
  "owed_C s = semz s + (if posC s = At C_Take then 0 else 1)"

definition calls_C :: "firmware \<Rightarrow> bool" where
  "calls_C s = (case posC s of At _ \<Rightarrow> True | In p l \<Rightarrow> l = C_Take \<and> text_of p = woke_C)"

lemma texts_C_simps [simp]: "texts_C (ms @ ns) = texts_C ms @ texts_C ns" "t \<noteq> TaskC \<Longrightarrow> texts_C (printed t p) = []"
  "texts_C (printed TaskC q) = map snd (printed TaskC q)"
  by (auto simp: texts_C_def printed_def split: position.splits print_pc.splits)

lemma AB_keep_C:
  "ReadSpeedTask v s = Some s' \<Longrightarrow> posC s' = posC s \<and> semz s' = semz s" "CheckSpeedTask s = Some s' \<Longrightarrow> posC s' = posC s \<and> semz s' = semz s"
  by (auto simp: ReadSpeedTask_def CheckSpeedTask_def split: position.splits lineA.splits lineB.splits dest: print_step_cases(9,10))

abbreviation out_C :: "firmware \<Rightarrow> string list" where "out_C s \<equiv> map snd (printed TaskC (posC s))"

lemma C_step:
  assumes "TaskCodeC s = Some s'" and "calls_C s"
  shows "calls_C s' \<and> out_C s @ replicate (owed_C s') woke_C = replicate (owed_C s) woke_C"
proof (cases "posC s")
  case (At l)
  then show ?thesis using assms by (cases l) (auto simp: TaskCodeC_def calls_C_def owed_C_def sem_take_def split: if_splits)
next
  case (In p l)
  then obtain p' s1 where 1: "print_step TaskC p s = Some (p', s1)" "s' = s1\<lparr>posC := print_at p' l\<rparr>"
    using assms(1) by (auto simp: TaskCodeC_def)
  show ?thesis using assms(2) In print_step_cases(1) [OF 1(1), of l] print_step_cases(2-) [OF 1(1)] 1(2)
    by (auto simp: calls_C_def owed_C_def print_at_def)
qed

lemma run_C: "run s ms vs n \<Longrightarrow> calls_C s \<and> (\<exists>k. texts_C ms @ replicate (owed_C s) woke_C = replicate k woke_C \<and> k \<le> n)"
proof (induction rule: run.induct)
  case (start v b)
  show ?case by (simp add: firmware_start_def calls_C_def owed_C_def texts_C_def)
next
  case (task_A s ms vs n v s')
  then show ?case using AB_keep_C(1) [of v s s'] by (simp add: calls_C_def owed_C_def)
next
  case (task_B s ms vs n s')
  then show ?case using AB_keep_C(2) [of s s'] by (simp add: calls_C_def owed_C_def)
next
  case (task_C s ms vs n s')
  then show ?case using C_step [of s s'] by auto
next
  case (timer s ms vs n)
  then obtain k where k: "texts_C ms @ replicate (owed_C s) woke_C = replicate k woke_C" "k \<le> n" "calls_C s" by blast
  have "owed_C (vTimerCallback s) = owed_C s \<or> owed_C (vTimerCallback s) = owed_C s + 1" by (auto simp: owed_C_def vTimerCallback_def sem_give_def)
  moreover have "texts_C ms @ replicate (owed_C s + 1) woke_C = replicate (k + 1) woke_C" by (simp only: replicate_add append_assoc [symmetric] k(1))
  moreover have "calls_C (vTimerCallback s)" using k(3) by (simp add: calls_C_def vTimerCallback_def)
  ultimately show ?case using k(1,2) by (metis add_le_mono1 trans_le_add1)
qed

section \<open>What the application guarantees\<close>

definition printing :: "firmware \<Rightarrow> task \<Rightarrow> string option" where
  "printing s t =
     (case t of TaskA \<Rightarrow> (case posA s of In p _ \<Rightarrow> Some (text_of p) | At _ \<Rightarrow> None)
      | TaskB \<Rightarrow> (case posB s of In p _ \<Rightarrow> Some (text_of p) | At _ \<Rightarrow> None)
      | TaskC \<Rightarrow> (case posC s of In p _ \<Rightarrow> Some (text_of p) | At _ \<Rightarrow> None))"

lemma inside_prefix: "inside p \<Longrightarrow> \<exists>q l. p = In q l \<and> prefix (sending p) (text_of q)"
  by (auto simp: inside_def sending_def take_is_prefix split: position.splits print_pc.splits)

lemma console_part:
  assumes "console_ok s ms"
  shows "\<exists>part. console s = concat (map snd ms) @ part \<and> (case mutex s of None \<Rightarrow> part = [] | Some t \<Rightarrow> \<exists>str. printing s t = Some str \<and> prefix part str)"
proof -
  have "sending (posA s) @ sending (posB s) @ sending (posC s) =
      (case mutex s of None \<Rightarrow> [] | Some TaskA \<Rightarrow> sending (posA s) | Some TaskB \<Rightarrow> sending (posB s) | Some TaskC \<Rightarrow> sending (posC s))"
    using assms by (auto simp: console_defs outside_sends_nothing split: option.splits task.splits)
  moreover have "case mutex s of None \<Rightarrow> True | Some TaskA \<Rightarrow> inside (posA s) | Some TaskB \<Rightarrow> inside (posB s) | Some TaskC \<Rightarrow> inside (posC s)"
    using assms by (auto simp: console_defs split: option.splits task.splits)
  ultimately show ?thesis using assms
    by (auto simp: console_ok_def printing_def split: option.splits task.splits dest!: inside_prefix)
qed

lemma protocol_prefix:
  assumes "protocol s ab vs"
  shows "prefix (concat (map report (butlast vs))) ab" "prefix ab (concat (map report vs) @ [banner_A])"
proof -
  have last: "concat (map report vs) = concat (map report (butlast vs)) @ (if vs = [] then [] else report (last vs))"
    by (cases vs rule: rev_cases) auto
  have r: "prefix (take k (report v)) (report v @ [banner_A])" for k v using take_is_prefix prefix_order.trans by (metis prefix_append)
  show "prefix (concat (map report (butlast vs))) ab"
    using assms last by (auto simp: protocol_def phase_defs)
  show "prefix ab (concat (map report vs) @ [banner_A])"
    using assms r by (auto simp: protocol_def phase_defs take_is_prefix)
qed

text \<open>Schedules of the three tasks that can be followed step by step, the sensor answering \<open>v\<close>.\<close>

type_synonym observed = "firmware \<times> (task \<times> string) list \<times> u8 list"

fun turn :: "u8 \<Rightarrow> task \<Rightarrow> observed \<Rightarrow> observed option" where
  "turn v TaskA (s, ms, vs) = map_option (\<lambda>s'. (s', ms @ printed TaskA (posA s), vs @ read_A v s)) (ReadSpeedTask v s)"
| "turn v TaskB (s, ms, vs) = map_option (\<lambda>s'. (s', ms @ printed TaskB (posB s), vs)) (CheckSpeedTask s)"
| "turn v TaskC (s, ms, vs) = map_option (\<lambda>s'. (s', ms @ printed TaskC (posC s), vs)) (TaskCodeC s)"

fun turns :: "u8 \<Rightarrow> task list \<Rightarrow> observed \<Rightarrow> observed option" where
  "turns v [] c = Some c"
| "turns v (t # ts) c = Option.bind (turn v t c) (turns v ts)"

lemma turn_run: "turn v t (s, ms, vs) = Some (s', ms', vs') \<Longrightarrow> run s ms vs n \<Longrightarrow> run s' ms' vs' n"
  by (cases t) (auto intro: run.intros)

lemma turns_run: "turns v ts (s, ms, vs) = Some (s', ms', vs') \<Longrightarrow> run s ms vs n \<Longrightarrow> run s' ms' vs' n"
  by (induction ts arbitrary: s ms vs) (auto simp: bind_eq_Some_conv dest: turn_run)

lemma number_fits: "length (uint8_to_str v) < 4"
proof -
  have "unat v < 256" using unsigned_less [of v] by simp
  then have "unat v div 10 < 26" "unat v div 10 div 10 < 3" by linarith+
  then show ?thesis by (simp add: uint8_to_str_def decimal.simps [of "unat v"] decimal.simps [of "unat v div 10"] decimal.simps [of "unat v div 10 div 10"])
qed

lemma demo_round:
  "map_option (\<lambda>(s, ms, vs). (ms, vs, mutex s)) (turns 201 (replicate 77 TaskA @ replicate 82 TaskB) (firmware_start 0 [], [], [])) =
    Some (zip [TaskA, TaskA, TaskA, TaskA, TaskB, TaskB] (report 201), [201], None)"
  by code_simp

text \<open>
  C2. Whatever order the tasks run in, the serial line carries whole texts: everything printed so far,
  one text after the other, and the part already sent of the text that the holder of the mutex is
  printing. Tasks A and B take turns: leaving out task C, the texts are the reports on the readings in
  the order in which they were read, each with the number read and the judgement on that very number;
  only the last report can be incomplete. Task C prints its text at most once for each expiry of the
  timer.
\<close>

theorem demo_reports:
  assumes "run s ms vs n"
  shows "(\<exists>part. console s = concat (map snd ms) @ part \<and>
      (case mutex s of None \<Rightarrow> part = [] | Some t \<Rightarrow> \<exists>str. printing s t = Some str \<and> prefix part str)) \<and>
    prefix (concat (map report (butlast vs))) (texts_AB ms) \<and> prefix (texts_AB ms) (concat (map report vs) @ [banner_A]) \<and>
    (\<exists>k\<le>n. texts_C ms = replicate k woke_C)"
proof -
  obtain k where k: "texts_C ms @ replicate (owed_C s) woke_C = replicate k woke_C" "k \<le> n" using run_C [OF assms] by blast
  then have "texts_C ms = replicate (length (texts_C ms)) woke_C" "length (texts_C ms) \<le> k"
    by (metis append_eq_conv_conj take_replicate min.absorb1 length_append length_replicate le_add1)+
  then show ?thesis using k(2) console_part [OF run_console [OF assms]] protocol_prefix [OF run_protocol [OF assms]] by (meson order_trans)
qed

theorem demo_reports_witness: "\<exists>s ms. run s ms [201] 0 \<and> texts_AB ms = report 201 \<and> console s = concat (report 201)"
proof -
  obtain s where s: "turns 201 (replicate 77 TaskA @ replicate 82 TaskB) (firmware_start 0 [], [], []) =
      Some (s, zip [TaskA, TaskA, TaskA, TaskA, TaskB, TaskB] (report 201), [201])" "mutex s = None"
    using demo_round by (auto simp del: append_eq_append_conv2)
  let ?ms = "zip [TaskA, TaskA, TaskA, TaskA, TaskB, TaskB] (report 201)"
  have run: "run s ?ms [201] 0" using turns_run [OF s(1) run.start] .
  then have "console s = concat (map snd ?ms)" using demo_reports [OF run] s(2) by auto
  moreover have "map snd ?ms = report 201" "texts_AB ?ms = report 201" by (simp_all add: report_def texts_AB_def)
  ultimately show ?thesis using run by metis
qed

lemma some_task_moves:
  assumes "run s ms vs n"
  shows "ReadSpeedTask v s \<noteq> None \<or> CheckSpeedTask s \<noteq> None \<or> TaskCodeC s \<noteq> None"
proof (cases "mutex s")
  case None
  have free: "print_step t p s \<noteq> None" for t p using None by (cases p) auto
  have "\<not> (posA s = At A_Take \<and> semx s = 0 \<and> posB s = At B_Take \<and> semy s = 0)"
    using run_protocol [OF assms] by (auto simp: protocol_def phase_defs fresh_def reporting_def judging_def)
  then show ?thesis using free
    by (cases "posA s"; cases "posB s") (auto simp: ReadSpeedTask_def CheckSpeedTask_def sem_take_def split: lineA.splits lineB.splits)
next
  case (Some t)
  have inside: "inside p \<Longrightarrow> \<exists>q l. p = In q l \<and> (\<forall>t. print_step t q s \<noteq> None)" for p :: "'l position"
    by (auto simp: inside_def split: position.splits print_pc.splits)
  show ?thesis using run_console [OF assms] Some
    by (cases t) (auto simp: console_defs ReadSpeedTask_def CheckSpeedTask_def TaskCodeC_def dest!: inside)
qed

text \<open>
  C10. The tasks never block each other for ever: in every state that can arise, task A, task B or task C
  can take a step without waiting for the timer, so the processor is never left to the idle task by a
  deadlock on the semaphores and the mutex.
\<close>

theorem demo_no_deadlock:
  assumes "run s ms vs n"
  shows "\<exists>s'. ReadSpeedTask v s = Some s' \<or> CheckSpeedTask s = Some s' \<or> TaskCodeC s = Some s'"
  using some_task_moves [OF assms, of v] by auto

theorem demo_no_deadlock_witness:
  "run (firmware_start 0 []) [] [] 0 \<and>
    (\<exists>s'. ReadSpeedTask 7 (firmware_start 0 []) = Some s' \<or> CheckSpeedTask (firmware_start 0 []) = Some s' \<or> TaskCodeC (firmware_start 0 []) = Some s')"
  using demo_no_deadlock [OF run.start, of 7 0 "[]"] run.start by blast

end
