(* ===== verification/FreeRTOS_Timers_Correct.thy ===== *)
theory FreeRTOS_Timers_Correct
  imports FreeRTOS_Queue_Correct FreeRTOS_Timers
begin

text \<open>
  Correctness of the software timers: an auto-reload timer keeps to its period exactly, however late
  the timer task runs and across the overflow of the tick counter, and commands reach the timer task
  through the queue with the time at which they were given.
\<close>

unbundle bit_operations_syntax

section \<open>Expiry times\<close>

lemma unat_add_cases: "unat (a + b) = (if unat a + unat b < 2 ^ 32 then unat a + unat b else unat a + unat b - 2 ^ 32)" for a b :: u32
proof -
  have "unat a < 2 ^ 32" "unat b < 2 ^ 32" using unsigned_less [of a] unsigned_less [of b] by simp_all
  then show ?thesis by (auto simp: unat_word_ariths le_mod_geq)
qed

text \<open>The comparison of an expiry time with the present, seen from the time the command was given, is exact also when the counter has overflowed.\<close>

lemma expiry_due:
  fixes X p now :: u32
  shows "(if X + p \<le> now then p \<le> now - X else now < X \<and> X \<le> X + p) \<longleftrightarrow> p \<le> now - X"
proof -
  define d where "d = now - X"
  have now: "now = X + d" by (simp add: d_def)
  have b: "unat X < 2 ^ 32" "unat p < 2 ^ 32" "unat d < 2 ^ 32" using unsigned_less [of X] unsigned_less [of p] unsigned_less [of d] by simp_all
  have "(X + p \<le> X + d) = (unat (X + p) \<le> unat (X + d))" "(X + d < X) = (unat (X + d) < unat X)" "(X \<le> X + p) = (unat X \<le> unat (X + p))"
    "(p \<le> d) = (unat p \<le> unat d)" by (simp_all add: word_le_nat_alt word_less_nat_alt)
  then show ?thesis using b unfolding now by (auto simp: unat_add_cases)
qed

lemma insert_timer_eq:
  assumes "p = xTimerPeriodInTicks (timer s t)"
  shows "prvInsertTimerInActiveList t (X + p) now X s =
    (let s' = s\<lparr>tlists := list_set_value t (X + p) (tlists s)\<rparr>
     in if p \<le> now - X then (True, s')
        else (False, s'\<lparr>tlists := list_insert (if X + p \<le> now then pxOverflowTimerList s else pxCurrentTimerList s) t (tlists s')\<rparr>))"
  using expiry_due [of X p now] assms by (auto simp: prvInsertTimerInActiveList_def Let_def)

text \<open>The expiry times of a timer that is late: so many periods are over, and the next one ends within a period from now.\<close>

definition periods_over :: "u32 \<Rightarrow> u32 \<Rightarrow> u32 \<Rightarrow> nat" where
  "periods_over X p now = unat (now - X) div unat p"

definition next_expiry :: "u32 \<Rightarrow> u32 \<Rightarrow> u32 \<Rightarrow> u32" where
  "next_expiry X p now = X + of_nat (periods_over X p now + 1) * p"

lemma periods_step:
  assumes "p \<le> now - X" and "p > 0"
  shows "periods_over X p now = Suc (periods_over (X + p) p now)" "next_expiry X p now = next_expiry (X + p) p now"
proof -
  have "unat (now - (X + p)) = unat (now - X) - unat p" using assms(1) unat_sub [of p "now - X"] by (simp add: diff_diff_eq)
  moreover have "unat p \<le> unat (now - X)" "0 < unat p" using assms by (simp_all add: word_le_nat_alt unat_gt_0)
  ultimately show 1: "periods_over X p now = Suc (periods_over (X + p) p now)" by (simp add: periods_over_def le_div_geq)
  show "next_expiry X p now = next_expiry (X + p) p now" unfolding next_expiry_def 1 by (simp add: algebra_simps)
qed

lemma periods_done: "now - X < p \<Longrightarrow> periods_over X p now = 0 \<and> next_expiry X p now = X + p"
  by (simp add: periods_over_def next_expiry_def word_less_nat_alt)

lemma next_expiry_ahead:
  assumes "p > 0"
  shows "0 < unat (next_expiry X p now - now)" "unat (next_expiry X p now - now) \<le> unat p"
proof -
  let ?d = "unat (now - X)" and ?n = "periods_over X p now" and ?p = "unat p"
  have p: "0 < ?p" "?p < 2 ^ 32" using assms unsigned_less [of p] by (simp_all add: unat_gt_0)
  have d: "?d = ?n * ?p + ?d mod ?p" "?d mod ?p < ?p" using p by (simp_all add: periods_over_def)
  have le: "?d \<le> (?n + 1) * ?p" using d by (simp add: algebra_simps)
  have "next_expiry X p now - now = of_nat (?n + 1) * p - (now - X)" by (simp add: next_expiry_def)
  also have "\<dots> = of_nat ((?n + 1) * ?p) - of_nat ?d" by (simp add: distrib_right)
  also have "\<dots> = of_nat ((?n + 1) * ?p - ?d)" using le by (simp only: of_nat_diff)
  also have "(?n + 1) * ?p - ?d = ?p - ?d mod ?p" using d(1) by simp
  finally have "unat (next_expiry X p now - now) = ?p - ?d mod ?p" using p(2) by (simp add: unat_of_nat)
  then show "0 < unat (next_expiry X p now - now)" "unat (next_expiry X p now - now) \<le> ?p" using d(2) by simp_all
qed

section \<open>An auto-reload timer keeps its period\<close>

text \<open>
  A callback that returns, and that reaches the timers by commands only: it may change the
  application's memory and make any call of the kernel, also send commands to the timer task, whose
  queue is part of the kernel's state, but it does not write the timers themselves. Its effect is \<open>g\<close>,
  as long as \<open>I\<close> holds, which it keeps.
\<close>

definition callback_runs :: "'x callbacks \<Rightarrow> u32 \<Rightarrow> timer_id \<Rightarrow> (qstate \<times> 'x \<Rightarrow> bool) \<Rightarrow> (qstate \<times> 'x \<Rightarrow> qstate \<times> 'x) \<Rightarrow> bool" where
  "callback_runs C fn t I g \<longleftrightarrow> (\<forall>s. I (qs s, app s) \<longrightarrow> I (g (qs s, app s)) \<and>
     timer_callback C fn t s = Inr (s\<lparr>qs := fst (g (qs s, app s)), app := snd (g (qs s, app s))\<rparr>))"

definition after_calls :: "(qstate \<times> 'x \<Rightarrow> qstate \<times> 'x) \<Rightarrow> nat \<Rightarrow> 'x timers \<Rightarrow> 'x timers" where
  "after_calls g n s = s\<lparr>qs := fst ((g ^^ n) (qs s, app s)), app := snd ((g ^^ n) (qs s, app s))\<rparr>"

lemma after_calls_fields [simp]:
  "timer (after_calls g n s) = timer s" "tlists (after_calls g n s) = tlists s" "pxCurrentTimerList (after_calls g n s) = pxCurrentTimerList s"
  "pxOverflowTimerList (after_calls g n s) = pxOverflowTimerList s" "(qs (after_calls g n s), app (after_calls g n s)) = (g ^^ n) (qs s, app s)"
  "after_calls g 0 s = s" "after_calls g n (s\<lparr>tlists := L\<rparr>) = (after_calls g n s)\<lparr>tlists := L\<rparr>"
  by (simp_all add: after_calls_def)

lemma after_calls_add: "after_calls g m (after_calls g n s) = after_calls g (m + n) s"
  by (simp add: after_calls_def funpow_add)

lemma callback_runs_call:
  assumes "callback_runs C fn t I g" and "I (qs s, app s)" and "pxCallbackFunction (timer s t) = fn"
  shows "call_timer C t s = Inr (after_calls g 1 s)" "I (qs (after_calls g 1 s), app (after_calls g 1 s))"
  using assms by (simp_all add: callback_runs_def call_timer_def after_calls_def)

lemma callback_runs_keeps:
  assumes "callback_runs C fn t I g" and "I x"
  shows "I ((g ^^ n) x)"
proof (induction n)
  case (Suc n)
  obtain Q a where x: "(g ^^ n) x = (Q, a)" by fastforce
  then show ?case using Suc assms(1) [unfolded callback_runs_def, rule_format, of "undefined\<lparr>qs := Q, app := a\<rparr>"] by simp
qed (simp add: assms(2))

definition expiry_list :: "u32 \<Rightarrow> u32 \<Rightarrow> 'x timers \<Rightarrow> timer_list" where
  "expiry_list e now s = (if e \<le> now then pxOverflowTimerList s else pxCurrentTimerList s)"

lemma set_value_twice [simp]: "list_set_value t v (list_set_value t w A) = list_set_value t v A"
  by (simp add: list_set_value_def)

lemma reload_exact:
  assumes "callback_runs C fn t I g" and "I (qs s, app s)" and "pxCallbackFunction (timer s t) = fn"
    and "p = xTimerPeriodInTicks (timer s t)" and "p > 0" and "periods_over X p now < fuel"
  shows "prvReloadTimer C fuel t X now s = Inr ((after_calls g (periods_over X p now) s)\<lparr>
    tlists := list_insert (expiry_list (next_expiry X p now) now s) t (list_set_value t (next_expiry X p now) (tlists s))\<rparr>)"
  using assms(2-6) unfolding prvReloadTimer_def
proof (induction fuel arbitrary: X s)
  case (Suc fuel)
  let ?s = "s\<lparr>tlists := list_set_value t (X + p) (tlists s)\<rparr>"
  show ?case
  proof (cases "p \<le> now - X")
    case True
    note st = periods_step [OF True Suc.prems(4)]
    let ?s2 = "after_calls g 1 ?s"
    have c: "call_timer C t ?s = Inr ?s2" "I (qs ?s2, app ?s2)"
      using callback_runs_call [OF assms(1), of ?s] Suc.prems(1,2) by (simp_all add: call_timer_def)
    have "reload_loop C (Suc fuel) t X now s = reload_loop C fuel t (X + p) now ?s2"
      using True c(1) insert_timer_eq [OF Suc.prems(3)] Suc.prems(3) by (simp add: Let_def)
    also have "\<dots> = Inr ((after_calls g (periods_over (X + p) p now) ?s2)\<lparr>
        tlists := list_insert (expiry_list (next_expiry (X + p) p now) now ?s2) t (list_set_value t (next_expiry (X + p) p now) (tlists ?s2))\<rparr>)"
      by (rule Suc.IH) (use Suc.prems st c(2) in simp_all)
    finally show ?thesis using st by (simp add: expiry_list_def after_calls_add)
  next
    case False
    then have "prvInsertTimerInActiveList t (X + p) now X s = (False, ?s\<lparr>tlists := list_insert (expiry_list (X + p) now s) t (tlists ?s)\<rparr>)"
      using insert_timer_eq [OF Suc.prems(3), of X now] by (simp add: Let_def expiry_list_def)
    moreover have "periods_over X p now = 0 \<and> next_expiry X p now = X + p" using False by (intro periods_done) simp
    ultimately show ?thesis by (simp flip: Suc.prems(3))
  qed
qed simp

lemma autoreload_lists [simp]: "autoreload t (s\<lparr>tlists := L\<rparr>) \<longleftrightarrow> autoreload t s"
  by (simp add: autoreload_def)

lemma insert_at [simp]: "lcontainer (list_insert l t A) t = Some l" "lvalue (list_insert l t A) = lvalue A" "t \<in> set (litems (list_insert l t A) l)"
  by (simp_all add: list_insert_def Let_def)

lemma set_value_at [simp]: "lvalue (list_set_value t v A) t = v" "lcontainer (list_set_value t v A) = lcontainer A" "litems (list_set_value t v A) = litems A"
  by (simp_all add: list_set_value_def)

text \<open>What the timer task does to an auto-reload timer that is due, however late.\<close>

lemma expired_exact:
  assumes "callback_runs C fn t I g" and "I (qs s, app s)" and "pxCallbackFunction (timer s t) = fn"
    and "litems (tlists s) (pxCurrentTimerList s) = t # ts" and "lists_wf (tlists s)" and "autoreload t s"
    and "p = xTimerPeriodInTicks (timer s t)" and "p > 0" and "periods_over X p now < fuel"
  shows "\<exists>L. list_remove t (tlists s) = Inr L \<and> prvProcessExpiredTimer C fuel X now s =
    Inr ((after_calls g (periods_over X p now + 1) s)\<lparr>tlists := list_insert (expiry_list (next_expiry X p now) now s) t (list_set_value t (next_expiry X p now) L)\<rparr>)"
proof -
  have "lcontainer (tlists s) t = Some (pxCurrentTimerList s)" using assms(4,5) by (auto simp: lists_wf_def)
  then obtain L where L: "list_remove t (tlists s) = Inr L" by (simp add: list_remove_def)
  let ?n = "periods_over X p now" and ?e = "next_expiry X p now" and ?s = "s\<lparr>tlists := L\<rparr>"
  let ?s2 = "(after_calls g ?n ?s)\<lparr>tlists := list_insert (expiry_list ?e now ?s) t (list_set_value t ?e (tlists ?s))\<rparr>"
  have r: "prvReloadTimer C fuel t X now ?s = Inr ?s2"
    by (rule reload_exact [OF assms(1)]) (use assms(2,3,7,8,9) in simp_all)
  have "I (qs ?s2, app ?s2)" using callback_runs_keeps [OF assms(1,2), of ?n] by (simp flip: after_calls_fields(5))
  then have "call_timer C t ?s2 = Inr (after_calls g 1 ?s2)" using assms(3) by (intro callback_runs_call [OF assms(1)]) simp_all
  then show ?thesis using assms(4,6) L r by (simp add: prvProcessExpiredTimer_def list_head_def Let_def after_calls_add expiry_list_def)
qed

text \<open>A single timer of period 10 whose expiry was 25 ticks ago, across the overflow of the counter.\<close>

definition example_timers :: "nat timers" where
  "example_timers = \<lparr>qs = example_qstate (example_kernel 0) (example_queue 2 16),
     timer = (\<lambda>_. \<lparr>pcTimerName = ''t'', xTimerPeriodInTicks = 10, pvTimerID = 0, pxCallbackFunction = 0, uxTimerNumber = 0, ucStatus = 5\<rparr>),
     tlists = \<lparr>litems = (\<lambda>l. if l = xActiveTimerList1 then [8] else []), lindex = (\<lambda>_. None), lvalue = (\<lambda>_. - 20), lcontainer = (\<lambda>i. if i = 8 then Some xActiveTimerList1 else None)\<rparr>,
     pxCurrentTimerList = xActiveTimerList1, pxOverflowTimerList = xActiveTimerList2, xTimerQueue = Some 7, xTimerTaskHandle = Some 1, xLastTime = 0, app = 0\<rparr>"

definition counting_callbacks :: "nat callbacks" where
  "counting_callbacks = \<lparr>timer_callback = (\<lambda>_ _ s. Inr (s\<lparr>app := app s + 1\<rparr>)), pended_function = (\<lambda>_ _ _. Inr)\<rparr>"

section \<open>Commands\<close>

lemma word_bytes_length [simp]: "length (word_bytes w) = 4"
  by (simp add: word_bytes_def)

lemma bytes_word_inverse [simp]: "bytes_word (word_bytes w) = w"
proof (rule bit_word_eqI)
  fix n
  assume "n < LENGTH(32)"
  then have "n < 32" by simp
  then consider "n < 8" | "8 \<le> n" "n < 16" | "16 \<le> n" "n < 24" | "24 \<le> n" "n < 32" by linarith
  then show "bit (bytes_word (word_bytes w)) n = bit w n"
    by cases (auto simp: bytes_word_def word_bytes_def upt_rec bit_or_iff bit_push_bit_iff bit_ucast_iff bit_drop_bit_eq)
qed

text \<open>What the timer task finds in a message is what was put in.\<close>

lemma timer_message_fields:
  assumes "t < 2 ^ 32"
  shows "word_at (timer_message i v t rest) 4 = v" "unat (word_at (timer_message i v t rest) 8) = t" "message_id (timer_message i v t rest) = sint (word_of_int i :: u32)"
proof -
  show "word_at (timer_message i v t rest) 4 = v" "message_id (timer_message i v t rest) = sint (word_of_int i :: u32)"
    by (simp_all add: timer_message_def word_at_def message_id_def)
  have "word_at (timer_message i v t rest) 8 = of_nat t" by (simp add: timer_message_def word_at_def)
  then show "unat (word_at (timer_message i v t rest) 8) = t" using assms by (simp add: unat_of_nat)
qed

lemma remove_item_tick: "remove_item i k = Inr k' \<Longrightarrow> xTickCount k' = xTickCount k"
  by (auto simp: remove_item_def rbind_Inr_iff)

lemma add_ready_tick: "prvAddTaskToReadyList t k = Inr k' \<Longrightarrow> xTickCount k' = xTickCount k"
  by (auto simp: prvAddTaskToReadyList_def Let_def rbind_Inr_iff taskRECORD_READY_PRIORITY_def insert_end_item_def)

lemma remove_from_event_list_tick:
  assumes "xTaskRemoveFromEventList l k = Inr (b, k')"
  shows "xTickCount k' = xTickCount k"
proof -
  obtain i k1 k2 t where 1: "remove_item (EventItem (item_owner i)) k = Inr k1"
    "(if uxSchedulerSuspended k1 = 0 then rbind (remove_item (StateItem (item_owner i)) k1) (prvAddTaskToReadyList (item_owner i))
      else Inr (insert_end_item PendingReadyList (EventItem (item_owner i)) k1)) = Inr k2"
    "(if uxPriority (tcb k2 (item_owner i)) > uxPriority (tcb k2 t) then (True, k2\<lparr>xYieldPending := True\<rparr>) else (False, k2)) = (b, k')"
    using assms unfolding xTaskRemoveFromEventList_def Let_def rbind_Inr_iff by (elim exE conjE) simp
  have "xTickCount k2 = xTickCount k1"
    using 1(2) by (cases "uxSchedulerSuspended k1 = 0") (auto simp: rbind_Inr_iff insert_end_item_def dest!: remove_item_tick add_ready_tick)
  then show ?thesis using remove_item_tick [OF 1(1)] 1(3) by (auto split: if_splits)
qed

lemma wake_waiting_tick: "wake_waiting l b k = Inr k' \<Longrightarrow> xTickCount k' = xTickCount k"
  by (auto simp: wake_waiting_def rbind_Inr_iff portYIELD_WITHIN_API_def split: if_splits dest: remove_from_event_list_tick)

lemma receive_tick:
  assumes "xQueueReceive to q True n s = Inr (r, w, s')"
  shows "xTickCount (kern s') = xTickCount (kern s)"
proof -
  have c: "prvCopyDataFromQueue q s = Inr (d, s1) \<Longrightarrow> kern s1 = kern s" for d s1
    by (auto simp: prvCopyDataFromQueue_def rbind_Inr_iff set_queue_def split: if_splits)
  show ?thesis
    using assms by (auto simp: xQueueReceive_def receive_try_def rbind_Inr_iff Let_def set_queue_def split: if_splits dest!: c wake_waiting_tick)
qed

lemma receive_message:
  assumes "queue_ok h T q L m (x # xs) s"
  shows "\<exists>w s'. xQueueReceive to q True 0 s = Inr (Some (Some x), w, s') \<and> queue_ok h T q L m xs s' \<and> xTickCount (kern s') = xTickCount (kern s)"
proof -
  obtain s' where "run_queue_op to q (Receive 0) s = Inr (Received (Some (Some x)), s')" "queue_ok h T q L m xs s'" using receive_op(1) [OF assms, of 0] by blast
  then show ?thesis using receive_tick [of to q 0 s] by (auto simp: rbind_Inr_iff)
qed

lemma receive_nothing:
  assumes "queue_ok h T q L m [] s"
  shows "\<exists>w s'. xQueueReceive to q True 0 s = Inr (Some None, w, s') \<and> queue_ok h T q L m [] s'"
  using assms queue_okD(3,5,7) [OF assms]
  by (simp add: xQueueReceive_def receive_checks_def receive_try_def scheduler_allows_def wait_start_def)

lemma send_tick:
  assumes "xQueueGenericSend to q d n pos s = Inr (r, w, s')" and "uxItemSize (queue s q) \<noteq> 0"
  shows "xTickCount (kern s') = xTickCount (kern s)"
proof -
  have c: "prvCopyDataToQueue q d pos s = Inr (b, s1) \<Longrightarrow> kern s1 = kern s" for b s1
    using assms(2) by (auto simp: prvCopyDataToQueue_def rbind_Inr_iff Let_def set_queue_def)
  show ?thesis
    using assms(1) by (auto simp: xQueueGenericSend_def send_try_def rbind_Inr_iff split: if_splits dest!: c wake_waiting_tick)
qed

lemma send_message:
  assumes "queue_ok h T q L m xs s" and "length xs < L" and "length d = m"
  shows "\<exists>w s'. xQueueGenericSend to q (Some d) 0 queueSEND_TO_BACK s = Inr (Some True, w, s') \<and> queue_ok h T q L m (xs @ [d]) s' \<and>
    xTickCount (kern s') = xTickCount (kern s)"
proof -
  obtain s' where "run_queue_op to q (Send 0 queueSEND_TO_BACK d) s = Inr (Sent (Some True), s')" "queue_ok h T q L m (xs @ [d]) s'"
    using send_op [OF assms(1), of 0 queueSEND_TO_BACK d to] assms(2,3) by (auto simp: spec_send_def simp del: run_queue_op.simps)
  then show ?thesis using send_tick [of to q "Some d" 0 queueSEND_TO_BACK s] queue_okD(5,7) [OF assms(1)] by (auto simp: rbind_Inr_iff)
qed

lemma start_timer_ahead:
  assumes "p = xTimerPeriodInTicks (timer s t)" and "now - X < p"
  shows "start_timer C fuel t X now s = Inr ((mark_active t s)\<lparr>tlists := list_insert (expiry_list (X + p) now s) t (list_set_value t (X + p) (tlists s))\<rparr>)"
proof -
  have p: "p = xTimerPeriodInTicks (timer (mark_active t s) t)" using assms(1) by (simp add: mark_active_def set_timer_def)
  have "\<not> p \<le> now - X" using assms(2) by simp
  then have "prvInsertTimerInActiveList t (X + p) now X (mark_active t s) =
      (False, (mark_active t s)\<lparr>tlists := list_insert (expiry_list (X + p) now s) t (list_set_value t (X + p) (tlists s))\<rparr>)"
    using insert_timer_eq [OF p, of X now] by (simp add: Let_def expiry_list_def) (simp add: mark_active_def set_timer_def)
  then show ?thesis by (simp add: start_timer_def Let_def flip: p)
qed

text \<open>
  C19. A start command counts from the time it was given. \<^verbatim>\<open>xTimerStart\<close> sends a message through the
  timer queue, and when the timer task receives it, at any later time less than a period away,
  the timer becomes active and expires one period after the call, not after the receipt; the queue
  is empty again. The message crosses the queue as sixteen bytes.
\<close>

theorem timer_start_delivered:
  assumes "queue_ok h T q L 16 [] (qs s)" and "0 < L" and "xTimerQueue s = Some q" and "t < 2 ^ 32" and "length rest = 4"
    and "X = xTaskGetTickCount (kern (qs s))" and "p = xTimerPeriodInTicks (timer s t)" and "lcontainer (tlists s) t = None"
  shows "\<exists>s1. xTimerStart rest to (Some t) 0 s = Inr (Some True, False, s1) \<and> xTaskGetTickCount (kern (qs s1)) = X \<and>
    (\<exists>msg. queue_ok h T q L 16 [msg] (qs s1) \<and>
      (\<forall>h' T' Q now. queue_ok h' T' q L 16 [msg] Q \<and> now = xTickCount (kern Q) \<and> xLastTime s \<le> now \<and> unat (now - X) < unat p \<longrightarrow>
        (\<exists>s2. prvProcessReceivedCommands C 2 to (s1\<lparr>qs := Q\<rparr>) = Inr s2 \<and> queue_ok h' T' q L 16 [] (qs s2) \<and>
          xTimerIsTimerActive (Some t) s2 = Inr True \<and> xTimerGetExpiryTime (Some t) s2 = Inr (X + p) \<and>
          lcontainer (tlists s2) t = Some (if X + p \<le> now then pxOverflowTimerList s else pxCurrentTimerList s))))"
proof -
  let ?msg = "timer_message tmrCOMMAND_START X t rest"
  have len: "length ?msg = 16" using assms(5) by (simp add: timer_message_def)
  note fields = timer_message_fields [OF assms(4), of tmrCOMMAND_START X rest]
  have id: "message_id ?msg = tmrCOMMAND_START" using fields(3) by (simp add: tmrCOMMAND_START_def)
  obtain w Q1 where send: "xQueueGenericSend to q (Some ?msg) 0 queueSEND_TO_BACK (qs s) = Inr (Some True, w, Q1)" "queue_ok h T q L 16 [?msg] Q1" "xTickCount (kern Q1) = xTickCount (kern (qs s))"
    using send_message [OF assms(1) _ len, of to] assms(2) by auto
  have start: "xTimerStart rest to (Some t) 0 s = Inr (Some True, False, s\<lparr>qs := Q1\<rparr>)"
    using send(1) assms(3,6) by (simp add: xTimerStart_def xTimerGenericCommand_def Let_def timer_commands)
  have "\<exists>s2. prvProcessReceivedCommands C 2 to ((s\<lparr>qs := Q1\<rparr>)\<lparr>qs := Q\<rparr>) = Inr s2 \<and> queue_ok h' T' q L 16 [] (qs s2) \<and>
      xTimerIsTimerActive (Some t) s2 = Inr True \<and> xTimerGetExpiryTime (Some t) s2 = Inr (X + p) \<and>
      lcontainer (tlists s2) t = Some (if X + p \<le> now then pxOverflowTimerList s else pxCurrentTimerList s)"
    if Q: "queue_ok h' T' q L 16 [?msg] Q" "now = xTickCount (kern Q)" "xLastTime s \<le> now" "unat (now - X) < unat p" for h' T' Q now
  proof -
    obtain w2 Q2 where r: "xQueueReceive to q True 0 Q = Inr (Some (Some ?msg), w2, Q2)" "queue_ok h' T' q L 16 [] Q2" "xTickCount (kern Q2) = now"
      using receive_message [OF Q(1), of to] Q(2) by auto
    let ?s = "s\<lparr>qs := Q2, xLastTime := now\<rparr>"
    let ?s2 = "(mark_active t ?s)\<lparr>tlists := list_insert (expiry_list (X + p) now s) t (list_set_value t (X + p) (tlists s))\<rparr>"
    have last: "\<not> now < xLastTime s" using Q(3) by simp
    have "process_message C 2 ?msg (s\<lparr>qs := Q2\<rparr>) = process_command C 2 tmrCOMMAND_START X t now ?s"
      using fields id r(3) assms(8) last by (simp add: process_message_def prvSampleTimeNow_def xTaskGetTickCount_def Let_def tmrCOMMAND_START_def)
    also have "\<dots> = Inr ?s2"
      using start_timer_ahead [of p ?s t now X] Q(4) assms(7) by (simp add: process_command_def word_less_nat_alt expiry_list_def)
    finally have p: "process_message C 2 ?msg (s\<lparr>qs := Q2\<rparr>) = Inr ?s2" .
    obtain w3 Q3 where e: "xQueueReceive to q True 0 Q2 = Inr (Some None, w3, Q3)" "queue_ok h' T' q L 16 [] Q3" using receive_nothing [OF r(2), of to] by blast
    have "prvProcessReceivedCommands C 2 to (s\<lparr>qs := Q\<rparr>) = Inr (?s2\<lparr>qs := Q3\<rparr>)"
      using r(1) p e(1) assms(3) by (simp add: prvProcessReceivedCommands_def numeral_2_eq_2 Let_def mark_active_def set_timer_def)
    then show ?thesis using e(2)
      by (auto simp: xTimerIsTimerActive_def xTimerGetExpiryTime_def with_timer_def expiry_list_def mark_active_def set_timer_def timer_status)
  qed
  moreover have "queue_ok h T q L 16 [?msg] (qs (s\<lparr>qs := Q1\<rparr>))" using send(2) by simp
  moreover have "xTaskGetTickCount (kern (qs (s\<lparr>qs := Q1\<rparr>))) = X" using send(3) assms(6) by (simp add: xTaskGetTickCount_def)
  ultimately show ?thesis using start by blast
qed

lemma example_timer_queue: "queue_ok heap1_new {0, 1, 2} 7 2 16 [] (example_qstate (example_kernel 0) (example_queue 2 16))"
  using example_kinv [of 0] by (auto simp: queue_ok_def qinv_def event_wait_ok_def example_qstate_def example_queue_def holds_def)

theorem timer_start_delivered_witness:
  "\<exists>s1 s2. xTimerStart [0, 0, 0, 0] \<lparr>xOverflowCount = 0, xTimeOnEntering = 0\<rparr> (Some 9) 0 example_timers = Inr (Some True, False, s1) \<and>
    prvProcessReceivedCommands counting_callbacks 2 \<lparr>xOverflowCount = 0, xTimeOnEntering = 0\<rparr> s1 = Inr s2 \<and>
    xTimerIsTimerActive (Some 9) s2 = Inr True \<and> xTimerGetExpiryTime (Some 9) s2 = Inr (10 + xTickCount (example_kernel 0))"
proof -
  let ?to = "\<lparr>xOverflowCount = 0, xTimeOnEntering = 0\<rparr>" and ?X = "xTickCount (example_kernel 0)"
  have ok: "queue_ok heap1_new {0, 1, 2} 7 2 16 [] (qs example_timers)" using example_timer_queue by (simp add: example_timers_def)
  have e: "xTimerQueue example_timers = Some 7" "?X = xTaskGetTickCount (kern (qs example_timers))" "10 = xTimerPeriodInTicks (timer example_timers 9)"
    "lcontainer (tlists example_timers) 9 = None" "xLastTime example_timers = 0"
    by (simp_all add: example_timers_def example_qstate_def xTaskGetTickCount_def)
  have n: "0 < (2 :: nat)" "(9 :: nat) < 2 ^ 32" "length [0, 0, 0, 0 :: u8] = 4" by simp_all
  note start = timer_start_delivered [OF ok n(1) e(1) n(2,3) e(2,3,4), of ?to counting_callbacks]
  obtain s1 where s1: "xTimerStart [0, 0, 0, 0] ?to (Some 9) 0 example_timers = Inr (Some True, False, s1)" "xTickCount (kern (qs s1)) = ?X"
    "\<exists>s2. prvProcessReceivedCommands counting_callbacks 2 ?to (s1\<lparr>qs := qs s1\<rparr>) = Inr s2 \<and>
      xTimerIsTimerActive (Some 9) s2 = Inr True \<and> xTimerGetExpiryTime (Some 9) s2 = Inr (?X + 10)"
    using start proof (elim exE conjE, goal_cases)
    case (1 s1 msg)
    have t: "xTickCount (kern (qs s1)) = ?X" using 1(3) by (simp add: xTaskGetTickCount_def)
    have "queue_ok heap1_new {0, 1, 2} 7 2 16 [msg] (qs s1) \<and> ?X = xTickCount (kern (qs s1)) \<and> xLastTime example_timers \<le> ?X \<and> unat (?X - ?X) < unat (10 :: u32)"
      using 1(4) t e(5) by simp
    then show ?case using 1(1) [OF 1(2) t] 1(5) [rule_format, of heap1_new "{0, 1, 2}" "qs s1" ?X] by metis
  qed
  then show ?thesis by (auto simp: add.commute)
qed

end
