(* ===== verification/Motor_Demo_Kernel.thy ===== *)
theory Motor_Demo_Kernel
  imports Motor_Demo FreeRTOS_Timers_Correct
begin

text \<open>
  The application and the kernel: the semaphores that the tasks see as counters are counting
  semaphores of the kernel, and \<^verbatim>\<open>main\<close> creates everything it means to create within the heap.
\<close>

section \<open>Semaphores\<close>

datatype sem_op = TakeSemaphore | GiveSemaphore

fun sem_spec :: "nat \<Rightarrow> sem_op \<Rightarrow> nat \<Rightarrow> bool option \<times> nat" where
  "sem_spec limit TakeSemaphore n = (case sem_take n of None \<Rightarrow> (None, n) | Some n \<Rightarrow> (Some True, n))"
| "sem_spec limit GiveSemaphore n = (Some (n < limit), sem_give limit n)"

fun sem_specs :: "nat \<Rightarrow> sem_op list \<Rightarrow> nat \<Rightarrow> bool option list \<times> nat" where
  "sem_specs limit [] n = ([], n)"
| "sem_specs limit (op # ops) n = (let (r, n) = sem_spec limit op n; (rs, n) = sem_specs limit ops n in (r # rs, n))"

fun run_sem_ops :: "(sem_op \<Rightarrow> 's \<Rightarrow> (bool option \<times> 's) res) \<Rightarrow> sem_op list \<Rightarrow> 's \<Rightarrow> (bool option list \<times> 's) res" where
  "run_sem_ops f [] s = Inr ([], s)"
| "run_sem_ops f (op # ops) s = rbind (f op s) (\<lambda>(r, s). rbind (run_sem_ops f ops s) (\<lambda>(rs, s). Inr (r # rs, s)))"

text \<open>
  The contract of a counting semaphore: every operation returns, with the result and the count of the
  counter; \<^const>\<open>None\<close> is a task that has to wait.
\<close>

locale counting_semaphore =
  fixes op :: "sem_op \<Rightarrow> 's \<Rightarrow> (bool option \<times> 's) res" and count :: "'s \<Rightarrow> nat" and valid :: "'s \<Rightarrow> bool" and limit :: nat
  assumes refines: "valid s \<Longrightarrow> \<exists>s'. op oper s = Inr (fst (sem_spec limit oper (count s)), s') \<and> valid s' \<and> count s' = snd (sem_spec limit oper (count s))"
    and bounded: "valid s \<Longrightarrow> count s \<le> limit"
begin

lemma sequence:
  assumes "valid s"
  shows "\<exists>s'. run_sem_ops op ops s = Inr (fst (sem_specs limit ops (count s)), s') \<and> valid s' \<and> count s' = snd (sem_specs limit ops (count s))"
  using assms
proof (induction ops arbitrary: s)
  case (Cons oper ops)
  obtain s1 where s1: "op oper s = Inr (fst (sem_spec limit oper (count s)), s1)" "valid s1" "count s1 = snd (sem_spec limit oper (count s))"
    using refines [OF Cons.prems] by blast
  obtain s2 where "run_sem_ops op ops s1 = Inr (fst (sem_specs limit ops (count s1)), s2)" "valid s2" "count s2 = snd (sem_specs limit ops (count s1))"
    using Cons.IH [OF s1(2)] by blast
  with s1 show ?case by (simp add: case_prod_beta Let_def)
qed simp

end

text \<open>The kernel's semaphores: queues of items of no size that are not mutexes.\<close>

definition semaphore_ok :: "heap1 \<Rightarrow> tid set \<Rightarrow> qid \<Rightarrow> nat \<Rightarrow> qstate \<Rightarrow> bool" where
  "semaphore_ok h T q limit s \<longleftrightarrow> qinv h T s \<and> uxSchedulerSuspended (kern s) = 0 \<and> uxItemSize (queue s q) = 0 \<and> \<not> is_mutex (queue s q) \<and>
     uxLength (queue s q) = limit \<and> uxMessagesWaiting (queue s q) \<le> limit"

fun kernel_sem_op :: "TimeOut_t \<Rightarrow> qid \<Rightarrow> sem_op \<Rightarrow> qstate \<Rightarrow> (bool option \<times> qstate) res" where
  "kernel_sem_op to q TakeSemaphore s = rbind (xQueueSemaphoreTake to q portMAX_DELAY s) (\<lambda>(r, _, s). Inr (r, s))"
| "kernel_sem_op to q GiveSemaphore s = rbind (xSemaphoreGive to q s) (\<lambda>(r, _, s). Inr (r, s))"

lemma wake_kept:
  assumes "kinv h T k" and "event_wait_ok k" and "event_list l"
  shows "\<exists>k'. wake_waiting l y k = Inr k' \<and> kinv h T k' \<and> event_wait_ok k' \<and> uxSchedulerSuspended k' = uxSchedulerSuspended k"
proof -
  show ?thesis using wake_waiting_ok [OF assms, of y] wake_suspended(1) [of l y k] by blast
qed

lemma kernel_take:
  assumes "semaphore_ok h T q limit s"
  shows "\<exists>s'. kernel_sem_op to q TakeSemaphore s = Inr (fst (sem_spec limit TakeSemaphore (uxMessagesWaiting (queue s q))), s') \<and> semaphore_ok h T q limit s' \<and>
    uxMessagesWaiting (queue s' q) = snd (sem_spec limit TakeSemaphore (uxMessagesWaiting (queue s q)))"
proof (cases "uxMessagesWaiting (queue s q) = 0")
  case True
  then show ?thesis using assms
    by (simp add: semaphore_ok_def xQueueSemaphoreTake_def take_try_def sem_take_def scheduler_allows_def wait_start_def xTaskGetSchedulerState_def portMAX_DELAY_def)
next
  case False
  let ?s = "set_queue q (uxMessagesWaiting_update (\<lambda>n. n - 1)) s"
  have "kinv h T (kern ?s)" "event_wait_ok (kern ?s)" "uxSchedulerSuspended (kern ?s) = 0" using assms by (simp_all add: semaphore_ok_def qinv_def set_queue_def)
  then obtain k where k: "wake_waiting (TasksWaitingToSend q) False (kern ?s) = Inr k" "kinv h T k" "event_wait_ok k" "uxSchedulerSuspended k = 0"
    using wake_kept [of h T "kern ?s" "TasksWaitingToSend q" False] by auto
  then show ?thesis using False assms
    by (auto simp: semaphore_ok_def xQueueSemaphoreTake_def take_try_def sem_take_def scheduler_allows_def qinv_def set_queue_def is_mutex_def xTaskGetSchedulerState_def)
qed

lemma kernel_give:
  assumes "semaphore_ok h T q limit s"
  shows "\<exists>s'. kernel_sem_op to q GiveSemaphore s = Inr (fst (sem_spec limit GiveSemaphore (uxMessagesWaiting (queue s q))), s') \<and> semaphore_ok h T q limit s' \<and>
    uxMessagesWaiting (queue s' q) = snd (sem_spec limit GiveSemaphore (uxMessagesWaiting (queue s q)))"
proof (cases "uxMessagesWaiting (queue s q) < limit")
  case False
  then show ?thesis using assms
    by (simp add: semaphore_ok_def xSemaphoreGive_def xQueueGenericSend_def send_checks_def send_try_def sem_give_def scheduler_allows_def wait_start_def)
next
  case True
  let ?s = "set_queue q (uxMessagesWaiting_update (\<lambda>n. n + 1)) s"
  have "kinv h T (kern ?s)" "event_wait_ok (kern ?s)" "uxSchedulerSuspended (kern ?s) = 0" using assms by (simp_all add: semaphore_ok_def qinv_def set_queue_def)
  then obtain k where k: "wake_waiting (TasksWaitingToReceive q) False (kern ?s) = Inr k" "kinv h T k" "event_wait_ok k" "uxSchedulerSuspended k = 0"
    using wake_kept [of h T "kern ?s" "TasksWaitingToReceive q" False] by auto
  then show ?thesis using True assms
    by (auto simp: semaphore_ok_def xSemaphoreGive_def xQueueGenericSend_def send_checks_def send_try_def sem_give_def scheduler_allows_def qinv_def set_queue_def
        prvCopyDataToQueue_def messages_before_def is_mutex_def Let_def)
qed

interpretation kernel_semaphore: counting_semaphore "kernel_sem_op to q" "\<lambda>s. uxMessagesWaiting (queue s q)" "semaphore_ok h T q limit" limit
  for to q h T limit
proof
  fix s oper
  assume ok: "semaphore_ok h T q limit s"
  show "\<exists>s'. kernel_sem_op to q oper s = Inr (fst (sem_spec limit oper (uxMessagesWaiting (queue s q))), s') \<and> semaphore_ok h T q limit s' \<and>
    uxMessagesWaiting (queue s' q) = snd (sem_spec limit oper (uxMessagesWaiting (queue s q)))"
    by (cases oper; simp only: kernel_take [OF ok] kernel_give [OF ok])
  show "uxMessagesWaiting (queue s q) \<le> limit" using ok by (simp add: semaphore_ok_def)
qed

text \<open>
  C12. A counting semaphore of the kernel is a bounded counter: every sequence of takes that may wait for
  ever and of gives returns, with the results of a counter between zero and the limit, where a take at
  zero is the one that blocks; afterwards the semaphore holds the count. These are the counters of the
  model of the tasks.
\<close>

theorem semaphore_refines_counter:
  assumes "semaphore_ok h T q limit s"
  shows "\<exists>s'. run_sem_ops (kernel_sem_op to q) ops s = Inr (fst (sem_specs limit ops (uxMessagesWaiting (queue s q))), s') \<and> semaphore_ok h T q limit s' \<and>
    uxMessagesWaiting (queue s' q) = snd (sem_specs limit ops (uxMessagesWaiting (queue s q)))"
  using assms by (rule kernel_semaphore.sequence)

theorem semaphore_refines_counter_witness:
  "\<exists>s'. run_sem_ops (kernel_sem_op \<lparr>xOverflowCount = 0, xTimeOnEntering = 0\<rparr> 7) [TakeSemaphore, GiveSemaphore, GiveSemaphore, TakeSemaphore]
     (example_qstate (example_kernel 0) (example_queue 1 0)) = Inr ([None, Some True, Some False, Some True], s') \<and> uxMessagesWaiting (queue s' 7) = 0"
proof -
  let ?s = "example_qstate (example_kernel 0) (example_queue 1 0)"
  have ok: "semaphore_ok heap1_new {0, 1, 2} 7 1 ?s"
    using example_kinv [of 0] by (auto simp: semaphore_ok_def qinv_def event_wait_ok_def example_qstate_def example_queue_def example_kernel_def is_mutex_def)
  have n: "uxMessagesWaiting (queue ?s 7) = 0" by (simp add: example_qstate_def example_queue_def)
  show ?thesis using semaphore_refines_counter [OF ok, of "\<lparr>xOverflowCount = 0, xTimeOnEntering = 0\<rparr>" "[TakeSemaphore, GiveSemaphore, GiveSemaphore, TakeSemaphore]"]
    unfolding n by (auto simp: sem_take_def sem_give_def simp del: run_sem_ops.simps kernel_sem_op.simps)
qed

section \<open>The timer\<close>








section \<open>Starting up\<close>

text \<open>The heap after allocations of \<open>f\<close> bytes in all.\<close>

definition heap_used :: "u32 \<Rightarrow> nat \<Rightarrow> heap1 \<Rightarrow> bool" where
  "heap_used U f h \<longleftrightarrow> heap1_wf U h \<and> unat (xNextFreeByte h) = f"

definition allocates :: "u32 \<Rightarrow> heap1 \<Rightarrow> heap1 \<Rightarrow> bool" where
  "allocates U h h' \<longleftrightarrow> (\<exists>n r. pvPortMalloc U n h = (r, h'))"

lemma malloc_used:
  assumes "heap_used U f h" and "heap1_fits U" and "0 < unat n" and "f + round_up (unat n) < 8184"
  shows "\<exists>a h'. pvPortMalloc U n h = (Some a, h') \<and> unat a = heap1_base U + f \<and> heap_used U (f + round_up (unat n)) h'"
proof -
  have wf: "heap1_wf U h" "unat (xNextFreeByte h) = f" using assms(1) by (simp_all add: heap_used_def)
  obtain r h' where e: "pvPortMalloc U n h = (r, h')" by fastforce
  show ?thesis using malloc_cases [OF wf(1) assms(2) e] e assms(3,4) wf(2) by (auto simp: heap_used_def)
qed

text \<open>The kernel before it starts: nothing waits, and no task has run.\<close>

definition quiet :: "kernel \<Rightarrow> bool" where
  "quiet k \<longleftrightarrow> \<not> xSchedulerRunning k \<and> xTickCount k = 0 \<and> uxSchedulerSuspended k = 0 \<and> (\<forall>t. container (EventItem t) k = None) \<and>
     (\<forall>l. (\<forall>p. l \<noteq> ReadyTasks p) \<longrightarrow> litems (klists k) l = [] \<and> lindex (klists k) l = None)"

definition starting :: "kernel \<Rightarrow> bool" where
  "starting k \<longleftrightarrow> quiet k \<and> (pxCurrentTCB k = None \<longrightarrow> (\<exists>h. k = kernel_boot\<lparr>heap := h\<rparr>))"

lemma starting_boot: "starting (kernel_boot\<lparr>heap := h\<rparr>)"
  unfolding starting_def by (intro conjI exI [of _ h] impI) (simp_all add: kernel_boot_def quiet_def)

lemma starting_heap: "starting k \<Longrightarrow> starting (k\<lparr>heap := h\<rparr>)"
  by (cases "pxCurrentTCB k") (auto simp: starting_def quiet_def)

lemma starting_lists:
  assumes "starting k"
  shows "list_initialise (TasksWaitingToReceive q) (list_initialise (TasksWaitingToSend q) (klists k)) = klists k"
    "items (TasksWaitingToReceive q) k = []" "items (TasksWaitingToSend q) k = []"
  using assms by (auto simp: starting_def quiet_def list_initialise_def fun_upd_idem)

lemma queue_created:
  assumes "starting (kern s)" and "heap_used U f (heap (kern s))" and "heap1_fits U"
    and "0 < unat n" and "unat n * unat m \<le> 1000" and "f + round_up (80 + unat n * unat m) < 8184" and "q = heap1_base U + f"
  shows "\<exists>Q h. xQueueGenericCreate U mem n m ty s = Inr (Some q, s\<lparr>kern := (kern s)\<lparr>heap := h\<rparr>, queue := (queue s)(q := Q)\<rparr>) \<and>
    heap_used U (f + round_up (80 + unat n * unat m)) h \<and> allocates U (heap (kern s)) h \<and>
    pcHead Q \<noteq> None \<and> uxMessagesWaiting Q = 0 \<and> uxLength Q = unat n \<and> uxItemSize Q = unat m \<and> cTxLock Q = queueUNLOCKED \<and> cRxLock Q = queueUNLOCKED \<and>
    pcWriteTo Q = 0 \<and> pcTail Q = unat n * unat m \<and> pcReadFrom Q = (unat n - 1) * unat m \<and> length (storage Q) = unat n * unat m"
proof -
  have small: "unat (of_nat N :: u32) = N" if "N < 2 ^ 32" for N using that by (simp add: unat_of_nat)
  have sz: "unat (of_nat (sizeof_Queue_t + unat n * unat m) :: u32) = 80 + unat n * unat m"
    using assms(5) small [of "sizeof_Queue_t + unat n * unat m"] by (simp only: sizeof_Queue_t_def) simp
  obtain a h where a: "pvPortMalloc U (of_nat (sizeof_Queue_t + unat n * unat m)) (heap (kern s)) = (Some a, h)" "unat a = q"
      "heap_used U (f + round_up (80 + unat n * unat m)) h"
    using malloc_used [OF assms(2,3), of "of_nat (sizeof_Queue_t + unat n * unat m)"] assms(6,7) unfolding sz by auto
  have g: "(2 ^ 32 - 1) div unat n \<ge> unat m" "(2 ^ 32 - 1) - sizeof_Queue_t \<ge> unat n * unat m"
    using assms(4,5) by (simp_all add: less_eq_div_iff_mult_less_eq sizeof_Queue_t_def mult.commute)
  define Q where "Q = (queue s q)\<lparr>pcHead := Some (if unat m = 0 then of_nat q else of_nat (q + sizeof_Queue_t)), uxLength := unat n, uxItemSize := unat m,
    storage := map mem [0..<unat n * unat m], pcTail := unat n * unat m, uxMessagesWaiting := 0, pcWriteTo := 0, pcReadFrom := (unat n - 1) * unat m,
    cRxLock := queueUNLOCKED, cTxLock := queueUNLOCKED, ucQueueType := ty\<rparr>"
  have "xQueueGenericCreate U mem n m ty s = Inr (Some q, s\<lparr>kern := (kern s)\<lparr>heap := h\<rparr>, queue := (queue s)(q := Q)\<rparr>)"
    using a g assms(4) starting_lists(1) [OF assms(1)]
    by (simp add: xQueueGenericCreate_def Let_def prvInitialiseNewQueue_def xQueueGenericReset_def c_assert_def is_mutex_def set_queue_def Q_def)
  moreover have "allocates U (heap (kern s)) h" using a(1) by (auto simp: allocates_def)
  ultimately show ?thesis using a(3) by (intro exI [of _ Q] exI [of _ h]) (simp add: Q_def)
qed

lemma reachable_alloc: "reachable U (T, k) \<Longrightarrow> allocates U (heap k) g \<Longrightarrow> reachable U (T, k\<lparr>heap := g\<rparr>)"
  unfolding allocates_def by (blast intro: reachable.later kernel_step.malloc)

lemma semaphore_created:
  assumes "starting (kern s)" and "heap_used U f (heap (kern s))" and "heap1_fits U" and "f + 80 < 8184" and "q = heap1_base U + f" and "c \<le> 1"
  shows "\<exists>Q h. xQueueCreateCountingSemaphore U mem 1 c s = Inr (Some q, s\<lparr>kern := (kern s)\<lparr>heap := h\<rparr>, queue := (queue s)(q := Q)\<rparr>) \<and>
    heap_used U (f + 80) h \<and> \<not> is_mutex Q \<and> uxMessagesWaiting Q = unat c \<and> uxLength Q = 1 \<and> uxItemSize Q = 0"
proof -
  obtain Q h where Q: "xQueueGenericCreate U mem 1 0 queueQUEUE_TYPE_COUNTING_SEMAPHORE s = Inr (Some q, s\<lparr>kern := (kern s)\<lparr>heap := h\<rparr>, queue := (queue s)(q := Q)\<rparr>)"
    "heap_used U (f + 80) h" "pcHead Q \<noteq> None" "uxLength Q = 1" "uxItemSize Q = 0"
    using queue_created [OF assms(1-3), of 1 0 q mem queueQUEUE_TYPE_COUNTING_SEMAPHORE] assms(4,5) by (auto simp: round_up_def)
  then show ?thesis using assms(6)
    by (intro exI [of _ "Q\<lparr>uxMessagesWaiting := unat c\<rparr>"] exI [of _ h])
       (simp add: xQueueCreateCountingSemaphore_def queueSEMAPHORE_QUEUE_ITEM_LENGTH_def set_queue_def is_mutex_def)
qed

lemma mutex_created:
  assumes "starting (kern s)" and "heap_used U f (heap (kern s))" and "heap1_fits U" and "f + 80 < 8184" and "q = heap1_base U + f"
  shows "\<exists>Q h. xQueueCreateMutex U mem to queueQUEUE_TYPE_MUTEX s = Inr (Some q, s\<lparr>kern := (kern s)\<lparr>heap := h\<rparr>, queue := (queue s)(q := Q)\<rparr>) \<and>
    heap_used U (f + 80) h \<and> is_mutex Q \<and> xMutexHolder Q = None \<and> uxMessagesWaiting Q = 1 \<and> uxLength Q = 1 \<and> uxItemSize Q = 0"
proof -
  obtain Q h where Q: "xQueueGenericCreate U mem 1 0 queueQUEUE_TYPE_MUTEX s = Inr (Some q, s\<lparr>kern := (kern s)\<lparr>heap := h\<rparr>, queue := (queue s)(q := Q)\<rparr>)"
    "heap_used U (f + 80) h" "uxLength Q = 1" "uxItemSize Q = 0" "uxMessagesWaiting Q = 0"
    using queue_created [OF assms(1-3), of 1 0 q mem queueQUEUE_TYPE_MUTEX] assms(4,5) by (auto simp: round_up_def)
  define Q' where "Q' = Q\<lparr>xMutexHolder := None, pcHead := None, uxRecursiveCallCount := 0, uxMessagesWaiting := 1\<rparr>"
  have "items (TasksWaitingToReceive q) ((kern s)\<lparr>heap := h\<rparr>) = []" using starting_lists(2) [OF assms(1)] by simp
  then have "xQueueCreateMutex U mem to queueQUEUE_TYPE_MUTEX s = Inr (Some q, s\<lparr>kern := (kern s)\<lparr>heap := h\<rparr>, queue := (queue s)(q := Q')\<rparr>)"
    using Q by (simp add: xQueueCreateMutex_def prvInitialiseMutex_def xQueueGenericSend_def send_checks_def scheduler_allows_def send_try_def
      prvCopyDataToQueue_def messages_before_def is_mutex_def xTaskPriorityDisinherit_def wake_waiting_def set_queue_def Let_def Q'_def) (cases s; cases Q; simp)
  then show ?thesis using Q(2-4) by (intro exI [of _ Q'] exI [of _ h]) (simp add: Q'_def is_mutex_def)
qed

lemma semaphores_created:
  assumes "kern (qs s) = kernel_boot" and "heap1_fits U"
  shows "\<exists>s' h B. create_semaphores U mem to s = Inr s' \<and> kern (qs s') = kernel_boot\<lparr>heap := h\<rparr> \<and> heap_used U 320 h \<and> B = heap1_base U \<and>
    app s' = (app s)\<lparr>xMutex := Some B, xSemaphore := Some (B + 80), ySemaphore := Some (B + 160), zSemaphore := Some (B + 240)\<rparr> \<and>
    s' = s\<lparr>qs := qs s', app := app s'\<rparr> \<and> xQueueRegistry (qs s') = xQueueRegistry (qs s) \<and>
    is_mutex (queue (qs s') B) \<and> xMutexHolder (queue (qs s') B) = None \<and> uxMessagesWaiting (queue (qs s') B) = 1 \<and> uxItemSize (queue (qs s') B) = 0 \<and>
    (\<forall>(q, n)\<in>{(B + 80, 1), (B + 160, 0), (B + 240, 0)}. \<not> is_mutex (queue (qs s') q) \<and> uxMessagesWaiting (queue (qs s') q) = n \<and>
      uxLength (queue (qs s') q) = 1 \<and> uxItemSize (queue (qs s') q) = 0)"
proof -
  let ?B = "heap1_base U"
  have k: "kernel_boot\<lparr>heap := heap1_new\<rparr> = kernel_boot" by (simp add: kernel_boot_def)
  have 0: "starting (kern (qs s))" "heap_used U 0 (heap (kern (qs s)))"
    using starting_boot [of heap1_new] assms(1) by (simp_all add: k) (simp add: heap_used_def heap1_wf_def kernel_boot_def heap1_new_def)
  obtain Q1 h1 where 1: "xQueueCreateMutex U mem to queueQUEUE_TYPE_MUTEX (qs s) = Inr (Some ?B, (qs s)\<lparr>kern := (kern (qs s))\<lparr>heap := h1\<rparr>, queue := (queue (qs s))(?B := Q1)\<rparr>)"
    "heap_used U 80 h1" "is_mutex Q1" "xMutexHolder Q1 = None" "uxMessagesWaiting Q1 = 1" "uxItemSize Q1 = 0"
    using mutex_created [OF 0 assms(2), of ?B mem to] by auto
  define s1 where "s1 = (qs s)\<lparr>kern := kernel_boot\<lparr>heap := h1\<rparr>, queue := (queue (qs s))(?B := Q1)\<rparr>"
  obtain Q2 h2 where 2: "xQueueCreateCountingSemaphore U mem 1 1 s1 = Inr (Some (?B + 80), s1\<lparr>kern := (kern s1)\<lparr>heap := h2\<rparr>, queue := (queue s1)(?B + 80 := Q2)\<rparr>)"
    "heap_used U 160 h2" "\<not> is_mutex Q2" "uxMessagesWaiting Q2 = 1" "uxLength Q2 = 1" "uxItemSize Q2 = 0"
    using semaphore_created [of s1 U 80 "?B + 80" 1 mem] 1(2) assms(2) starting_boot by (auto simp: s1_def)
  define s2 where "s2 = s1\<lparr>kern := kernel_boot\<lparr>heap := h2\<rparr>, queue := (queue s1)(?B + 80 := Q2)\<rparr>"
  obtain Q3 h3 where 3: "xQueueCreateCountingSemaphore U mem 1 0 s2 = Inr (Some (?B + 160), s2\<lparr>kern := (kern s2)\<lparr>heap := h3\<rparr>, queue := (queue s2)(?B + 160 := Q3)\<rparr>)"
    "heap_used U 240 h3" "\<not> is_mutex Q3" "uxMessagesWaiting Q3 = 0" "uxLength Q3 = 1" "uxItemSize Q3 = 0"
    using semaphore_created [of s2 U 160 "?B + 160" 0 mem] 2(2) assms(2) starting_boot by (auto simp: s2_def)
  define s3 where "s3 = s2\<lparr>kern := kernel_boot\<lparr>heap := h3\<rparr>, queue := (queue s2)(?B + 160 := Q3)\<rparr>"
  obtain Q4 h4 where 4: "xQueueCreateCountingSemaphore U mem 1 0 s3 = Inr (Some (?B + 240), s3\<lparr>kern := (kern s3)\<lparr>heap := h4\<rparr>, queue := (queue s3)(?B + 240 := Q4)\<rparr>)"
    "heap_used U 320 h4" "\<not> is_mutex Q4" "uxMessagesWaiting Q4 = 0" "uxLength Q4 = 1" "uxItemSize Q4 = 0"
    using semaphore_created [of s3 U 240 "?B + 240" 0 mem] 3(2) assms(2) starting_boot by (auto simp: s3_def)
  define s4 where "s4 = s3\<lparr>kern := kernel_boot\<lparr>heap := h4\<rparr>, queue := (queue s3)(?B + 240 := Q4)\<rparr>"
  have k': "kern s1 = kernel_boot\<lparr>heap := h1\<rparr>" "kern s2 = kernel_boot\<lparr>heap := h2\<rparr>" "kern s3 = kernel_boot\<lparr>heap := h3\<rparr>" by (simp_all add: s1_def s2_def s3_def)
  have "create_semaphores U mem to s = Inr (s\<lparr>qs := s4, app := (app s)\<lparr>xMutex := Some ?B, xSemaphore := Some (?B + 80), ySemaphore := Some (?B + 160), zSemaphore := Some (?B + 240)\<rparr>\<rparr>)"
    using 1(1) 2(1) 3(1) 4(1) assms(1) unfolding k' by (simp add: create_semaphores_def check_created_def flip: s1_def s2_def s3_def s4_def)
  then show ?thesis using 1 2 3 4 by (intro exI) (auto simp: s1_def s2_def s3_def s4_def)
qed

text \<open>Creating a task before the scheduler runs; it becomes the current task unless a more urgent one is.\<close>

definition current_after :: "nat \<Rightarrow> tid \<Rightarrow> kernel \<Rightarrow> tid" where
  "current_after p t k = (case pxCurrentTCB k of None \<Rightarrow> t | Some c \<Rightarrow> if uxPriority (tcb k c) \<le> p then t else c)"

lemma init_task_quiet:
  assumes "quiet k" and "p < configMAX_PRIORITIES"
  shows "\<exists>k1. prvInitialiseNewTask nm st p t k = Inr k1 \<and> quiet k1 \<and> heap k1 = heap k \<and> pxCurrentTCB k1 = pxCurrentTCB k \<and> uxPriority (tcb k1 t) = p \<and>
    pcTaskName (tcb k1 t) = take 9 nm \<and> (\<forall>u. u \<noteq> t \<longrightarrow> tcb k1 u = tcb k u) \<and> uxCurrentNumberOfTasks k1 = uxCurrentNumberOfTasks k"
  using assms by (simp add: prvInitialiseNewTask_def c_assert_def Let_def set_tcb_def set_item_value_def list_initialise_item_def list_set_value_def quiet_def
    configMAX_TASK_NAME_LEN_def)

lemma init_lists_quiet: "quiet k \<Longrightarrow> quiet (prvInitialiseTaskLists k)"
  by (auto simp: quiet_def init_task_lists_fields) (simp_all add: prvInitialiseTaskLists_def)

lemma add_ready_quiet:
  assumes "quiet k" and "uxPriority (tcb k t) < configMAX_PRIORITIES"
  shows "\<exists>k'. prvAddTaskToReadyList t k = Inr k' \<and> quiet k' \<and> heap k' = heap k \<and> tcb k' = tcb k \<and> pxCurrentTCB k' = pxCurrentTCB k"
  using assms by (simp add: prvAddTaskToReadyList_eq quiet_def list_insert_end_def Let_def)

lemma add_task_quiet:
  assumes "quiet k" and "uxPriority (tcb k t) < configMAX_PRIORITIES" and "pxCurrentTCB k = None \<Longrightarrow> uxCurrentNumberOfTasks k = 0"
  shows "\<exists>k'. prvAddNewTaskToReadyList t k = Inr k' \<and> quiet k' \<and> heap k' = heap k \<and> pxCurrentTCB k' = Some (current_after (uxPriority (tcb k t)) t k) \<and>
    uxPriority (tcb k' t) = uxPriority (tcb k t) \<and> pcTaskName (tcb k' t) = pcTaskName (tcb k t) \<and> (\<forall>u. u \<noteq> t \<longrightarrow> tcb k' u = tcb k u)"
proof -
  let ?n = "k\<lparr>uxCurrentNumberOfTasks := uxCurrentNumberOfTasks k + 1\<rparr>" and ?c = "current_after (uxPriority (tcb k t)) t k"
  define k1 where "k1 = (if pxCurrentTCB k = Some ?c \<and> ?c \<noteq> t then ?n else ?n\<lparr>pxCurrentTCB := Some ?c\<rparr>)"
  define k2 where "k2 = (if pxCurrentTCB k = None then prvInitialiseTaskLists k1 else k1)"
  define k3 where "k3 = set_tcb t (uxTCBNumber_update (\<lambda>_. uxTaskNumber k2 + 1)) (k2\<lparr>uxTaskNumber := uxTaskNumber k2 + 1\<rparr>)"
  have "quiet k1" using assms(1) by (simp add: k1_def quiet_def)
  then have "quiet k2" by (simp add: k2_def init_lists_quiet)
  then have q3: "quiet k3" by (simp add: k3_def quiet_def set_tcb_def)
  have f3: "tcb k3 = (tcb k)(t := (tcb k t)\<lparr>uxTCBNumber := uxTaskNumber k2 + 1\<rparr>)" "heap k3 = heap k" "pxCurrentTCB k3 = pxCurrentTCB k1"
    by (simp_all add: k3_def k2_def k1_def init_task_lists_fields set_tcb_def)
  obtain k4 where k4: "prvAddTaskToReadyList t k3 = Inr k4" "quiet k4" "heap k4 = heap k3" "tcb k4 = tcb k3" "pxCurrentTCB k4 = pxCurrentTCB k3"
    using add_ready_quiet [OF q3, of t] assms(2) f3(1) by auto
  have r: "\<not> xSchedulerRunning k4" "\<not> xSchedulerRunning k" using k4(2) assms(1) by (simp_all add: quiet_def)
  have "prvAddNewTaskToReadyList t k = Inr k4"
    using k4(1) r f3(3) k4(5) assms(3)
    by (cases "pxCurrentTCB k"; cases "the (pxCurrentTCB k) = t") (auto simp: prvAddNewTaskToReadyList_def Let_def k3_def k2_def k1_def current_after_def current_def)
  moreover have "pxCurrentTCB k1 = Some ?c" by (simp add: k1_def)
  ultimately show ?thesis using k4 f3 by simp
qed

lemma task_created:
  assumes "starting k" and "heap_used U f (heap k)" and "heap1_fits U" and "0 < unat (ucast d * 4 :: u32)" and "p < configMAX_PRIORITIES"
    and "g = f + round_up (unat (ucast d * 4 :: u32))" and "g + 88 < 8184" and "t = heap1_base U + g"
  shows "\<exists>k'. xTaskCreate U nm d p k = Inr (Some t, k') \<and> starting k' \<and> heap_used U (g + 88) (heap k') \<and> pxCurrentTCB k' = Some (current_after p t (k\<lparr>tcb := tcb k'\<rparr>)) \<and>
    uxPriority (tcb k' t) = p \<and> pcTaskName (tcb k' t) = take 9 nm \<and> (\<forall>u. u \<noteq> t \<longrightarrow> tcb k' u = tcb k u)"
proof -
  obtain st h1 where 1: "pvPortMalloc U (ucast d * 4) (heap k) = (Some st, h1)" "heap_used U g h1"
    using malloc_used [OF assms(2-4)] assms(6,7) by auto
  obtain a h2 where 2: "pvPortMalloc U sizeof_TCB_t h1 = (Some a, h2)" "unat a = t" "heap_used U (g + 88) h2"
    using malloc_used [OF 1(2) assms(3), of sizeof_TCB_t] assms(7,8) by (auto simp: sizeof_TCB_t_def round_up_def)
  have "quiet (k\<lparr>heap := h2\<rparr>)" using starting_heap [OF assms(1)] by (simp add: starting_def)
  then obtain k1 where k1: "prvInitialiseNewTask nm st p t (k\<lparr>heap := h2\<rparr>) = Inr k1" "quiet k1" "heap k1 = h2"
      "pxCurrentTCB k1 = pxCurrentTCB k" "uxPriority (tcb k1 t) = p" "pcTaskName (tcb k1 t) = take 9 nm" "\<forall>u. u \<noteq> t \<longrightarrow> tcb k1 u = tcb k u"
      "uxCurrentNumberOfTasks k1 = uxCurrentNumberOfTasks k"
    using init_task_quiet [OF _ assms(5), of "k\<lparr>heap := h2\<rparr>" nm st t] by auto
  have n: "pxCurrentTCB k1 = None \<Longrightarrow> uxCurrentNumberOfTasks k1 = 0" using assms(1) k1(4,8) by (auto simp: starting_def kernel_boot_def)
  obtain k2 where k2: "prvAddNewTaskToReadyList t k1 = Inr k2" "quiet k2" "heap k2 = heap k1" "pxCurrentTCB k2 = Some (current_after p t k1)"
      "uxPriority (tcb k2 t) = p" "pcTaskName (tcb k2 t) = take 9 nm" "\<forall>u. u \<noteq> t \<longrightarrow> tcb k2 u = tcb k1 u"
    using add_task_quiet [OF k1(2) _ n, of t] assms(5) k1(5,6) by auto
  have c: "current_after p t k1 = current_after p t (k\<lparr>tcb := tcb k2\<rparr>)"
    using k1(4,5) k2(5,7) by (cases "pxCurrentTCB k") (auto simp: current_after_def)
  have "xTaskCreate U nm d p k = Inr (Some t, k2)" using 1(1) 2(1,2) k1(1) k2(1) by (simp add: xTaskCreate_def)
  then show ?thesis using k2 k1(3,7) 2(3) c by (auto simp: starting_def)
qed

lemma tasks_created:
  assumes "kern (qs s) = kernel_boot\<lparr>heap := h\<rparr>" and "heap_used U 320 h" and "heap1_fits U"
  shows "\<exists>k T. create_tasks U to s = Inr (s\<lparr>qs := (qs s)\<lparr>kern := k\<rparr>\<rparr>) \<and> starting k \<and> heap_used U 4184 (heap k) \<and> reachable U (T, k) \<and>
    pxCurrentTCB k = Some (heap1_base U + 4096) \<and> uxPriority (tcb k (heap1_base U + 4096)) = 4 \<and> pcTaskName (tcb k (heap1_base U + 4096)) = ''StartupC''"
proof -
  let ?A = "heap1_base U + 1760" and ?B = "heap1_base U + 3288" and ?C = "heap1_base U + 4096"
  have r: "round_up 1440 = 1440" "round_up 720 = 720" by (simp_all add: round_up_def)
  obtain kA where A: "xTaskCreate U ''ReadSpeedTask'' 360 3 (kern (qs s)) = Inr (Some ?A, kA)" "starting kA" "heap_used U 1848 (heap kA)"
      "pxCurrentTCB kA = Some ?A" "uxPriority (tcb kA ?A) = 3"
    using task_created [of "kern (qs s)" U 320 360 3 1760 ?A "''ReadSpeedTask''"] assms starting_boot
    by (auto simp: r configMAX_PRIORITIES_def current_after_def) (auto simp: kernel_boot_def)
  have RA: "reachable U ({?A}, kA)" using A(1) assms(1,2) by (auto simp: heap_used_def intro: reachable.first)
  obtain kB where B: "xTaskCreate U ''CheckSpeedTask'' 360 3 kA = Inr (Some ?B, kB)" "starting kB" "heap_used U 3376 (heap kB)"
      "pxCurrentTCB kB = Some ?B" "uxPriority (tcb kB ?B) = 3"
    using task_created [of kA U 1848 360 3 3288 ?B "''CheckSpeedTask''"] A assms(3) by (auto simp: r configMAX_PRIORITIES_def current_after_def)
  obtain kC where C: "xTaskCreate U ''StartupC'' 180 4 kB = Inr (Some ?C, kC)" "starting kC" "heap_used U 4184 (heap kC)"
      "pxCurrentTCB kC = Some ?C" "uxPriority (tcb kC ?C) = 4" "pcTaskName (tcb kC ?C) = ''StartupC''"
    using task_created [of kB U 3376 180 4 4096 ?C "''StartupC''"] B assms(3) by (auto simp: r configMAX_PRIORITIES_def current_after_def)
  have "\<exists>T. reachable U (T, kC)"
    using reachable.later [OF RA kernel_step.create [OF B(1)], THEN reachable.later, OF kernel_step.create [OF C(1)]] by blast
  then show ?thesis using A(1) B(1) C
    by (auto simp: create_tasks_def create_task_def check_created_def configMINIMAL_STACK_SIZE_def configMAX_PRIORITIES_def)
qed

lemma registry_same [simp]: "kern (vQueueAddToRegistry q nm s) = kern s" "queue (vQueueAddToRegistry q nm s) = queue s"
  by (simp_all add: vQueueAddToRegistry_def split: option.splits)

definition loaded_timer_queue :: "u8 list list \<Rightarrow> Queue_t \<Rightarrow> bool" where
  "loaded_timer_queue ms Q \<longleftrightarrow> holds Q ms \<and> uxLength Q = 10 \<and> uxItemSize Q = 16 \<and> cRxLock Q = queueUNLOCKED \<and> cTxLock Q = queueUNLOCKED"

lemma timer_queue_checked:
  assumes "starting (kern (qs s))" and "heap_used U f (heap (kern (qs s)))" and "heap1_fits U" and "xTimerQueue s = None" and "f + 240 < 8184" and "q = heap1_base U + f"
  shows "\<exists>s' h Q. prvCheckForValidListAndQueue U mem s = Inr s' \<and> kern (qs s') = (kern (qs s))\<lparr>heap := h\<rparr> \<and> heap_used U (f + 240) h \<and>
    queue (qs s') = (queue (qs s))(q := Q) \<and> loaded_timer_queue [] Q \<and> xTimerQueue s' = Some q \<and> timer s' = timer s \<and> app s' = app s \<and>
    allocates U (heap (kern (qs s))) h"
proof -
  obtain Q h where Q: "xQueueGenericCreate U mem 10 16 queueQUEUE_TYPE_BASE (qs s) = Inr (Some q, (qs s)\<lparr>kern := (kern (qs s))\<lparr>heap := h\<rparr>, queue := (queue (qs s))(q := Q)\<rparr>)"
    "heap_used U (f + 240) h" "uxMessagesWaiting Q = 0" "uxLength Q = 10" "uxItemSize Q = 16" "cTxLock Q = queueUNLOCKED" "cRxLock Q = queueUNLOCKED"
    "pcWriteTo Q = 0" "pcTail Q = 160" "pcReadFrom Q = 144" "length (storage Q) = 160" "allocates U (heap (kern (qs s))) h"
    using queue_created [OF assms(1-3), of 10 16 q mem queueQUEUE_TYPE_BASE] assms(5,6) by (auto simp: round_up_def)
  have "loaded_timer_queue [] Q" using Q(3-11) by (simp add: loaded_timer_queue_def holds_def exI [of _ 9])
  then show ?thesis using Q(1,2,12) assms(4)
    by (auto simp: prvCheckForValidListAndQueue_def Let_def configTIMER_QUEUE_LENGTH_def sizeof_DaemonTaskMessage_t_def)
qed

lemma timer_created:
  assumes "starting (kern (qs s))" and "heap_used U f (heap (kern (qs s)))" and "heap1_fits U" and "xTimerQueue s = None" and "f + 288 < 8184"
    and "t = heap1_base U + f" and "q = heap1_base U + f + 48" and "0 < period"
  shows "\<exists>s' h Q. xTimerCreate U mem nm period True ID cb s = Inr (Some t, s') \<and> kern (qs s') = (kern (qs s))\<lparr>heap := h\<rparr> \<and> heap_used U (f + 288) h \<and>
    queue (qs s') = (queue (qs s))(q := Q) \<and> loaded_timer_queue [] Q \<and> xTimerQueue s' = Some q \<and> app s' = app s \<and>
    xTimerPeriodInTicks (timer s' t) = period \<and> pxCallbackFunction (timer s' t) = cb \<and> autoreload t s' \<and>
    (\<exists>h1. allocates U (heap (kern (qs s))) h1 \<and> allocates U h1 h)"
proof -
  obtain a h1 where a: "pvPortMalloc U sizeof_Timer_t (heap (kern (qs s))) = (Some a, h1)" "unat a = t" "heap_used U (f + 48) h1"
    using malloc_used [OF assms(2,3), of sizeof_Timer_t] assms(5,6) by (auto simp: sizeof_Timer_t_def round_up_def)
  define s1 where "s1 = set_timer t (ucStatus_update (\<lambda>_. 0)) (s\<lparr>qs := (qs s)\<lparr>kern := (kern (qs s))\<lparr>heap := h1\<rparr>\<rparr>\<rparr>)"
  have s1: "starting (kern (qs s1))" "heap_used U (f + 48) (heap (kern (qs s1)))" "xTimerQueue s1 = None" "kern (qs s1) = (kern (qs s))\<lparr>heap := h1\<rparr>"
      "queue (qs s1) = queue (qs s)" "app s1 = app s"
    using starting_heap [OF assms(1)] a(3) assms(4) by (simp_all add: s1_def set_timer_def)
  obtain s2 h Q where s2: "prvCheckForValidListAndQueue U mem s1 = Inr s2" "kern (qs s2) = (kern (qs s))\<lparr>heap := h\<rparr>" "heap_used U (f + 288) h"
      "queue (qs s2) = (queue (qs s))(q := Q)" "loaded_timer_queue [] Q" "xTimerQueue s2 = Some q" "app s2 = app s" "allocates U h1 h"
    using timer_queue_checked [OF s1(1,2) assms(3) s1(3), of q mem] s1(4-6) assms(5,7) by (auto simp: add.assoc)
  let ?t = "(set_timer t (\<lambda>T. T\<lparr>pcTimerName := nm, xTimerPeriodInTicks := period, pvTimerID := ID, pxCallbackFunction := cb\<rparr>) s2)"
  define s3 where "s3 = set_timer t (ucStatus_update (\<lambda>b. b OR tmrSTATUS_IS_AUTORELOAD)) (?t\<lparr>tlists := list_initialise_item t (tlists ?t)\<rparr>)"
  have "xTimerCreate U mem nm period True ID cb s = Inr (Some t, s3)"
    using a(1,2) s2(1) assms(8) by (simp add: xTimerCreate_def prvInitialiseNewTimer_def Let_def s3_def flip: s1_def)
  moreover have "(b OR tmrSTATUS_IS_AUTORELOAD) AND tmrSTATUS_IS_AUTORELOAD = tmrSTATUS_IS_AUTORELOAD" for b by (auto simp: bit_eq_iff bit_simps)
  then have "autoreload t s3" by (simp add: autoreload_def s3_def set_timer_def) (simp add: tmrSTATUS_IS_AUTORELOAD_def)
  moreover have "allocates U (heap (kern (qs s))) h1" using a(1) by (auto simp: allocates_def)
  ultimately show ?thesis using s2 by (intro exI [of _ s3] exI [of _ h] exI [of _ Q]) (auto simp: s3_def set_timer_def)
qed

lemma timer_started:
  assumes "quiet (kern (qs s))" and "kinv h T (kern (qs s))" and "xTimerQueue s = Some q" and "loaded_timer_queue [] (queue (qs s) q)" and "length rest = 4"
  shows "\<exists>Q. xTimerStart rest to (Some t) 0 s = Inr (Some True, False, s\<lparr>qs := (qs s)\<lparr>queue := (queue (qs s))(q := Q)\<rparr>\<rparr>) \<and>
    loaded_timer_queue [timer_message tmrCOMMAND_START 0 t rest] Q"
proof -
  let ?m = "timer_message tmrCOMMAND_START 0 t rest"
  have ok: "queue_ok h T q 10 16 [] (qs s)" using assms(1,2,4) by (simp add: queue_ok_def qinv_def event_wait_ok_def quiet_def loaded_timer_queue_def)
  have len: "length ?m = 16" using assms(5) by (simp add: timer_message_def)
  obtain s1 where s1: "prvCopyDataToQueue q (Some ?m) queueSEND_TO_BACK (qs s) = Inr (False, s1)" "queue_ok h T q 10 16 [?m] s1" "kern s1 = kern (qs s)"
    using copy_to_ok [OF ok len, of queueSEND_TO_BACK] by (auto simp: spec_send_def)
  have "s1 = (qs s)\<lparr>queue := (queue (qs s))(q := queue s1 q)\<rparr>"
    using s1(1) queue_okD(5) [OF ok] by (auto simp: prvCopyDataToQueue_def Let_def rbind_Inr_iff set_queue_def)
  then have s1': "(qs s)\<lparr>queue := (queue (qs s))(q := queue s1 q)\<rparr> = s1" by simp
  have e: "items (TasksWaitingToReceive q) (kern s1) = []" "xTickCount (kern (qs s)) = 0" "xTaskGetSchedulerState (kern (qs s)) \<noteq> taskSCHEDULER_RUNNING"
    using assms(1) s1(3) by (simp_all add: quiet_def xTaskGetSchedulerState_def)
  have "s1\<lparr>kern := kern s1\<rparr> = s1" by simp
  then have "xQueueGenericSend to q (Some ?m) 0 queueSEND_TO_BACK (qs s) = Inr (Some True, wait_start to 0, s1)"
    using s1 e(1) queue_okD(3,4) [OF ok] by (simp add: xQueueGenericSend_def send_checks_def scheduler_allows_def send_try_def wake_waiting_def)
  then have "xTimerStart rest to (Some t) 0 s = Inr (Some True, False, s\<lparr>qs := s1\<rparr>)"
    using assms(3) e(2,3) by (simp add: xTimerStart_def xTimerGenericCommand_def Let_def tmrCOMMAND_START_def tmrFIRST_FROM_ISR_COMMAND_def xTaskGetTickCount_def)
  then show ?thesis using s1(2) by (intro exI [of _ "queue s1 q"]) (simp add: s1' queue_ok_def loaded_timer_queue_def)
qed

lemma quiet_idle_handle: "quiet k \<Longrightarrow> quiet (k\<lparr>xIdleTaskHandle := t\<rparr>)"
  by (simp add: quiet_def)

lemma scheduler_started:
  assumes "starting (kern (qs s))" and "heap_used U 4472 (heap (kern (qs s)))" and "heap1_fits U" and "reachable U (T, kern (qs s))"
    and "pxCurrentTCB (kern (qs s)) = Some c" and "uxPriority (tcb (kern (qs s)) c) = 4" and "c = heap1_base U + 4096" and "xTimerQueue s = Some q"
  shows "\<exists>k T'. vTaskStartScheduler U mem s = Inr (s\<lparr>qs := (qs s)\<lparr>kern := k\<rparr>, xTimerTaskHandle := Some (heap1_base U + 5640)\<rparr>) \<and> reachable U (T', k) \<and>
    event_wait_ok k \<and> heap_used U 5728 (heap k) \<and> pxCurrentTCB k = Some c \<and> tcb k c = tcb (kern (qs s)) c \<and> xSchedulerRunning k \<and> uxSchedulerSuspended k = 0"
proof -
  let ?k = "kern (qs s)" and ?I = "heap1_base U + 4832" and ?T = "heap1_base U + 5640"
  have r: "round_up 360 = 360" "round_up 720 = 720" by (simp_all add: round_up_def)
  obtain k1 where 1: "xTaskCreate U ''IDLE'' 90 0 ?k = Inr (Some ?I, k1)" "starting k1" "heap_used U 4920 (heap k1)" "pxCurrentTCB k1 = Some c" "tcb k1 c = tcb ?k c"
    using task_created [OF assms(1-3), of 90 0 4832 ?I "''IDLE''"] assms(5-7) by (auto simp: r configMAX_PRIORITIES_def current_after_def)
  let ?k1 = "k1\<lparr>xIdleTaskHandle := Some ?I\<rparr>"
  have s1: "starting ?k1" "heap_used U 4920 (heap ?k1)" using 1(2,3,4) by (simp_all add: starting_def quiet_idle_handle)
  obtain k2 where 2: "xTaskCreate U ''Tmr Svc'' 180 2 ?k1 = Inr (Some ?T, k2)" "starting k2" "heap_used U 5728 (heap k2)" "pxCurrentTCB k2 = Some c" "tcb k2 c = tcb ?k c"
    using task_created [OF s1 assms(3), of 180 2 5640 ?T "''Tmr Svc''"] 1(4,5) assms(6,7) by (auto simp: r configMAX_PRIORITIES_def current_after_def)
  have q: "quiet k2" using 2(2) by (simp add: starting_def)
  have "reachable U (set_option (Some ?I) \<union> T, ?k1)" using reachable.later [OF reachable.later [OF assms(4) kernel_step.create [OF 1(1)]] kernel_step.idle_handle] .
  from reachable.later [OF reachable.later [OF this kernel_step.create [OF 2(1)]] kernel_step.start] q
  have "\<exists>T'. reachable U (T', start_scheduler k2)" by (auto simp: quiet_def)
  moreover have "vTaskStartScheduler U mem s = Inr (s\<lparr>qs := (qs s)\<lparr>kern := start_scheduler k2\<rparr>, xTimerTaskHandle := Some ?T\<rparr>)"
    using 1(1) 2(1) assms(8)
    by (simp add: vTaskStartScheduler_def xTimerCreateTimerTask_def prvCheckForValidListAndQueue_def configMINIMAL_STACK_SIZE_def tskIDLE_PRIORITY_def
      configTIMER_TASK_STACK_DEPTH_def configTIMER_TASK_PRIORITY_def c_assert_def Let_def)
  moreover have "event_wait_ok (start_scheduler k2)" using q by (simp add: event_wait_ok_def quiet_def start_scheduler_def)
  ultimately show ?thesis using q 2 by (auto simp: start_scheduler_def quiet_def)
qed

definition timer_ready :: "u32 \<Rightarrow> timer_id \<Rightarrow> machine \<Rightarrow> bool" where
  "timer_ready cb t s \<longleftrightarrow> xTimerPeriodInTicks (timer s t) = 10000 \<and> pxCallbackFunction (timer s t) = cb \<and> autoreload t s"

lemma timer_up:
  assumes "starting (kern (qs s))" and "heap_used U 4184 (heap (kern (qs s)))" and "reachable U (T, kern (qs s))" and "xTimerQueue s = None"
    and "heap1_fits U" and "length rest = 4"
  shows "\<exists>s3 s5 h3 Q t q. t = heap1_base U + 4184 \<and> q = heap1_base U + 4232 \<and> xTimerCreate U mem ''Timer'' (pdMS_TO_TICKS 10000) True 0 cb s = Inr (Some t, s3) \<and>
    xTimerStart rest to (Some t) 0 (s3\<lparr>app := (app s3)\<lparr>xTimers := Some t\<rparr>\<rparr>) = Inr (Some True, False, s5) \<and>
    kern (qs s5) = (kern (qs s))\<lparr>heap := h3\<rparr> \<and> starting (kern (qs s5)) \<and> heap_used U 4472 (heap (kern (qs s5))) \<and> reachable U (T, kern (qs s5)) \<and>
    queue (qs s5) = (queue (qs s))(q := Q) \<and> loaded_timer_queue [timer_message tmrCOMMAND_START 0 t rest] Q \<and>
    xTimerQueue s5 = Some q \<and> app s5 = (app s)\<lparr>xTimers := Some t\<rparr> \<and> timer_ready cb t s5"
proof -
  let ?t = "heap1_base U + 4184" and ?q = "heap1_base U + 4232" and ?k = "kern (qs s)"
  obtain s3 h3 Q3 h where 3: "xTimerCreate U mem ''Timer'' (pdMS_TO_TICKS 10000) True 0 cb s = Inr (Some ?t, s3)" "kern (qs s3) = ?k\<lparr>heap := h3\<rparr>" "heap_used U 4472 h3"
      "queue (qs s3) = (queue (qs s))(?q := Q3)" "loaded_timer_queue [] Q3" "xTimerQueue s3 = Some ?q" "app s3 = app s"
      "xTimerPeriodInTicks (timer s3 ?t) = 10000" "pxCallbackFunction (timer s3 ?t) = cb" "autoreload ?t s3" "allocates U (heap ?k) h" "allocates U h h3"
    using timer_created [OF assms(1,2,5,4), of ?t ?q "pdMS_TO_TICKS 10000" mem "''Timer''" 0 cb] by (auto simp: pdMS_TO_TICKS_def)
  define s4 where "s4 = s3\<lparr>app := (app s3)\<lparr>xTimers := Some ?t\<rparr>\<rparr>"
  have k4: "kern (qs s4) = ?k\<lparr>heap := h3\<rparr>" by (simp add: s4_def 3(2))
  have R: "reachable U (T, kern (qs s4))" using reachable_alloc [OF reachable_alloc [OF assms(3) 3(11)], of h3] 3(12) by (simp add: k4)
  have q4: "starting (kern (qs s4))" "quiet (kern (qs s4))" using starting_heap [OF assms(1)] by (simp_all add: k4 starting_def)
  have i4: "kinv (heap (kern (qs s4))) T (kern (qs s4))" using reachable_inv [OF R assms(5)] by (simp add: machine_inv_def)
  have e4: "xTimerQueue s4 = Some ?q" "loaded_timer_queue [] (queue (qs s4) ?q)" using 3(4,5,6) by (simp_all add: s4_def)
  obtain Q where 4: "xTimerStart rest to (Some ?t) 0 s4 = Inr (Some True, False, s4\<lparr>qs := (qs s4)\<lparr>queue := (queue (qs s4))(?q := Q)\<rparr>\<rparr>)"
      "loaded_timer_queue [timer_message tmrCOMMAND_START 0 ?t rest] Q"
    using timer_started [OF q4(2) i4 e4 assms(6), of to ?t] by blast
  define s5 where "s5 = s4\<lparr>qs := (qs s4)\<lparr>queue := (queue (qs s4))(?q := Q)\<rparr>\<rparr>"
  have "kern (qs s5) = ?k\<lparr>heap := h3\<rparr>" "queue (qs s5) = (queue (qs s))(?q := Q)" "xTimerQueue s5 = Some ?q" "app s5 = (app s)\<lparr>xTimers := Some ?t\<rparr>" "timer_ready cb ?t s5"
    using 3(2,4,6-10) by (simp_all add: s5_def s4_def timer_ready_def autoreload_def)
  then show ?thesis using 3(1,3) 4 q4(1) R unfolding s5_def [symmetric] k4
    by (intro exI [of _ s3] exI [of _ s5] exI [of _ h3] exI [of _ Q] exI [of _ ?t] exI [of _ ?q]) (simp flip: s4_def)
qed

text \<open>The run of \<^verbatim>\<open>main\<close> and the objects it leaves.\<close>

lemma main_runs:
  assumes "heap1_fits ucHeap" and "length rest = 4" and "kern (qs s0) = kernel_boot" and "uart (app s0) = []" and "xTimerQueue s0 = None"
  shows "\<exists>s T Qs Q B t q. B = heap1_base ucHeap \<and> t = B + 4184 \<and> q = B + 4232 \<and> main ucHeap mem to rest cb s0 = Inr s \<and> reachable ucHeap (T, kern (qs s)) \<and>
    queue (qs s) = Qs(q := Q) \<and> xTimerQueue s = Some q \<and> loaded_timer_queue [timer_message tmrCOMMAND_START 0 t rest] Q \<and> timer_ready cb t s \<and>
    uart (app s) = [] \<and> xMutex (app s) = Some B \<and> xSemaphore (app s) = Some (B + 80) \<and> ySemaphore (app s) = Some (B + 160) \<and> zSemaphore (app s) = Some (B + 240) \<and> xTimers (app s) = Some t \<and>
    is_mutex (Qs B) \<and> xMutexHolder (Qs B) = None \<and> uxMessagesWaiting (Qs B) = 1 \<and>
    (\<forall>(q, n)\<in>{(B + 80, 1), (B + 160, 0), (B + 240, 0)}. \<not> is_mutex (Qs q) \<and> uxMessagesWaiting (Qs q) = n \<and> uxLength (Qs q) = 1 \<and> uxItemSize (Qs q) = 0) \<and>
    event_wait_ok (kern (qs s)) \<and> heap_used ucHeap 5728 (heap (kern (qs s))) \<and> pxCurrentTCB (kern (qs s)) = Some (B + 4096) \<and>
    uxPriority (tcb (kern (qs s)) (B + 4096)) = 4 \<and> pcTaskName (tcb (kern (qs s)) (B + 4096)) = ''StartupC'' \<and>
    xSchedulerRunning (kern (qs s)) \<and> uxSchedulerSuspended (kern (qs s)) = 0"
proof -
  let ?B = "heap1_base ucHeap" and ?t = "heap1_base ucHeap + 4184" and ?q = "heap1_base ucHeap + 4232"
  obtain s1 h1 where 1: "create_semaphores ucHeap mem to s0 = Inr s1" "kern (qs s1) = kernel_boot\<lparr>heap := h1\<rparr>" "heap_used ucHeap 320 h1"
      "app s1 = (app s0)\<lparr>xMutex := Some ?B, xSemaphore := Some (?B + 80), ySemaphore := Some (?B + 160), zSemaphore := Some (?B + 240)\<rparr>" "s1 = s0\<lparr>qs := qs s1, app := app s1\<rparr>"
    and M: "is_mutex (queue (qs s1) ?B)" "xMutexHolder (queue (qs s1) ?B) = None" "uxMessagesWaiting (queue (qs s1) ?B) = 1"
    and S: "\<forall>(q, n)\<in>{(?B + 80, 1), (?B + 160, 0), (?B + 240, 0)}. \<not> is_mutex (queue (qs s1) q) \<and> uxMessagesWaiting (queue (qs s1) q) = n \<and>
      uxLength (queue (qs s1) q) = 1 \<and> uxItemSize (queue (qs s1) q) = 0"
    using semaphores_created [OF assms(3,1), of mem to] by (elim exE conjE) blast
  have tq: "xTimerQueue s1 = None" using assms(5) 1(5) by (metis timers.select_convs(6) timers.surjective timers.update_convs(1,9))
  obtain k T where 2: "create_tasks ucHeap to s1 = Inr (s1\<lparr>qs := (qs s1)\<lparr>kern := k\<rparr>\<rparr>)" "starting k" "heap_used ucHeap 4184 (heap k)" "reachable ucHeap (T, k)"
      "pxCurrentTCB k = Some (?B + 4096)" "uxPriority (tcb k (?B + 4096)) = 4" "pcTaskName (tcb k (?B + 4096)) = ''StartupC''"
    using tasks_created [OF 1(2,3) assms(1), of to] by (elim exE conjE) blast
  define s2 where "s2 = s1\<lparr>qs := (qs s1)\<lparr>kern := k\<rparr>\<rparr>"
  have p2: "starting (kern (qs s2))" "heap_used ucHeap 4184 (heap (kern (qs s2)))" "reachable ucHeap (T, kern (qs s2))" "xTimerQueue s2 = None"
    using 2(2-4) tq by (simp_all add: s2_def)
  obtain s3 s5 h3 Q where 3: "xTimerCreate ucHeap mem ''Timer'' (pdMS_TO_TICKS 10000) True 0 cb s2 = Inr (Some ?t, s3)"
      "xTimerStart rest to (Some ?t) 0 (s3\<lparr>app := (app s3)\<lparr>xTimers := Some ?t\<rparr>\<rparr>) = Inr (Some True, False, s5)"
      "kern (qs s5) = (kern (qs s2))\<lparr>heap := h3\<rparr>" "starting (kern (qs s5))" "heap_used ucHeap 4472 (heap (kern (qs s5)))" "reachable ucHeap (T, kern (qs s5))"
      "queue (qs s5) = (queue (qs s2))(?q := Q)" "loaded_timer_queue [timer_message tmrCOMMAND_START 0 ?t rest] Q"
      "xTimerQueue s5 = Some ?q" "app s5 = (app s2)\<lparr>xTimers := Some ?t\<rparr>" "timer_ready cb ?t s5"
    using timer_up [OF p2 assms(1,2), of mem cb to] by (elim exE conjE) blast
  have p5: "pxCurrentTCB (kern (qs s5)) = Some (?B + 4096)" "uxPriority (tcb (kern (qs s5)) (?B + 4096)) = 4" "pcTaskName (tcb (kern (qs s5)) (?B + 4096)) = ''StartupC''"
    using 2(5-7) by (simp_all add: 3(3) s2_def)
  obtain k6 T' where 6: "vTaskStartScheduler ucHeap mem s5 = Inr (s5\<lparr>qs := (qs s5)\<lparr>kern := k6\<rparr>, xTimerTaskHandle := Some (?B + 5640)\<rparr>)" "reachable ucHeap (T', k6)"
      "event_wait_ok k6" "heap_used ucHeap 5728 (heap k6)" "pxCurrentTCB k6 = Some (?B + 4096)" "tcb k6 (?B + 4096) = tcb (kern (qs s5)) (?B + 4096)" "xSchedulerRunning k6" "uxSchedulerSuspended k6 = 0"
    using scheduler_started [OF 3(4,5) assms(1) 3(6) p5(1,2) refl 3(9), of mem] by blast
  define s6 where "s6 = s5\<lparr>qs := (qs s5)\<lparr>kern := k6\<rparr>, xTimerTaskHandle := Some (?B + 5640)\<rparr>"
  have "main ucHeap mem to rest cb s0 = Inr s6" using 1(1) 2(1) 3(1,2) 6(1) by (simp add: main_def flip: s2_def s6_def)
  moreover have "queue (qs s6) = (queue (qs s1))(?q := Q)" "kern (qs s6) = k6" "app s6 = (app s1)\<lparr>xTimers := Some ?t\<rparr>" "xTimerQueue s6 = Some ?q" "timer_ready cb ?t s6"
    using 3(7,9,10,11) by (simp_all add: s6_def s2_def timer_ready_def autoreload_def)
  ultimately show ?thesis using 1(4) M S 3(8) 6(2-8) p5(2,3) assms(4) by (intro exI [of _ s6] exI [of _ T'] exI [of _ "queue (qs s1)"] exI [of _ Q]) simp
qed

text \<open>
  C4. \<^verbatim>\<open>main\<close> brings the system up: whatever the memory of the heap holds and wherever the linker puts
  it, every object is created, no error text is printed, and the scheduler starts with task C, the most
  urgent, in a state that the kernel's invariant covers. The semaphores are counting semaphores with
  the counts 1, 0 and 0, the mutex is free, the timer reloads itself every ten thousand ticks, and the
  command that starts it waits in the queue of the timer task. 2456 bytes of the heap remain.
\<close>

theorem main_starts:
  assumes "heap1_fits ucHeap" and "length rest = 4"
  shows "\<exists>s h T. main ucHeap mem to rest cb (machine_boot Qs Ts) = Inr s \<and> reachable ucHeap (T, kern (qs s)) \<and> h = heap (kern (qs s)) \<and>
    xSchedulerRunning (kern (qs s)) \<and> uart (app s) = [] \<and> xPortGetFreeHeapSize h = 2456 \<and>
    (\<exists>c. pxCurrentTCB (kern (qs s)) = Some c \<and> pcTaskName (tcb (kern (qs s)) c) = ''StartupC'' \<and> uxPriority (tcb (kern (qs s)) c) = 4) \<and>
    (\<exists>x. xSemaphore (app s) = Some x \<and> semaphore_ok h T x 1 (qs s) \<and> uxMessagesWaiting (queue (qs s) x) = 1) \<and>
    (\<exists>y. ySemaphore (app s) = Some y \<and> semaphore_ok h T y 1 (qs s) \<and> uxMessagesWaiting (queue (qs s) y) = 0) \<and>
    (\<exists>z. zSemaphore (app s) = Some z \<and> semaphore_ok h T z 1 (qs s) \<and> uxMessagesWaiting (queue (qs s) z) = 0) \<and>
    (\<exists>m. xMutex (app s) = Some m \<and> is_mutex (queue (qs s) m) \<and> xMutexHolder (queue (qs s) m) = None \<and> uxMessagesWaiting (queue (qs s) m) = 1) \<and>
    (\<exists>t q. xTimers (app s) = Some t \<and> xTimerPeriodInTicks (timer s t) = 10000 \<and> pxCallbackFunction (timer s t) = cb \<and> autoreload t s \<and>
      xTimerQueue s = Some q \<and> queue_ok h T q 10 16 [timer_message tmrCOMMAND_START 0 t rest] (qs s))"
proof -
  have 0: "kern (qs (machine_boot Qs Ts)) = kernel_boot" "uart (app (machine_boot Qs Ts)) = []" "xTimerQueue (machine_boot Qs Ts) = None"
    by (simp_all add: machine_boot_def)
  let ?B = "heap1_base ucHeap"
  obtain s T Qs' Q where R: "main ucHeap mem to rest cb (machine_boot Qs Ts) = Inr s" "reachable ucHeap (T, kern (qs s))"
    and Q: "queue (qs s) = Qs'(?B + 4232 := Q)" "xTimerQueue s = Some (?B + 4232)" "loaded_timer_queue [timer_message tmrCOMMAND_START 0 (?B + 4184) rest] Q" "timer_ready cb (?B + 4184) s"
    and A: "uart (app s) = []" "xMutex (app s) = Some ?B" "xSemaphore (app s) = Some (?B + 80)" "ySemaphore (app s) = Some (?B + 160)" "zSemaphore (app s) = Some (?B + 240)"
      "xTimers (app s) = Some (?B + 4184)"
    and M: "is_mutex (Qs' ?B)" "xMutexHolder (Qs' ?B) = None" "uxMessagesWaiting (Qs' ?B) = 1"
    and S: "\<forall>(q, n)\<in>{(?B + 80, 1), (?B + 160, 0), (?B + 240, 0)}. \<not> is_mutex (Qs' q) \<and> uxMessagesWaiting (Qs' q) = n \<and> uxLength (Qs' q) = 1 \<and> uxItemSize (Qs' q) = 0"
    and K: "event_wait_ok (kern (qs s))" "heap_used ucHeap 5728 (heap (kern (qs s)))" "pxCurrentTCB (kern (qs s)) = Some (?B + 4096)" "uxPriority (tcb (kern (qs s)) (?B + 4096)) = 4"
      "pcTaskName (tcb (kern (qs s)) (?B + 4096)) = ''StartupC''" "xSchedulerRunning (kern (qs s))" "uxSchedulerSuspended (kern (qs s)) = 0"
    using main_runs [OF assms 0, of mem to cb] by (elim exE conjE) blast
  let ?h = "heap (kern (qs s))"
  have i: "qinv ?h T (qs s)" using reachable_inv [OF R(2) assms(1)] K(1) by (simp add: machine_inv_def qinv_def)
  have sem: "semaphore_ok ?h T x 1 (qs s) \<and> uxMessagesWaiting (queue (qs s) x) = n" if "(x, n) \<in> {(?B + 80, 1), (?B + 160, 0), (?B + 240, 0)}" for x n
    using that S i K(7) by (auto simp: semaphore_ok_def Q(1))
  have "xNextFreeByte ?h = 5728" using K(2) by (intro word_unat_eq_iff [THEN iffD2]) (simp add: heap_used_def)
  then have "xPortGetFreeHeapSize ?h = 2456" by (simp add: xPortGetFreeHeapSize_def reg_simps)
  moreover have "queue_ok ?h T (?B + 4232) 10 16 [timer_message tmrCOMMAND_START 0 (?B + 4184) rest] (qs s)"
    using i Q(1,3) by (simp add: queue_ok_def loaded_timer_queue_def)
  moreover have "is_mutex (queue (qs s) ?B) \<and> xMutexHolder (queue (qs s) ?B) = None \<and> uxMessagesWaiting (queue (qs s) ?B) = 1" using M by (simp add: Q(1))
  moreover note sem [of "?B + 80" 1] sem [of "?B + 160" 0] sem [of "?B + 240" 0]
  ultimately show ?thesis using R Q(2) Q(4) A K(3-6) unfolding timer_ready_def by (intro exI [of _ s] exI [of _ ?h] exI [of _ T]) simp
qed

theorem main_starts_witness:
  "\<exists>s. main 0x20400000 (\<lambda>_. 0) \<lparr>xOverflowCount = 0, xTimeOnEntering = 0\<rparr> [0, 0, 0, 0] 0x401234
      (machine_boot (\<lambda>_. example_queue 0 0) (\<lambda>_. timer example_timers 0)) = Inr s \<and> xSchedulerRunning (kern (qs s))"
proof -
  have f: "heap1_fits 0x20400000" "length [0, 0, 0, 0 :: u8] = 4" by (simp_all add: heap1_fits_def)
  show ?thesis using main_starts [OF f, of "\<lambda>_. 0" "\<lparr>xOverflowCount = 0, xTimeOnEntering = 0\<rparr>" "0x401234" "\<lambda>_. example_queue 0 0" "\<lambda>_. timer example_timers 0"] by (elim exE conjE) blast
qed

end
