(* ===== verification/Motor_Demo_Mutex.thy ===== *)
theory Motor_Demo_Mutex
  imports Motor_Demo FreeRTOS_Mutex_Correct
begin

text \<open>
  The mutex of the demo: what the model of the tasks takes for a lock, free or held by one task, is a
  mutex of the kernel, whichever task is running when and however often priorities are lent.
\<close>

section \<open>The lock\<close>





section \<open>The kernel's mutex\<close>




text \<open>
  The states in which the demo uses its mutex: the running task is ready, ready tasks wait for nothing,
  no task waits to give the mutex, and a task holds as many mutexes as the holder of this one says.
\<close>

definition calm :: "qid \<Rightarrow> kernel \<Rightarrow> bool" where
  "calm m k \<longleftrightarrow> uxSchedulerSuspended k = 0 \<and> (\<exists>c. pxCurrentTCB k = Some c \<and> container (StateItem c) k = Some (ReadyTasks (uxPriority (tcb k c)))) \<and>
     (\<forall>t p. container (StateItem t) k = Some (ReadyTasks p) \<longrightarrow> container (EventItem t) k = None) \<and>
     (\<forall>t. container (EventItem t) k \<noteq> Some (TasksWaitingToSend m))"


lemma calm_updates [simp]: "calm m (k\<lparr>xPendSV := b\<rparr>) = calm m k" "calm m (portYIELD_WITHIN_API k) = calm m k"
  by (simp_all add: calm_def portYIELD_WITHIN_API_def)










end
