(* ===== verification/Spec2Isabelle.thy ===== *)
theory Spec2Isabelle
  imports Lpspi_Ip_Board FreeRTOS_Mutex_Correct Motor_Demo_Correct Motor_Demo_Kernel Motor_Demo_Mutex
begin

text \<open>
  This development models and verifies the repository's two halves: the emulated NXP S32K358 board
  that the repository adds to QEMU (under \<^verbatim>\<open>src/qemu\<close>) and the FreeRTOS firmware that runs on it
  (under \<^verbatim>\<open>src/Demo_FreeRTOS\<close>).

  \<^bold>\<open>The program.\<close> The firmware's tasks are scheduled by FreeRTOS, talk to each other through
  semaphores, and read a motor speed sensor over SPI. On the emulated board a store to an SPI
  controller's transmit register is found through the address map, moves a frame through two byte
  queues and over the SSI bus to the sensor, and leaves the answer in the receive queue; a UART
  carries the console, fed by QEMU's character multiplexer.

  \<^bold>\<open>Conventions.\<close> Registers and tick counts are words of their C width and wrap; counters that
  cannot wrap on reachable states are natural numbers, with the wrap-around written out where the
  code relies on it. Code that can stop (a failed assertion, a division by zero, an access out of
  bounds, a null pointer, an error object, a loop that does not end) returns a value of the sum type
  \<^verbatim>\<open>res\<close> of \<^verbatim>\<open>Prelude\<close>; every such branch of the source is a branch of the model. State is
  passed explicitly, one record per C structure, with the C field names.

  \<^bold>\<open>The board.\<close>
  \<^item> \<^verbatim>\<open>Fifo8\<close>: \<^verbatim>\<open>util/fifo8.c\<close>, the ring buffer of bytes, shown to be a bounded queue; the
    locale \<^verbatim>\<open>byte_queue\<close> is the contract the SPI controller relies on.
  \<^item> \<^verbatim>\<open>Ssi_Bus\<close>: \<^verbatim>\<open>hw/ssi/ssi.c\<close> and the sensor \<^verbatim>\<open>hw/ssi/motor_speed.c\<close>. The C library's
    random generator is a parameter.
  \<^item> \<^verbatim>\<open>Lpspi\<close>, \<^verbatim>\<open>Lpspi_Correct\<close>, \<^verbatim>\<open>Lpspi_Properties\<close>: \<^verbatim>\<open>hw/ssi/nxps32k358_lpspi.c\<close>, all
    register handlers and the transfer engine; the device invariant, safety of every sequence of
    register accesses, the exchange of frames, and the code's traps.
  \<^item> \<^verbatim>\<open>Mmio\<close>: the interface of a memory-mapped device (a locale), interpreted on the three
    devices.
  \<^item> \<^verbatim>\<open>Lpuart\<close>, \<^verbatim>\<open>Lpuart_Correct\<close>: \<^verbatim>\<open>hw/char/nxps32k358_lpuart.c\<close> on the input side of
    \<^verbatim>\<open>chardev/char-mux.c\<close>.
  \<^item> \<^verbatim>\<open>Syscfg\<close>: \<^verbatim>\<open>hw/misc/nxps32k358_syscfg.c\<close>.
  \<^item> \<^verbatim>\<open>Soc\<close>, \<^verbatim>\<open>Soc_Correct\<close>: \<^verbatim>\<open>hw/arm/nxps32k358_soc.c\<close> and \<^verbatim>\<open>nxps32k358discovery.c\<close> with the
    parts of \<^verbatim>\<open>hw/core/clock.c\<close> and \<^verbatim>\<open>system/memory.c\<close> they use: clocks, memories, the address
    map with its overlapping placeholders, interrupt wiring, reset, and loads and stores of the
    processor. Whether the processor core comes up is a parameter.

  \<^bold>\<open>The firmware.\<close>
  \<^item> \<^verbatim>\<open>FreeRTOS_List\<close>, \<^verbatim>\<open>FreeRTOS_List_Correct\<close>: \<^verbatim>\<open>list.c\<close> and \<^verbatim>\<open>list.h\<close> as a heap of
    doubly linked nodes, proved to implement a store of sequences; the scheduler works on that store.
  \<^item> \<^verbatim>\<open>Heap_1\<close>: \<^verbatim>\<open>portable/MemMang/heap_1.c\<close>.
  \<^item> \<^verbatim>\<open>FreeRTOS_Tasks\<close>, \<^verbatim>\<open>FreeRTOS_Tasks_Correct\<close>: \<^verbatim>\<open>tasks.c\<close> and the tick and PendSV
    handlers of the Cortex-M7 port, in the configuration of \<^verbatim>\<open>FreeRTOSConfig.h\<close>; the scheduler's
    invariant, the tick, and the choice of the next task.
  \<^item> \<^verbatim>\<open>FreeRTOS_Tasks_Properties\<close>: what holds under any sequence of ticks and context switches
    (the datatype \<^verbatim>\<open>interrupt\<close>): exact delays and time-outs, and that no time is lost while the
    scheduler is suspended.
  \<^item> \<^verbatim>\<open>FreeRTOS_Tasks_Invariant\<close>: the invariant \<^verbatim>\<open>kinv\<close> over every call of \<^verbatim>\<open>tasks.c\<close>, from
    power-on, with the heap; and a call that does not do what it says.
  \<^item> \<^verbatim>\<open>FreeRTOS_Queue\<close>, \<^verbatim>\<open>FreeRTOS_Queue_Correct\<close>: \<^verbatim>\<open>queue.c\<close>. A call that may wait is split where the
    code lets other tasks run: its first pass (\<^verbatim>\<open>send_try\<close>, \<^verbatim>\<open>receive_try\<close>, \<^verbatim>\<open>take_try\<close>) returns a
    result or \<^verbatim>\<open>None\<close>, and one pass of the blocking part (\<^verbatim>\<open>send_block\<close> and so on) follows. A queue is
    proved to be a bounded double-ended queue, and no wake-up is lost.
  \<^item> \<^verbatim>\<open>FreeRTOS_Mutex_Correct\<close>: priority inheritance and handing over a mutex.
  \<^item> \<^verbatim>\<open>FreeRTOS_Timers\<close>, \<^verbatim>\<open>FreeRTOS_Timers_Correct\<close>: \<^verbatim>\<open>timers.c\<close>: commands through the queue of the
    timer task, and expiry times. Callbacks are a parameter that may change the whole state.
  \<^item> \<^verbatim>\<open>Lpspi_Ip\<close>, \<^verbatim>\<open>Lpspi_Ip_Correct\<close>: the SPI driver \<^verbatim>\<open>Lpspi_Ip.c\<close> over an abstract
    register port, with the constants of the vendor's device header, which is not part of the
    repository, as a parameter; \<^verbatim>\<open>Lpspi_Ip_Port\<close> states the contract of the port as the locale
    \<^verbatim>\<open>spi_port\<close> and proves the exchange of bytes from it, and \<^verbatim>\<open>Lpspi_Ip_Board\<close> interprets it on the
    emulated board.
  \<^item> \<^verbatim>\<open>Motor_Demo\<close>: \<^verbatim>\<open>src/main.c\<close>: \<^verbatim>\<open>main\<close> on the model of the kernel, and the three tasks as a
    transition system in which every statement is a step. \<^verbatim>\<open>Motor_Demo_Correct\<close> proves what they print and
    that they do not deadlock, over all interleavings; \<^verbatim>\<open>Motor_Demo_Kernel\<close> connects the application to the
    kernel: its semaphores are the kernel's, its timer keeps its period, and \<^verbatim>\<open>main\<close> starts the system
    within the heap; and \<^verbatim>\<open>Motor_Demo_Mutex\<close> that its mutex is the kernel's.

  \<^bold>\<open>This theory\<close> holds the properties that span components: the emulated board measures a speed, from
  power-on through every layer; and the firmware's driver, running on that board, reads the speeds
  the sensor produces.

  \<^bold>\<open>Bounds.\<close> Loops of the kernel that walk a list while items are removed from it take a bound on
  their iterations, one more than the length of the list; the proofs show that it is never exhausted
  on states that satisfy the invariant. The loop that reloads a late timer takes a bound above the
  number of periods that are over. The search loop of \<^verbatim>\<open>vListInsert\<close> is a partial function
  whose value \<^verbatim>\<open>None\<close> means that it does not return. The polling loops of the SPI driver take a number of
  passes: for \<^verbatim>\<open>Lpspi_Ip_SyncTransmit\<close> the number \<^verbatim>\<open>sync_passes\<close> computed from the request is proved
  to be enough whatever the registers return; for the half-duplex call no number is, which is a theorem.

  \<^bold>\<open>Not modelled.\<close> The rest of QEMU (the processor emulation, the device framework, other machines
  and devices) is not specific to this repository; what the board uses of it is a parameter or
  modelled above. Of the firmware: start-up code, the clock, pin and interrupt controller drivers (they only
  write registers of devices the board leaves unimplemented), the UART driver (the model of the tasks
  records the bytes handed to it), vendor drivers the demo does not call, event groups and stream buffers, which nothing calls, task
  stacks and the assembly of the context switch, run-time statistics and text reports, the test
  function for the memory protection unit, which is never called, and the parts of FreeRTOS that
  the configuration switches off (queue sets, co-routines, static allocation, tickless idle).
\<close>

section \<open>Reading the motor speed over SPI\<close>

lemma motor_speed_spi:
  assumes "lpspi_ready s" and "rx_bytes s = []" and "frame_len s = 1" and "\<not> loopback s"
    and "lpspi_ssi s = motor_bus rand srand_time m g"
  shows "\<exists>s1 s2 v m'. nxps32k358_lpspi_write s 0x64 0xAA = Inr s1 \<and>
    nxps32k358_lpspi_read s1 0x74 = Inr (v, s2) \<and> unat v = fst (rand g) mod 255 \<and>
    lpspi_ssi s2 = motor_bus rand srand_time m' (snd (rand g)) \<and> unat (last_speed m') = unat v"
proof -
  obtain r m' g' where t: "motor_speed_sensor_transfer rand m CMD_GET_SPEED g = (r, m', g')"
    by (cases "motor_speed_sensor_transfer rand m CMD_GET_SPEED g") auto
  have r: "unat r = fst (rand g) mod 255" "g' = snd (rand g)"
    using motor_transfer_get_speed [OF t] by simp_all
  have m': "unat (last_speed m') = unat r"
    using t by (auto simp: motor_speed_sensor_transfer_def Let_def unat_ucast_up split: prod.splits)
  have "unat r < 2 ^ 8"
    using r(1) mod_less_divisor [of 255 "fst (rand g)"] by simp
  then have tb: "take_bit 8 r = r"
    by (metis take_bit_nat_eq_self unsigned_take_bit_eq word_unat_eq_iff)
  have "lpspi_reply s 0xAA = (r, motor_bus rand srand_time m' g')"
    using assms(3-5) t by (simp add: lpspi_reply_def exchange_def motor_bus_transfer CMD_GET_SPEED_def)
  then show ?thesis
    using lpspi_write_read [OF assms(1,2), of "0xAA"] assms(3) tb r m' by (auto simp: CMD_GET_SPEED_def)
qed

section \<open>The whole board\<close>

lemma motor_bus_host: "lpspi_ssi (with_host g (board_lpspi blocks rand srand_time g0 k)) = motor_bus rand srand_time motor_new g"
  by (simp add: with_host_def board_lpspi_def motor_bus_def)

text \<open>
  C8. From power-on to a measured speed, through every layer of the emulated board: once the
  board has come up and has been reset, the processor can program any of the six SPI controllers
  at its address (byte frames in TCR, enable in CR), store the command 0xAA in its transmit
  register and load from its receive register the speed the sensor drew, the host generator's
  value modulo 255. No step of the run stops the emulator or misses a device.
\<close>

theorem board_reads_speed:
  assumes "armv7m_realize cpu_up = Inr ()" and "k < 6"
    and "\<forall>i<6. length (fst (blocks i)) = 16 \<and> length (snd (blocks i)) = 16"
  shows "\<exists>s0 s1 s2 s3 s4 s5 v.
    nxp_s32k358discovery_init armv7m_realize ser blocks rand srand_time g = Inr s0 \<and> soc_reset s0 = Inr s1 \<and>
    soc_store (lpspi_addr ! k + 0x60) 7 s1 = Inr (Some s2) \<and> soc_store (lpspi_addr ! k + 0x10) 1 s2 = Inr (Some s3) \<and>
    soc_store (lpspi_addr ! k + 0x64) 0xAA s3 = Inr (Some s4) \<and> soc_load (lpspi_addr ! k + 0x74) s4 = Inr (Some (v, s5)) \<and>
    unat v = fst (rand ((srand_time ^^ 6) g)) mod 255"
proof -
  obtain s1 where s1: "soc_reset (board ser blocks rand srand_time g) = Inr s1" "on_board s1"
      "host s1 = (srand_time ^^ 6) g" "\<forall>i<6. lpspis s1 ! i = reset_of (board_lpspi blocks rand srand_time g i)"
    using board_reset [OF assms(3), of ser rand srand_time g] by (elim exE conjE)
  let ?d = "with_host (host s1) (board_lpspi blocks rand srand_time g k)"
  have d1: "with_host (host s1) (lpspis s1 ! k) = reset_of ?d" using s1(4) assms(2) by (simp add: with_host_reset)
  have base: "lpspi_base ?d" using board_lpspi_base [of blocks k] assms(2,3) by simp
  obtain d2 d3 where d: "nxps32k358_lpspi_write (reset_of ?d) 0x60 7 = Inr d2"
      "nxps32k358_lpspi_write d2 0x10 1 = Inr d3" "lpspi_ready d3" "rx_bytes d3 = []" "frame_len d3 = 1"
      "\<not> loopback d3" "lpspi_ssi d3 = motor_bus rand srand_time motor_new (host s1)"
    using lpspi_configure [OF base] unfolding motor_bus_host by (elim exE conjE)
  obtain d4 d5 v where v: "nxps32k358_lpspi_write d3 0x64 0xAA = Inr d4" "nxps32k358_lpspi_read d4 0x74 = Inr (v, d5)"
      "unat v = fst (rand (host s1)) mod 255"
    using motor_speed_spi [OF d(3-7)] by (elim exE conjE)
  have st2: "soc_store (lpspi_addr ! k + 0x60) 7 s1 = Inr (Some (soc_put_lpspi k d2 s1))"
    by (rule soc_store_lpspi) (use s1(2) assms(2) d(1) d1 in simp_all)
  let ?s2 = "soc_put_lpspi k d2 s1"
  have st3: "soc_store (lpspi_addr ! k + 0x10) 1 ?s2 = Inr (Some (soc_put_lpspi k d3 ?s2))"
    by (rule soc_store_lpspi) (use s1(2) assms(2) d(2) in simp_all)
  let ?s3 = "soc_put_lpspi k d3 ?s2"
  have st4: "soc_store (lpspi_addr ! k + 0x64) 0xAA ?s3 = Inr (Some (soc_put_lpspi k d4 ?s3))"
    by (rule soc_store_lpspi) (use s1(2) assms(2) v(1) in simp_all)
  let ?s4 = "soc_put_lpspi k d4 ?s3"
  have st5: "soc_load (lpspi_addr ! k + 0x74) ?s4 = Inr (Some (v, soc_put_lpspi k d5 ?s4))"
    by (rule soc_load_lpspi) (use s1(2) assms(2) v(2) in simp_all)
  have "nxp_s32k358discovery_init armv7m_realize ser blocks rand srand_time g = Inr (board ser blocks rand srand_time g)"
    using assms(1) by (rule discovery_init_eq)
  with st2 st3 st4 st5 v(3) s1(1,3) show ?thesis by (intro exI conjI) simp_all
qed

theorem board_reads_speed_witness:
  "\<exists>s0 s1 s2 s3 s4 s5 v.
    nxp_s32k358discovery_init (\<lambda>_. Inr ()) (\<lambda>_. None) (\<lambda>_. (replicate 16 0, replicate 16 0))
      (\<lambda>n. (n * 7 + 300, n + 1)) Suc 0 = Inr s0 \<and> soc_reset s0 = Inr s1 \<and>
    soc_store 0x40358060 7 s1 = Inr (Some s2) \<and> soc_store 0x40358010 1 s2 = Inr (Some s3) \<and>
    soc_store 0x40358064 0xAA s3 = Inr (Some s4) \<and> soc_load 0x40358074 s4 = Inr (Some (v, s5)) \<and> unat v = 87"
proof -
  have a: "lpspi_addr ! 0 = 0x40358000" by (simp add: lpspi_addr_def c_array_def)
  have r: "fst ((\<lambda>n. (n * 7 + 300, n + 1)) ((Suc ^^ 6) 0)) mod 255 = (87 :: nat)" by simp
  show ?thesis
    using board_reads_speed [of "\<lambda>_. Inr ()" 0 "\<lambda>_. (replicate 16 0, replicate 16 0)" "\<lambda>_. None"
        "\<lambda>n. (n * 7 + 300, n + 1)" Suc 0, unfolded a r]
    by simp
qed

section \<open>The firmware's driver on the board\<close>

text \<open>The speeds the sensor reports to successive requests: the samples of the host's generator modulo 255.\<close>

primrec speeds :: "('g \<Rightarrow> nat \<times> 'g) \<Rightarrow> nat \<Rightarrow> 'g \<Rightarrow> u8 list" where
  "speeds rand 0 g = []"
| "speeds rand (Suc n) g = of_nat (fst (rand g) mod 255) # speeds rand n (snd (rand g))"

lemma sensor_exchange:
  "\<exists>m'. bus_exchange (motor_bus rand srand_time m g) 0xAA = (of_nat (fst (rand g) mod 255), motor_bus rand srand_time m' (snd (rand g)))"
proof -
  obtain r m' g' where t: "motor_speed_sensor_transfer rand m CMD_GET_SPEED g = (r, m', g')"
    by (cases "motor_speed_sensor_transfer rand m CMD_GET_SPEED g") auto
  have r: "unat r = fst (rand g) mod 255" "g' = snd (rand g)" using motor_transfer_get_speed [OF t] by simp_all
  have "(ucast r :: u8) = of_nat (fst (rand g) mod 255)" by (simp flip: r(1))
  moreover have "ssi_transfer (motor_bus rand srand_time m g) 0xAA = (r, motor_bus rand srand_time m' g')"
    using t by (simp add: motor_bus_transfer CMD_GET_SPEED_def)
  ultimately show ?thesis using r(2) by (auto simp: bus_exchange_def)
qed

lemma sensor_exchanges: "fst (exchanges bus_exchange (motor_bus rand srand_time m g) (replicate n 0xAA)) = speeds rand n g"
proof (induction n arbitrary: m g)
  case (Suc n)
  obtain m' where "bus_exchange (motor_bus rand srand_time m g) 0xAA = (of_nat (fst (rand g) mod 255), motor_bus rand srand_time m' (snd (rand g)))"
    using sensor_exchange [of rand srand_time m g] by (elim exE)
  then show ?case using Suc.IH [of m' "snd (rand g)"] by (simp add: case_prod_beta)
qed simp

text \<open>
  C1. The firmware reads speeds through its SPI driver: from power-on and reset of the emulated
  board, \<^verbatim>\<open>Lpspi_Ip_Init\<close> succeeds on the demo's configuration, and a blocking transfer of \<open>n\<close>
  requests over the second controller succeeds and fills the receive buffer with \<open>n\<close> speeds, the
  values the host's generator draws one after the other, modulo 255. This holds for each of the
  three ways the driver can be compiled with respect to the controller's erratum.
\<close>

theorem firmware_reads_speeds:
  assumes "armv7m_realize cpu_up = Inr ()" and "\<forall>i<6. length (fst (blocks i)) = 16 \<and> length (snd (blocks i)) = 16"
    and "documented_header H" and "E = board_port H" and "0 < n" and "n < 65536" and "length buf = n" and "2 \<le> to"
  shows "\<exists>s0 s1 d0 d1 S.
    nxp_s32k358discovery_init armv7m_realize ser blocks rand srand_time g = Inr s0 \<and> soc_reset s0 = Inr s1 \<and>
    Lpspi_Ip_Init E (Some (SpiPhyUnit_0_Instance_2 E)) (driver_start s1) = Inr (LPSPI_IP_STATUS_SUCCESS, d0) \<and>
    Lpspi_Ip_SyncTransmit E (Some (SpiExternalDevice_0_Instance_2 E)) (Some (replicate n 0xAA)) (Some buf) n to d0 =
      Inr (LPSPI_IP_STATUS_SUCCESS, d1) \<and>
    state_of 2 d1 = Inr S \<and> Status S = LPSPI_IP_IDLE \<and> RxBuffer S = Some (speeds rand n ((srand_time ^^ 6) g))"
proof -
  obtain s1 where s1: "soc_reset (board ser blocks rand srand_time g) = Inr s1" "on_board s1"
      "host s1 = (srand_time ^^ 6) g" "\<forall>i<6. lpspis s1 ! i = reset_of (board_lpspi blocks rand srand_time g i)"
    using board_reset [OF assms(2), of ser rand srand_time g] by (elim exE conjE)
  let ?d = "with_host (host s1) (board_lpspi blocks rand srand_time g 2)" and ?b = "motor_bus rand srand_time motor_new (host s1)"
  have base: "lpspi_base ?d" using board_lpspi_base [of blocks 2] assms(2) by simp
  have "with_host (host s1) (lpspis s1 ! 2) = reset_of ?d" using s1(4) by (simp add: with_host_reset)
  then have port: "soc_port 2 s1 False (lpspi_tcr (reset_of ?d)) [] ?b"
    using port_reset [OF base] s1(2) unfolding motor_bus_host by (simp add: soc_port_def)
  note sp = board_is_port [OF assms(3), where 'a = 'a, folded assms(4)]
  let ?p = "\<lambda>i. if i = (0 :: nat) then device_params_0 else device_params_1"
  have cnt: "2 < LPSPI_INSTANCE_COUNT E" using assms(3,4) by (simp add: documented_header_def board_port_def)
  obtain d0 S0 where 0: "Lpspi_Ip_Init E (Some (SpiPhyUnit_0_Instance_2 E)) (driver_start s1) = Inr (LPSPI_IP_STATUS_SUCCESS, d0)"
      "linked (soc_port 2) 2 S0 ?p False UNIV [] ?b d0" "\<not> SlaveMode (PhyUnitConfig S0)" "FirstCmd S0" "Status S0 = LPSPI_IP_IDLE"
    using spi_port.init_linked [OF sp port refl cnt] by blast
  obtain d1 S1 where 1: "Lpspi_Ip_SyncTransmit E (Some (SpiExternalDevice_0_Instance_2 E)) (Some (replicate n 0xAA)) (Some buf) n to d0 =
        Inr (LPSPI_IP_STATUS_SUCCESS, d1)" "state_of 2 d1 = Inr S1" "Status S1 = LPSPI_IP_IDLE"
      "RxBuffer S1 = Some (fst (exchanges bus_exchange ?b (take n (replicate n 0xAA))) @ drop n buf)"
    using spi_port.sync_transmit_exchange [OF sp 0(2) refl _ 0(3,4), of n to "replicate n 0xAA" buf] 0(5) assms(5-8) by auto
  have "RxBuffer S1 = Some (speeds rand n ((srand_time ^^ 6) g))"
    using 1(4) sensor_exchanges [of rand srand_time motor_new "host s1" n] assms(7) s1(3) by simp
  moreover have "nxp_s32k358discovery_init armv7m_realize ser blocks rand srand_time g = Inr (board ser blocks rand srand_time g)"
    using assms(1) by (rule discovery_init_eq)
  ultimately show ?thesis using s1(1) 0(1) 1(1-3) by (intro exI conjI) assumption+
qed

definition example_port :: "nat soc spi_env" where "example_port = board_port (example_header Second_solution)"

theorem firmware_reads_speeds_witness:
  "\<exists>s0 s1 d0 d1 S.
    nxp_s32k358discovery_init (\<lambda>_. Inr ()) (\<lambda>_. None) (\<lambda>_. (replicate 16 0, replicate 16 0)) (\<lambda>n. (n * 7 + 300, n + 1)) Suc 0 = Inr s0 \<and> soc_reset s0 = Inr s1 \<and>
    Lpspi_Ip_Init example_port (Some (SpiPhyUnit_0_Instance_2 example_port)) (driver_start s1) =
      Inr (LPSPI_IP_STATUS_SUCCESS, d0) \<and>
    Lpspi_Ip_SyncTransmit example_port (Some (SpiExternalDevice_0_Instance_2 example_port))
      (Some [0xAA, 0xAA]) (Some [0, 0]) 2 1000 d0 = Inr (LPSPI_IP_STATUS_SUCCESS, d1) \<and>
    state_of 2 d1 = Inr S \<and> RxBuffer S = Some [87, 94]"
proof -
  have r: "replicate 2 (0xAA :: u8) = [0xAA, 0xAA]" "speeds (\<lambda>n. (n * 7 + 300, n + 1)) 2 ((Suc ^^ 6) 0) = [87, 94]" by (simp_all add: numeral_2_eq_2)
  show ?thesis
    using firmware_reads_speeds [OF _ _ example_documented example_port_def, where blocks = "\<lambda>_. (replicate 16 0, replicate 16 0)" and n = 2 and buf = "[0, 0]"
        and to = 1000 and armv7m_realize = "\<lambda>_. Inr ()" and ser = "\<lambda>_. None" and rand = "\<lambda>n. (n * 7 + 300, n + 1)" and srand_time = Suc and g = 0, unfolded r]
    by simp blast
qed

end
